(* ===== verification/Prelude.thy ===== *)
theory Prelude
  imports Main "HOL-Library.List_Lexorder" "HOL-Library.Product_Lexorder"
begin

text \<open>
  Shared vocabulary of the development.

  A Rust computation that can panic is a value of type \<open>'a panics\<close>: \<open>None\<close> is a panic
  (a failed \<open>assert!\<close>, an \<open>expect\<close> on nothing, an \<open>unreachable!\<close>, an out-of-range slice),
  \<open>Some x\<close> is a normal return. A Rust \<open>Result\<close> is a sum, \<open>Inl\<close> the error; a Rust
  \<open>Option\<close> is an option. Offsets and lengths (\<open>usize\<close>) are natural numbers: a source text has
  far fewer than \<open>2 ^ 63\<close> bytes, so no addition of the modelled code wraps; subtraction is
  written with the guard or the saturation of the source.

  The collections \<open>str_simps\<close>, \<open>span_simps\<close> and \<open>scan_intros\<close> gather the facts that the
  component theories pass to the simplifier and to the classical reasoner.
\<close>

named_theorems str_simps "facts about UTF-8 strings and byte offsets"
named_theorems span_simps "facts about spans"
named_theorems scan_intros "bounds of the token scanners"

type_synonym 'a panics = "'a option"

section \<open>Slices\<close>

text \<open>\<open>slice.get(index)\<close>: nothing outside the slice.\<close>

definition slice_get :: "'a list \<Rightarrow> nat \<Rightarrow> 'a option" where
  "slice_get xs i = (if i < length xs then Some (xs ! i) else None)"

text \<open>\<open>usize::checked_sub\<close>.\<close>

definition checked_sub :: "nat \<Rightarrow> nat \<Rightarrow> nat option" where
  "checked_sub a b = (if b \<le> a then Some (a - b) else None)"

text \<open>\<open>Option::is_some_and\<close> and \<open>Option::is_none_or\<close>.\<close>

definition is_some_and :: "'a option \<Rightarrow> ('a \<Rightarrow> bool) \<Rightarrow> bool" where
  "is_some_and v p = (case v of None \<Rightarrow> False | Some x \<Rightarrow> p x)"

definition is_none_or :: "'a option \<Rightarrow> ('a \<Rightarrow> bool) \<Rightarrow> bool" where
  "is_none_or v p = (case v of None \<Rightarrow> True | Some x \<Rightarrow> p x)"

lemma slice_get_Nil [simp]: "slice_get [] i = None"
  by (simp add: slice_get_def)

lemma slice_get_0 [simp]: "slice_get (x # xs) 0 = Some x"
  by (simp add: slice_get_def)

lemma slice_get_Suc [simp]: "slice_get (x # xs) (Suc i) = slice_get xs i"
  by (simp add: slice_get_def)

lemma slice_get_Some_iff: "slice_get xs i = Some x \<longleftrightarrow> i < length xs \<and> xs ! i = x"
  by (auto simp: slice_get_def)

lemma slice_get_None_iff: "slice_get xs i = None \<longleftrightarrow> length xs \<le> i"
  by (auto simp: slice_get_def)

lemma slice_get_SomeD: "slice_get xs i = Some x \<Longrightarrow> i < length xs"
  by (simp add: slice_get_Some_iff)

lemma slice_get_map: "slice_get (map f xs) i = map_option f (slice_get xs i)"
  by (simp add: slice_get_def)

lemma slice_get_in_set: "slice_get xs i = Some x \<Longrightarrow> x \<in> set xs"
  by (auto simp: slice_get_Some_iff)

lemma slice_get_append: "slice_get (xs @ ys) i =
    (if i < length xs then slice_get xs i else slice_get ys (i - length xs))"
  by (auto simp: slice_get_def nth_append)

lemma slice_get_take: "slice_get (take n xs) i = (if i < n then slice_get xs i else None)"
  by (simp add: slice_get_def)

lemma is_some_and_simps [simp]:
  "is_some_and None p = False"
  "is_some_and (Some x) p = p x"
  by (simp_all add: is_some_and_def)

lemma is_none_or_simps [simp]:
  "is_none_or None p = True"
  "is_none_or (Some x) p = p x"
  by (simp_all add: is_none_or_def)

lemma is_some_and_iff: "is_some_and v p \<longleftrightarrow> (\<exists>x. v = Some x \<and> p x)"
  by (cases v) simp_all

lemma is_none_or_iff: "is_none_or v p \<longleftrightarrow> (\<forall>x. v = Some x \<longrightarrow> p x)"
  by (cases v) simp_all

section \<open>Stable removal of adjacent duplicates\<close>

text \<open>
  \<open>Vec::dedup_by(same)\<close> keeps an element unless \<open>same(element, previous kept)\<close>; Rust passes the
  later element first.
\<close>

fun dedup_from :: "('a \<Rightarrow> 'a \<Rightarrow> bool) \<Rightarrow> 'a \<Rightarrow> 'a list \<Rightarrow> 'a list" where
  "dedup_from same x [] = [x]"
| "dedup_from same x (y # ys) =
     (if same y x then dedup_from same x ys else x # dedup_from same y ys)"

fun dedup_by :: "('a \<Rightarrow> 'a \<Rightarrow> bool) \<Rightarrow> 'a list \<Rightarrow> 'a list" where
  "dedup_by same [] = []"
| "dedup_by same (x # xs) = dedup_from same x xs"

lemma set_dedup_from: "set (dedup_from same x xs) \<subseteq> insert x (set xs)"
proof (induction xs arbitrary: x)
  case (Cons y ys)
  from Cons.IH [of x] Cons.IH [of y] show ?case by auto
qed simp

lemma set_dedup_by: "set (dedup_by same xs) \<subseteq> set xs"
  using set_dedup_from by (cases xs) fastforce+

lemma hd_dedup_from [simp]: "dedup_from same x xs \<noteq> [] \<and> hd (dedup_from same x xs) = x"
  by (induction xs arbitrary: x) simp_all

lemma dedup_by_eq_Nil [simp]: "dedup_by same xs = [] \<longleftrightarrow> xs = []"
  by (cases xs) simp_all

lemma length_dedup_from: "length (dedup_from same x xs) \<le> Suc (length xs)"
  by (induction xs arbitrary: x) (auto intro: le_SucI)

lemma length_dedup_by: "length (dedup_by same xs) \<le> length xs"
  using length_dedup_from by (cases xs) simp_all

lemma sorted_wrt_dedup_from:
  "sorted_wrt P (x # xs) \<Longrightarrow> sorted_wrt P (dedup_from same x xs)"
proof (induction xs arbitrary: x)
  case Nil
  then show ?case by simp
next
  case (Cons y ys)
  show ?case
  proof (cases "same y x")
    case True
    with Cons show ?thesis by simp
  next
    case False
    from Cons have "sorted_wrt P (dedup_from same y ys)" by simp
    moreover have "\<forall>z\<in>set (dedup_from same y ys). P x z"
      using set_dedup_from [of same y ys] Cons.prems by fastforce
    ultimately show ?thesis using False by simp
  qed
qed

lemma sorted_wrt_dedup_by: "sorted_wrt P xs \<Longrightarrow> sorted_wrt P (dedup_by same xs)"
  using sorted_wrt_dedup_from by (cases xs) fastforce+

text \<open>On a list sorted by a key the kept elements have pairwise different keys.\<close>

lemma dedup_from_strict:
  fixes k :: "'a \<Rightarrow> 'k::linorder"
  assumes "\<And>a b. same a b \<longleftrightarrow> k a = k b"
  shows "sorted (map k (x # xs)) \<Longrightarrow> sorted_wrt (\<lambda>a b. k a < k b) (dedup_from same x xs)"
proof (induction xs arbitrary: x)
  case Nil
  then show ?case by simp
next
  case (Cons y ys)
  show ?case
  proof (cases "same y x")
    case True
    with Cons show ?thesis by simp
  next
    case False
    with assms Cons.prems have lt: "k x < k y" by (simp add: order_less_le)
    from Cons have "sorted_wrt (\<lambda>a b. k a < k b) (dedup_from same y ys)" by simp
    moreover have "\<forall>z\<in>set (dedup_from same y ys). k x < k z"
    proof
      fix z assume "z \<in> set (dedup_from same y ys)"
      then have "z = y \<or> z \<in> set ys" using set_dedup_from [of same y ys] by auto
      with Cons.prems have "k y \<le> k z" by auto
      with lt show "k x < k z" by (rule order_less_le_trans)
    qed
    ultimately show ?thesis using False by simp
  qed
qed

lemma dedup_by_strict:
  fixes k :: "'a \<Rightarrow> 'k::linorder"
  assumes "\<And>a b. same a b \<longleftrightarrow> k a = k b" and "sorted (map k xs)"
  shows "sorted_wrt (\<lambda>a b. k a < k b) (dedup_by same xs)"
  using assms dedup_from_strict [of same k] by (cases xs) simp_all

lemma key_set_dedup_from:
  assumes "\<And>a b. same a b \<longleftrightarrow> k a = k b"
  shows "k ` set (dedup_from same x xs) = k ` insert x (set xs)"
  using assms by (induction xs arbitrary: x) auto

lemma key_set_dedup_by:
  assumes "\<And>a b. same a b \<longleftrightarrow> k a = k b"
  shows "k ` set (dedup_by same xs) = k ` set xs"
  using key_set_dedup_from [of same k, OF assms] by (cases xs) simp_all

end
