(* ===== verification/Rust_Str.thy ===== *)
theory Rust_Str
  imports Prelude
begin

text \<open>
  Rust strings. A \<open>&str\<close> is a list of Unicode scalar values; its bytes are the UTF-8 encoding of
  the list. Every offset of the program is a byte offset, so this theory gives the byte length,
  the character boundaries and the slices of a string, with the lemmas that turn an offset into a
  splitting of the list.
\<close>

section \<open>Scalars and their encoding\<close>

type_synonym uchar = nat
type_synonym ustr = "uchar list"

text \<open>The scalar of an ASCII character, and ASCII string literals.\<close>

abbreviation cp :: "char \<Rightarrow> uchar" where
  "cp c \<equiv> of_char c"

definition ascii :: "string \<Rightarrow> ustr" where
  "ascii s = map of_char s"

lemma ascii_simps [simp]:
  "ascii [] = []"
  "ascii (c # cs) = of_char c # ascii cs"
  by (simp_all add: ascii_def)

lemma ascii_append: "ascii (xs @ ys) = ascii xs @ ascii ys"
  by (simp add: ascii_def)

definition len_utf8 :: "uchar \<Rightarrow> nat" where
  "len_utf8 c = (if c < 128 then 1 else if c < 2048 then 2 else if c < 65536 then 3 else 4)"

definition encode_utf8 :: "uchar \<Rightarrow> nat list" where
  "encode_utf8 c =
     (if c < 128 then [c]
      else if c < 2048 then [192 + c div 64, 128 + c mod 64]
      else if c < 65536 then [224 + c div 4096, 128 + c div 64 mod 64, 128 + c mod 64]
      else [240 + c div 262144, 128 + c div 4096 mod 64, 128 + c div 64 mod 64, 128 + c mod 64])"

text \<open>\<open>str::as_bytes\<close> and \<open>str::len\<close>.\<close>

definition as_bytes :: "ustr \<Rightarrow> nat list" where
  "as_bytes s = concat (map encode_utf8 s)"

definition byte_len :: "ustr \<Rightarrow> nat" where
  "byte_len s = sum_list (map len_utf8 s)"

lemma len_utf8_pos [simp, intro]: "0 < len_utf8 c"
  by (simp add: len_utf8_def)

lemma len_utf8_neq_0 [simp]: "len_utf8 c \<noteq> 0"
  using len_utf8_pos [of c] by linarith

lemma len_utf8_le_4: "len_utf8 c \<le> 4"
  by (simp add: len_utf8_def)

lemma len_utf8_ascii [simp]: "c < 128 \<Longrightarrow> len_utf8 c = 1"
  by (simp add: len_utf8_def)

lemma length_encode_utf8 [simp]: "length (encode_utf8 c) = len_utf8 c"
  by (simp add: encode_utf8_def len_utf8_def)

lemma byte_len_simps [simp, str_simps]:
  "byte_len [] = 0"
  "byte_len (c # s) = len_utf8 c + byte_len s"
  by (simp_all add: byte_len_def)

lemma byte_len_append [simp, str_simps]: "byte_len (s @ t) = byte_len s + byte_len t"
  by (simp add: byte_len_def)

lemma as_bytes_simps [simp]:
  "as_bytes [] = []"
  "as_bytes (c # s) = encode_utf8 c @ as_bytes s"
  by (simp_all add: as_bytes_def)

lemma as_bytes_append: "as_bytes (s @ t) = as_bytes s @ as_bytes t"
  by (simp add: as_bytes_def)

lemma length_as_bytes [simp]: "length (as_bytes s) = byte_len s"
  by (induction s) simp_all

lemma byte_len_eq_0 [simp]: "byte_len s = 0 \<longleftrightarrow> s = []"
  by (cases s) simp_all

lemma length_le_byte_len: "length s \<le> byte_len s"
proof (induction s)
  case Nil
  then show ?case by simp
next
  case (Cons c s)
  have "1 \<le> len_utf8 c" using len_utf8_pos [of c] by linarith
  with Cons show ?case by simp
qed

lemma byte_len_ascii: "\<forall>c\<in>set s. c < 128 \<Longrightarrow> byte_len s = length s"
  by (induction s) simp_all

text \<open>Every byte of a scalar outside ASCII is at least 128.\<close>

lemma encode_utf8_high: "128 \<le> c \<Longrightarrow> b \<in> set (encode_utf8 c) \<Longrightarrow> 128 \<le> b"
  by (auto simp: encode_utf8_def split: if_splits)

section \<open>Splitting at a byte offset\<close>

text \<open>\<open>str::split_at_checked\<close>: nothing when the offset is not a character boundary.\<close>

fun split_at_byte :: "ustr \<Rightarrow> nat \<Rightarrow> (ustr \<times> ustr) option" where
  "split_at_byte [] n = (if n = 0 then Some ([], []) else None)"
| "split_at_byte (c # s) n =
     (if n = 0 then Some ([], c # s)
      else if len_utf8 c \<le> n
        then map_option (\<lambda>(p, q). (c # p, q)) (split_at_byte s (n - len_utf8 c))
        else None)"

definition is_char_boundary :: "ustr \<Rightarrow> nat \<Rightarrow> bool" where
  "is_char_boundary s n = (split_at_byte s n \<noteq> None)"

text \<open>\<open>str::get(a..b)\<close>.\<close>

definition str_get :: "ustr \<Rightarrow> nat \<Rightarrow> nat \<Rightarrow> ustr option" where
  "str_get s a b =
     (if a \<le> b
      then (case split_at_byte s b of
              None \<Rightarrow> None
            | Some (p, _) \<Rightarrow> map_option snd (split_at_byte p a))
      else None)"

lemma split_at_byte_Some_iff:
  "split_at_byte s n = Some (p, q) \<longleftrightarrow> s = p @ q \<and> byte_len p = n"
proof (induction s arbitrary: n p)
  case Nil
  then show ?case by (cases p) auto
next
  case (Cons c s)
  show ?case
  proof (cases p)
    case Nil
    then show ?thesis by (auto split: prod.splits)
  next
    case (Cons d p')
    have "split_at_byte (c # s) n = Some (d # p', q) \<longleftrightarrow>
        d = c \<and> len_utf8 c \<le> n \<and> n \<noteq> 0 \<and> split_at_byte s (n - len_utf8 c) = Some (p', q)"
      by auto
    also have "\<dots> \<longleftrightarrow> d = c \<and> len_utf8 c \<le> n \<and> s = p' @ q \<and> byte_len p' = n - len_utf8 c"
      using len_utf8_pos [of c] by (auto simp: Cons.IH simp del: len_utf8_pos)
    also have "\<dots> \<longleftrightarrow> c # s = (d # p') @ q \<and> byte_len (d # p') = n"
      by auto
    finally show ?thesis using Cons by simp
  qed
qed

lemma split_at_byte_append [simp]: "split_at_byte (p @ q) (byte_len p) = Some (p, q)"
  by (simp add: split_at_byte_Some_iff)

lemma is_char_boundary_iff: "is_char_boundary s n \<longleftrightarrow> (\<exists>p q. s = p @ q \<and> byte_len p = n)"
proof -
  have "is_char_boundary s n \<longleftrightarrow> (\<exists>p q. split_at_byte s n = Some (p, q))"
    by (auto simp: is_char_boundary_def)
  then show ?thesis by (simp add: split_at_byte_Some_iff)
qed

lemma is_char_boundary_0 [simp]: "is_char_boundary s 0"
  by (cases s) (simp_all add: is_char_boundary_def)

lemma is_char_boundary_len [simp]: "is_char_boundary s (byte_len s)"
  by (auto simp: is_char_boundary_iff)

lemma is_char_boundary_le: "is_char_boundary s n \<Longrightarrow> n \<le> byte_len s"
  by (auto simp: is_char_boundary_iff)

lemma is_char_boundary_append [intro]: "is_char_boundary (p @ q) (byte_len p)"
  by (auto simp: is_char_boundary_iff)

lemma str_get_Some_iff:
  "str_get s a b = Some m \<longleftrightarrow> (\<exists>p q. s = p @ m @ q \<and> byte_len p = a \<and> a + byte_len m = b)"
proof
  assume "str_get s a b = Some m"
  then obtain x y where "a \<le> b" and xy: "split_at_byte s b = Some (x, y)"
    and "map_option snd (split_at_byte x a) = Some m"
    by (auto simp: str_get_def split: if_splits option.splits)
  then obtain p where "split_at_byte x a = Some (p, m)" by auto
  with xy have "s = p @ m @ y \<and> byte_len p = a \<and> a + byte_len m = b"
    by (auto simp: split_at_byte_Some_iff)
  then show "\<exists>p q. s = p @ m @ q \<and> byte_len p = a \<and> a + byte_len m = b" by blast
next
  assume "\<exists>p q. s = p @ m @ q \<and> byte_len p = a \<and> a + byte_len m = b"
  then obtain p q where s: "s = p @ m @ q" "byte_len p = a" "a + byte_len m = b" by blast
  then have "split_at_byte s b = Some (p @ m, q)" by (simp add: split_at_byte_Some_iff)
  moreover from s have "split_at_byte (p @ m) a = Some (p, m)" by (simp add: split_at_byte_Some_iff)
  ultimately show "str_get s a b = Some m" using s by (simp add: str_get_def)
qed

lemma str_get_middle [simp]:
  "str_get (p @ m @ q) (byte_len p) (byte_len p + byte_len m) = Some m"
  by (auto simp: str_get_Some_iff)

lemma str_get_is_Some_iff:
  "(\<exists>m. str_get s a b = Some m) \<longleftrightarrow> a \<le> b \<and> is_char_boundary s a \<and> is_char_boundary s b"
proof
  assume "\<exists>m. str_get s a b = Some m"
  then show "a \<le> b \<and> is_char_boundary s a \<and> is_char_boundary s b"
    by (auto simp: str_get_Some_iff is_char_boundary_iff) (metis append_assoc byte_len_append)
next
  assume *: "a \<le> b \<and> is_char_boundary s a \<and> is_char_boundary s b"
  then obtain p q where pq: "s = p @ q" "byte_len p = a" by (auto simp: is_char_boundary_iff)
  from * obtain p' q' where pq': "s = p' @ q'" "byte_len p' = b" by (auto simp: is_char_boundary_iff)
  from pq pq' have "p @ q = p' @ q'" by simp
  then consider us where "p' = p @ us" "q = us @ q'" | us where "p = p' @ us" "q' = us @ q"
    by (auto simp: append_eq_append_conv2)
  then show "\<exists>m. str_get s a b = Some m"
  proof cases
    case (1 us)
    with pq pq' have "str_get s a b = Some us" by (auto simp: str_get_Some_iff)
    then show ?thesis ..
  next
    case (2 us)
    from 2 pq(2) pq'(2) have "b + byte_len us = a" by simp
    with * have "byte_len us = 0" by linarith
    then have "us = []" by simp
    with 2 pq pq' have "str_get s a b = Some []" by (auto simp: str_get_Some_iff)
    then show ?thesis ..
  qed
qed

section \<open>Characters\<close>

definition is_ascii_char :: "uchar \<Rightarrow> bool" where
  "is_ascii_char c = (c < 128)"

definition is_ascii :: "ustr \<Rightarrow> bool" where
  "is_ascii s = list_all is_ascii_char s"

definition is_ascii_digit :: "uchar \<Rightarrow> bool" where
  "is_ascii_digit c = (48 \<le> c \<and> c \<le> 57)"

definition is_ascii_hexdigit :: "uchar \<Rightarrow> bool" where
  "is_ascii_hexdigit c = (48 \<le> c \<and> c \<le> 57 \<or> 65 \<le> c \<and> c \<le> 70 \<or> 97 \<le> c \<and> c \<le> 102)"

text \<open>\<open>char::to_digit(16)\<close>.\<close>

definition to_digit16 :: "uchar \<Rightarrow> nat option" where
  "to_digit16 c =
     (if 48 \<le> c \<and> c \<le> 57 then Some (c - 48)
      else if 65 \<le> c \<and> c \<le> 70 then Some (c - 55)
      else if 97 \<le> c \<and> c \<le> 102 then Some (c - 87)
      else None)"

text \<open>\<open>char::from_u32\<close>: nothing for a surrogate or beyond U+10FFFF.\<close>

definition char_from_u32 :: "nat \<Rightarrow> uchar option" where
  "char_from_u32 n = (if n < 55296 \<or> 57343 < n \<and> n < 1114112 then Some n else None)"

text \<open>\<open>u8::to_ascii_uppercase\<close> on a scalar, and \<open>str::eq_ignore_ascii_case\<close>.\<close>

definition to_ascii_uppercase :: "uchar \<Rightarrow> uchar" where
  "to_ascii_uppercase c = (if 97 \<le> c \<and> c \<le> 122 then c - 32 else c)"

definition eq_ignore_ascii_case :: "ustr \<Rightarrow> ustr \<Rightarrow> bool" where
  "eq_ignore_ascii_case s t = (map to_ascii_uppercase s = map to_ascii_uppercase t)"

lemma to_digit16_hexdigit: "is_ascii_hexdigit c \<longleftrightarrow> (\<exists>d. to_digit16 c = Some d)"
  by (auto simp: is_ascii_hexdigit_def to_digit16_def)

lemma to_digit16_bound: "to_digit16 c = Some d \<Longrightarrow> d < 16"
  by (auto simp: to_digit16_def split: if_splits)

lemma eq_ignore_ascii_case_refl [simp]: "eq_ignore_ascii_case s s"
  by (simp add: eq_ignore_ascii_case_def)

lemma eq_ignore_ascii_case_length: "eq_ignore_ascii_case s t \<Longrightarrow> length s = length t"
  unfolding eq_ignore_ascii_case_def by (metis length_map)

lemma to_ascii_uppercase_ascii: "to_ascii_uppercase c < 128 \<longleftrightarrow> c < 128"
  by (auto simp: to_ascii_uppercase_def)

lemma to_ascii_uppercase_len: "len_utf8 (to_ascii_uppercase c) = len_utf8 c"
  by (auto simp: to_ascii_uppercase_def len_utf8_def)

lemma eq_ignore_ascii_case_byte_len: "eq_ignore_ascii_case s t \<Longrightarrow> byte_len s = byte_len t"
proof -
  assume "eq_ignore_ascii_case s t"
  then have "map len_utf8 (map to_ascii_uppercase s) = map len_utf8 (map to_ascii_uppercase t)"
    by (simp add: eq_ignore_ascii_case_def)
  then have "map len_utf8 s = map len_utf8 t"
    by (simp add: to_ascii_uppercase_len o_def)
  then show ?thesis by (simp add: byte_len_def)
qed

lemma is_ascii_iff: "is_ascii s \<longleftrightarrow> (\<forall>c\<in>set s. c < 128)"
  by (simp add: is_ascii_def list_all_iff is_ascii_char_def)

lemma eq_ignore_ascii_case_is_ascii:
  assumes "eq_ignore_ascii_case s t" and "is_ascii t"
  shows "is_ascii s"
proof -
  have "c < 128" if "c \<in> set s" for c
  proof -
    from assms(1) have "to_ascii_uppercase ` set s = to_ascii_uppercase ` set t"
      unfolding eq_ignore_ascii_case_def by (metis list.set_map)
    with that obtain d where "d \<in> set t" and eq: "to_ascii_uppercase c = to_ascii_uppercase d"
      by blast
    with assms(2) have "d < 128" by (simp add: is_ascii_iff)
    then have "to_ascii_uppercase c < 128" by (simp only: eq to_ascii_uppercase_ascii)
    then show ?thesis by (simp only: to_ascii_uppercase_ascii)
  qed
  then show ?thesis by (simp add: is_ascii_iff)
qed

section \<open>Decimal printing\<close>

text \<open>\<open>Display\<close> of an unsigned integer.\<close>

fun decimal :: "nat \<Rightarrow> ustr" where
  "decimal n = (if n < 10 then [48 + n] else decimal (n div 10) @ [48 + n mod 10])"

declare decimal.simps [simp del]

end
