(* ===== verification/Spans.thy ===== *)
theory Spans
  imports Rust_Str
begin

text \<open>
  \<open>src/span.rs\<close>: half-open byte ranges. The fields are public, so a span with \<open>end < start\<close> can
  be written down; \<open>Span::new\<close> refuses to build one. The invariant \<open>wf_span\<close> is what \<open>new\<close>
  guarantees, and every operation keeps it.
\<close>

record span =
  span_start :: nat
  span_end :: nat

text \<open>\<open>Span::new\<close> asserts \<open>start <= end\<close>.\<close>

definition span_new :: "nat \<Rightarrow> nat \<Rightarrow> span panics" where
  "span_new s e = (if s \<le> e then Some \<lparr>span_start = s, span_end = e\<rparr> else None)"

definition span_empty :: "nat \<Rightarrow> span panics" where
  "span_empty offset = span_new offset offset"

text \<open>\<open>Span::len\<close> subtracts: it panics (in a checked build) on a reversed span.\<close>

definition span_len :: "span \<Rightarrow> nat panics" where
  "span_len s = checked_sub (span_end s) (span_start s)"

definition span_is_empty :: "span \<Rightarrow> bool" where
  "span_is_empty s = (span_start s = span_end s)"

definition span_contains :: "span \<Rightarrow> nat \<Rightarrow> bool" where
  "span_contains s offset = (span_start s \<le> offset \<and> offset < span_end s)"

definition span_contains_span :: "span \<Rightarrow> span \<Rightarrow> bool" where
  "span_contains_span s other = (span_start s \<le> span_start other \<and> span_end other \<le> span_end s)"

definition span_cover :: "span \<Rightarrow> span \<Rightarrow> span panics" where
  "span_cover s other = span_new
     (if span_start s < span_start other then span_start s else span_start other)
     (if span_end s > span_end other then span_end s else span_end other)"

definition span_text :: "span \<Rightarrow> ustr \<Rightarrow> ustr option" where
  "span_text s source = str_get source (span_start s) (span_end s)"

text \<open>\<open>Debug\<close> and \<open>Display\<close>: \<open>start..end\<close>.\<close>

definition span_display :: "span \<Rightarrow> ustr" where
  "span_display s = decimal (span_start s) @ ascii ''..'' @ decimal (span_end s)"

section \<open>The invariant\<close>

definition wf_span :: "span \<Rightarrow> bool" where
  "wf_span s = (span_start s \<le> span_end s)"

text \<open>An abbreviation for the span literal that \<open>new\<close> returns.\<close>

abbreviation mk_span :: "nat \<Rightarrow> nat \<Rightarrow> span" where
  "mk_span s e \<equiv> \<lparr>span_start = s, span_end = e\<rparr>"

text \<open>A span lies in a text when both ends are character boundaries of it.\<close>

definition span_in :: "span \<Rightarrow> ustr \<Rightarrow> bool" where
  "span_in s source = (wf_span s \<and> is_char_boundary source (span_start s) \<and>
     is_char_boundary source (span_end s))"

lemma span_new_Some [simp, span_simps]: "s \<le> e \<Longrightarrow> span_new s e = Some (mk_span s e)"
  by (simp add: span_new_def)

lemma span_new_None_iff [span_simps]: "span_new s e = None \<longleftrightarrow> e < s"
  by (auto simp: span_new_def)

lemma span_new_SomeD: "span_new s e = Some x \<Longrightarrow> s \<le> e \<and> x = mk_span s e"
  by (auto simp: span_new_def split: if_splits)

lemma span_empty_Some [simp, span_simps]: "span_empty n = Some (mk_span n n)"
  by (simp add: span_empty_def)

lemma span_new_wf: "span_new s e = Some x \<Longrightarrow> wf_span x"
  by (auto simp: span_new_def wf_span_def split: if_splits)

lemma span_cover_eq:
  "span_cover s t = span_new (min (span_start s) (span_start t)) (max (span_end s) (span_end t))"
  by (auto simp: span_cover_def min_def max_def)

lemma span_cover_Some [span_simps]:
  assumes "wf_span s \<or> wf_span t"
  shows "span_cover s t =
    Some (mk_span (min (span_start s) (span_start t)) (max (span_end s) (span_end t)))"
  using assms by (auto simp: span_cover_eq wf_span_def intro!: span_new_Some)

lemma span_contains_span_trans:
  "span_contains_span a b \<Longrightarrow> span_contains_span b c \<Longrightarrow> span_contains_span a c"
  by (auto simp: span_contains_span_def)

lemma span_in_text: "span_in s source \<longleftrightarrow> (\<exists>m. span_text s source = Some m)"
  by (auto simp: span_in_def span_text_def wf_span_def str_get_is_Some_iff)

end
