(* ===== verification/Diagnostics.thy ===== *)
theory Diagnostics
  imports Spans "HOL-Library.Multiset"
begin

text \<open>
  The data part of \<open>src/diagnostic.rs\<close>: codes, severities, diagnostics and the sorted, nonempty
  collection \<open>ParseErrors\<close>. Rendering is in theory \<open>Render\<close>.
\<close>

section \<open>Codes and severities\<close>

datatype diagnostic_code =
    DC_InvalidToken | DC_UnterminatedString | DC_UnterminatedIdentifier | DC_UnterminatedComment
  | DC_InvalidEscape | DC_InvalidNumber | DC_UnexpectedToken | DC_UnexpectedEof | DC_ExtraToken
  | DC_UnclosedDelimiter | DC_MismatchedDelimiter | DC_Recovery | DC_TooManyErrors
  | DC_UnsupportedSyntax | DC_Internal

primrec code_as_str :: "diagnostic_code \<Rightarrow> ustr" where
  "code_as_str DC_InvalidToken = ascii ''OCY-L001''"
| "code_as_str DC_UnterminatedString = ascii ''OCY-L002''"
| "code_as_str DC_UnterminatedIdentifier = ascii ''OCY-L003''"
| "code_as_str DC_UnterminatedComment = ascii ''OCY-L004''"
| "code_as_str DC_InvalidEscape = ascii ''OCY-L005''"
| "code_as_str DC_InvalidNumber = ascii ''OCY-L006''"
| "code_as_str DC_UnexpectedToken = ascii ''OCY-P001''"
| "code_as_str DC_UnexpectedEof = ascii ''OCY-P002''"
| "code_as_str DC_ExtraToken = ascii ''OCY-P003''"
| "code_as_str DC_UnclosedDelimiter = ascii ''OCY-P004''"
| "code_as_str DC_MismatchedDelimiter = ascii ''OCY-P005''"
| "code_as_str DC_Recovery = ascii ''OCY-P006''"
| "code_as_str DC_TooManyErrors = ascii ''OCY-P007''"
| "code_as_str DC_UnsupportedSyntax = ascii ''OCY-P008''"
| "code_as_str DC_Internal = ascii ''OCY-P999''"

text \<open>The derived \<open>Ord\<close> of a Rust enumeration is the declaration order.\<close>

primrec code_index :: "diagnostic_code \<Rightarrow> nat" where
  "code_index DC_InvalidToken = 0"
| "code_index DC_UnterminatedString = 1"
| "code_index DC_UnterminatedIdentifier = 2"
| "code_index DC_UnterminatedComment = 3"
| "code_index DC_InvalidEscape = 4"
| "code_index DC_InvalidNumber = 5"
| "code_index DC_UnexpectedToken = 6"
| "code_index DC_UnexpectedEof = 7"
| "code_index DC_ExtraToken = 8"
| "code_index DC_UnclosedDelimiter = 9"
| "code_index DC_MismatchedDelimiter = 10"
| "code_index DC_Recovery = 11"
| "code_index DC_TooManyErrors = 12"
| "code_index DC_UnsupportedSyntax = 13"
| "code_index DC_Internal = 14"

lemma code_index_inject: "code_index a = code_index b \<longleftrightarrow> a = b"
  by (cases a; cases b) simp_all

instantiation diagnostic_code :: linorder
begin

definition less_eq_diagnostic_code :: "diagnostic_code \<Rightarrow> diagnostic_code \<Rightarrow> bool" where
  "less_eq_diagnostic_code a b = (code_index a \<le> code_index b)"

definition less_diagnostic_code :: "diagnostic_code \<Rightarrow> diagnostic_code \<Rightarrow> bool" where
  "less_diagnostic_code a b = (code_index a < code_index b)"

instance
  by standard
    (auto simp: less_eq_diagnostic_code_def less_diagnostic_code_def code_index_inject [symmetric])

end

datatype severity = Sev_Error | Sev_Warning | Sev_Note

primrec severity_as_str :: "severity \<Rightarrow> ustr" where
  "severity_as_str Sev_Error = ascii ''error''"
| "severity_as_str Sev_Warning = ascii ''warning''"
| "severity_as_str Sev_Note = ascii ''note''"

primrec severity_sort_key :: "severity \<Rightarrow> nat" where
  "severity_sort_key Sev_Error = 0"
| "severity_sort_key Sev_Warning = 1"
| "severity_sort_key Sev_Note = 2"

section \<open>Diagnostics\<close>

record label =
  label_span :: span
  label_message :: ustr

record diagnostic =
  diag_code :: diagnostic_code
  diag_severity :: severity
  diag_message :: ustr
  diag_span :: span
  diag_labels :: "label list"
  diag_notes :: "ustr list"
  diag_help :: "ustr option"

definition diagnostic_new :: "diagnostic_code \<Rightarrow> severity \<Rightarrow> ustr \<Rightarrow> span \<Rightarrow> diagnostic" where
  "diagnostic_new code severity message primary_span =
     \<lparr>diag_code = code, diag_severity = severity, diag_message = message,
      diag_span = primary_span, diag_labels = [], diag_notes = [], diag_help = None\<rparr>"

definition diagnostic_error :: "diagnostic_code \<Rightarrow> ustr \<Rightarrow> span \<Rightarrow> diagnostic" where
  "diagnostic_error code message primary_span =
     diagnostic_new code Sev_Error message primary_span"

definition with_label :: "diagnostic \<Rightarrow> span \<Rightarrow> ustr \<Rightarrow> diagnostic" where
  "with_label d s message =
     d\<lparr>diag_labels := diag_labels d @ [\<lparr>label_span = s, label_message = message\<rparr>]\<rparr>"

definition with_note :: "diagnostic \<Rightarrow> ustr \<Rightarrow> diagnostic" where
  "with_note d note = d\<lparr>diag_notes := diag_notes d @ [note]\<rparr>"

definition with_help :: "diagnostic \<Rightarrow> ustr \<Rightarrow> diagnostic" where
  "with_help d help = d\<lparr>diag_help := Some help\<rparr>"

definition is_error :: "diagnostic \<Rightarrow> bool" where
  "is_error d = (diag_severity d = Sev_Error)"

text \<open>\<open>Display for Diagnostic\<close>: \<open>severity[code]: message at start..end\<close>.\<close>

definition diagnostic_display :: "diagnostic \<Rightarrow> ustr" where
  "diagnostic_display d =
     severity_as_str (diag_severity d) @ ascii ''['' @ code_as_str (diag_code d) @ ascii '']: '' @
     diag_message d @ ascii '' at '' @ span_display (diag_span d)"

section \<open>Error collections\<close>

type_synonym sort_tuple = "nat \<times> nat \<times> nat \<times> diagnostic_code \<times> ustr"

definition diagnostic_key :: "diagnostic \<Rightarrow> sort_tuple" where
  "diagnostic_key d =
     (span_start (diag_span d), span_end (diag_span d), severity_sort_key (diag_severity d),
      diag_code d, diag_message d)"

text \<open>\<open>slice::sort_by\<close> is stable, as the library's \<open>sort_key\<close> is.\<close>

definition sort_diagnostics :: "diagnostic list \<Rightarrow> diagnostic list" where
  "sort_diagnostics ds = sort_key diagnostic_key ds"

record parse_errors =
  pe_diagnostics :: "diagnostic list"

text \<open>\<open>ParseErrors::new\<close> asserts that there is a diagnostic; \<open>try_new\<close> checks first.\<close>

definition parse_errors_new :: "diagnostic list \<Rightarrow> parse_errors panics" where
  "parse_errors_new ds =
     (if ds = [] then None else Some \<lparr>pe_diagnostics = sort_diagnostics ds\<rparr>)"

definition parse_errors_try_new :: "diagnostic list \<Rightarrow> parse_errors option panics" where
  "parse_errors_try_new ds =
     (if ds = [] then Some None else map_option Some (parse_errors_new ds))"

definition parse_errors_from :: "diagnostic \<Rightarrow> parse_errors panics" where
  "parse_errors_from d = parse_errors_new [d]"

definition parse_errors_len :: "parse_errors \<Rightarrow> nat" where
  "parse_errors_len e = length (pe_diagnostics e)"

definition parse_errors_is_empty :: "parse_errors \<Rightarrow> bool" where
  "parse_errors_is_empty e = (pe_diagnostics e = [])"

definition parse_errors_display :: "parse_errors \<Rightarrow> ustr" where
  "parse_errors_display e =
     (case pe_diagnostics e of
        [] \<Rightarrow> ascii ''no parse diagnostics''
      | first # rest \<Rightarrow>
          (if length (pe_diagnostics e) = 1 then diagnostic_display first
           else diagnostic_display first @ ascii '' (and '' @
             decimal (length (pe_diagnostics e) - 1) @ ascii '' more diagnostic'' @
             (if length (pe_diagnostics e) = 2 then [] else ascii ''s'') @ ascii '')''))"

section \<open>Order and content\<close>

lemma diag_simps [simp]:
  "diag_code (diagnostic_error c m s) = c"
  "diag_severity (diagnostic_error c m s) = Sev_Error"
  "diag_message (diagnostic_error c m s) = m"
  "diag_span (diagnostic_error c m s) = s"
  "diag_labels (diagnostic_error c m s) = []"
  "is_error (diagnostic_error c m s)"
  by (simp_all add: diagnostic_error_def diagnostic_new_def is_error_def)

lemma diag_builder_simps [simp]:
  "diag_code (with_label d s m) = diag_code d"
  "diag_severity (with_label d s m) = diag_severity d"
  "diag_message (with_label d s m) = diag_message d"
  "diag_span (with_label d s m) = diag_span d"
  "diag_code (with_help d h) = diag_code d"
  "diag_severity (with_help d h) = diag_severity d"
  "diag_message (with_help d h) = diag_message d"
  "diag_span (with_help d h) = diag_span d"
  "is_error (with_label d s m) = is_error d"
  "is_error (with_help d h) = is_error d"
  by (simp_all add: with_label_def with_help_def is_error_def)

lemma mset_sort_diagnostics [simp]: "mset (sort_diagnostics ds) = mset ds"
  by (simp add: sort_diagnostics_def)

lemma set_sort_diagnostics [simp]: "set (sort_diagnostics ds) = set ds"
  by (simp add: sort_diagnostics_def)

lemma sorted_sort_diagnostics: "sorted (map diagnostic_key (sort_diagnostics ds))"
  by (simp add: sort_diagnostics_def)

lemma sort_diagnostics_stable:
  "filter (\<lambda>d. diagnostic_key d = k) (sort_diagnostics ds) = filter (\<lambda>d. diagnostic_key d = k) ds"
  by (simp add: sort_diagnostics_def sort_key_stable)

text \<open>
  \<open>ParseErrors::new\<close> panics exactly on the empty vector; otherwise the collection holds the
  given diagnostics, each as often as before, in ascending order of the sort tuple (source start,
  source end, severity, code, message), and diagnostics with equal tuples keep their order.
\<close>

theorem parse_errors_new_spec:
  "(parse_errors_new ds = None \<longleftrightarrow> ds = []) \<and>
   (\<forall>e. parse_errors_new ds = Some e \<longleftrightarrow> ds \<noteq> [] \<and>
      mset (pe_diagnostics e) = mset ds \<and>
      sorted (map diagnostic_key (pe_diagnostics e)) \<and>
      (\<forall>k. filter (\<lambda>d. diagnostic_key d = k) (pe_diagnostics e) =
           filter (\<lambda>d. diagnostic_key d = k) ds))"
proof (intro conjI allI iffI)
  fix e :: parse_errors
  assume *: "ds \<noteq> [] \<and> mset (pe_diagnostics e) = mset ds \<and>
    sorted (map diagnostic_key (pe_diagnostics e)) \<and>
    (\<forall>k. filter (\<lambda>d. diagnostic_key d = k) (pe_diagnostics e) =
       filter (\<lambda>d. diagnostic_key d = k) ds)"
  then have stable: "filter (\<lambda>d. diagnostic_key d = k) (pe_diagnostics e) =
      filter (\<lambda>d. diagnostic_key d = k) ds" for k
    by blast
  have "filter (\<lambda>d. k = diagnostic_key d) (pe_diagnostics e) =
      filter (\<lambda>d. k = diagnostic_key d) ds" for k
    using stable [of k] by (simp only: eq_commute [of k])
  with * have "sort_key diagnostic_key ds = pe_diagnostics e"
    by (intro properties_for_sort_key) simp_all
  with * show "parse_errors_new ds = Some e"
    by (cases e) (simp add: parse_errors_new_def sort_diagnostics_def)
qed (auto simp: parse_errors_new_def sorted_sort_diagnostics sort_diagnostics_stable
    split: if_splits)

end
