(* ===== verification/Render.thy ===== *)
theory Render
  imports Diagnostics
begin

text \<open>
  The renderer of \<open>src/diagnostic.rs\<close>: the source line of a span, its markers and the plain-text
  report. Every slice of the source is a checked slice here (a panic when an offset is not a
  character boundary); theorem \<open>snippet_total\<close> shows that clamping and \<open>floor_char_boundary\<close> make
  all of them succeed, for any span whatsoever.
\<close>

section \<open>Columns\<close>

definition tab_width :: nat where
  "tab_width = 4"

text \<open>The loops of \<open>display_width\<close> and \<open>expand_tabs\<close>, over the running column.\<close>

fun display_width_from :: "nat \<Rightarrow> ustr \<Rightarrow> nat" where
  "display_width_from column [] = column"
| "display_width_from column (c # s) =
     (if c = cp (CHR 0x09) then display_width_from (column + (tab_width - column mod tab_width)) s
      else display_width_from (column + 1) s)"

definition display_width :: "ustr \<Rightarrow> nat" where
  "display_width text = display_width_from 0 text"

fun expand_tabs_from :: "nat \<Rightarrow> ustr \<Rightarrow> ustr" where
  "expand_tabs_from column [] = []"
| "expand_tabs_from column (c # s) =
     (if c = cp (CHR 0x09)
      then let spaces = tab_width - column mod tab_width
           in replicate spaces (cp (CHR '' '')) @ expand_tabs_from (column + spaces) s
      else c # expand_tabs_from (column + 1) s)"

definition expand_tabs :: "ustr \<Rightarrow> ustr" where
  "expand_tabs text = expand_tabs_from 0 text"

text \<open>The loop of \<open>decimal_width\<close>.\<close>

fun decimal_width_from :: "nat \<Rightarrow> nat \<Rightarrow> nat" where
  "decimal_width_from width v =
     (if 10 \<le> v then decimal_width_from (width + 1) (v div 10) else width)"

declare decimal_width_from.simps [simp del]

definition decimal_width :: "nat \<Rightarrow> nat" where
  "decimal_width v = decimal_width_from 1 v"

section \<open>Snippets\<close>

text \<open>\<open>str::find\<close> and \<open>str::rfind\<close> of one character, as byte offsets.\<close>

fun str_find :: "uchar \<Rightarrow> ustr \<Rightarrow> nat option" where
  "str_find c [] = None"
| "str_find c (d # s) =
     (if d = c then Some 0 else map_option (\<lambda>n. len_utf8 d + n) (str_find c s))"

fun str_rfind :: "uchar \<Rightarrow> ustr \<Rightarrow> nat option" where
  "str_rfind c [] = None"
| "str_rfind c (d # s) =
     (case str_rfind c s of
        Some n \<Rightarrow> Some (len_utf8 d + n)
      | None \<Rightarrow> if d = c then Some 0 else None)"

fun floor_char_boundary :: "ustr \<Rightarrow> nat \<Rightarrow> nat" where
  "floor_char_boundary source 0 = 0"
| "floor_char_boundary source (Suc n) =
     (if is_char_boundary source (Suc n) then Suc n else floor_char_boundary source n)"

record snippet =
  snip_line_number :: nat
  snip_column :: nat
  snip_line :: ustr
  snip_marker_start :: nat
  snip_marker_len :: nat
  snip_continues :: bool

text \<open>The end of the line that holds offset \<open>start\<close>, without a carriage return before it.\<close>

definition snippet_line_end :: "ustr \<Rightarrow> nat \<Rightarrow> nat \<Rightarrow> ustr \<Rightarrow> nat" where
  "snippet_line_end source start line_start after =
     (let line_end = (case str_find (cp (CHR 0x0A)) after of
                        None \<Rightarrow> byte_len source | Some offset \<Rightarrow> start + offset)
      in if line_end > line_start \<and> slice_get (as_bytes source) (line_end - 1) = Some 13
         then line_end - 1 else line_end)"

definition make_snippet :: "ustr \<Rightarrow> span \<Rightarrow> snippet panics" where
  "make_snippet source s =
     (let start = floor_char_boundary source (min (span_start s) (byte_len source));
          requested_end = floor_char_boundary source (min (span_end s) (byte_len source))
      in case (str_get source 0 start, str_get source start (byte_len source)) of
        (Some before, Some after) \<Rightarrow>
          (let line_start = (case str_rfind (cp (CHR 0x0A)) before of
                               None \<Rightarrow> 0 | Some index \<Rightarrow> index + 1);
               line_number = length (filter (\<lambda>b. b = 10) (as_bytes before)) + 1;
               line_end = snippet_line_end source start line_start after;
               visible_start = min start line_end;
               visible_end = max (min requested_end line_end) visible_start
           in case (str_get source line_start visible_start,
                    str_get source visible_start visible_end,
                    str_get source line_start line_end) of
                (Some left, Some marked, Some line) \<Rightarrow>
                  Some \<lparr>snip_line_number = line_number,
                        snip_column = display_width left + 1,
                        snip_line = expand_tabs line,
                        snip_marker_start = display_width left,
                        snip_marker_len = max (display_width marked) 1,
                        snip_continues = requested_end > line_end\<rparr>
              | _ \<Rightarrow> None)
      | _ \<Rightarrow> None)"

section \<open>Reports\<close>

abbreviation nl :: ustr where
  "nl \<equiv> [10]"

text \<open>\<open>{:>width$}\<close> pads on the left.\<close>

definition pad_left :: "nat \<Rightarrow> ustr \<Rightarrow> ustr" where
  "pad_left width text = replicate (width - length text) (cp (CHR '' '')) @ text"

definition render_snippet :: "snippet \<Rightarrow> uchar \<Rightarrow> ustr \<Rightarrow> ustr" where
  "render_snippet snip marker text =
     (let gutter_width = decimal_width (snip_line_number snip)
      in pad_left gutter_width (decimal (snip_line_number snip)) @ ascii '' | '' @ snip_line snip @ nl @
         pad_left gutter_width [] @ ascii '' | '' @
         replicate (snip_marker_start snip) (cp (CHR '' '')) @
         replicate (snip_marker_len snip) marker @
         (if text = [] then [] else ascii '' '' @ text) @
         (if snip_continues snip then ascii '' (continues on the next line)'' else []) @ nl)"

text \<open>The secondary labels, in the order of their span and message.\<close>

definition secondary_labels :: "diagnostic \<Rightarrow> label list" where
  "secondary_labels d =
     sort_key (\<lambda>l. (span_start (label_span l), span_end (label_span l), label_message l))
       (filter (\<lambda>l. label_span l \<noteq> diag_span d) (diag_labels d))"

definition primary_label :: "diagnostic \<Rightarrow> ustr" where
  "primary_label d =
     (case find (\<lambda>l. label_span l = diag_span d) (diag_labels d) of
        None \<Rightarrow> [] | Some l \<Rightarrow> label_message l)"

fun render_labels :: "ustr \<Rightarrow> label list \<Rightarrow> ustr panics" where
  "render_labels source [] = Some []"
| "render_labels source (l # ls) =
     (case (make_snippet source (label_span l), render_labels source ls) of
        (Some snip, Some rest) \<Rightarrow>
          Some (ascii ''  |'' @ nl @ render_snippet snip (cp (CHR ''-'')) (label_message l) @ rest)
      | _ \<Rightarrow> None)"

text \<open>The final newline is popped.\<close>

definition pop_newline :: "ustr \<Rightarrow> ustr" where
  "pop_newline out = (if out \<noteq> [] \<and> last out = 10 then butlast out else out)"

definition render_one :: "ustr \<Rightarrow> ustr \<Rightarrow> diagnostic \<Rightarrow> ustr panics" where
  "render_one out source d =
     (case (make_snippet source (diag_span d), render_labels source (secondary_labels d)) of
        (Some primary, Some labels) \<Rightarrow>
          Some (pop_newline (out @
            severity_as_str (diag_severity d) @ ascii ''['' @ code_as_str (diag_code d) @ ascii '']: '' @
            diag_message d @ nl @
            ascii '' --> '' @ decimal (snip_line_number primary) @ ascii '':'' @
            decimal (snip_column primary) @ nl @
            ascii ''  |'' @ nl @
            render_snippet primary (cp (CHR ''^'')) (primary_label d) @
            labels @
            concat (map (\<lambda>note. ascii ''  = note: '' @ note @ nl) (diag_notes d)) @
            (case diag_help d of None \<Rightarrow> [] | Some help \<Rightarrow> ascii ''  = help: '' @ help @ nl)))
      | _ \<Rightarrow> None)"

definition diagnostic_render :: "diagnostic \<Rightarrow> ustr \<Rightarrow> ustr panics" where
  "diagnostic_render d source = render_one [] source d"

text \<open>\<open>ParseErrors::render\<close>: the reports, separated by a blank line.\<close>

fun render_all :: "ustr \<Rightarrow> ustr \<Rightarrow> nat \<Rightarrow> diagnostic list \<Rightarrow> ustr panics" where
  "render_all out source index [] = Some out"
| "render_all out source index (d # ds) =
     (case render_one (if index \<noteq> 0 then out @ nl @ nl else out) source d of
        None \<Rightarrow> None
      | Some out' \<Rightarrow> render_all out' source (index + 1) ds)"

definition parse_errors_render :: "parse_errors \<Rightarrow> ustr \<Rightarrow> ustr panics" where
  "parse_errors_render e source = render_all [] source 0 (pe_diagnostics e)"

section \<open>Columns agree with the expanded text\<close>

lemma length_expand_tabs_from:
  "column + length (expand_tabs_from column s) = display_width_from column s"
proof (induction s arbitrary: column)
  case (Cons c s)
  show ?case
    using Cons [of "column + 1"] Cons [of "column + (tab_width - column mod tab_width)"]
    by (simp add: Let_def)
qed simp

lemma length_expand_tabs: "length (expand_tabs s) = display_width s"
  using length_expand_tabs_from [of 0 s] by (simp add: expand_tabs_def display_width_def)

lemma expand_tabs_from_no_tab: "9 \<notin> set (expand_tabs_from column s)"
  by (induction s arbitrary: column) (simp_all add: Let_def)

lemma display_width_from_ge: "column + length s \<le> display_width_from column s"
proof (induction s arbitrary: column)
  case (Cons c s)
  have "column mod tab_width < tab_width" by (simp add: tab_width_def)
  then obtain k where k: "tab_width - column mod tab_width = Suc k"
    by (metis Suc_diff_Suc)
  show ?case using Cons [of "column + 1"] Cons [of "column + Suc k"]
    by (simp add: k)
qed simp

lemma display_width_from_append:
  "display_width_from column (s @ t) = display_width_from (display_width_from column s) t"
  by (induction column s rule: display_width_from.induct) simp_all

lemma display_width_no_tab: "9 \<notin> set s \<Longrightarrow> display_width_from column s = column + length s"
  by (induction column s rule: display_width_from.induct) simp_all

lemma decimal_width_from_eq: "decimal_width_from w v + 1 = w + length (decimal v)"
proof (induction w v rule: decimal_width_from.induct)
  case (1 w v)
  then show ?case
    by (simp add: decimal_width_from.simps [of w v] decimal.simps [of v])
qed

lemma decimal_width_eq: "decimal_width v = length (decimal v)"
  using decimal_width_from_eq [of 1 v] by (simp add: decimal_width_def)

text \<open>
  expanding tabs leaves no tab, never shortens the text, and the expanded text is exactly as
  long as \<open>display_width\<close> says, so the marker computed with one lines up with text computed with
  the other.
\<close>

theorem expand_tabs_display_width:
  "length (expand_tabs s) = display_width s \<and> length s \<le> display_width s \<and>
   cp (CHR 0x09) \<notin> set (expand_tabs s)"
  using display_width_from_ge [of 0 s] expand_tabs_from_no_tab [of 0 s]
  by (simp add: length_expand_tabs) (simp add: display_width_def expand_tabs_def)

section \<open>Snippets always exist\<close>

lemma ex_split_Cons:
  "(\<exists>p q. d # s = p @ c # q \<and> R p q) \<longleftrightarrow>
   d = c \<and> R [] s \<or> (\<exists>p q. s = p @ c # q \<and> R (d # p) q)" (is "?L \<longleftrightarrow> ?R")
proof
  assume ?L
  then obtain p q where "d # s = p @ c # q" "R p q" by blast
  then show ?R by (cases p) auto
next
  assume ?R
  then consider "d = c" "R [] s" | p q where "s = p @ c # q" "R (d # p) q" by blast
  then show ?L
  proof cases
    case 1
    then have "d # s = [] @ c # s \<and> R [] s" by simp
    then show ?thesis by blast
  next
    case (2 p q)
    then have "d # s = (d # p) @ c # q \<and> R (d # p) q" by simp
    then show ?thesis by blast
  qed
qed

lemma str_find_None: "str_find c s = None \<longleftrightarrow> c \<notin> set s"
  by (induction s) auto

lemma str_find_Some: "str_find c s = Some n \<longleftrightarrow> (\<exists>p q. s = p @ c # q \<and> c \<notin> set p \<and> byte_len p = n)"
proof (induction s arbitrary: n)
  case (Cons d s)
  show ?case unfolding ex_split_Cons by (auto simp: Cons)
qed simp

lemma str_rfind_None: "str_rfind c s = None \<longleftrightarrow> c \<notin> set s"
  by (induction s) (auto split: option.splits)

lemma str_rfind_Some: "str_rfind c s = Some n \<longleftrightarrow> (\<exists>p q. s = p @ c # q \<and> c \<notin> set q \<and> byte_len p = n)"
proof (induction s arbitrary: n)
  case (Cons d s)
  show ?case
  proof (cases "str_rfind c s")
    case None
    then have "c \<notin> set s" by (simp add: str_rfind_None)
    with None show ?thesis unfolding ex_split_Cons by auto
  next
    case (Some m)
    then have "c \<in> set s" using str_rfind_None [of c s] by auto
    have "(\<exists>p q. s = p @ c # q \<and> c \<notin> set q \<and> byte_len (d # p) = n) \<longleftrightarrow>
        (\<exists>k. (\<exists>p q. s = p @ c # q \<and> c \<notin> set q \<and> byte_len p = k) \<and> len_utf8 d + k = n)"
      by auto
    also have "\<dots> \<longleftrightarrow> len_utf8 d + m = n"
      unfolding Cons [symmetric] using Some by simp
    finally show ?thesis unfolding ex_split_Cons using Some \<open>c \<in> set s\<close> by simp
  qed
qed simp

lemma floor_char_boundary_boundary [simp, intro]: "is_char_boundary s (floor_char_boundary s n)"
  by (induction n) simp_all

lemma floor_char_boundary_le: "floor_char_boundary s n \<le> n"
  by (induction n) (simp_all add: le_SucI)

lemma floor_char_boundary_id: "is_char_boundary s n \<Longrightarrow> floor_char_boundary s n = n"
  by (cases n) simp_all

text \<open>The byte before an offset tells the character before it, when it is ASCII.\<close>

lemma last_byte_ascii:
  assumes "slice_get (as_bytes (x @ y)) (byte_len x - 1) = Some b" and "b < 128" and "x \<noteq> []"
  shows "last x = b"
proof -
  from assms(3) obtain x' c where x: "x = x' @ [c]" by (cases x rule: rev_cases) auto
  have "slice_get (as_bytes (x @ y)) (byte_len x - 1) = slice_get (encode_utf8 c) (len_utf8 c - 1)"
    using gr0_implies_Suc [OF len_utf8_pos [of c]]
    by (auto simp: x as_bytes_append slice_get_append)
  with assms(1) have "b \<in> set (encode_utf8 c)" by (simp add: slice_get_in_set)
  with assms(2) have "c < 128" using encode_utf8_high [of c b] by linarith
  with \<open>b \<in> set (encode_utf8 c)\<close> have "c = b" by (simp add: encode_utf8_def)
  then show ?thesis by (simp add: x)
qed

lemma last_byte_of_ascii:
  "x = x' @ [b] \<Longrightarrow> b < 128 \<Longrightarrow> slice_get (as_bytes (x @ y)) (byte_len x - 1) = Some b"
  by (simp add: as_bytes_append slice_get_append encode_utf8_def)

text \<open>The text of the line, without a final carriage return.\<close>

definition strip_cr :: "ustr \<Rightarrow> ustr" where
  "strip_cr line = (if line \<noteq> [] \<and> last line = 13 then butlast line else line)"

lemma snippet_line_end_eq:
  assumes "source = A @ l @ r @ T" and "10 \<notin> set r" and "T = [] \<or> hd T = 10"
  shows "snippet_line_end source (byte_len (A @ l)) (byte_len A) (r @ T) =
    byte_len (A @ strip_cr (l @ r))"
proof -
  have find: "(case str_find (cp (CHR 0x0A)) (r @ T) of None \<Rightarrow> byte_len source
      | Some offset \<Rightarrow> byte_len (A @ l) + offset) = byte_len (A @ l @ r)"
  proof (cases T)
    case Nil
    moreover from assms(2) have "str_find 10 r = None" by (simp add: str_find_None)
    ultimately show ?thesis using assms(1) by simp
  next
    case (Cons c T')
    with assms(2,3) have "str_find 10 (r @ T) = Some (byte_len r)"
      by (auto simp: str_find_Some)
    then show ?thesis by simp
  qed
  have unfold: "snippet_line_end source (byte_len (A @ l)) (byte_len A) (r @ T) =
    (let line_end = byte_len (A @ l @ r)
     in if line_end > byte_len A \<and> slice_get (as_bytes source) (line_end - 1) = Some 13
        then line_end - 1 else line_end)"
    unfolding snippet_line_end_def find ..
  show ?thesis
  proof (cases "l @ r = []")
    case True
    then show ?thesis unfolding unfold by (simp add: strip_cr_def)
  next
    case False
    then obtain m c where lr: "l @ r = m @ [c]" by (cases "l @ r" rule: rev_cases) auto
    have len: "byte_len (A @ l @ r) = byte_len (A @ m @ [c])" by (simp only: lr)
    have src: "source = (A @ m @ [c]) @ T" using assms(1) lr by simp
    have cr: "slice_get (as_bytes source) (byte_len (A @ m @ [c]) - 1) = Some 13 \<longleftrightarrow> c = 13"
      using last_byte_ascii [of "A @ m @ [c]" T 13]
        last_byte_of_ascii [of "A @ m @ [c]" "A @ m" 13 T]
      by (auto simp: src simp del: append_assoc)
    have "byte_len A < byte_len (A @ m @ [c])" by (simp add: trans_less_add2)
    then show ?thesis unfolding unfold len using cr
      by (simp add: Let_def lr strip_cr_def)
  qed
qed

text \<open>Every boundary of a text lies on one of its lines.\<close>

lemma line_decomposition:
  fixes before after :: ustr
  obtains A l r T where "before = A @ l" and "after = r @ T"
    and "10 \<notin> set (l @ r)" and "A = [] \<or> last A = 10" and "T = [] \<or> hd T = 10"
proof -
  have "\<exists>A l. before = A @ l \<and> 10 \<notin> set l \<and> (A = [] \<or> last A = 10)"
  proof (cases "10 \<in> set before")
    case True
    then obtain p q where "before = p @ 10 # q" "10 \<notin> set q" by (meson split_list_last)
    then have "before = (p @ [10]) @ q \<and> 10 \<notin> set q \<and> last (p @ [10]) = 10" by simp
    then show ?thesis by blast
  next
    case False
    then have "before = [] @ before \<and> 10 \<notin> set before" by simp
    then show ?thesis by blast
  qed
  moreover have "\<exists>r T. after = r @ T \<and> 10 \<notin> set r \<and> (T = [] \<or> hd T = 10)"
  proof (cases "10 \<in> set after")
    case True
    then obtain p q where "after = p @ 10 # q" "10 \<notin> set p" by (meson split_list_first)
    then have "after = p @ (10 # q) \<and> 10 \<notin> set p \<and> hd (10 # q) = 10" by simp
    then show ?thesis by blast
  next
    case False
    then have "after = after @ [] \<and> 10 \<notin> set after" by simp
    then show ?thesis by blast
  qed
  ultimately show ?thesis using that by auto
qed

lemma line_start_eq:
  assumes "10 \<notin> set l" and "A = [] \<or> last A = 10"
  shows "(case str_rfind (cp (CHR 0x0A)) (A @ l) of None \<Rightarrow> 0 | Some index \<Rightarrow> index + 1) = byte_len A"
proof (cases A rule: rev_cases)
  case Nil
  moreover from assms(1) have "str_rfind 10 l = None" by (simp add: str_rfind_None)
  ultimately show ?thesis by simp
next
  case (snoc A' c)
  with assms have "str_rfind 10 (A @ l) = Some (byte_len A')"
    by (auto simp: str_rfind_Some)
  then show ?thesis using snoc assms by simp
qed

lemma count_newlines: "length (filter (\<lambda>b. b = 10) (as_bytes s)) = count_list s 10"
proof (induction s)
  case (Cons c s)
  have "filter (\<lambda>b. b = 10) (encode_utf8 c) = (if c = 10 then [10] else [])"
  proof (cases "c < 128")
    case True
    then show ?thesis by (simp add: encode_utf8_def)
  next
    case False
    then have "\<forall>b\<in>set (encode_utf8 c). b \<noteq> 10" using encode_utf8_high [of c] by fastforce
    with False show ?thesis by (simp add: filter_empty_conv)
  qed
  with Cons show ?case by simp
qed simp

section \<open>What a snippet shows\<close>

lemma byte_len_split_unique:
  "p @ x = q @ y \<Longrightarrow> byte_len p = byte_len q \<Longrightarrow> p = q \<and> x = y"
  by (metis option.inject prod.inject split_at_byte_append)

lemma str_get_prefix:
  assumes "str_get (P @ M @ Q) (byte_len P) e = Some m" and "e \<le> byte_len P + byte_len M"
  obtains k where "M = m @ k"
proof -
  from assms(1) obtain p q where pq: "P @ M @ Q = p @ m @ q" "byte_len p = byte_len P"
    "byte_len P + byte_len m = e"
    unfolding str_get_Some_iff by blast
  from byte_len_split_unique [OF pq(1)] pq(2) have MQ: "M @ Q = m @ q" by simp
  from pq(3) assms(2) have le: "byte_len m \<le> byte_len M" by simp
  from MQ obtain us where "M = m @ us \<or> m = M @ us \<and> Q = us @ q"
    by (auto simp: append_eq_append_conv2)
  then show ?thesis
  proof
    assume "m = M @ us \<and> Q = us @ q"
    with le have "M = m @ []" by simp
    then show ?thesis by (rule that)
  qed (rule that)
qed

lemma boundary_max_min:
  assumes "is_char_boundary s a" and "is_char_boundary s b"
  shows "is_char_boundary s (max a b)" and "is_char_boundary s (min a b)"
  using assms by (simp_all add: max_def min_def)

lemma strip_cr_append: "strip_cr (l @ r) = (if r = [] then strip_cr l else l @ strip_cr r)"
  by (simp add: strip_cr_def butlast_append)

lemma strip_cr_prefix: "\<exists>rest. line = strip_cr line @ rest"
  by (cases line rule: rev_cases) (auto simp: strip_cr_def)

text \<open>
  A snippet of a start that lies on the line \<open>l @ r\<close>, after the text \<open>A\<close> of the earlier lines.
\<close>

lemma make_snippet_on_line:
  assumes src: "source = A @ l @ r @ T" and nonl: "10 \<notin> set (l @ r)"
    and A: "A = [] \<or> last A = 10" and T: "T = [] \<or> hd T = 10"
    and start: "floor_char_boundary source (min (span_start s) (byte_len source)) = byte_len (A @ l)"
  obtains snip marked rest where "make_snippet source s = Some snip"
    and "snip_line_number snip = count_list A 10 + 1"
    and "snip_line snip = expand_tabs (strip_cr (l @ r))"
    and "snip_marker_start snip = display_width (if r = [] then strip_cr l else l)"
    and "snip_column snip = snip_marker_start snip + 1"
    and "snip_marker_len snip = max (display_width marked) 1"
    and "strip_cr (l @ r) = (if r = [] then strip_cr l else l) @ marked @ rest"
proof -
  define req where "req = floor_char_boundary source (min (span_end s) (byte_len source))"
  define left where "left = (if r = [] then strip_cr l else l)"
  define line where "line = strip_cr (l @ r)"
  obtain tail where tail: "l @ r = line @ tail" using strip_cr_prefix line_def by blast
  have "line = left @ (if r = [] then [] else strip_cr r)"
    by (simp add: line_def left_def strip_cr_append)
  then obtain right where right: "line = left @ right" by blast
  have src_line: "source = A @ line @ tail @ T" using src tail by simp
  have src_left: "source = (A @ left) @ right @ (tail @ T)" using src_line right by simp
  have get_before: "str_get source 0 (byte_len (A @ l)) = Some (A @ l)"
    using src str_get_middle [of "[]" "A @ l" "r @ T"] by (simp add: add.assoc)
  have get_after: "str_get source (byte_len (A @ l)) (byte_len source) = Some (r @ T)"
    using src str_get_middle [of "A @ l" "r @ T" "[]"] by (simp add: add.assoc)
  have le: "snippet_line_end source (byte_len (A @ l)) (byte_len A) (r @ T) = byte_len (A @ line)"
    using snippet_line_end_eq [OF src _ T] nonl by (simp add: line_def)
  have ls: "(case str_rfind (cp (CHR 0x0A)) (A @ l) of None \<Rightarrow> 0 | Some index \<Rightarrow> index + 1) = byte_len A"
    using line_start_eq [of l A] nonl A by simp
  have cnt: "length (filter (\<lambda>b. b = 10) (as_bytes (A @ l))) + 1 = count_list A 10 + 1"
    using nonl by (simp add: count_newlines count_list_append)
  have vs: "min (byte_len (A @ l)) (byte_len (A @ line)) = byte_len (A @ left)"
  proof (cases "r = []")
    case True
    obtain k where "l = strip_cr l @ k" using strip_cr_prefix by blast
    then have "byte_len (strip_cr l) \<le> byte_len l" by (metis byte_len_append le_add1)
    with True show ?thesis by (simp add: left_def line_def)
  qed (simp add: left_def line_def strip_cr_append)
  define ve where "ve = max (min req (byte_len (A @ line))) (byte_len (A @ left))"
  have "is_char_boundary source (byte_len (A @ line))" "is_char_boundary source (byte_len (A @ left))"
    using src_line src_left by (metis append_assoc is_char_boundary_append)+
  then have "is_char_boundary source ve" "byte_len (A @ left) \<le> ve"
    unfolding ve_def req_def by (auto intro!: boundary_max_min)
  then obtain marked where get_marked: "str_get source (byte_len (A @ left)) ve = Some marked"
    using str_get_is_Some_iff \<open>is_char_boundary source (byte_len (A @ left))\<close> by blast
  have "ve \<le> byte_len (A @ left) + byte_len right"
    using right by (simp add: ve_def)
  then obtain rest where rest: "right = marked @ rest"
    using str_get_prefix [of "A @ left" right "tail @ T" ve marked] get_marked src_left by auto
  have get_left: "str_get source (byte_len A) (byte_len (A @ left)) = Some left"
    using src_left str_get_middle [of A left "right @ tail @ T"] by (simp add: add.assoc)
  have get_line: "str_get source (byte_len A) (byte_len (A @ line)) = Some line"
    using src_line str_get_middle [of A line "tail @ T"] by (simp add: add.assoc)
  have "make_snippet source s = Some \<lparr>snip_line_number = count_list A 10 + 1,
      snip_column = display_width left + 1, snip_line = expand_tabs line,
      snip_marker_start = display_width left, snip_marker_len = max (display_width marked) 1,
      snip_continues = req > byte_len (A @ line)\<rparr>"
    unfolding make_snippet_def start req_def [symmetric] Let_def get_before get_after
      prod.case option.case ls le vs cnt ve_def [symmetric] get_left get_marked get_line ..
  then show ?thesis
    by (rule that) (simp_all add: left_def line_def rest right [unfolded line_def left_def])
qed

lemma snippet_on_some_line:
  obtains A l r T where "source = A @ l @ r @ T" and "10 \<notin> set (l @ r)"
    and "A = [] \<or> last A = 10" and "T = [] \<or> hd T = 10"
    and "floor_char_boundary source (min n (byte_len source)) = byte_len (A @ l)"
proof -
  obtain before after where split: "source = before @ after"
    and len: "byte_len before = floor_char_boundary source (min n (byte_len source))"
    using floor_char_boundary_boundary unfolding is_char_boundary_iff by metis
  obtain A l r T where "before = A @ l" "after = r @ T" "10 \<notin> set (l @ r)"
    "A = [] \<or> last A = 10" "T = [] \<or> hd T = 10"
    by (rule line_decomposition)
  then show ?thesis using that [of A l r T] split len by simp
qed

lemma make_snippet_total: "\<exists>snip. make_snippet source s = Some snip"
proof -
  obtain A l r T where "source = A @ l @ r @ T" "10 \<notin> set (l @ r)"
    "A = [] \<or> last A = 10" "T = [] \<or> hd T = 10"
    "floor_char_boundary source (min (span_start s) (byte_len source)) = byte_len (A @ l)"
    by (rule snippet_on_some_line)
  then show ?thesis by (rule make_snippet_on_line) blast
qed

lemma render_labels_total: "\<exists>out. render_labels source ls = Some out"
proof (induction ls)
  case (Cons l ls)
  then show ?case using make_snippet_total [of source "label_span l"] by auto
qed simp

lemma render_one_total: "\<exists>out'. render_one out source d = Some out'"
  using make_snippet_total [of source "diag_span d"]
    render_labels_total [of source "secondary_labels d"]
  by (auto simp: render_one_def)

lemma render_all_total: "\<exists>out'. render_all out source i ds = Some out'"
proof (induction ds arbitrary: out i)
  case (Cons d ds)
  obtain out' where "render_one (if i \<noteq> 0 then out @ nl @ nl else out) source d = Some out'"
    using render_one_total by blast
  with Cons show ?case by simp
qed simp

text \<open>
  C36: rendering never panics: for every source, every collection of diagnostics and whatever spans
  they carry (reversed, out of range or inside a code point), each slice the renderer takes is at
  character boundaries.
\<close>

theorem render_never_panics:
  "(\<exists>out. parse_errors_render e source = Some out) \<and> (\<exists>out. diagnostic_render d source = Some out)"
  by (simp add: parse_errors_render_def diagnostic_render_def render_all_total render_one_total)

text \<open>
  the snippet of a span that starts after \<open>l\<close> on the line \<open>l @ r\<close>: the line number counts the
  newlines before it, the line shown is that line with tabs expanded and without its carriage
  return, and the column is one more than the display width of \<open>l\<close>.
\<close>

theorem snippet_locates:
  assumes "source = A @ l @ r @ T" and "10 \<notin> set (l @ r)"
    and "A = [] \<or> last A = 10" and "T = [] \<or> hd T = 10"
    and "r \<noteq> []" and "span_start s = byte_len (A @ l)"
  shows "\<exists>snip. make_snippet source s = Some snip \<and>
    snip_line_number snip = count_list A 10 + 1 \<and>
    snip_column snip = display_width l + 1 \<and>
    snip_line snip = expand_tabs (strip_cr (l @ r))"
proof -
  have "is_char_boundary source (byte_len (A @ l))"
    using assms(1) by (metis append_assoc is_char_boundary_append)
  then have "floor_char_boundary source (min (span_start s) (byte_len source)) = byte_len (A @ l)"
    using assms(1,6) by (simp add: floor_char_boundary_id)
  then obtain snip where "make_snippet source s = Some snip"
    "snip_line_number snip = count_list A 10 + 1"
    "snip_line snip = expand_tabs (strip_cr (l @ r))"
    "snip_marker_start snip = display_width (if r = [] then strip_cr l else l)"
    "snip_column snip = snip_marker_start snip + 1"
    using make_snippet_on_line [OF assms(1-4)] by metis
  with assms(5) show ?thesis by simp
qed

lemma snippet_locates_witness:
  "\<exists>snip. make_snippet (ascii ''a'' @ nl @ ascii ''bcd'') (mk_span 3 4) = Some snip \<and>
    snip_line_number snip = 2 \<and> snip_column snip = 2 \<and> snip_line snip = ascii ''bcd''"
  using snippet_locates [of "ascii ''a'' @ nl @ ascii ''bcd''" "ascii ''a'' @ nl" "ascii ''b''"
      "ascii ''cd''" "[]" "mk_span 3 4"]
  by (simp add: display_width_def expand_tabs_def strip_cr_def numeral_2_eq_2)

text \<open>
  on a text without tabs the marker never runs past the line, except for the one column it
  always takes.
\<close>

theorem marker_within_line:
  assumes "cp (CHR 0x09) \<notin> set source" and "make_snippet source s = Some snip"
  shows "snip_marker_start snip + snip_marker_len snip \<le>
    max (length (snip_line snip)) (snip_marker_start snip + 1)"
proof -
  obtain A l r T where d: "source = A @ l @ r @ T" "10 \<notin> set (l @ r)"
    "A = [] \<or> last A = 10" "T = [] \<or> hd T = 10"
    "floor_char_boundary source (min (span_start s) (byte_len source)) = byte_len (A @ l)"
    by (rule snippet_on_some_line)
  obtain snip' marked rest where s: "make_snippet source s = Some snip'"
    "snip_line snip' = expand_tabs (strip_cr (l @ r))"
    "snip_marker_start snip' = display_width (if r = [] then strip_cr l else l)"
    "snip_marker_len snip' = max (display_width marked) 1"
    "strip_cr (l @ r) = (if r = [] then strip_cr l else l) @ marked @ rest"
    by (rule make_snippet_on_line [OF d]) blast
  have "set (strip_cr (l @ r)) \<subseteq> set (l @ r)"
    by (metis strip_cr_prefix set_append Un_upper1)
  then have "9 \<notin> set (strip_cr (l @ r))" using assms(1) d(1) by auto
  then have no_tab: "9 \<notin> set (if r = [] then strip_cr l else l)" "9 \<notin> set marked" "9 \<notin> set rest"
    unfolding s(5) by simp_all
  have "length (snip_line snip') = length (strip_cr (l @ r))"
    using \<open>9 \<notin> set (strip_cr (l @ r))\<close>
    by (simp add: s(2) length_expand_tabs display_width_def display_width_no_tab)
  then show ?thesis
    using assms(2) s(1,3,4) no_tab unfolding s(5)
    by (simp add: display_width_def display_width_no_tab)
qed

lemma marker_within_line_witness:
  "\<exists>snip. make_snippet (ascii ''ab'') (mk_span 0 2) = Some snip \<and>
    snip_marker_start snip + snip_marker_len snip \<le>
      max (length (snip_line snip)) (snip_marker_start snip + 1)"
proof -
  obtain snip where "make_snippet (ascii ''ab'') (mk_span 0 2) = Some snip"
    using make_snippet_total by blast
  moreover have "cp (CHR 0x09) \<notin> set (ascii ''ab'')" by simp
  ultimately show ?thesis using marker_within_line [of "ascii ''ab''"] by blast
qed

text \<open>
  With a tab inside the marked text the bound fails: the width of the marked text is measured as if
  it began in column 0.
\<close>

lemma marker_overruns_tab:
  "map_option (\<lambda>snip. (length (snip_line snip), snip_marker_start snip + snip_marker_len snip))
     (make_snippet (ascii ''a'' @ [9]) (mk_span 1 2)) = Some (4, 5)"
  by code_simp

end
