(* ===== verification/Tokens.thy ===== *)
theory Tokens
  imports Spans
begin

text \<open>
  \<open>src/token.rs\<close>: the keywords, the token kinds and the tokens of the lexer. Constructors carry
  the prefix of their Rust type (\<open>Kw_\<close> for \<open>Keyword\<close>, \<open>T_\<close> for \<open>TokenKind\<close>) because the two
  enumerations share names with each other and with HOL.
\<close>

section \<open>Keywords\<close>

datatype (plugins only: code size) keyword =
    Kw_Acyclic | Kw_All | Kw_AllShortestPaths | Kw_And | Kw_Any | Kw_As | Kw_Asc | Kw_Ascending
  | Kw_By | Kw_Call | Kw_Case | Kw_Collect | Kw_Contains | Kw_Count | Kw_Create | Kw_Delete
  | Kw_Desc | Kw_Descending | Kw_Detach | Kw_Distinct | Kw_Else | Kw_End | Kw_Ends | Kw_Exists
  | Kw_False | Kw_Group | Kw_Groups | Kw_In | Kw_Inf | Kw_Infinity | Kw_Is | Kw_Limit
  | Kw_Match | Kw_Merge | Kw_Nan | Kw_None | Kw_Not | Kw_Null | Kw_Offset | Kw_On
  | Kw_Optional | Kw_Or | Kw_Order | Kw_Path | Kw_Paths | Kw_Reduce | Kw_Remove | Kw_Return
  | Kw_Set | Kw_Shortest | Kw_ShortestPath | Kw_Simple | Kw_Single | Kw_Skip | Kw_Starts
  | Kw_Then | Kw_Trail | Kw_Trim | Kw_True | Kw_Union | Kw_Unwind | Kw_Walk | Kw_When
  | Kw_Where | Kw_With | Kw_Xor | Kw_Yield

text \<open>\<open>Keyword::as_str\<close>: the canonical upper-case spelling.\<close>

primrec keyword_as_str :: "keyword \<Rightarrow> ustr" where
  "keyword_as_str Kw_Acyclic = ascii ''ACYCLIC''"
| "keyword_as_str Kw_All = ascii ''ALL''"
| "keyword_as_str Kw_AllShortestPaths = ascii ''ALLSHORTESTPATHS''"
| "keyword_as_str Kw_And = ascii ''AND''"
| "keyword_as_str Kw_Any = ascii ''ANY''"
| "keyword_as_str Kw_As = ascii ''AS''"
| "keyword_as_str Kw_Asc = ascii ''ASC''"
| "keyword_as_str Kw_Ascending = ascii ''ASCENDING''"
| "keyword_as_str Kw_By = ascii ''BY''"
| "keyword_as_str Kw_Call = ascii ''CALL''"
| "keyword_as_str Kw_Case = ascii ''CASE''"
| "keyword_as_str Kw_Collect = ascii ''COLLECT''"
| "keyword_as_str Kw_Contains = ascii ''CONTAINS''"
| "keyword_as_str Kw_Count = ascii ''COUNT''"
| "keyword_as_str Kw_Create = ascii ''CREATE''"
| "keyword_as_str Kw_Delete = ascii ''DELETE''"
| "keyword_as_str Kw_Desc = ascii ''DESC''"
| "keyword_as_str Kw_Descending = ascii ''DESCENDING''"
| "keyword_as_str Kw_Detach = ascii ''DETACH''"
| "keyword_as_str Kw_Distinct = ascii ''DISTINCT''"
| "keyword_as_str Kw_Else = ascii ''ELSE''"
| "keyword_as_str Kw_End = ascii ''END''"
| "keyword_as_str Kw_Ends = ascii ''ENDS''"
| "keyword_as_str Kw_Exists = ascii ''EXISTS''"
| "keyword_as_str Kw_False = ascii ''FALSE''"
| "keyword_as_str Kw_Group = ascii ''GROUP''"
| "keyword_as_str Kw_Groups = ascii ''GROUPS''"
| "keyword_as_str Kw_In = ascii ''IN''"
| "keyword_as_str Kw_Inf = ascii ''INF''"
| "keyword_as_str Kw_Infinity = ascii ''INFINITY''"
| "keyword_as_str Kw_Is = ascii ''IS''"
| "keyword_as_str Kw_Limit = ascii ''LIMIT''"
| "keyword_as_str Kw_Match = ascii ''MATCH''"
| "keyword_as_str Kw_Merge = ascii ''MERGE''"
| "keyword_as_str Kw_Nan = ascii ''NAN''"
| "keyword_as_str Kw_None = ascii ''NONE''"
| "keyword_as_str Kw_Not = ascii ''NOT''"
| "keyword_as_str Kw_Null = ascii ''NULL''"
| "keyword_as_str Kw_Offset = ascii ''OFFSET''"
| "keyword_as_str Kw_On = ascii ''ON''"
| "keyword_as_str Kw_Optional = ascii ''OPTIONAL''"
| "keyword_as_str Kw_Or = ascii ''OR''"
| "keyword_as_str Kw_Order = ascii ''ORDER''"
| "keyword_as_str Kw_Path = ascii ''PATH''"
| "keyword_as_str Kw_Paths = ascii ''PATHS''"
| "keyword_as_str Kw_Reduce = ascii ''REDUCE''"
| "keyword_as_str Kw_Remove = ascii ''REMOVE''"
| "keyword_as_str Kw_Return = ascii ''RETURN''"
| "keyword_as_str Kw_Set = ascii ''SET''"
| "keyword_as_str Kw_Shortest = ascii ''SHORTEST''"
| "keyword_as_str Kw_ShortestPath = ascii ''SHORTESTPATH''"
| "keyword_as_str Kw_Simple = ascii ''SIMPLE''"
| "keyword_as_str Kw_Single = ascii ''SINGLE''"
| "keyword_as_str Kw_Skip = ascii ''SKIP''"
| "keyword_as_str Kw_Starts = ascii ''STARTS''"
| "keyword_as_str Kw_Then = ascii ''THEN''"
| "keyword_as_str Kw_Trail = ascii ''TRAIL''"
| "keyword_as_str Kw_Trim = ascii ''TRIM''"
| "keyword_as_str Kw_True = ascii ''TRUE''"
| "keyword_as_str Kw_Union = ascii ''UNION''"
| "keyword_as_str Kw_Unwind = ascii ''UNWIND''"
| "keyword_as_str Kw_Walk = ascii ''WALK''"
| "keyword_as_str Kw_When = ascii ''WHEN''"
| "keyword_as_str Kw_Where = ascii ''WHERE''"
| "keyword_as_str Kw_With = ascii ''WITH''"
| "keyword_as_str Kw_Xor = ascii ''XOR''"
| "keyword_as_str Kw_Yield = ascii ''YIELD''"

text \<open>
  \<open>Keyword::from_ascii_case_insensitive\<close>: the candidates are selected by the length of the text,
  and the first one that matches regardless of ASCII case is returned.
\<close>

definition keyword_candidates :: "nat \<Rightarrow> keyword list option" where
  "keyword_candidates n =
     (if n = 2 then Some
        [Kw_As, Kw_By, Kw_In, Kw_Is, Kw_On, Kw_Or]
      else if n = 3 then Some
        [Kw_All, Kw_And, Kw_Any, Kw_Asc, Kw_End, Kw_Inf, Kw_Nan, Kw_Not, Kw_Set,
         Kw_Xor]
      else if n = 4 then Some
        [Kw_Call, Kw_Case, Kw_Desc, Kw_Else, Kw_Ends, Kw_None, Kw_Null, Kw_Path,
         Kw_Skip, Kw_Then, Kw_Trim, Kw_True, Kw_Walk, Kw_When, Kw_With]
      else if n = 5 then Some
        [Kw_Count, Kw_False, Kw_Group, Kw_Limit, Kw_Match, Kw_Merge, Kw_Order,
         Kw_Paths, Kw_Trail, Kw_Union, Kw_Where, Kw_Yield]
      else if n = 6 then Some
        [Kw_Create, Kw_Delete, Kw_Detach, Kw_Exists, Kw_Groups, Kw_Offset,
         Kw_Reduce, Kw_Remove, Kw_Return, Kw_Simple, Kw_Single, Kw_Starts,
         Kw_Unwind]
      else if n = 7 then Some
        [Kw_Acyclic, Kw_Collect]
      else if n = 8 then Some
        [Kw_Contains, Kw_Distinct, Kw_Optional, Kw_Shortest, Kw_Infinity]
      else if n = 9 then Some
        [Kw_Ascending]
      else if n = 10 then Some
        [Kw_Descending]
      else if n = 12 then Some
        [Kw_ShortestPath]
      else if n = 16 then Some
        [Kw_AllShortestPaths]
      else None)"

definition from_ascii_case_insensitive :: "ustr \<Rightarrow> keyword option" where
  "from_ascii_case_insensitive text =
     (if \<not> is_ascii text then None
      else case keyword_candidates (byte_len text) of
        None \<Rightarrow> None
      | Some candidates \<Rightarrow>
          find (\<lambda>k. eq_ignore_ascii_case text (keyword_as_str k)) candidates)"

section \<open>Token kinds and tokens\<close>

datatype (plugins only: code size) token_kind =
    T_Keyword keyword
  | T_Identifier | T_EscapedIdentifier | T_Parameter | T_Integer | T_HexInteger | T_OctalInteger
  | T_Float | T_String | T_LeftParen | T_RightParen | T_LeftBracket | T_RightBracket
  | T_LeftBrace | T_RightBrace | T_Comma | T_Dot | T_DotDot | T_Colon | T_DoubleColon
  | T_Semicolon | T_Pipe | T_DoublePipe | T_Ampersand | T_Question | T_Dollar | T_Plus
  | T_Minus | T_Star | T_Slash | T_Percent | T_Caret | T_Bang | T_Equal | T_NotEqual | T_Less
  | T_LessEqual | T_Greater | T_GreaterEqual | T_PlusEqual | T_FatArrow | T_RegexMatch
  | T_LeftArrow | T_RightArrow | T_Whitespace | T_LineComment | T_BlockComment | T_Invalid

record token =
  token_kind :: token_kind
  token_span :: span

text \<open>\<open>TokenKind::is_trivia\<close>, \<open>Token::is_trivia\<close>.\<close>

definition kind_is_trivia :: "token_kind \<Rightarrow> bool" where
  "kind_is_trivia k = (case k of
     T_Whitespace \<Rightarrow> True | T_LineComment \<Rightarrow> True | T_BlockComment \<Rightarrow> True | _ \<Rightarrow> False)"

definition token_is_trivia :: "token \<Rightarrow> bool" where
  "token_is_trivia t = kind_is_trivia (token_kind t)"

definition kind_is_literal :: "token_kind \<Rightarrow> bool" where
  "kind_is_literal k = (case k of
     T_Integer \<Rightarrow> True | T_HexInteger \<Rightarrow> True | T_OctalInteger \<Rightarrow> True | T_Float \<Rightarrow> True
   | T_String \<Rightarrow> True
   | T_Keyword kw \<Rightarrow> (case kw of Kw_True \<Rightarrow> True | Kw_False \<Rightarrow> True | Kw_Null \<Rightarrow> True | _ \<Rightarrow> False)
   | _ \<Rightarrow> False)"

definition token_text :: "token \<Rightarrow> ustr \<Rightarrow> ustr option" where
  "token_text t source = span_text (token_span t) source"

text \<open>\<open>TokenKind::display_name\<close>.\<close>

primrec kind_display_name :: "token_kind \<Rightarrow> ustr" where
  "kind_display_name (T_Keyword kw) = keyword_as_str kw"
| "kind_display_name T_Identifier = ascii ''an identifier''"
| "kind_display_name T_EscapedIdentifier = ascii ''an escaped identifier''"
| "kind_display_name T_Parameter = ascii ''a parameter''"
| "kind_display_name T_Integer = ascii ''an integer''"
| "kind_display_name T_HexInteger = ascii ''a hexadecimal integer''"
| "kind_display_name T_OctalInteger = ascii ''an octal integer''"
| "kind_display_name T_Float = ascii ''a floating-point number''"
| "kind_display_name T_String = ascii ''a string''"
| "kind_display_name T_LeftParen = ascii ''`(`''"
| "kind_display_name T_RightParen = ascii ''`)`''"
| "kind_display_name T_LeftBracket = ascii ''`[`''"
| "kind_display_name T_RightBracket = ascii ''`]`''"
| "kind_display_name T_LeftBrace = ascii ''`{`''"
| "kind_display_name T_RightBrace = ascii ''`}`''"
| "kind_display_name T_Comma = ascii ''`,`''"
| "kind_display_name T_Dot = ascii ''`.`''"
| "kind_display_name T_DotDot = ascii ''`..`''"
| "kind_display_name T_Colon = ascii ''`:`''"
| "kind_display_name T_DoubleColon = ascii ''`::`''"
| "kind_display_name T_Semicolon = ascii ''`;`''"
| "kind_display_name T_Pipe = ascii ''`|`''"
| "kind_display_name T_DoublePipe = ascii ''`||`''"
| "kind_display_name T_Ampersand = ascii ''`&`''"
| "kind_display_name T_Question = ascii ''`?`''"
| "kind_display_name T_Dollar = ascii ''`$`''"
| "kind_display_name T_Plus = ascii ''`+`''"
| "kind_display_name T_Minus = ascii ''`-`''"
| "kind_display_name T_Star = ascii ''`*`''"
| "kind_display_name T_Slash = ascii ''`/`''"
| "kind_display_name T_Percent = ascii ''`%`''"
| "kind_display_name T_Caret = ascii ''`^`''"
| "kind_display_name T_Bang = ascii ''`!`''"
| "kind_display_name T_Equal = ascii ''`=`''"
| "kind_display_name T_NotEqual = ascii ''`<>` or `!=`''"
| "kind_display_name T_Less = ascii ''`<`''"
| "kind_display_name T_LessEqual = ascii ''`<=`''"
| "kind_display_name T_Greater = ascii ''`>`''"
| "kind_display_name T_GreaterEqual = ascii ''`>=`''"
| "kind_display_name T_PlusEqual = ascii ''`+=`''"
| "kind_display_name T_FatArrow = ascii ''`=>`''"
| "kind_display_name T_RegexMatch = ascii ''`=~`''"
| "kind_display_name T_LeftArrow = ascii ''`<-`''"
| "kind_display_name T_RightArrow = ascii ''`->`''"
| "kind_display_name T_Whitespace = ascii ''whitespace''"
| "kind_display_name T_LineComment = ascii ''a line comment''"
| "kind_display_name T_BlockComment = ascii ''a block comment''"
| "kind_display_name T_Invalid = ascii ''an invalid token''"

section \<open>Keyword recognition\<close>

text \<open>The spellings as lists of code points, and their byte lengths, computed once.\<close>

declare keyword_as_str.simps [simp del]

lemmas keyword_codes = keyword_as_str.simps [simplified]

lemma keyword_as_str_is_ascii [simp]: "is_ascii (keyword_as_str k)"
  by (cases k) (simp_all add: keyword_codes is_ascii_def is_ascii_char_def)

lemma keyword_as_str_upper [simp]: "map to_ascii_uppercase (keyword_as_str k) = keyword_as_str k"
  by (cases k) (simp_all add: keyword_codes to_ascii_uppercase_def)

lemma keyword_eq_ignore_case:
  "eq_ignore_ascii_case t (keyword_as_str k) \<longleftrightarrow> map to_ascii_uppercase t = keyword_as_str k"
  by (simp add: eq_ignore_ascii_case_def)

text \<open>Every keyword is a candidate for its own length: no entry of the table is missing.\<close>

lemma keyword_is_candidate:
  "\<exists>ks. keyword_candidates (byte_len (keyword_as_str k)) = Some ks \<and> k \<in> set ks"
  by (cases k) (simp_all add: keyword_codes keyword_candidates_def)

lemma keyword_candidates_distinct:
  "keyword_candidates n = Some ks \<Longrightarrow> distinct (map keyword_as_str ks)"
  by (auto simp: keyword_candidates_def keyword_codes split: if_splits)

lemma keyword_as_str_inject: "keyword_as_str a = keyword_as_str b \<longleftrightarrow> a = b"
proof
  assume eq: "keyword_as_str a = keyword_as_str b"
  obtain ks where "keyword_candidates (byte_len (keyword_as_str a)) = Some ks" "a \<in> set ks"
    using keyword_is_candidate by blast
  moreover from this eq have "b \<in> set ks" using keyword_is_candidate [of b] by auto
  ultimately show "a = b" using eq keyword_candidates_distinct by (auto simp: distinct_map dest: inj_onD)
qed simp

text \<open>At most one keyword matches a text, so the order of the candidates is irrelevant.\<close>

lemma keyword_match_unique:
  assumes "eq_ignore_ascii_case t (keyword_as_str a)"
    and "eq_ignore_ascii_case t (keyword_as_str b)"
  shows "a = b"
  using assms by (simp add: keyword_eq_ignore_case keyword_as_str_inject)

lemma find_unique:
  assumes "x \<in> set xs" and "P x" and "\<And>y. P y \<Longrightarrow> y = x"
  shows "find P xs = Some x"
  using assms(1)
proof (induction xs)
  case (Cons y ys)
  then show ?case using assms(2) assms(3) [of y] by (cases "P y") auto
qed simp

text \<open>
  C37: a text is recognised as the keyword \<open>k\<close> exactly when it is \<open>k\<close>'s canonical spelling up to
  ASCII case. In particular the length-indexed table misses no keyword and non-ASCII text is never
  a keyword.
\<close>

theorem keyword_recognition:
  "from_ascii_case_insensitive t = Some k \<longleftrightarrow> eq_ignore_ascii_case t (keyword_as_str k)"
proof
  assume "from_ascii_case_insensitive t = Some k"
  then show "eq_ignore_ascii_case t (keyword_as_str k)"
    by (auto simp: from_ascii_case_insensitive_def find_Some_iff split: if_splits option.splits)
next
  assume eq: "eq_ignore_ascii_case t (keyword_as_str k)"
  then have "is_ascii t" by (rule eq_ignore_ascii_case_is_ascii) simp
  moreover obtain ks where ks: "keyword_candidates (byte_len t) = Some ks" "k \<in> set ks"
    using keyword_is_candidate [of k] eq_ignore_ascii_case_byte_len [OF eq] by auto
  moreover have "find (\<lambda>k. eq_ignore_ascii_case t (keyword_as_str k)) ks = Some k"
    using ks(2) eq by (rule find_unique) (rule keyword_match_unique [OF _ eq])
  ultimately show "from_ascii_case_insensitive t = Some k"
    by (simp add: from_ascii_case_insensitive_def)
qed

end
