(* ===== verification/Lexer.thy ===== *)
theory Lexer
  imports Tokens Diagnostics
begin

text \<open>
  \<open>src/lexer.rs\<close>: the callbacks and the loop of \<open>lex\<close>.

  The automaton that finds the next pattern is generated by the third-party crate Logos; it is a
  parameter here, a function from the rest of the source to the pattern that matched (or none) and
  the number of characters it takes. What the lexer relies on is the locale \<open>raw_engine\<close>: a
  nonempty rest yields at least one character and never more than there are. Everything the source
  says itself is modelled: the callbacks that bump the automaton further, the byte positions, the
  diagnostics and the token kinds. Theory \<open>Logos_Engine\<close> gives an engine for the patterns the
  source declares.
\<close>

section \<open>Raw tokens and patterns\<close>

datatype (plugins only: code size) raw_token =
    RT_Whitespace | RT_LineComment | RT_BlockComment | RT_String | RT_EscapedIdentifier
  | RT_Parameter | RT_HexInteger | RT_OctalInteger | RT_Float | RT_Integer | RT_Word
  | RT_DoublePipe | RT_DoubleColon | RT_DotDot | RT_LessEqual | RT_GreaterEqual | RT_NotEqual
  | RT_PlusEqual | RT_FatArrow | RT_RegexMatch | RT_LeftArrow | RT_RightArrow | RT_LeftParen
  | RT_RightParen | RT_LeftBracket | RT_RightBracket | RT_LeftBrace | RT_RightBrace | RT_Comma
  | RT_Dot | RT_Colon | RT_Semicolon | RT_Pipe | RT_Ampersand | RT_Question | RT_Dollar
  | RT_Plus | RT_Minus | RT_Star | RT_Slash | RT_Percent | RT_Caret | RT_Bang | RT_Equal
  | RT_Less | RT_Greater

datatype lexing_error =
    LE_Invalid | LE_UnterminatedString | LE_UnterminatedIdentifier | LE_UnterminatedComment
  | LE_InvalidEscape

text \<open>A pattern without callback yields its raw token; the other four run a callback.\<close>

datatype raw_pattern =
    Pat_Plain raw_token | Pat_BlockComment | Pat_SingleQuote | Pat_DoubleQuote | Pat_Backtick

type_synonym engine = "ustr \<Rightarrow> raw_pattern option \<times> nat"

section \<open>Quoted text\<close>

text \<open>
  The loop over at most \<open>n\<close> hexadecimal digits: the scalar read so far, whether all digits were
  there, and the remaining characters (the offending character is only peeked at).
\<close>

fun take_hex :: "nat \<Rightarrow> nat \<Rightarrow> ustr \<Rightarrow> nat \<times> bool \<times> ustr" where
  "take_hex 0 scalar cs = (scalar, True, cs)"
| "take_hex (Suc n) scalar [] = (scalar, False, [])"
| "take_hex (Suc n) scalar (d # cs) =
     (case to_digit16 d of
        Some v \<Rightarrow> take_hex n (scalar * 16 + v) cs
      | None \<Rightarrow> (scalar, False, d # cs))"

lemma take_hex_suffix: "take_hex n k cs = (k', ok, rest) \<Longrightarrow> \<exists>p. cs = p @ rest"
  by (induction n k cs rule: take_hex.induct) (auto split: option.splits)

lemma take_hex_length: "take_hex n k cs = (k', ok, rest) \<Longrightarrow> length rest \<le> length cs"
  using take_hex_suffix [of n k cs k' ok rest] by auto

definition is_simple_escape :: "uchar \<Rightarrow> bool" where
  "is_simple_escape c = (c \<in> set (ascii [CHR 0x5C, CHR 0x27, CHR 0x22, CHR 0x60,
     CHR ''t'', CHR ''b'', CHR ''n'', CHR ''r'', CHR ''f'']))"

text \<open>
  \<open>consume_quoted\<close> after its opening delimiter: \<open>offset\<close> is the byte offset of the next character
  in the remainder, the result is the error, if any, and the number of bytes to bump.
\<close>

function consume_quoted_from ::
  "uchar \<Rightarrow> lexing_error \<Rightarrow> bool \<Rightarrow> nat \<Rightarrow> ustr \<Rightarrow> lexing_error option \<times> nat" where
  "consume_quoted_from delimiter unterminated invalid offset [] = (Some unterminated, offset)"
| "consume_quoted_from delimiter unterminated invalid offset (c # cs) =
     (if c = cp (CHR 0x5C) then
        (case cs of
           [] \<Rightarrow> consume_quoted_from delimiter unterminated invalid (offset + len_utf8 c) []
         | escaped # rest \<Rightarrow>
             (let offset' = offset + len_utf8 c + len_utf8 escaped in
              if is_simple_escape escaped then
                consume_quoted_from delimiter unterminated invalid offset' rest
              else if escaped = cp (CHR ''u'') \<or> escaped = cp (CHR ''U'') then
                (case take_hex (if escaped = cp (CHR ''u'') then 4 else 6) 0 rest of
                   (scalar, complete, rest') \<Rightarrow>
                     consume_quoted_from delimiter unterminated
                       (invalid \<or> \<not> complete \<or> char_from_u32 scalar = None)
                       (offset' + (byte_len rest - byte_len rest')) rest')
              else consume_quoted_from delimiter unterminated True offset' rest))
      else if c = delimiter then
        (if cs \<noteq> [] \<and> hd cs = delimiter
         then consume_quoted_from delimiter unterminated invalid
                (offset + len_utf8 c + len_utf8 (hd cs)) (tl cs)
         else (if invalid then Some LE_InvalidEscape else None, offset + len_utf8 c))
      else consume_quoted_from delimiter unterminated invalid (offset + len_utf8 c) cs)"
  by pat_completeness auto
termination
  by (relation "measure (\<lambda>(delimiter, unterminated, invalid, offset, cs). length cs)")
    (auto dest!: take_hex_length [OF sym])

definition consume_quoted :: "ustr \<Rightarrow> uchar \<Rightarrow> lexing_error \<Rightarrow> lexing_error option \<times> nat" where
  "consume_quoted remainder delimiter unterminated =
     consume_quoted_from delimiter unterminated False 0 remainder"

definition lex_single_string :: "ustr \<Rightarrow> lexing_error option \<times> nat" where
  "lex_single_string remainder = consume_quoted remainder (cp (CHR 0x27)) LE_UnterminatedString"

definition lex_double_string :: "ustr \<Rightarrow> lexing_error option \<times> nat" where
  "lex_double_string remainder = consume_quoted remainder (cp (CHR 0x22)) LE_UnterminatedString"

definition lex_escaped_identifier :: "ustr \<Rightarrow> lexing_error option \<times> nat" where
  "lex_escaped_identifier remainder =
     consume_quoted remainder (cp (CHR 0x60)) LE_UnterminatedIdentifier"

section \<open>Block comments\<close>

text \<open>
  \<open>lex_block_comment\<close> works on the bytes of the remainder: 47 is the slash, 42 the star. The loop
  stops when fewer than two bytes are left, and then bumps over the whole remainder.
\<close>

fun block_comment_from :: "nat \<Rightarrow> nat \<Rightarrow> nat list \<Rightarrow> lexing_error option \<times> nat" where
  "block_comment_from depth offset (a # b # bytes) =
     (if a = 47 \<and> b = 42 then block_comment_from (depth + 1) (offset + 2) bytes
      else if a = 42 \<and> b = 47 then
        (if depth - 1 = 0 then (None, offset + 2)
         else block_comment_from (depth - 1) (offset + 2) bytes)
      else block_comment_from depth (offset + 1) (b # bytes))"
| "block_comment_from depth offset bytes = (Some LE_UnterminatedComment, offset + length bytes)"

definition lex_block_comment :: "ustr \<Rightarrow> lexing_error option \<times> nat" where
  "lex_block_comment remainder = block_comment_from 1 0 (as_bytes remainder)"

section \<open>The lexer loop\<close>

text \<open>The callback of a pattern: its result and the number of bytes it bumps.\<close>

fun run_callback :: "raw_pattern \<Rightarrow> ustr \<Rightarrow> (lexing_error + raw_token) \<times> nat" where
  "run_callback (Pat_Plain raw) remainder = (Inr raw, 0)"
| "run_callback Pat_BlockComment remainder =
     (case lex_block_comment remainder of (e, n) \<Rightarrow>
        (case e of None \<Rightarrow> Inr RT_BlockComment | Some err \<Rightarrow> Inl err, n))"
| "run_callback Pat_SingleQuote remainder =
     (case lex_single_string remainder of (e, n) \<Rightarrow>
        (case e of None \<Rightarrow> Inr RT_String | Some err \<Rightarrow> Inl err, n))"
| "run_callback Pat_DoubleQuote remainder =
     (case lex_double_string remainder of (e, n) \<Rightarrow>
        (case e of None \<Rightarrow> Inr RT_String | Some err \<Rightarrow> Inl err, n))"
| "run_callback Pat_Backtick remainder =
     (case lex_escaped_identifier remainder of (e, n) \<Rightarrow>
        (case e of None \<Rightarrow> Inr RT_EscapedIdentifier | Some err \<Rightarrow> Inl err, n))"

text \<open>
  One call of the generated \<open>next\<close>: the result, the text of the lexeme and the rest of the source.
  \<open>Lexer::bump\<close> panics when it leaves the character boundaries.
\<close>

definition lexer_next :: "engine \<Rightarrow> ustr \<Rightarrow> ((lexing_error + raw_token) \<times> ustr \<times> ustr) panics" where
  "lexer_next engine source =
     (case engine source of (found, n) \<Rightarrow>
        (case found of
           None \<Rightarrow> Some (Inl LE_Invalid, take n source, drop n source)
         | Some pattern \<Rightarrow>
             (case run_callback pattern (drop n source) of (result, bump) \<Rightarrow>
                map_option (\<lambda>(bumped, rest). (result, take n source @ bumped, rest))
                  (split_at_byte (drop n source) bump))))"

primrec lexing_error_diagnostic :: "lexing_error \<Rightarrow> diagnostic_code \<times> ustr" where
  "lexing_error_diagnostic LE_Invalid = (DC_InvalidToken, ascii ''invalid openCypher token'')"
| "lexing_error_diagnostic LE_UnterminatedString =
     (DC_UnterminatedString, ascii ''unterminated string literal'')"
| "lexing_error_diagnostic LE_UnterminatedIdentifier =
     (DC_UnterminatedIdentifier, ascii ''unterminated escaped identifier'')"
| "lexing_error_diagnostic LE_UnterminatedComment =
     (DC_UnterminatedComment, ascii ''unterminated block comment'')"
| "lexing_error_diagnostic LE_InvalidEscape = (DC_InvalidEscape, ascii ''invalid escape sequence'')"

text \<open>The function \<open>token_kind\<close> of the source; \<open>Word\<close> looks the text up among the keywords.\<close>

primrec raw_token_kind :: "raw_token \<Rightarrow> ustr \<Rightarrow> token_kind" where
  "raw_token_kind RT_Whitespace text = T_Whitespace"
| "raw_token_kind RT_LineComment text = T_LineComment"
| "raw_token_kind RT_BlockComment text = T_BlockComment"
| "raw_token_kind RT_String text = T_String"
| "raw_token_kind RT_EscapedIdentifier text = T_EscapedIdentifier"
| "raw_token_kind RT_Parameter text = T_Parameter"
| "raw_token_kind RT_HexInteger text = T_HexInteger"
| "raw_token_kind RT_OctalInteger text = T_OctalInteger"
| "raw_token_kind RT_Float text = T_Float"
| "raw_token_kind RT_Integer text = T_Integer"
| "raw_token_kind RT_Word text =
     (case from_ascii_case_insensitive text of Some kw \<Rightarrow> T_Keyword kw | None \<Rightarrow> T_Identifier)"
| "raw_token_kind RT_DoublePipe text = T_DoublePipe"
| "raw_token_kind RT_DoubleColon text = T_DoubleColon"
| "raw_token_kind RT_DotDot text = T_DotDot"
| "raw_token_kind RT_LessEqual text = T_LessEqual"
| "raw_token_kind RT_GreaterEqual text = T_GreaterEqual"
| "raw_token_kind RT_NotEqual text = T_NotEqual"
| "raw_token_kind RT_PlusEqual text = T_PlusEqual"
| "raw_token_kind RT_FatArrow text = T_FatArrow"
| "raw_token_kind RT_RegexMatch text = T_RegexMatch"
| "raw_token_kind RT_LeftArrow text = T_LeftArrow"
| "raw_token_kind RT_RightArrow text = T_RightArrow"
| "raw_token_kind RT_LeftParen text = T_LeftParen"
| "raw_token_kind RT_RightParen text = T_RightParen"
| "raw_token_kind RT_LeftBracket text = T_LeftBracket"
| "raw_token_kind RT_RightBracket text = T_RightBracket"
| "raw_token_kind RT_LeftBrace text = T_LeftBrace"
| "raw_token_kind RT_RightBrace text = T_RightBrace"
| "raw_token_kind RT_Comma text = T_Comma"
| "raw_token_kind RT_Dot text = T_Dot"
| "raw_token_kind RT_Colon text = T_Colon"
| "raw_token_kind RT_Semicolon text = T_Semicolon"
| "raw_token_kind RT_Pipe text = T_Pipe"
| "raw_token_kind RT_Ampersand text = T_Ampersand"
| "raw_token_kind RT_Question text = T_Question"
| "raw_token_kind RT_Dollar text = T_Dollar"
| "raw_token_kind RT_Plus text = T_Plus"
| "raw_token_kind RT_Minus text = T_Minus"
| "raw_token_kind RT_Star text = T_Star"
| "raw_token_kind RT_Slash text = T_Slash"
| "raw_token_kind RT_Percent text = T_Percent"
| "raw_token_kind RT_Caret text = T_Caret"
| "raw_token_kind RT_Bang text = T_Bang"
| "raw_token_kind RT_Equal text = T_Equal"
| "raw_token_kind RT_Less text = T_Less"
| "raw_token_kind RT_Greater text = T_Greater"

record lex_outcome =
  lex_tokens :: "token list"
  lex_diagnostics :: "diagnostic list"

text \<open>
  The loop of \<open>lex\<close>: \<open>offset\<close> is the byte position of \<open>source\<close>, the rest that is still to be read.
  \<open>None\<close> stands for a panic and for a loop that never ends; \<open>lex_total\<close> excludes both.
\<close>

partial_function (option) lex_from ::
  "engine \<Rightarrow> nat \<Rightarrow> ustr \<Rightarrow> token list \<Rightarrow> diagnostic list \<Rightarrow> lex_outcome option" where
  "lex_from engine offset source tokens diagnostics =
     (if source = [] then Some \<lparr>lex_tokens = tokens, lex_diagnostics = diagnostics\<rparr>
      else Option.bind (lexer_next engine source) (\<lambda>(raw, text, rest).
        Option.bind (span_new offset (offset + byte_len text)) (\<lambda>sp.
          (case raw of
             Inr r \<Rightarrow>
               lex_from engine (offset + byte_len text) rest
                 (tokens @ [\<lparr>token_kind = raw_token_kind r text, token_span = sp\<rparr>]) diagnostics
           | Inl err \<Rightarrow>
               lex_from engine (offset + byte_len text) rest
                 (tokens @ [\<lparr>token_kind = T_Invalid, token_span = sp\<rparr>])
                 (diagnostics @ [diagnostic_error (fst (lexing_error_diagnostic err))
                    (snd (lexing_error_diagnostic err)) sp])))))"

declare lex_from.simps [code]

definition lex :: "engine \<Rightarrow> ustr \<Rightarrow> lex_outcome option" where
  "lex engine source = lex_from engine 0 source [] []"

section \<open>Callbacks stop at character boundaries\<close>

lemma consume_quoted_from_split:
  "consume_quoted_from delimiter unterminated invalid offset cs = (e, n) \<Longrightarrow>
     \<exists>p q. cs = p @ q \<and> n = offset + byte_len p"
proof (induction delimiter unterminated invalid offset cs arbitrary: e n
    rule: consume_quoted_from.induct)
  case (1 delimiter unterminated invalid offset)
  then show ?case by simp
next
  case (2 delimiter unterminated invalid offset c cs)
  have extend: "\<exists>p q. c # cs = p @ q \<and> n = offset + byte_len p"
    if "c # cs = pre @ rest" "k = offset + byte_len pre"
      "\<exists>p q. rest = p @ q \<and> n = k + byte_len p" for pre rest k
  proof -
    from that obtain p q where "rest = p @ q" "n = k + byte_len p" by blast
    with that(1,2) have "c # cs = (pre @ p) @ q \<and> n = offset + byte_len (pre @ p)" by simp
    then show ?thesis by blast
  qed
  consider (last) "c = 92" "cs = []"
    | (simple) escaped rest where "c = 92" "cs = escaped # rest" "is_simple_escape escaped"
    | (hex) escaped rest where "c = 92" "cs = escaped # rest" "\<not> is_simple_escape escaped"
        "escaped = 117 \<or> escaped = 85"
    | (bad) escaped rest where "c = 92" "cs = escaped # rest" "\<not> is_simple_escape escaped"
        "\<not> (escaped = 117 \<or> escaped = 85)"
    | (double) "c \<noteq> 92" "c = delimiter" "cs \<noteq> [] \<and> hd cs = delimiter"
    | (final) "c \<noteq> 92" "c = delimiter" "\<not> (cs \<noteq> [] \<and> hd cs = delimiter)"
    | (other) "c \<noteq> 92" "c \<noteq> delimiter"
    by (cases cs) auto
  then show ?case
  proof cases
    case last
    with 2 show ?thesis by (intro exI [of _ "[c]"] exI [of _ "[]"]) simp
  next
    case (simple escaped rest)
    with 2 have "\<exists>p q. rest = p @ q \<and> n = offset + len_utf8 c + len_utf8 escaped + byte_len p"
      by (simp add: Let_def)
    with simple show ?thesis
      by (intro extend [of "[c, escaped]" rest "offset + len_utf8 c + len_utf8 escaped"]) simp_all
  next
    case (hex escaped rest)
    obtain scalar complete rest' where
      th: "take_hex (if escaped = 117 then 4 else 6) 0 rest = (scalar, complete, rest')"
      by (cases "take_hex (if escaped = 117 then 4 else 6) 0 rest")
    then obtain digits where rest: "rest = digits @ rest'" using take_hex_suffix by blast
    from hex 2 th have "\<exists>p q. rest' = p @ q \<and>
        n = offset + len_utf8 c + len_utf8 escaped + (byte_len rest - byte_len rest') + byte_len p"
      by (simp add: Let_def)
    with hex rest show ?thesis
      by (intro extend [of "[c, escaped] @ digits" rest'
            "offset + len_utf8 c + len_utf8 escaped + (byte_len rest - byte_len rest')"]) simp_all
  next
    case (bad escaped rest)
    with 2 have "\<exists>p q. rest = p @ q \<and> n = offset + len_utf8 c + len_utf8 escaped + byte_len p"
      by (simp add: Let_def)
    with bad show ?thesis
      by (intro extend [of "[c, escaped]" rest "offset + len_utf8 c + len_utf8 escaped"]) simp_all
  next
    case double
    then obtain rest where cs: "cs = delimiter # rest" by (cases cs) auto
    with double 2 have "\<exists>p q. rest = p @ q \<and> n = offset + len_utf8 c + len_utf8 delimiter + byte_len p"
      by simp
    with double cs show ?thesis
      by (intro extend [of "[c, delimiter]" rest "offset + len_utf8 c + len_utf8 delimiter"]) simp_all
  next
    case final
    with 2 show ?thesis by (intro exI [of _ "[c]"] exI [of _ cs]) auto
  next
    case other
    with 2 have "\<exists>p q. cs = p @ q \<and> n = offset + len_utf8 c + byte_len p" by simp
    then show ?thesis by (intro extend [of "[c]" cs "offset + len_utf8 c"]) simp_all
  qed
qed

lemma consume_quoted_split:
  "consume_quoted s delimiter unterminated = (e, n) \<Longrightarrow> \<exists>p q. s = p @ q \<and> n = byte_len p"
  unfolding consume_quoted_def by (drule consume_quoted_from_split) simp

text \<open>The comment scanner over characters: the same automaton, without the encoding.\<close>

fun block_comment_chars :: "nat \<Rightarrow> nat \<Rightarrow> ustr \<Rightarrow> lexing_error option \<times> nat" where
  "block_comment_chars depth offset (c # d # cs) =
     (if c = 47 \<and> d = 42 then block_comment_chars (depth + 1) (offset + 2) cs
      else if c = 42 \<and> d = 47 then
        (if depth - 1 = 0 then (None, offset + 2)
         else block_comment_chars (depth - 1) (offset + 2) cs)
      else block_comment_chars depth (offset + len_utf8 c) (d # cs))"
| "block_comment_chars depth offset cs = (Some LE_UnterminatedComment, offset + byte_len cs)"

lemma block_comment_from_high:
  "\<forall>b\<in>set bs. 128 \<le> b \<Longrightarrow>
     block_comment_from depth offset (bs @ x # rest) =
     block_comment_from depth (offset + length bs) (x # rest)"
proof (induction bs arbitrary: offset)
  case (Cons b bs)
  obtain y ys where y: "bs @ x # rest = y # ys" by (cases "bs @ x # rest") auto
  from Cons.prems have "b \<noteq> 47" "b \<noteq> 42" by auto
  then have "block_comment_from depth offset ((b # bs) @ x # rest) =
      block_comment_from depth (offset + 1) (bs @ x # rest)"
    by (simp add: y)
  with Cons show ?case by simp
qed simp

lemma block_comment_from_one:
  "block_comment_from depth offset (encode_utf8 c) =
     (Some LE_UnterminatedComment, offset + len_utf8 c)"
proof (cases "c < 128")
  case True
  then show ?thesis by (simp add: encode_utf8_def)
next
  case False
  then have high: "\<forall>b\<in>set (encode_utf8 c). 128 \<le> b" using encode_utf8_high [of c] by simp
  have "encode_utf8 c \<noteq> []" using length_encode_utf8 [of c] len_utf8_neq_0 [of c] by fastforce
  then obtain bs x where bs: "encode_utf8 c = bs @ [x]" by (cases "encode_utf8 c" rule: rev_cases) auto
  then have "block_comment_from depth offset (encode_utf8 c) =
      block_comment_from depth (offset + length bs) [x]"
    using high block_comment_from_high [of bs depth offset x "[]"] by simp
  moreover have "length bs + 1 = len_utf8 c" using length_encode_utf8 [of c] bs by simp
  ultimately show ?thesis by simp
qed

lemma encode_utf8_cases:
  obtains "c < 128" "encode_utf8 c = [c]"
  | x bs where "128 \<le> c" "encode_utf8 c = x # bs" "128 \<le> x" "\<forall>b\<in>set (x # bs). 128 \<le> b"
proof (cases "c < 128")
  case True
  then show ?thesis using that(1) by (simp add: encode_utf8_def)
next
  case False
  then have "encode_utf8 c \<noteq> []" using length_encode_utf8 [of c] len_utf8_neq_0 [of c] by fastforce
  then obtain x bs where "encode_utf8 c = x # bs" by (cases "encode_utf8 c") auto
  moreover have "\<forall>b\<in>set (encode_utf8 c). 128 \<le> b" using False encode_utf8_high [of c] by simp
  ultimately show ?thesis using that(2) False by simp
qed

lemma block_comment_bytes_chars:
  "block_comment_from depth offset (as_bytes s) = block_comment_chars depth offset s"
proof (induction depth offset s rule: block_comment_chars.induct)
  case (1 depth offset c d cs)
  obtain y ys where y: "as_bytes (d # cs) = y # ys" "y = (hd (encode_utf8 d))"
    by (rule encode_utf8_cases [of d]) auto
  show ?case
  proof (rule encode_utf8_cases [of c])
    assume c: "c < 128" "encode_utf8 c = [c]"
    show ?thesis
    proof (rule encode_utf8_cases [of d])
      assume d: "d < 128" "encode_utf8 d = [d]"
      with c 1 show ?thesis by auto
    next
      fix x bs assume d: "128 \<le> d" "encode_utf8 d = x # bs" "128 \<le> x"
      have "block_comment_from depth offset (as_bytes (c # d # cs)) =
          block_comment_from depth (offset + 1) (as_bytes (d # cs))"
        using d by (simp add: c)
      also have "\<dots> = block_comment_chars depth (offset + len_utf8 c) (d # cs)"
        using 1 c d(1) by simp
      finally show ?thesis using d(1) c by simp
    qed
  next
    fix x bs assume c: "128 \<le> c" "encode_utf8 c = x # bs" "\<forall>b\<in>set (x # bs). 128 \<le> b"
    have "block_comment_from depth offset (as_bytes (c # d # cs)) =
        block_comment_from depth (offset + length (x # bs)) (as_bytes (d # cs))"
      using block_comment_from_high [OF c(3)] y(1) c(2)
      by (metis as_bytes_simps(2))
    also have "length (x # bs) = len_utf8 c" using c(2) length_encode_utf8 by metis
    finally show ?thesis using 1 c(1) by simp
  qed
next
  case "2_1"
  then show ?case by simp
next
  case "2_2"
  then show ?case by (simp add: block_comment_from_one)
qed

text \<open>
  The specification: \<open>comment_tail n p\<close> says that \<open>p\<close> closes \<open>n\<close> open comments, the last closing
  mark being its end. Opening and closing marks are read from left to right, without overlap.
\<close>

inductive comment_tail :: "nat \<Rightarrow> ustr \<Rightarrow> bool" where
  closed: "comment_tail 0 []"
| opens: "comment_tail (Suc (Suc n)) p \<Longrightarrow> comment_tail (Suc n) (47 # 42 # p)"
| closes: "comment_tail n p \<Longrightarrow> comment_tail (Suc n) (42 # 47 # p)"
| other: "comment_tail (Suc n) (d # p) \<Longrightarrow> \<not> (c = 47 \<and> d = 42) \<Longrightarrow> \<not> (c = 42 \<and> d = 47) \<Longrightarrow>
    comment_tail (Suc n) (c # d # p)"

lemma block_comment_chars_sound:
  "block_comment_chars depth offset s = (None, m) \<Longrightarrow> 0 < depth \<Longrightarrow>
     \<exists>p q. s = p @ q \<and> comment_tail depth p \<and> m = offset + byte_len p"
proof (induction depth offset s rule: block_comment_chars.induct)
  case (1 depth offset c d cs)
  then obtain n where n: "depth = Suc n" using gr0_implies_Suc by blast
  consider "c = 47" "d = 42" | "c = 42" "d = 47" | "\<not> (c = 47 \<and> d = 42)" "\<not> (c = 42 \<and> d = 47)"
    by blast
  then show ?case
  proof cases
    case 1
    with "1.IH"(1) "1.prems" n obtain p q where
      pq: "cs = p @ q" "comment_tail (Suc (Suc n)) p" "m = offset + 2 + byte_len p" by auto
    with 1 n have "c # d # cs = (47 # 42 # p) @ q \<and> comment_tail depth (47 # 42 # p) \<and>
        m = offset + byte_len (47 # 42 # p)" by (simp add: comment_tail.opens)
    then show ?thesis by blast
  next
    case 2
    show ?thesis
    proof (cases n)
      case 0
      with 2 "1.prems" n have "c # d # cs = [42, 47] @ cs \<and> comment_tail depth [42, 47] \<and>
          m = offset + byte_len [42, 47]"
        by (simp add: comment_tail.closes comment_tail.closed)
      then show ?thesis by blast
    next
      case (Suc k)
      with 2 "1.IH"(2) "1.prems" n obtain p q where
        pq: "cs = p @ q" "comment_tail n p" "m = offset + 2 + byte_len p" by auto
      with 2 n have "c # d # cs = (42 # 47 # p) @ q \<and> comment_tail depth (42 # 47 # p) \<and>
          m = offset + byte_len (42 # 47 # p)" by (simp add: comment_tail.closes)
      then show ?thesis by blast
    qed
  next
    case 3
    with "1.IH"(3) "1.prems" obtain p q where
      pq: "d # cs = p @ q" "comment_tail depth p" "m = offset + len_utf8 c + byte_len p" by auto
    from pq(2) n have "p \<noteq> []" by (auto elim: comment_tail.cases)
    with pq(1) obtain p' where "p = d # p'" by (cases p) auto
    with pq 3 n have "c # d # cs = (c # p) @ q \<and> comment_tail depth (c # p) \<and>
        m = offset + byte_len (c # p)" by (simp add: comment_tail.other)
    then show ?thesis by blast
  qed
qed simp_all

inductive_cases comment_tail_0: "comment_tail 0 p"

lemma block_comment_chars_complete:
  "comment_tail depth p \<Longrightarrow> 0 < depth \<Longrightarrow>
     block_comment_chars depth offset (p @ q) = (None, offset + byte_len p)"
proof (induction arbitrary: offset rule: comment_tail.induct)
  case closed
  then show ?case by simp
next
  case (opens n p)
  then show ?case by simp
next
  case (closes n p)
  show ?case
  proof (cases n)
    case 0
    with closes have "p = []" by (auto elim: comment_tail_0)
    with 0 show ?thesis by simp
  next
    case (Suc k)
    with closes.IH [of "offset + 2"] show ?thesis by simp
  qed
next
  case (other n d p c)
  have "block_comment_chars (Suc n) offset ((c # d # p) @ q) =
      block_comment_chars (Suc n) (offset + len_utf8 c) ((d # p) @ q)"
    using other.hyps by auto
  also have "\<dots> = (None, offset + len_utf8 c + byte_len (d # p))"
    by (rule other.IH) simp
  finally show ?case by simp
qed

lemma block_comment_chars_split:
  "block_comment_chars depth offset s = (e, n) \<Longrightarrow> \<exists>p q. s = p @ q \<and> n = offset + byte_len p"
proof (induction depth offset s arbitrary: e n rule: block_comment_chars.induct)
  case (1 depth offset c d cs)
  have extend: "\<exists>p q. c # d # cs = p @ q \<and> n = offset + byte_len p"
    if "c # d # cs = pre @ rest" "k = offset + byte_len pre"
      "\<exists>p q. rest = p @ q \<and> n = k + byte_len p" for pre rest k
  proof -
    from that obtain p q where "rest = p @ q" "n = k + byte_len p" by blast
    with that(1,2) have "c # d # cs = (pre @ p) @ q \<and> n = offset + byte_len (pre @ p)" by simp
    then show ?thesis by blast
  qed
  consider "c = 47" "d = 42" | "c = 42" "d = 47" "depth - 1 = 0" | "c = 42" "d = 47" "depth - 1 \<noteq> 0"
    | "\<not> (c = 47 \<and> d = 42)" "\<not> (c = 42 \<and> d = 47)"
    by blast
  then show ?case
  proof cases
    case 1
    with "1.IH"(1) "1.prems" show ?thesis by (intro extend [of "[c, d]" cs "offset + 2"]) auto
  next
    case 2
    with "1.prems" show ?thesis by (intro exI [of _ "[c, d]"] exI [of _ cs]) auto
  next
    case 3
    with "1.IH"(2) "1.prems" show ?thesis by (intro extend [of "[c, d]" cs "offset + 2"]) auto
  next
    case 4
    with "1.IH"(3) "1.prems" show ?thesis
      by (intro extend [of "[c]" "d # cs" "offset + len_utf8 c"]) auto
  qed
next
  case "2_1"
  then show ?case by simp
next
  case "2_2"
  then show ?case by (simp, intro exI conjI) (rule append_Nil2 [symmetric], simp_all)
qed

text \<open>
  C32: the block-comment scanner, which reads bytes and counts nesting, succeeds exactly when the
  remainder begins with a text that closes the comment, and it bumps over exactly that text.
\<close>

theorem lex_block_comment_spec:
  "lex_block_comment remainder = (None, n) \<longleftrightarrow>
     (\<exists>p q. remainder = p @ q \<and> comment_tail 1 p \<and> n = byte_len p)"
proof
  assume "lex_block_comment remainder = (None, n)"
  then show "\<exists>p q. remainder = p @ q \<and> comment_tail 1 p \<and> n = byte_len p"
    using block_comment_chars_sound [of 1 0 remainder n]
    by (simp add: lex_block_comment_def block_comment_bytes_chars)
next
  assume "\<exists>p q. remainder = p @ q \<and> comment_tail 1 p \<and> n = byte_len p"
  then show "lex_block_comment remainder = (None, n)"
    using block_comment_chars_complete [of 1 _ 0]
    by (auto simp: lex_block_comment_def block_comment_bytes_chars)
qed

lemma lex_block_comment_split:
  "lex_block_comment s = (e, n) \<Longrightarrow> \<exists>p q. s = p @ q \<and> n = byte_len p"
  unfolding lex_block_comment_def block_comment_bytes_chars
  by (drule block_comment_chars_split) simp

lemma run_callback_split:
  "run_callback pattern s = (result, n) \<Longrightarrow> \<exists>p q. s = p @ q \<and> n = byte_len p"
  by (cases pattern)
    (auto simp: lex_single_string_def lex_double_string_def lex_escaped_identifier_def
      dest!: consume_quoted_split lex_block_comment_split split: prod.splits)

end
