(* ===== verification/Ast.thy ===== *)
theory Ast
  imports Spans
begin

text \<open>
  The syntax tree of \<open>src/ast.rs\<close>. The types of the source are mutually recursive through
  expressions, path patterns and clauses (a subquery is an expression that holds clauses). Here
  every struct and enumeration is a datatype over the three recursive positions \<open>'e\<close> (expression),
  \<open>'p\<close> (path pattern) and \<open>'c\<close> (clause), in the order of dependency, and the last declaration
  ties the knot. \<open>Box\<close> is transparent, \<open>Vec\<close> is a list, a struct is a datatype with one
  constructor and the fields as selectors. A variant \<open>V\<close> of an enumeration has the prefix of the
  enumeration, as \<open>EK_Binary\<close> for \<open>ExprKind::Binary\<close>.
\<close>

section \<open>Nodes and leaves\<close>

datatype (plugins only: size) 'a node = Node (node_kind: 'a) (node_span: span)

text \<open>\<open>Node::map\<close> is the map function of the datatype on a fixed span.\<close>

definition node_map :: "('a \<Rightarrow> 'b) \<Rightarrow> 'a node \<Rightarrow> 'b node" where
  "node_map f n = Node (f (node_kind n)) (node_span n)"

datatype (plugins only: size) error_node = Error_node

datatype (plugins only: size) execution_mode = Mode_Explain | Mode_Profile

datatype (plugins only: size) union_operator = UO_Default | UO_All | UO_Distinct

datatype (plugins only: size) set_quantifier = SQ_All | SQ_Distinct

datatype (plugins only: size) merge_trigger = MT_Match | MT_Create

datatype (plugins only: size) delete_mode = DM_Normal | DM_Detach | DM_Nodetach

datatype (plugins only: size) transaction_error_behavior = TE_Continue | TE_Break | TE_Fail

datatype (plugins only: size) sort_direction = SD_Ascending | SD_Descending

datatype (plugins only: size) null_order = NO_First | NO_Last

datatype (plugins only: size) relationship_direction =
  RD_Left | RD_Right | RD_Undirected | RD_Both

datatype (plugins only: size) quantifier_kind =
  QK_ZeroOrMore | QK_OneOrMore | QK_Optional | QK_Fixed ustr | QK_Range "ustr option" "ustr option"

datatype (plugins only: size) quantifier =
  Quantifier (quantifier_kind: quantifier_kind) (quantifier_span: span)

datatype (plugins only: size) path_mode = PM_Walk | PM_Trail | PM_Simple | PM_Acyclic

datatype (plugins only: size) path_selector =
  PS_All | PS_Any "ustr option" | PS_AnyShortest | PS_AllShortest | PS_Shortest "ustr option" bool

datatype (plugins only: size) unary_operator = UN_Plus | UN_Minus | UN_Not

datatype (plugins only: size) binary_operator =
    BO_Or | BO_Xor | BO_And | BO_Equal | BO_NotEqual | BO_Less | BO_LessEqual | BO_Greater
  | BO_GreaterEqual | BO_RegexMatch | BO_In | BO_StartsWith | BO_EndsWith | BO_Contains | BO_Add
  | BO_Subtract | BO_Multiply | BO_Divide | BO_Remainder | BO_Power | BO_Concat

datatype (plugins only: size) normalization_form = NF_Nfc | NF_Nfd | NF_Nfkc | NF_Nfkd

datatype (plugins only: size) quantified_predicate_kind = QP_All | QP_Any | QP_None | QP_Single

datatype (plugins only: size) subquery_expression_kind = SE_Exists | SE_Count | SE_Collect

datatype (plugins only: size) integer_radix = IR_Decimal | IR_Hexadecimal | IR_Octal

datatype (plugins only: size) quote_style = Quote_Single | Quote_Double

datatype (plugins only: size) ident = Identifier (ident_text: ustr) (ident_escaped: bool)

type_synonym name = "ident node"

datatype (plugins only: size) qualified_name =
  QualifiedName (qn_parts: "name list") (qn_span: span)

datatype (plugins only: size) integer_literal =
  IntegerLiteral (int_text: ustr) (int_radix: integer_radix)

datatype (plugins only: size) float_literal = FloatLiteral (float_text: ustr)

datatype (plugins only: size) string_literal =
  StringLiteral (string_value: ustr) (string_quote: quote_style)

datatype (plugins only: size) literal_kind =
    LK_Null | LK_Boolean bool | LK_Integer integer_literal | LK_Float float_literal
  | LK_String string_literal

type_synonym literal = "literal_kind node"

datatype (plugins only: size) parameter_name = PN_Named ustr | PN_Positional ustr

datatype (plugins only: size) parameter = Parameter (parameter_name: parameter_name)

section \<open>Labels and types\<close>

datatype (plugins only: size) 'l label_expression_kind =
    LX_Name name | LX_Wildcard | LX_Not 'l | LX_And "'l list" | LX_Or "'l list"
  | LX_Parenthesized 'l | LX_Error error_node

datatype (plugins only: size) label_expression =
  LabelExpression "label_expression label_expression_kind node"

datatype (plugins only: size) 't value_type =
    VT_Nothing | VT_Null | VT_Boolean | VT_String | VT_Integer | VT_Float | VT_Decimal | VT_Number
  | VT_Date | VT_LocalTime | VT_ZonedTime | VT_LocalDateTime | VT_ZonedDateTime | VT_Duration
  | VT_Point | VT_Node | VT_Relationship | VT_Map | VT_Path | VT_List 't | VT_Any
  | VT_Named qualified_name

datatype (plugins only: size) 't type_ref_kind =
  TypeRefKind (type_value: "'t value_type") (type_nullable: "bool option")

datatype (plugins only: size) type_ref = TypeRef "type_ref type_ref_kind node"

datatype (plugins only: size) is_predicate =
    IP_Null | IP_Typed type_ref | IP_Normalized "normalization_form node option"
  | IP_Label label_expression

section \<open>Patterns\<close>

datatype (plugins only: size) 'e node_pattern =
  NodePattern (np_variable: "name option") (np_labels: "label_expression option")
    (np_properties: "'e option") (np_where: "'e option")

datatype (plugins only: size) 'e relationship_pattern =
  RelationshipPattern (rp_direction: "relationship_direction node") (rp_variable: "name option")
    (rp_labels: "label_expression option") (rp_legacy_quantifier: "quantifier option")
    (rp_graph_quantifier: "quantifier option") (rp_properties: "'e option")
    (rp_where: "'e option")

datatype (plugins only: size) ('e, 'p) path_factor_kind =
    PF_Node "'e node_pattern"
  | PF_QuantifiedNode "'e node_pattern" quantifier
  | PF_Relationship "'e relationship_pattern"
  | PF_Parenthesized 'p "'e option" "quantifier option"
  | PF_Subpath name 'p "'e option" "quantifier option"
  | PF_LegacyShortest bool 'p
  | PF_Error error_node

datatype (plugins only: size) ('e, 'p) path_pattern_kind =
  PathPatternKind (pp_factors: "('e, 'p) path_factor_kind node list")

datatype (plugins only: size) 'p pattern_part_kind =
  PatternPartKind (part_binding: "name option") (part_selector: "path_selector node option")
    (part_path: 'p)

datatype (plugins only: size) 'p pattern_of =
  Pattern (pattern_parts: "'p pattern_part_kind node list") (pattern_span: span)

section \<open>Expressions\<close>

datatype (plugins only: size) 'e map_entry =
  MapEntry (me_key: name) (me_value: 'e) (me_span: span)

datatype (plugins only: size) 'e map_projection_item_kind =
    MP_Property name | MP_AllProperties | MP_Variable name | MP_Entry "'e map_entry"

datatype (plugins only: size) 'e map_projection =
  MapProjection (mp_base: 'e) (mp_items: "'e map_projection_item_kind node list")

datatype (plugins only: size) 'e function_invocation =
  FunctionInvocation (fi_name: qualified_name) (fi_quantifier: "set_quantifier node option")
    (fi_arguments: "'e list")

datatype (plugins only: size) 'e case_alternative =
  CaseAlternative (ca_when: "'e list") (ca_then: 'e) (ca_span: span)

datatype (plugins only: size) 'e case_expression =
  CaseExpression (ce_operand: "'e option") (ce_alternatives: "'e case_alternative list")
    (ce_else: "'e option")

datatype (plugins only: size) 'e list_comprehension =
  ListComprehension (lc_variable: name) (lc_list: 'e) (lc_predicate: "'e option")
    (lc_projection: "'e option")

datatype (plugins only: size) ('e, 'p) pattern_comprehension =
  PatternComprehension (pc_binding: "name option") (pc_pattern: "'p pattern_of")
    (pc_predicate: "'e option") (pc_projection: 'e)

datatype (plugins only: size) 'e reduce_expression =
  ReduceExpression (re_accumulator: name) (re_initial: 'e) (re_variable: name) (re_list: 'e)
    (re_expression: 'e)

datatype (plugins only: size) 'e quantified_predicate =
  QuantifiedPredicate (qp_kind: "quantified_predicate_kind node") (qp_variable: name)
    (qp_list: 'e) (qp_predicate: 'e)

datatype (plugins only: size) 'c single_query_kind =
  SingleQueryKind (sq_clauses: "'c list")

datatype (plugins only: size) 'c union_branch =
  UnionBranch (ub_operator: "union_operator node") (ub_query: "'c single_query_kind node")

datatype (plugins only: size) 'c regular_query =
  RegularQuery (rq_head: "'c single_query_kind node") (rq_unions: "'c union_branch list")

datatype (plugins only: size) 'c query_kind =
  QU_Regular "'c regular_query" | QU_Error error_node

datatype (plugins only: size) 'c subquery_expression =
  SubqueryExpression (se_kind: "subquery_expression_kind node") (se_query: "'c query_kind node")

datatype (plugins only: size) ('e, 'p, 'c) expr_kind =
    EK_Literal literal
  | EK_Variable name
  | EK_Parameter parameter
  | EK_Wildcard
  | EK_List "'e list"
  | EK_Map "'e map_entry list"
  | EK_MapProjection "'e map_projection"
  | EK_Unary "unary_operator node" 'e
  | EK_Binary 'e "binary_operator node" 'e
  | EK_Is 'e bool is_predicate
  | EK_Property 'e name
  | EK_DynamicProperty 'e 'e
  | EK_Index 'e 'e
  | EK_Slice 'e "'e option" "'e option"
  | EK_Function "'e function_invocation"
  | EK_Case "'e case_expression"
  | EK_ListComprehension "'e list_comprehension"
  | EK_PatternComprehension "('e, 'p) pattern_comprehension"
  | EK_Reduce "'e reduce_expression"
  | EK_QuantifiedPredicate "'e quantified_predicate"
  | EK_Subquery "'c subquery_expression"
  | EK_Pattern "'p pattern_of"
  | EK_Parenthesized 'e
  | EK_Error error_node

section \<open>Clauses\<close>

datatype (plugins only: size) 'e use_clause = UseClause (use_graph: 'e)

datatype (plugins only: size) match_hint_kind =
    MH_Index name name "name list" bool | MH_Scan name name | MH_Join "name list"

datatype (plugins only: size) ('e, 'p) match_clause =
  MatchClause (mc_optional: bool) (mc_mode: "path_mode node option") (mc_pattern: "'p pattern_of")
    (mc_hints: "match_hint_kind node list") (mc_where: "'e option")

datatype (plugins only: size) 'e unwind_clause =
  UnwindClause (uc_expression: 'e) (uc_variable: name)

datatype (plugins only: size) 'e let_binding =
  Binding (lb_variable: name) (lb_expression: 'e) (lb_span: span)

datatype (plugins only: size) 'e let_clause = LetClause (let_bindings: "'e let_binding list")

datatype (plugins only: size) 'p create_clause = CreateClause (create_pattern: "'p pattern_of")

datatype (plugins only: size) 'p insert_clause = InsertClause (insert_pattern: "'p pattern_of")

datatype (plugins only: size) 'e set_item_kind =
    SI_Property 'e 'e | SI_ReplaceProperties name 'e | SI_MergeProperties name 'e
  | SI_Labels name label_expression

datatype (plugins only: size) 'e set_clause = SetClause (set_items: "'e set_item_kind node list")

datatype (plugins only: size) 'e merge_action =
  MergeAction (ma_trigger: "merge_trigger node") (ma_set: "'e set_clause") (ma_span: span)

datatype (plugins only: size) ('e, 'p) merge_clause =
  MergeClause (mg_pattern: "'p pattern_part_kind node") (mg_actions: "'e merge_action list")

datatype (plugins only: size) 'e delete_clause =
  DeleteClause (dc_mode: "delete_mode node") (dc_expressions: "'e list")

datatype (plugins only: size) 'e remove_item_kind =
    RI_Property 'e | RI_Labels name label_expression

datatype (plugins only: size) 'e remove_clause =
  RemoveClause (remove_items: "'e remove_item_kind node list")

datatype (plugins only: size) ('e, 'c) foreach_clause =
  ForeachClause (fe_variable: name) (fe_list: 'e) (fe_clauses: "'c list")

datatype (plugins only: size) 'e load_csv_clause =
  LoadCsvClause (csv_with_headers: bool) (csv_source: 'e) (csv_variable: name)
    (csv_field_terminator: "string_literal node option")

datatype (plugins only: size) subquery_scope =
  SubqueryScope (sc_import_all: bool) (sc_variables: "name list") (sc_span: span)

datatype (plugins only: size) 'e in_transactions =
  InTransactions (it_rows: "'e option") (it_on_error: "transaction_error_behavior node option")
    (it_report_status_as: "name option") (it_span: span)

datatype (plugins only: size) ('e, 'c) call_target =
    CT_Procedure qualified_name "'e list option"
  | CT_Subquery "subquery_scope option" "'c query_kind node" "'e in_transactions option"

datatype (plugins only: size) 'e projection_item_kind =
    PI_Wildcard | PI_Expression 'e "name option"

datatype (plugins only: size) 'e yield_clause =
  YieldClause (yc_all: bool) (yc_items: "'e projection_item_kind node list")
    (yc_where: "'e option") (yc_span: span)

datatype (plugins only: size) ('e, 'c) call_clause =
  CallClause (cc_optional: bool) (cc_target: "('e, 'c) call_target")
    (cc_yield: "'e yield_clause option")

datatype (plugins only: size) 'e sort_item =
  SortItem (so_expression: 'e) (so_direction: "sort_direction node option")
    (so_nulls: "null_order node option") (so_span: span)

datatype (plugins only: size) 'e order_by =
  OrderBy (ob_items: "'e sort_item list") (ob_span: span)

datatype (plugins only: size) 'e projection_clause =
  ProjectionClause (pj_quantifier: "set_quantifier node option")
    (pj_items: "'e projection_item_kind node list") (pj_order_by: "'e order_by option")
    (pj_offset: "'e option") (pj_skip: "'e option") (pj_limit: "'e option") (pj_span: span)

datatype (plugins only: size) 'e with_clause =
  WithClause (wi_projection: "'e projection_clause") (wi_where: "'e option")

datatype (plugins only: size) 'e return_clause =
  ReturnClause (rt_projection: "'e projection_clause")

datatype (plugins only: size) 'e filter_clause = FilterClause (fc_predicate: 'e)

datatype (plugins only: size) ('e, 'p, 'c) clause_kind =
    CK_Use "'e use_clause"
  | CK_Match "('e, 'p) match_clause"
  | CK_Unwind "'e unwind_clause"
  | CK_Let "'e let_clause"
  | CK_Create "'p create_clause"
  | CK_Insert "'p insert_clause"
  | CK_Merge "('e, 'p) merge_clause"
  | CK_Delete "'e delete_clause"
  | CK_Set "'e set_clause"
  | CK_Remove "'e remove_clause"
  | CK_Foreach "('e, 'c) foreach_clause"
  | CK_LoadCsv "'e load_csv_clause"
  | CK_Call "('e, 'c) call_clause"
  | CK_With "'e with_clause"
  | CK_Return "'e return_clause"
  | CK_Select "'e projection_clause"
  | CK_Next "'e projection_clause"
  | CK_Filter "'e filter_clause"
  | CK_Finish
  | CK_Error error_node

section \<open>The knot\<close>

datatype (plugins only: size)
    expr = Expr (expr_node: "(expr, path_pattern, clause) expr_kind node")
and path_pattern = PathPattern (path_node: "(expr, path_pattern) path_pattern_kind node")
and clause = Clause (clause_node: "(expr, path_pattern, clause) clause_kind node")

type_synonym pattern = "path_pattern pattern_of"
type_synonym single_query = "clause single_query_kind node"
type_synonym query = "clause query_kind node"

datatype (plugins only: size) query_statement =
  QueryStatement (qs_mode: "execution_mode node option") (qs_query: query)
    (qs_terminator: "span option")

datatype (plugins only: size) statement_kind = ST_Query query_statement | ST_Error error_node

datatype (plugins only: size) program =
  Program (program_statements: "statement_kind node list") (program_span: span)

text \<open>\<open>Node::new\<close> for the three recursive types, and their spans.\<close>

definition mk_expr :: "(expr, path_pattern, clause) expr_kind \<Rightarrow> span \<Rightarrow> expr" where
  "mk_expr k s = Expr (Node k s)"

definition mk_clause :: "(expr, path_pattern, clause) clause_kind \<Rightarrow> span \<Rightarrow> clause" where
  "mk_clause k s = Clause (Node k s)"

definition expr_span :: "expr \<Rightarrow> span" where
  "expr_span e = node_span (expr_node e)"

definition clause_span :: "clause \<Rightarrow> span" where
  "clause_span c = node_span (clause_node c)"

definition program_is_empty :: "program \<Rightarrow> bool" where
  "program_is_empty p = (program_statements p = [])"

lemma mk_expr_simps [simp]:
  "expr_span (mk_expr k s) = s" "node_kind (expr_node (mk_expr k s)) = k"
  by (simp_all add: mk_expr_def expr_span_def)

lemma mk_clause_simps [simp]:
  "clause_span (mk_clause k s) = s" "node_kind (clause_node (mk_clause k s)) = k"
  by (simp_all add: mk_clause_def clause_span_def)

end
