(* ===== verification/Literals.thy ===== *)
theory Literals
  imports Lexer Ast
begin

text \<open>
  The helpers of \<open>src/parser.rs\<close> that the grammar calls for names, parameters and literals, down to
  \<open>decode_delimited\<close>, and their agreement with the lexer: the grammar \<open>quoted_body\<close> of quoted text
  with its value is what the lexer accepts and what the decoder computes.
\<close>

section \<open>Decoding\<close>

text \<open>The digit loop of the decoder; unlike the lexer's it consumes the offending character.\<close>

fun decode_hex :: "nat \<Rightarrow> nat \<Rightarrow> ustr \<Rightarrow> nat \<times> bool \<times> ustr" where
  "decode_hex 0 scalar cs = (scalar, True, cs)"
| "decode_hex (Suc n) scalar [] = (scalar, False, [])"
| "decode_hex (Suc n) scalar (d # cs) =
     (case to_digit16 d of
        Some v \<Rightarrow> decode_hex n (scalar * 16 + v) cs
      | None \<Rightarrow> (scalar, False, cs))"

lemma decode_hex_length: "decode_hex n k cs = (k', ok, rest) \<Longrightarrow> length rest \<le> length cs"
  by (induction n k cs rule: decode_hex.induct) (auto split: option.splits)

text \<open>The arms of the escape match that push one fixed character.\<close>

definition simple_escape_value :: "uchar \<Rightarrow> uchar option" where
  "simple_escape_value e =
     (if e = cp (CHR ''t'') then Some 9
      else if e = cp (CHR ''b'') then Some 8
      else if e = cp (CHR ''n'') then Some 10
      else if e = cp (CHR ''r'') then Some 13
      else if e = cp (CHR ''f'') then Some 12
      else if e = cp (CHR 0x5C) then Some 92
      else if e = cp (CHR 0x27) then Some 39
      else if e = cp (CHR 0x22) then Some 34
      else if e = cp (CHR 0x60) then Some 96
      else None)"

function decode_from :: "uchar \<Rightarrow> ustr \<Rightarrow> ustr" where
  "decode_from delimiter [] = []"
| "decode_from delimiter (c # cs) =
     (if c = delimiter \<and> cs \<noteq> [] \<and> hd cs = delimiter then delimiter # decode_from delimiter (tl cs)
      else if c \<noteq> cp (CHR 0x5C) then c # decode_from delimiter cs
      else
        (case cs of
           [] \<Rightarrow> [cp (CHR 0x5C)]
         | escaped # rest \<Rightarrow>
             (case simple_escape_value escaped of
                Some v \<Rightarrow> v # decode_from delimiter rest
              | None \<Rightarrow>
                  if escaped = cp (CHR ''u'') \<or> escaped = cp (CHR ''U'') then
                    (case decode_hex (if escaped = cp (CHR ''u'') then 4 else 6) 0 rest of
                       (scalar, complete, rest') \<Rightarrow>
                         (case (if complete then char_from_u32 scalar else None) of
                            Some v \<Rightarrow> v # decode_from delimiter rest'
                          | None \<Rightarrow> decode_from delimiter rest'))
                  else cp (CHR 0x5C) # escaped # decode_from delimiter rest)))"
  by pat_completeness auto
termination
  by (relation "measure (\<lambda>(delimiter, cs). length cs)")
    (auto dest!: decode_hex_length [OF sym])

definition decode_delimited :: "ustr \<Rightarrow> uchar \<Rightarrow> ustr" where
  "decode_delimited raw delimiter =
     (case str_get raw (len_utf8 delimiter) (byte_len raw - len_utf8 delimiter) of
        Some inner \<Rightarrow> decode_from delimiter inner
      | None \<Rightarrow> decode_from delimiter [])"

section \<open>Names, parameters and literals\<close>

text \<open>Slicing the source panics outside the character boundaries, and so does \<open>Span::new\<close>.\<close>

definition make_name :: "ustr \<Rightarrow> nat \<Rightarrow> nat \<Rightarrow> bool \<Rightarrow> name panics" where
  "make_name source s e escaped =
     Option.bind (span_new s e) (\<lambda>sp.
     Option.bind (str_get source s e) (\<lambda>raw.
       Some (Node (Identifier (if escaped then decode_delimited raw (cp (CHR 0x60)) else raw) escaped)
         sp)))"

definition qualified_function_name :: "engine \<Rightarrow> ustr \<Rightarrow> nat \<Rightarrow> nat \<Rightarrow> qualified_name panics" where
  "qualified_function_name engine source s e =
     Option.bind (lex engine (case str_get source s e of Some f \<Rightarrow> f | None \<Rightarrow> [])) (\<lambda>lexed.
     Option.bind
       (those (map (\<lambda>t. make_name source (s + span_start (token_span t)) (s + span_end (token_span t))
                (token_kind t = T_EscapedIdentifier))
          (filter (\<lambda>t. \<not> token_is_trivia t \<and> token_kind t \<noteq> T_Dot) (lex_tokens lexed)))) (\<lambda>parts.
     map_option (QualifiedName parts) (span_new s e)))"

definition make_parameter :: "ustr \<Rightarrow> nat \<Rightarrow> nat \<Rightarrow> parameter panics" where
  "make_parameter source s e =
     map_option (\<lambda>raw. Parameter
       (if raw \<noteq> [] \<and> hd raw = cp (CHR 0x60) \<and> last raw = cp (CHR 0x60)
        then PN_Named (decode_delimited raw (cp (CHR 0x60)))
        else if list_all is_ascii_digit (as_bytes raw) then PN_Positional raw
        else PN_Named raw))
     (str_get source (s + 1) e)"

definition make_string_literal :: "ustr \<Rightarrow> nat \<Rightarrow> nat \<Rightarrow> string_literal panics" where
  "make_string_literal source s e =
     map_option (\<lambda>raw.
       (let delimiter = (case raw of c # _ \<Rightarrow> c | [] \<Rightarrow> cp (CHR 0x27)) in
        StringLiteral (decode_delimited raw delimiter)
          (if delimiter = cp (CHR 0x27) then Quote_Single else Quote_Double)))
     (str_get source s e)"

definition make_integer_literal :: "ustr \<Rightarrow> nat \<Rightarrow> nat \<Rightarrow> integer_radix \<Rightarrow> literal panics" where
  "make_integer_literal source s e radix =
     Option.bind (span_new s e) (\<lambda>sp.
       map_option (\<lambda>digits. Node (LK_Integer (IntegerLiteral digits radix)) sp)
         (str_get source s e))"

section \<open>The grammar of quoted text\<close>

fun hex_fold :: "nat \<Rightarrow> ustr \<Rightarrow> nat option" where
  "hex_fold k [] = Some k"
| "hex_fold k (c # cs) = Option.bind (to_digit16 c) (\<lambda>v. hex_fold (k * 16 + v) cs)"

text \<open>\<open>quoted_body d p v\<close>: the text \<open>p\<close> between two delimiters \<open>d\<close> is legal and denotes \<open>v\<close>.\<close>

inductive quoted_body :: "uchar \<Rightarrow> ustr \<Rightarrow> ustr \<Rightarrow> bool" for d where
  qb_end: "quoted_body d [] []"
| qb_plain: "c \<noteq> 92 \<Longrightarrow> c \<noteq> d \<Longrightarrow> quoted_body d p v \<Longrightarrow> quoted_body d (c # p) (c # v)"
| qb_double: "quoted_body d p v \<Longrightarrow> quoted_body d (d # d # p) (d # v)"
| qb_simple: "simple_escape_value e = Some x \<Longrightarrow> quoted_body d p v \<Longrightarrow>
    quoted_body d (92 # e # p) (x # v)"
| qb_hex: "e = 117 \<and> length h = 4 \<or> e = 85 \<and> length h = 6 \<Longrightarrow> hex_fold 0 h = Some n \<Longrightarrow>
    char_from_u32 n = Some x \<Longrightarrow> quoted_body d p v \<Longrightarrow> quoted_body d (92 # e # h @ p) (x # v)"

lemma simple_escape_iff: "is_simple_escape e \<longleftrightarrow> (\<exists>x. simple_escape_value e = Some x)"
  by (auto simp: is_simple_escape_def simple_escape_value_def)

lemma simple_escape_not_hex: "simple_escape_value e = Some x \<Longrightarrow> e \<noteq> 117 \<and> e \<noteq> 85"
  by (auto simp: simple_escape_value_def split: if_splits)

lemma take_hex_complete:
  "hex_fold k h = Some k' \<Longrightarrow> take_hex (length h) k (h @ p) = (k', True, p)"
  by (induction k h rule: hex_fold.induct) (auto split: bind_splits)

lemma decode_hex_complete:
  "hex_fold k h = Some k' \<Longrightarrow> decode_hex (length h) k (h @ p) = (k', True, p)"
  by (induction k h rule: hex_fold.induct) (auto split: bind_splits)

lemma take_hex_sound:
  "take_hex n k cs = (k', True, rest) \<Longrightarrow>
     \<exists>h. cs = h @ rest \<and> length h = n \<and> hex_fold k h = Some k'"
proof (induction n k cs rule: take_hex.induct)
  case (3 n scalar d cs)
  then obtain v h where "to_digit16 d = Some v" "cs = h @ rest" "length h = n"
    "hex_fold (scalar * 16 + v) h = Some k'"
    by (auto split: option.splits)
  then have "d # cs = (d # h) @ rest \<and> length (d # h) = Suc n \<and> hex_fold scalar (d # h) = Some k'"
    by simp
  then show ?case by blast
qed auto

text \<open>The decoder computes the value.\<close>

lemma decode_quoted_body:
  "quoted_body d p v \<Longrightarrow> d \<noteq> 92 \<Longrightarrow> decode_from d p = v"
proof (induction rule: quoted_body.induct)
  case (qb_hex e h n x p v)
  then have e: "simple_escape_value e = None" "e = 117 \<or> e = 85"
    "length h = (if e = 117 then 4 else 6)"
    by (auto simp: simple_escape_value_def)
  with qb_hex decode_hex_complete [of 0 h n p] show ?case by auto
qed (auto dest: simple_escape_not_hex)

text \<open>The lexer accepts exactly this grammar.\<close>

lemma consume_quoted_complete:
  "quoted_body d p v \<Longrightarrow> d \<noteq> 92 \<Longrightarrow> q = [] \<or> hd q \<noteq> d \<Longrightarrow>
     consume_quoted_from d unterminated False offset (p @ d # q) =
       (None, offset + byte_len p + len_utf8 d)"
proof (induction arbitrary: offset rule: quoted_body.induct)
  case (qb_hex e h n x p v)
  then have e: "\<not> is_simple_escape e" "e = 117 \<or> e = 85" "length h = (if e = 117 then 4 else 6)"
    by (auto simp: is_simple_escape_def)
  with qb_hex take_hex_complete [of 0 h n "p @ d # q"] show ?case
    by (auto simp: Let_def)
qed (auto simp: Let_def simple_escape_iff)

definition quoted_tail :: "uchar \<Rightarrow> bool \<Rightarrow> nat \<Rightarrow> ustr \<Rightarrow> nat \<Rightarrow> bool" where
  "quoted_tail d invalid offset cs n = (\<not> invalid \<and> (\<exists>p q v. cs = p @ d # q \<and>
     quoted_body d p v \<and> n = offset + byte_len p + len_utf8 d \<and> (q = [] \<or> hd q \<noteq> d)))"

lemma quoted_tail_extend:
  assumes "\<And>p v. quoted_body d p v \<Longrightarrow> \<exists>v'. quoted_body d (pre @ p) v'" and "cs = pre @ rest"
    and "k = offset + byte_len pre" and "quoted_tail d invalid k rest n"
  shows "quoted_tail d invalid offset cs n"
proof -
  from assms(4) obtain p q v where *: "\<not> invalid" "rest = p @ d # q" "quoted_body d p v"
    "n = k + byte_len p + len_utf8 d" "q = [] \<or> hd q \<noteq> d" by (auto simp: quoted_tail_def)
  from assms(1) [OF *(3)] obtain v' where "quoted_body d (pre @ p) v'" by blast
  with * assms(2,3) have "cs = (pre @ p) @ d # q \<and> quoted_body d (pre @ p) v' \<and>
      n = offset + byte_len (pre @ p) + len_utf8 d \<and> (q = [] \<or> hd q \<noteq> d)" by simp
  with *(1) show ?thesis unfolding quoted_tail_def by blast
qed

lemma consume_quoted_sound:
  "consume_quoted_from d unterminated invalid offset cs = (None, n) \<Longrightarrow> d \<noteq> 92 \<Longrightarrow>
     quoted_tail d invalid offset cs n"
proof (induction d unterminated invalid offset cs rule: consume_quoted_from.induct)
  case (1 d unterminated invalid offset)
  then show ?case by simp
next
  case (2 d unterminated invalid offset c cs)
  consider (last) "c = 92" "cs = []"
    | (simple) escaped rest where "c = 92" "cs = escaped # rest" "is_simple_escape escaped"
    | (hex) escaped rest where "c = 92" "cs = escaped # rest" "\<not> is_simple_escape escaped"
        "escaped = 117 \<or> escaped = 85"
    | (bad) escaped rest where "c = 92" "cs = escaped # rest" "\<not> is_simple_escape escaped"
        "\<not> (escaped = 117 \<or> escaped = 85)"
    | (double) "c \<noteq> 92" "c = d" "cs \<noteq> [] \<and> hd cs = d"
    | (final) "c \<noteq> 92" "c = d" "\<not> (cs \<noteq> [] \<and> hd cs = d)"
    | (other) "c \<noteq> 92" "c \<noteq> d"
    by (cases cs) auto
  then show ?case
  proof cases
    case last
    with 2 show ?thesis by simp
  next
    case (simple escaped rest)
    then obtain x where x: "simple_escape_value escaped = Some x" by (auto simp: simple_escape_iff)
    from simple 2 have "quoted_tail d invalid (offset + len_utf8 c + len_utf8 escaped) rest n"
      by (simp add: Let_def)
    with simple x show ?thesis
      by - (rule quoted_tail_extend [of d "[c, escaped]" "c # cs" rest], auto intro: qb_simple)
  next
    case (hex escaped rest)
    obtain scalar complete rest' where
      th: "take_hex (if escaped = 117 then 4 else 6) 0 rest = (scalar, complete, rest')"
      by (cases "take_hex (if escaped = 117 then 4 else 6) 0 rest")
    from hex 2 th have *: "quoted_tail d (invalid \<or> \<not> complete \<or> char_from_u32 scalar = None)
        (offset + len_utf8 c + len_utf8 escaped + (byte_len rest - byte_len rest')) rest' n"
      by (simp add: Let_def)
    then have ok: "\<not> invalid" complete "char_from_u32 scalar \<noteq> None"
      by (auto simp: quoted_tail_def)
    with th have "take_hex (if escaped = 117 then 4 else 6) 0 rest = (scalar, True, rest')" by simp
    from take_hex_sound [OF this] obtain h where
      h: "rest = h @ rest'" "length h = (if escaped = 117 then 4 else 6)" "hex_fold 0 h = Some scalar"
      by blast
    from ok obtain x where x: "char_from_u32 scalar = Some x" by auto
    have "\<exists>v'. quoted_body d ((92 # escaped # h) @ p) v'" if "quoted_body d p v" for p v
      using qb_hex [of escaped h scalar x d p v] that h hex x by (auto split: if_splits)
    then show ?thesis
      using * h hex ok x by - (rule quoted_tail_extend [of d "92 # escaped # h" "c # cs" rest'], auto)
  next
    case (bad escaped rest)
    with 2 have "quoted_tail d True (offset + len_utf8 c + len_utf8 escaped) rest n"
      by (simp add: Let_def)
    then show ?thesis by (simp add: quoted_tail_def)
  next
    case double
    then obtain rest where cs: "cs = d # rest" by (cases cs) auto
    with double 2 have "quoted_tail d invalid (offset + len_utf8 c + len_utf8 d) rest n"
      by simp
    with double cs show ?thesis
      by - (rule quoted_tail_extend [of d "[d, d]" "c # cs" rest], auto intro: qb_double)
  next
    case final
    with 2 have "\<not> invalid" "n = offset + len_utf8 c" by (auto split: if_splits)
    with final show ?thesis
      by (auto simp: quoted_tail_def intro!: exI [of _ "[]"] qb_end)
  next
    case other
    with 2 have "quoted_tail d invalid (offset + len_utf8 c) cs n" by simp
    with other show ?thesis
      by - (rule quoted_tail_extend [of d "[c]" "c # cs" cs], auto intro: qb_plain)
  qed
qed

text \<open>
  C26: the quoted-text scanner succeeds exactly when the remainder begins with legal quoted text and
  its closing delimiter, not doubled; it bumps over exactly that.
\<close>

theorem consume_quoted_spec:
  assumes "delimiter \<noteq> 92"
  shows "consume_quoted remainder delimiter unterminated = (None, n) \<longleftrightarrow>
    (\<exists>p q v. remainder = p @ delimiter # q \<and> quoted_body delimiter p v \<and>
       n = byte_len p + len_utf8 delimiter \<and> (q = [] \<or> hd q \<noteq> delimiter))"
  using assms consume_quoted_sound [of delimiter unterminated False 0 remainder n]
    consume_quoted_complete [of delimiter _ _ _ unterminated 0]
  by (auto simp: consume_quoted_def quoted_tail_def)

lemma consume_quoted_spec_witness:
  "(39::nat) \<noteq> 92 \<and> (\<exists>p q v. ascii [CHR ''a'', CHR 0x27, CHR '';''] = p @ 39 # q \<and>
     quoted_body 39 p v \<and> 2 = byte_len p + len_utf8 39 \<and> (q = [] \<or> hd q \<noteq> 39))"
proof -
  have neq: "(39::nat) \<noteq> 92" by simp
  have "consume_quoted (ascii [CHR ''a'', CHR 0x27, CHR '';'']) 39 LE_UnterminatedString = (None, 2)"
    by code_simp
  with neq show ?thesis using consume_quoted_spec [OF neq] by blast
qed

section \<open>Literals denote what the lexer accepted\<close>

lemma decode_delimited_body:
  "quoted_body d p v \<Longrightarrow> d \<noteq> 92 \<Longrightarrow> decode_delimited (d # p @ [d]) d = v"
  using str_get_middle [of "[d]" p "[d]"] decode_quoted_body [of d p v]
  by (simp add: decode_delimited_def add.commute)

text \<open>
  C27: a string token denotes its literal. When the lexer accepts a string whose opening delimiter
  starts after \<open>pre\<close>, \<open>string_literal\<close> on the token's span returns the value that the grammar of
  quoted text gives, and the quote style of the delimiter; no escape is lost or misread.
\<close>

theorem string_literal_value:
  assumes "consume_quoted remainder d unterminated = (None, n)" and "d = 39 \<or> d = 34"
  shows "\<exists>p q v. remainder = p @ d # q \<and> quoted_body d p v \<and>
    make_string_literal (pre @ d # remainder) (byte_len pre) (byte_len pre + 1 + n) =
      Some (StringLiteral v (if d = 39 then Quote_Single else Quote_Double))"
proof -
  from assms have d: "d \<noteq> 92" "len_utf8 d = 1" by auto
  with assms(1) consume_quoted_sound [of d unterminated False 0 remainder n] obtain p q v where
    *: "remainder = p @ d # q" "quoted_body d p v" "n = byte_len p + 1"
    by (auto simp: consume_quoted_def quoted_tail_def)
  have "str_get (pre @ (d # p @ [d]) @ q) (byte_len pre) (byte_len pre + byte_len (d # p @ [d])) =
      Some (d # p @ [d])" by (rule str_get_middle)
  with * d decode_delimited_body [OF *(2) d(1)] have
    "make_string_literal (pre @ d # remainder) (byte_len pre) (byte_len pre + 1 + n) =
      Some (StringLiteral v (if d = 39 then Quote_Single else Quote_Double))"
    by (simp add: make_string_literal_def)
  with * show ?thesis by blast
qed

lemma string_literal_value_witness:
  "\<exists>p q v. ascii [CHR ''a'', CHR 0x27] = p @ 39 # q \<and> quoted_body 39 p v \<and>
    make_string_literal ([] @ 39 # ascii [CHR ''a'', CHR 0x27]) (byte_len []) (byte_len [] + 1 + 2) =
      Some (StringLiteral v (if (39::nat) = 39 then Quote_Single else Quote_Double))"
proof -
  have "consume_quoted (ascii [CHR ''a'', CHR 0x27]) 39 LE_UnterminatedString = (None, 2)"
    by code_simp
  then show ?thesis by (rule string_literal_value) simp
qed

text \<open>Escaping: double the delimiter and the backslash.\<close>

fun escape_text :: "uchar \<Rightarrow> ustr \<Rightarrow> ustr" where
  "escape_text d [] = []"
| "escape_text d (c # v) =
     (if c = d then d # d # escape_text d v
      else if c = 92 then 92 # 92 # escape_text d v
      else c # escape_text d v)"

lemma escape_text_body: "d \<noteq> 92 \<Longrightarrow> quoted_body d (escape_text d v) v"
  by (induction v) (auto intro: quoted_body.intros simp: simple_escape_value_def)

text \<open>
  C28: every text is the name of an escaped identifier. Writing \<open>v\<close> between backticks, with
  backticks and backslashes doubled, gives a token the lexer accepts to its end, and \<open>name\<close> on its
  span returns \<open>v\<close>.
\<close>

theorem escaped_identifier_roundtrip:
  "lex_escaped_identifier (escape_text 96 v @ [96]) = (None, byte_len (escape_text 96 v) + 1) \<and>
   make_name (pre @ 96 # escape_text 96 v @ 96 # post) (byte_len pre)
       (byte_len pre + byte_len (escape_text 96 v) + 2) True =
     Some (Node (Identifier v True)
       (mk_span (byte_len pre) (byte_len pre + byte_len (escape_text 96 v) + 2)))"
proof -
  have body: "quoted_body 96 (escape_text 96 v) v" by (rule escape_text_body) simp
  have "str_get (pre @ (96 # escape_text 96 v @ [96]) @ post) (byte_len pre)
      (byte_len pre + byte_len (96 # escape_text 96 v @ [96])) = Some (96 # escape_text 96 v @ [96])"
    by (rule str_get_middle)
  then have "make_name (pre @ 96 # escape_text 96 v @ 96 # post) (byte_len pre)
       (byte_len pre + byte_len (escape_text 96 v) + 2) True =
     Some (Node (Identifier v True)
       (mk_span (byte_len pre) (byte_len pre + byte_len (escape_text 96 v) + 2)))"
    using decode_delimited_body [OF body] by (simp add: make_name_def)
  moreover have "lex_escaped_identifier (escape_text 96 v @ [96]) =
      (None, byte_len (escape_text 96 v) + 1)"
    using consume_quoted_complete [OF body, of "[]" LE_UnterminatedIdentifier 0]
    by (simp add: lex_escaped_identifier_def consume_quoted_def)
  ultimately show ?thesis by blast
qed

end
