(* ===== verification/Normalize.thy ===== *)
theory Normalize
  imports Diagnostics
begin

text \<open>
  \<open>normalize_diagnostics\<close> of \<open>src/parser.rs\<close>: sort, drop repetitions, and keep at most
  \<open>MAX_DIAGNOSTICS\<close>.
\<close>

definition max_diagnostics :: nat where
  "max_diagnostics = 32"

type_synonym norm_tuple = "nat \<times> nat \<times> diagnostic_code \<times> ustr"

definition norm_key :: "diagnostic \<Rightarrow> norm_tuple" where
  "norm_key d = (span_start (diag_span d), span_end (diag_span d), diag_code d, diag_message d)"

definition same_diagnostic :: "diagnostic \<Rightarrow> diagnostic \<Rightarrow> bool" where
  "same_diagnostic left right =
     (diag_code left = diag_code right \<and> diag_span left = diag_span right \<and>
      diag_message left = diag_message right)"

definition normalize_diagnostics :: "nat \<Rightarrow> diagnostic list \<Rightarrow> diagnostic list panics" where
  "normalize_diagnostics source_len ds =
     (let kept = dedup_by same_diagnostic (sort_key norm_key ds) in
      if length kept > max_diagnostics then
        map_option (\<lambda>sp. take (max_diagnostics - 1) kept @
            [diagnostic_error DC_TooManyErrors
              (ascii ''additional parser diagnostics were suppressed'') sp])
          (span_empty source_len)
      else Some kept)"

lemma same_diagnostic_iff: "same_diagnostic a b \<longleftrightarrow> norm_key a = norm_key b"
  by (auto simp: same_diagnostic_def norm_key_def intro: span.equality)

definition kept_diagnostics :: "diagnostic list \<Rightarrow> diagnostic list" where
  "kept_diagnostics ds = dedup_by same_diagnostic (sort_key norm_key ds)"

lemma kept_strict: "sorted_wrt (\<lambda>a b. norm_key a < norm_key b) (kept_diagnostics ds)"
  unfolding kept_diagnostics_def by (rule dedup_by_strict [OF same_diagnostic_iff]) simp

lemma kept_keys: "norm_key ` set (kept_diagnostics ds) = norm_key ` set ds"
  unfolding kept_diagnostics_def 
  using key_set_dedup_by [of same_diagnostic norm_key] same_diagnostic_iff by simp

lemma kept_subset: "set (kept_diagnostics ds) \<subseteq> set ds"
  unfolding kept_diagnostics_def using set_dedup_by [of same_diagnostic "sort_key norm_key ds"] by simp

lemma sorted_wrt_distinct_key:
  fixes k :: "'a \<Rightarrow> 'k::linorder"
  shows "sorted_wrt (\<lambda>a b. k a < k b) xs \<Longrightarrow> distinct (map k xs)"
  by (induction xs) force+

lemma kept_length: "length (kept_diagnostics ds) = card (norm_key ` set ds)"
  using distinct_card [OF sorted_wrt_distinct_key [OF kept_strict [of ds]]]
  by (simp add: kept_keys)

lemma kept_eq_Nil: "kept_diagnostics ds = [] \<longleftrightarrow> ds = []"
proof -
  have "length (sort_key norm_key ds) = length ds" by simp
  then show ?thesis unfolding kept_diagnostics_def by (metis dedup_by_eq_Nil length_0_conv)
qed

lemma normalize_eq:
  "normalize_diagnostics n ds =
     Some (if length (kept_diagnostics ds) \<le> 32 then kept_diagnostics ds
       else take 31 (kept_diagnostics ds) @ [diagnostic_error DC_TooManyErrors
         (ascii ''additional parser diagnostics were suppressed'') (mk_span n n)])"
  by (simp add: normalize_diagnostics_def kept_diagnostics_def max_diagnostics_def Let_def)

lemma normalize_total: "\<exists>out. normalize_diagnostics n ds = Some out"
  by (simp add: normalize_eq)

lemma normalize_errors:
  "normalize_diagnostics n ds = Some out \<Longrightarrow> \<forall>d\<in>set ds. is_error d \<Longrightarrow> \<forall>d\<in>set out. is_error d"
  using kept_subset [of ds] by (fastforce simp: normalize_eq split: if_splits dest: in_set_takeD)

lemma normalize_Nil_iff: "normalize_diagnostics n ds = Some out \<Longrightarrow> out = [] \<longleftrightarrow> ds = []"
  using kept_eq_Nil [of ds] by (auto simp: normalize_eq split: if_splits)

lemma normalize_length: "normalize_diagnostics n ds = Some out \<Longrightarrow> length out \<le> 32"
  by (auto simp: normalize_eq split: if_splits)

text \<open>
  C12: normalisation returns at most 32 diagnostics and loses none silently. With at most 32
  different ones (by span, code and message) it returns one of each in strictly ascending order;
  with more it returns the 31 least, in strictly ascending order, followed by the diagnostic that
  says so, and every diagnostic left out is greater than all that are kept.
\<close>

theorem normalize_diagnostics_spec:
  "\<exists>out. normalize_diagnostics source_len ds = Some out \<and> length out \<le> 32 \<and>
     (if card (norm_key ` set ds) \<le> 32
      then sorted_wrt (\<lambda>a b. norm_key a < norm_key b) out \<and> norm_key ` set out = norm_key ` set ds \<and>
        set out \<subseteq> set ds
      else (\<exists>kept. out = kept @ [diagnostic_error DC_TooManyErrors
          (ascii ''additional parser diagnostics were suppressed'') (mk_span source_len source_len)] \<and>
        length kept = 31 \<and> sorted_wrt (\<lambda>a b. norm_key a < norm_key b) kept \<and> set kept \<subseteq> set ds \<and>
        (\<forall>k\<in>norm_key ` set ds - norm_key ` set kept. \<forall>d\<in>set kept. norm_key d < k)))"
proof (cases "length (kept_diagnostics ds) \<le> 32")
  case True
  then have "card (norm_key ` set ds) \<le> 32" by (simp add: kept_length)
  with True show ?thesis
    using kept_strict [of ds] kept_keys [of ds] kept_subset [of ds] by (simp add: normalize_eq)
next
  case False
  let ?kept = "take 31 (kept_diagnostics ds)"
  have split: "kept_diagnostics ds = ?kept @ drop 31 (kept_diagnostics ds)" by simp
  with kept_strict [of ds] have
    strict: "sorted_wrt (\<lambda>a b. norm_key a < norm_key b) (?kept @ drop 31 (kept_diagnostics ds))" by simp
  have later: "\<forall>k\<in>norm_key ` set ds - norm_key ` set ?kept. \<forall>d\<in>set ?kept. norm_key d < k"
  proof (intro ballI)
    fix k d assume k: "k \<in> norm_key ` set ds - norm_key ` set ?kept" and d: "d \<in> set ?kept"
    from k kept_keys [of ds] obtain x where x: "x \<in> set (kept_diagnostics ds)" "k = norm_key x" by auto
    with k have "x \<notin> set ?kept" by blast
    with x(1) split have "x \<in> set (drop 31 (kept_diagnostics ds))" by (metis Un_iff set_append)
    with d x(2) strict show "norm_key d < k" unfolding sorted_wrt_append by blast
  qed
  from False have "\<not> card (norm_key ` set ds) \<le> 32" by (simp add: kept_length)
  moreover have "set ?kept \<subseteq> set ds" using kept_subset [of ds] by (auto dest: in_set_takeD)
  moreover have "sorted_wrt (\<lambda>a b. norm_key a < norm_key b) ?kept"
    using kept_strict by (rule sorted_wrt_take)
  ultimately show ?thesis using False later by (auto simp: normalize_eq)
qed

lemma normalize_diagnostics_spec_witness:
  "normalize_diagnostics 9 [diagnostic_error DC_Recovery [] (mk_span 4 5),
     diagnostic_error DC_Recovery [] (mk_span 1 2), diagnostic_error DC_Recovery [] (mk_span 4 5)] =
   Some [diagnostic_error DC_Recovery [] (mk_span 1 2), diagnostic_error DC_Recovery [] (mk_span 4 5)] \<and>
   (\<exists>out. normalize_diagnostics 9 [diagnostic_error DC_Recovery [] (mk_span 1 2)] = Some out \<and>
     length out \<le> 32)"
proof
  show "normalize_diagnostics 9 [diagnostic_error DC_Recovery [] (mk_span 4 5),
     diagnostic_error DC_Recovery [] (mk_span 1 2), diagnostic_error DC_Recovery [] (mk_span 4 5)] =
   Some [diagnostic_error DC_Recovery [] (mk_span 1 2), diagnostic_error DC_Recovery [] (mk_span 4 5)]"
    by code_simp
  show "\<exists>out. normalize_diagnostics 9 [diagnostic_error DC_Recovery [] (mk_span 1 2)] = Some out \<and>
     length out \<le> 32"
    using normalize_diagnostics_spec [of 9 "[diagnostic_error DC_Recovery [] (mk_span 1 2)]"] by blast
qed

end
