(* ===== verification/Delimiters.thy ===== *)
theory Delimiters
  imports Diagnostics Tokens
begin

text \<open>
  \<open>collect_delimiter_diagnostics\<close> of \<open>src/parser.rs\<close>, the stack machine over the lexer's tokens,
  and its specification: it stays silent exactly on balanced input.
\<close>

definition is_open_kind :: "token_kind \<Rightarrow> bool" where
  "is_open_kind k = (k \<in> {T_LeftParen, T_LeftBracket, T_LeftBrace})"

definition is_close_kind :: "token_kind \<Rightarrow> bool" where
  "is_close_kind k = (k \<in> {T_RightParen, T_RightBracket, T_RightBrace})"

text \<open>The inner match of the source; the last arm is its \<open>unreachable!()\<close>.\<close>

definition expected_open :: "token_kind \<Rightarrow> token_kind panics" where
  "expected_open k =
     (if k = T_RightParen then Some T_LeftParen
      else if k = T_RightBracket then Some T_LeftBracket
      else if k = T_RightBrace then Some T_LeftBrace
      else None)"

text \<open>
  The loop over the significant tokens. The stack is a list with its top in front; the diagnostics
  are those added so far.
\<close>

type_synonym delimiter_stack = "(token_kind \<times> span) list"

definition unexpected_close :: "token \<Rightarrow> diagnostic" where
  "unexpected_close t = diagnostic_error DC_MismatchedDelimiter
     (ascii ''unexpected closing delimiter '' @ kind_display_name (token_kind t)) (token_span t)"

definition mismatched_close :: "token \<Rightarrow> token_kind \<times> span \<Rightarrow> diagnostic" where
  "mismatched_close t entry = with_label
     (diagnostic_error DC_MismatchedDelimiter
       (ascii ''mismatched delimiter: '' @ kind_display_name (token_kind t) @
        ascii '' does not close '' @ kind_display_name (fst entry)) (token_span t))
     (snd entry) (ascii ''this delimiter was opened here'')"

fun delimiter_scan ::
  "delimiter_stack \<Rightarrow> token list \<Rightarrow> diagnostic list \<Rightarrow> (delimiter_stack \<times> diagnostic list) panics" where
  "delimiter_scan stack [] ds = Some (stack, ds)"
| "delimiter_scan stack (t # ts) ds =
     (if is_open_kind (token_kind t) then
        delimiter_scan ((token_kind t, token_span t) # stack) ts ds
      else if is_close_kind (token_kind t) then
        Option.bind (expected_open (token_kind t)) (\<lambda>expected.
          (case stack of
             [] \<Rightarrow> delimiter_scan [] ts (ds @ [unexpected_close t])
           | entry # below \<Rightarrow>
               if fst entry = expected then delimiter_scan below ts ds
               else delimiter_scan below ts (ds @ [mismatched_close t entry])))
      else delimiter_scan stack ts ds)"

definition unclosed_diagnostic :: "ustr \<Rightarrow> token_kind \<times> span \<Rightarrow> diagnostic" where
  "unclosed_diagnostic source entry =
     with_help
       (diagnostic_error DC_UnclosedDelimiter
         (ascii ''unclosed delimiter '' @ kind_display_name (fst entry)) (snd entry))
       (ascii ''add the matching delimiter before byte '' @ decimal (byte_len source))"

text \<open>The final loop drains the stack from its bottom.\<close>

definition collect_delimiter_diagnostics ::
  "ustr \<Rightarrow> token list \<Rightarrow> diagnostic list \<Rightarrow> diagnostic list panics" where
  "collect_delimiter_diagnostics source tokens ds =
     map_option (\<lambda>(stack, ds'). ds' @ map (unclosed_diagnostic source) (rev stack))
       (delimiter_scan [] (filter (\<lambda>t. \<not> token_is_trivia t) tokens) ds)"

section \<open>Balanced input\<close>

inductive balanced :: "token_kind list \<Rightarrow> bool" where
  bal_nil: "balanced []"
| bal_other: "\<not> is_open_kind k \<Longrightarrow> \<not> is_close_kind k \<Longrightarrow> balanced ks \<Longrightarrow> balanced (k # ks)"
| bal_pair: "expected_open c = Some k \<Longrightarrow> balanced xs \<Longrightarrow> balanced ys \<Longrightarrow> balanced (k # xs @ c # ys)"

lemma expected_open_close: "(\<exists>k. expected_open c = Some k) \<longleftrightarrow> is_close_kind c"
  by (auto simp: expected_open_def is_close_kind_def)

lemma expected_open_open: "expected_open c = Some k \<Longrightarrow> is_open_kind k \<and> is_close_kind c"
  by (auto simp: expected_open_def is_close_kind_def is_open_kind_def split: if_splits)

lemma not_open_and_close: "is_open_kind k \<Longrightarrow> \<not> is_close_kind k"
  by (auto simp: is_close_kind_def is_open_kind_def)

lemma delimiter_scan_total: "\<exists>stack' ds'. delimiter_scan stack ts ds = Some (stack', ds @ ds')"
proof (induction stack ts ds rule: delimiter_scan.induct)
  case (1 stack ds)
  then show ?case by simp
next
  case (2 stack t ts ds)
  consider "is_open_kind (token_kind t)"
    | k where "\<not> is_open_kind (token_kind t)" "is_close_kind (token_kind t)"
        "expected_open (token_kind t) = Some k"
    | "\<not> is_open_kind (token_kind t)" "\<not> is_close_kind (token_kind t)"
    using expected_open_close by blast
  then show ?case
  proof cases
    case 1
    with 2 show ?thesis by simp
  next
    case (2 k)
    with "2.IH" show ?thesis by (cases stack) (fastforce split: prod.splits if_splits)+
  next
    case 3
    with 2 show ?thesis by simp
  qed
qed

text \<open>The machine without diagnostics, on kinds.\<close>

fun closes :: "token_kind list \<Rightarrow> token_kind list \<Rightarrow> bool" where
  "closes st [] = (st = [])"
| "closes st (k # ks) =
     (if is_open_kind k then closes (k # st) ks
      else if is_close_kind k then
        (case st of [] \<Rightarrow> False | o' # st' \<Rightarrow> expected_open k = Some o' \<and> closes st' ks)
      else closes st ks)"

lemma delimiter_scan_closes:
  "delimiter_scan stack ts ds = Some ([], ds) \<longleftrightarrow> closes (map fst stack) (map token_kind ts)"
proof (induction stack ts ds rule: delimiter_scan.induct)
  case (1 stack ds)
  then show ?case by auto
next
  case (2 stack t ts ds)
  have longer: "delimiter_scan st ts (ds @ [d]) \<noteq> Some ([], ds)" for st d
    using delimiter_scan_total [of st ts "ds @ [d]"] by auto
  consider "is_open_kind (token_kind t)"
    | k where "\<not> is_open_kind (token_kind t)" "is_close_kind (token_kind t)"
        "expected_open (token_kind t) = Some k"
    | "\<not> is_open_kind (token_kind t)" "\<not> is_close_kind (token_kind t)"
    using expected_open_close by blast
  then show ?case
  proof cases
    case 1
    with 2 show ?thesis by simp
  next
    case c: (2 k)
    show ?thesis
    proof (cases stack)
      case Nil
      with c longer show ?thesis by simp
    next
      case (Cons entry below)
      show ?thesis
      proof (cases "fst entry = k")
        case True
        with Cons c "2.IH" show ?thesis by simp
      next
        case False
        with Cons c longer show ?thesis by simp
      qed
    qed
  next
    case 3
    with 2 show ?thesis by simp
  qed
qed

lemma balanced_closes: "balanced xs \<Longrightarrow> closes st (xs @ ys) = closes st ys"
proof (induction arbitrary: st ys rule: balanced.induct)
  case (bal_pair c k xs zs)
  with expected_open_open [OF bal_pair.hyps(1)] not_open_and_close [of c]
  show ?case by (auto dest: not_open_and_close)
qed simp_all

text \<open>What remains is cut at the closers of the open delimiters.\<close>

fun cut :: "token_kind list \<Rightarrow> token_kind list \<Rightarrow> bool" where
  "cut [] ks = balanced ks"
| "cut (o' # st) ks =
     (\<exists>xs c ys. ks = xs @ c # ys \<and> balanced xs \<and> expected_open c = Some o' \<and> cut st ys)"

declare cut.simps(2) [simp del]

lemma cut_ConsI:
  "balanced xs \<Longrightarrow> expected_open c = Some k \<Longrightarrow> cut st ys \<Longrightarrow> cut (k # st) (xs @ c # ys)"
  unfolding cut.simps by blast

lemma cut_ConsE:
  assumes "cut (k # st) ks"
  obtains xs c ys where "ks = xs @ c # ys" "balanced xs" "expected_open c = Some k" "cut st ys"
  using assms unfolding cut.simps by blast

lemma cut_pair: "cut (k # st) ks \<Longrightarrow> cut st (k # ks)"
proof (erule cut_ConsE)
  fix xs c ys
  assume *: "ks = xs @ c # ys" "balanced xs" "expected_open c = Some k" "cut st ys"
  show ?thesis
  proof (cases st)
    case Nil
    with * show ?thesis by (auto intro: bal_pair)
  next
    case (Cons o' st')
    with *(4) obtain xs' c' ys' where **: "ys = xs' @ c' # ys'" "balanced xs'"
      "expected_open c' = Some o'" "cut st' ys'" by (auto elim: cut_ConsE)
    from bal_pair [OF *(3,2) **(2)] have "balanced (k # xs @ c # xs')" .
    from cut_ConsI [OF this **(3,4)] show ?thesis using Cons * ** by simp
  qed
qed

lemma cut_other:
  assumes "\<not> is_open_kind k" "\<not> is_close_kind k" "cut st ks"
  shows "cut st (k # ks)"
proof (cases st)
  case Nil
  with assms show ?thesis by (auto intro: bal_other)
next
  case (Cons o' st')
  with assms(3) obtain xs c ys where *: "ks = xs @ c # ys" "balanced xs"
    "expected_open c = Some o'" "cut st' ys" by (auto elim: cut_ConsE)
  from bal_other [OF assms(1,2) *(2)] have "balanced (k # xs)" .
  from cut_ConsI [OF this *(3,4)] show ?thesis using Cons * by simp
qed

lemma closes_cut: "closes st ks \<Longrightarrow> cut st ks"
proof (induction st ks rule: closes.induct)
  case (1 st)
  then show ?case by (auto intro: bal_nil)
next
  case (2 st k ks)
  consider "is_open_kind k" | "\<not> is_open_kind k" "is_close_kind k"
    | "\<not> is_open_kind k" "\<not> is_close_kind k" by blast
  then show ?case
  proof cases
    case 1
    with 2 have "cut (k # st) ks" by simp
    then show ?thesis by (rule cut_pair)
  next
    case c: 2
    with "2.prems" obtain o' st' where st: "st = o' # st'" "expected_open k = Some o'" "closes st' ks"
      by (auto split: list.splits)
    with c "2.IH"(2) have "cut st' ks" by simp
    from cut_ConsI [OF bal_nil st(2) this] st show ?thesis by simp
  next
    case 3
    with 2 have "cut st ks" by simp
    with 3 show ?thesis by (intro cut_other)
  qed
qed

lemma closes_iff_balanced: "closes [] ks \<longleftrightarrow> balanced ks"
  using closes_cut [of "[]" ks] balanced_closes [of ks "[]" "[]"] by auto

text \<open>
  C11: the delimiter check never panics, it only appends diagnostics, and it appends none exactly
  when the significant tokens are balanced: every bracket closed by its own kind, properly nested.
\<close>

theorem delimiter_diagnostics_iff_unbalanced:
  "\<exists>added. collect_delimiter_diagnostics source tokens ds = Some (ds @ added) \<and>
     (added = [] \<longleftrightarrow> balanced (map token_kind (filter (\<lambda>t. \<not> token_is_trivia t) tokens)))"
proof -
  let ?ts = "filter (\<lambda>t. \<not> token_is_trivia t) tokens"
  from delimiter_scan_total obtain stack ds' where
    scan: "delimiter_scan [] ?ts ds = Some (stack, ds @ ds')" by blast
  then have "ds' @ map (unclosed_diagnostic source) (rev stack) = [] \<longleftrightarrow>
      balanced (map token_kind ?ts)"
    using delimiter_scan_closes [of "[]" ?ts ds] by (auto simp: closes_iff_balanced)
  with scan show ?thesis by (simp add: collect_delimiter_diagnostics_def)
qed

text \<open>What each added diagnostic points at.\<close>

lemma close_diagnostic_simps [simp]:
  "is_error (unexpected_close t)" "diag_code (unexpected_close t) = DC_MismatchedDelimiter"
  "diag_span (unexpected_close t) = token_span t"
  "is_error (mismatched_close t e)" "diag_code (mismatched_close t e) = DC_MismatchedDelimiter"
  "diag_span (mismatched_close t e) = token_span t"
  "is_error (unclosed_diagnostic source e)"
  "diag_code (unclosed_diagnostic source e) = DC_UnclosedDelimiter"
  "diag_span (unclosed_diagnostic source e) = snd e"
  by (simp_all add: unexpected_close_def mismatched_close_def unclosed_diagnostic_def)

lemma delimiter_scan_sound:
  "delimiter_scan stack ts ds = Some (stack', ds') \<Longrightarrow>
     (\<forall>(k, s)\<in>set stack'. (k, s) \<in> set stack \<or> is_open_kind k \<and> (\<exists>t\<in>set ts. token_kind t = k \<and> token_span t = s)) \<and>
     (\<forall>d\<in>set ds'. d \<in> set ds \<or> is_error d \<and> diag_code d = DC_MismatchedDelimiter \<and>
        (\<exists>t\<in>set ts. is_close_kind (token_kind t) \<and> diag_span d = token_span t))"
proof (induction stack ts ds rule: delimiter_scan.induct)
  case (2 stack t ts ds)
  consider "is_open_kind (token_kind t)"
    | k where "\<not> is_open_kind (token_kind t)" "is_close_kind (token_kind t)"
        "expected_open (token_kind t) = Some k"
    | "\<not> is_open_kind (token_kind t)" "\<not> is_close_kind (token_kind t)"
    using expected_open_close by blast
  then show ?case
  proof cases
    case 1
    with "2.IH"(1) "2.prems" show ?thesis by fastforce
  next
    case c: (2 k)
    show ?thesis
    proof (cases stack)
      case Nil
      with c "2.IH"(2) "2.prems" show ?thesis by fastforce
    next
      case (Cons e below)
      show ?thesis
      proof (cases "fst e = k")
        case True
        with Cons c "2.IH"(3) "2.prems" show ?thesis by fastforce
      next
        case False
        with Cons c "2.IH"(4) "2.prems" show ?thesis by fastforce
      qed
    qed
  next
    case 3
    with "2.IH"(5) "2.prems" show ?thesis by fastforce
  qed
qed auto

text \<open>
  every diagnostic the check adds is an error that points at a delimiter of the input: a
  mismatch at a closing one, an unclosed delimiter at an opening one.
\<close>

theorem delimiter_diagnostics_point_at_delimiters:
  "\<forall>result. collect_delimiter_diagnostics source tokens [] = Some result \<longrightarrow>
     (\<forall>d\<in>set result. is_error d \<and> (\<exists>t\<in>set tokens. diag_span d = token_span t \<and>
        (if is_close_kind (token_kind t) then diag_code d = DC_MismatchedDelimiter
         else is_open_kind (token_kind t) \<and> diag_code d = DC_UnclosedDelimiter)))"
proof (intro allI impI ballI)
  fix result d
  assume "collect_delimiter_diagnostics source tokens [] = Some result" and d: "d \<in> set result"
  then obtain stack ds' where
    scan: "delimiter_scan [] (filter (\<lambda>t. \<not> token_is_trivia t) tokens) [] = Some (stack, ds')"
    and result: "result = ds' @ map (unclosed_diagnostic source) (rev stack)"
    by (auto simp: collect_delimiter_diagnostics_def)
  note sound = delimiter_scan_sound [OF scan]
  from d result consider "d \<in> set ds'" | k s where "(k, s) \<in> set stack" "d = unclosed_diagnostic source (k, s)"
    by auto
  then show "is_error d \<and> (\<exists>t\<in>set tokens. diag_span d = token_span t \<and>
      (if is_close_kind (token_kind t) then diag_code d = DC_MismatchedDelimiter
       else is_open_kind (token_kind t) \<and> diag_code d = DC_UnclosedDelimiter))"
  proof cases
    case 1
    with sound show ?thesis by fastforce
  next
    case (2 k s)
    with sound obtain t where t: "t \<in> set tokens" "is_open_kind k" "token_kind t = k" "token_span t = s"
      by fastforce
    with 2 not_open_and_close [of k] show ?thesis by (auto intro!: bexI [of _ t])
  qed
qed

lemma delimiter_diagnostics_point_at_delimiters_witness:
  "\<exists>d. collect_delimiter_diagnostics (ascii '')'')
       [\<lparr>token_kind = T_RightParen, token_span = mk_span 0 1\<rparr>] [] = Some [d] \<and> is_error d"
proof -
  let ?t = "\<lparr>token_kind = T_RightParen, token_span = mk_span 0 1\<rparr>"
  have "collect_delimiter_diagnostics (ascii '')'') [?t] [] = Some [unexpected_close ?t]"
    by code_simp
  with delimiter_diagnostics_point_at_delimiters [of "ascii '')''" "[?t]"] show ?thesis by fastforce
qed

end
