(* ===== verification/Parser_Token.thy ===== *)
theory Parser_Token
  imports Main
begin

text \<open>
  The terminals of the grammar, \<open>ParserToken\<close> of \<open>src/parser.rs\<close>. The type stands in a theory of
  its own because an enumeration of this size takes the longest of all definitions to check; only
  the size plugin is used, and closed terms over it are evaluated by the simplifier.
\<close>

datatype (plugins only: size) parser_token =
    P_ErrorExpression | P_Identifier | P_EscapedIdentifier | P_Parameter | P_Integer
  | P_HexInteger | P_OctalInteger | P_Float | P_String | P_PatternComprehension
  | P_PatternExpression | P_LabelPredicate | P_RelationshipLabelExpression
  | P_QualifiedFunctionName | P_All | P_SetAll | P_AllShortestPaths | P_And | P_Any | P_As
  | P_Asc | P_Ascending | P_By | P_Call | P_Case | P_Contains | P_Collect | P_Count | P_Create
  | P_Delete | P_Desc | P_Descending | P_Detach | P_Distinct | P_Else | P_End | P_Ends
  | P_Exists | P_False | P_Group | P_Groups | P_In | P_Inf | P_Infinity | P_Is | P_Limit
  | P_Match | P_Merge | P_Nan | P_None | P_Not | P_Null | P_Offset | P_On | P_Optional | P_Or
  | P_Order | P_Path | P_Paths | P_Reduce | P_Remove | P_Return | P_Set | P_Shortest
  | P_ShortestPath | P_Simple | P_Single | P_Skip | P_Starts | P_Then | P_Trail | P_Trim
  | P_True | P_Union | P_Unwind | P_Walk | P_When | P_Where | P_With | P_Xor | P_Yield
  | P_Acyclic | P_LeftParen | P_RightParen | P_LeftBracket | P_RightBracket | P_LeftBrace
  | P_RightBrace | P_Comma | P_Dot | P_DotDot | P_Colon | P_DoubleColon | P_Semicolon | P_Pipe
  | P_DoublePipe | P_Ampersand | P_Question | P_Dollar | P_Plus | P_Minus | P_Star | P_Slash
  | P_Percent | P_Caret | P_Bang | P_Equal | P_NotEqual | P_Less | P_LessEqual | P_Greater
  | P_GreaterEqual | P_PlusEqual | P_FatArrow | P_RegexMatch | P_LeftArrow | P_RightArrow
  | P_Invalid

end
