(* ===== verification/Parser_Tokens.thy ===== *)
theory Parser_Tokens
  imports Tokens Parser_Token
begin

text \<open>
  The tables of \<open>ParserToken\<close> in \<open>src/parser.rs\<close>: its names, the two classifications that the
  contextual-name search uses, and the conversion from lexer kinds. A Rust \<open>matches!\<close> on a list of
  constructors is a membership in the set of these constructors.
\<close>

definition is_keyword_literal :: "parser_token \<Rightarrow> bool" where
  "is_keyword_literal t = (t \<in> {P_False, P_Inf, P_Infinity, P_Nan, P_Null, P_True})"

definition is_contextual_name_candidate :: "parser_token \<Rightarrow> bool" where
  "is_contextual_name_candidate t = (t \<notin>
     {P_Identifier, P_ErrorExpression, P_EscapedIdentifier, P_Parameter, P_Integer,
       P_HexInteger, P_OctalInteger, P_Float, P_String, P_PatternComprehension,
       P_PatternExpression, P_LabelPredicate, P_RelationshipLabelExpression,
       P_QualifiedFunctionName, P_LeftParen, P_RightParen, P_LeftBracket, P_RightBracket,
       P_LeftBrace, P_RightBrace, P_Comma, P_Dot, P_DotDot, P_Colon, P_DoubleColon,
       P_Semicolon, P_Pipe, P_DoublePipe, P_Ampersand, P_Question, P_Dollar, P_Plus, P_Minus,
       P_Star, P_Slash, P_Percent, P_Caret, P_Bang, P_Equal, P_NotEqual, P_Less, P_LessEqual,
       P_Greater, P_GreaterEqual, P_PlusEqual, P_FatArrow, P_RegexMatch, P_LeftArrow,
       P_RightArrow, P_Invalid})"

text \<open>\<open>ParserToken::name\<close>; \<open>Display\<close> puts it between backticks.\<close>

primrec ptok_name :: "parser_token \<Rightarrow> ustr" where
  "ptok_name P_ErrorExpression = ascii ''error expression''"
| "ptok_name P_Identifier = ascii ''identifier''"
| "ptok_name P_EscapedIdentifier = ascii ''escaped identifier''"
| "ptok_name P_Parameter = ascii ''parameter''"
| "ptok_name P_Integer = ascii ''integer''"
| "ptok_name P_HexInteger = ascii ''hex integer''"
| "ptok_name P_OctalInteger = ascii ''octal integer''"
| "ptok_name P_Float = ascii ''float''"
| "ptok_name P_String = ascii ''string''"
| "ptok_name P_PatternComprehension = ascii ''pattern comprehension''"
| "ptok_name P_PatternExpression = ascii ''pattern expression''"
| "ptok_name P_LabelPredicate = ascii ''label predicate''"
| "ptok_name P_RelationshipLabelExpression = ascii ''relationship label expression''"
| "ptok_name P_QualifiedFunctionName = ascii ''qualified function name''"
| "ptok_name P_All = ascii ''ALL''"
| "ptok_name P_SetAll = ascii ''ALL''"
| "ptok_name P_AllShortestPaths = ascii ''ALLSHORTESTPATHS''"
| "ptok_name P_And = ascii ''AND''"
| "ptok_name P_Any = ascii ''ANY''"
| "ptok_name P_As = ascii ''AS''"
| "ptok_name P_Asc = ascii ''ASC''"
| "ptok_name P_Ascending = ascii ''ASCENDING''"
| "ptok_name P_By = ascii ''BY''"
| "ptok_name P_Call = ascii ''CALL''"
| "ptok_name P_Case = ascii ''CASE''"
| "ptok_name P_Contains = ascii ''CONTAINS''"
| "ptok_name P_Collect = ascii ''COLLECT''"
| "ptok_name P_Count = ascii ''COUNT''"
| "ptok_name P_Create = ascii ''CREATE''"
| "ptok_name P_Delete = ascii ''DELETE''"
| "ptok_name P_Desc = ascii ''DESC''"
| "ptok_name P_Descending = ascii ''DESCENDING''"
| "ptok_name P_Detach = ascii ''DETACH''"
| "ptok_name P_Distinct = ascii ''DISTINCT''"
| "ptok_name P_Else = ascii ''ELSE''"
| "ptok_name P_End = ascii ''END''"
| "ptok_name P_Ends = ascii ''ENDS''"
| "ptok_name P_Exists = ascii ''EXISTS''"
| "ptok_name P_False = ascii ''FALSE''"
| "ptok_name P_Group = ascii ''GROUP''"
| "ptok_name P_Groups = ascii ''GROUPS''"
| "ptok_name P_In = ascii ''IN''"
| "ptok_name P_Inf = ascii ''INF''"
| "ptok_name P_Infinity = ascii ''INFINITY''"
| "ptok_name P_Is = ascii ''IS''"
| "ptok_name P_Limit = ascii ''LIMIT''"
| "ptok_name P_Match = ascii ''MATCH''"
| "ptok_name P_Merge = ascii ''MERGE''"
| "ptok_name P_Nan = ascii ''NAN''"
| "ptok_name P_None = ascii ''NONE''"
| "ptok_name P_Not = ascii ''NOT''"
| "ptok_name P_Null = ascii ''NULL''"
| "ptok_name P_Offset = ascii ''OFFSET''"
| "ptok_name P_On = ascii ''ON''"
| "ptok_name P_Optional = ascii ''OPTIONAL''"
| "ptok_name P_Or = ascii ''OR''"
| "ptok_name P_Order = ascii ''ORDER''"
| "ptok_name P_Path = ascii ''PATH''"
| "ptok_name P_Paths = ascii ''PATHS''"
| "ptok_name P_Reduce = ascii ''REDUCE''"
| "ptok_name P_Remove = ascii ''REMOVE''"
| "ptok_name P_Return = ascii ''RETURN''"
| "ptok_name P_Set = ascii ''SET''"
| "ptok_name P_Shortest = ascii ''SHORTEST''"
| "ptok_name P_ShortestPath = ascii ''SHORTESTPATH''"
| "ptok_name P_Simple = ascii ''SIMPLE''"
| "ptok_name P_Single = ascii ''SINGLE''"
| "ptok_name P_Skip = ascii ''SKIP''"
| "ptok_name P_Starts = ascii ''STARTS''"
| "ptok_name P_Then = ascii ''THEN''"
| "ptok_name P_Trail = ascii ''TRAIL''"
| "ptok_name P_Trim = ascii ''TRIM''"
| "ptok_name P_True = ascii ''TRUE''"
| "ptok_name P_Union = ascii ''UNION''"
| "ptok_name P_Unwind = ascii ''UNWIND''"
| "ptok_name P_Walk = ascii ''WALK''"
| "ptok_name P_When = ascii ''WHEN''"
| "ptok_name P_Where = ascii ''WHERE''"
| "ptok_name P_With = ascii ''WITH''"
| "ptok_name P_Xor = ascii ''XOR''"
| "ptok_name P_Yield = ascii ''YIELD''"
| "ptok_name P_Acyclic = ascii ''ACYCLIC''"
| "ptok_name P_LeftParen = ascii ''(''"
| "ptok_name P_RightParen = ascii '')''"
| "ptok_name P_LeftBracket = ascii ''[''"
| "ptok_name P_RightBracket = ascii '']''"
| "ptok_name P_LeftBrace = ascii ''{''"
| "ptok_name P_RightBrace = ascii ''}''"
| "ptok_name P_Comma = ascii '',''"
| "ptok_name P_Dot = ascii ''.''"
| "ptok_name P_DotDot = ascii ''..''"
| "ptok_name P_Colon = ascii '':''"
| "ptok_name P_DoubleColon = ascii ''::''"
| "ptok_name P_Semicolon = ascii '';''"
| "ptok_name P_Pipe = ascii ''|''"
| "ptok_name P_DoublePipe = ascii ''||''"
| "ptok_name P_Ampersand = ascii ''&''"
| "ptok_name P_Question = ascii ''?''"
| "ptok_name P_Dollar = ascii ''$''"
| "ptok_name P_Plus = ascii ''+''"
| "ptok_name P_Minus = ascii ''-''"
| "ptok_name P_Star = ascii ''*''"
| "ptok_name P_Slash = ascii ''/''"
| "ptok_name P_Percent = ascii ''%''"
| "ptok_name P_Caret = ascii ''^''"
| "ptok_name P_Bang = ascii ''!''"
| "ptok_name P_Equal = ascii ''=''"
| "ptok_name P_NotEqual = ascii ''<>''"
| "ptok_name P_Less = ascii ''<''"
| "ptok_name P_LessEqual = ascii ''<=''"
| "ptok_name P_Greater = ascii ''>''"
| "ptok_name P_GreaterEqual = ascii ''>=''"
| "ptok_name P_PlusEqual = ascii ''+=''"
| "ptok_name P_FatArrow = ascii ''=>''"
| "ptok_name P_RegexMatch = ascii ''=~''"
| "ptok_name P_LeftArrow = ascii ''<-''"
| "ptok_name P_RightArrow = ascii ''->''"
| "ptok_name P_Invalid = ascii ''invalid token''"

definition ptok_display :: "parser_token \<Rightarrow> ustr" where
  "ptok_display t = ascii ''`'' @ ptok_name t @ ascii ''`''"

text \<open>\<open>keyword_token\<close>.\<close>

primrec keyword_token :: "keyword \<Rightarrow> parser_token" where
  "keyword_token Kw_Acyclic = P_Acyclic"
| "keyword_token Kw_All = P_All"
| "keyword_token Kw_AllShortestPaths = P_AllShortestPaths"
| "keyword_token Kw_And = P_And"
| "keyword_token Kw_Any = P_Any"
| "keyword_token Kw_As = P_As"
| "keyword_token Kw_Asc = P_Asc"
| "keyword_token Kw_Ascending = P_Ascending"
| "keyword_token Kw_By = P_By"
| "keyword_token Kw_Call = P_Call"
| "keyword_token Kw_Case = P_Case"
| "keyword_token Kw_Collect = P_Collect"
| "keyword_token Kw_Contains = P_Contains"
| "keyword_token Kw_Count = P_Count"
| "keyword_token Kw_Create = P_Create"
| "keyword_token Kw_Delete = P_Delete"
| "keyword_token Kw_Desc = P_Desc"
| "keyword_token Kw_Descending = P_Descending"
| "keyword_token Kw_Detach = P_Detach"
| "keyword_token Kw_Distinct = P_Distinct"
| "keyword_token Kw_Else = P_Else"
| "keyword_token Kw_End = P_End"
| "keyword_token Kw_Ends = P_Ends"
| "keyword_token Kw_Exists = P_Exists"
| "keyword_token Kw_False = P_False"
| "keyword_token Kw_Group = P_Group"
| "keyword_token Kw_Groups = P_Groups"
| "keyword_token Kw_In = P_In"
| "keyword_token Kw_Inf = P_Inf"
| "keyword_token Kw_Infinity = P_Infinity"
| "keyword_token Kw_Is = P_Is"
| "keyword_token Kw_Limit = P_Limit"
| "keyword_token Kw_Match = P_Match"
| "keyword_token Kw_Merge = P_Merge"
| "keyword_token Kw_Nan = P_Nan"
| "keyword_token Kw_None = P_None"
| "keyword_token Kw_Not = P_Not"
| "keyword_token Kw_Null = P_Null"
| "keyword_token Kw_Offset = P_Offset"
| "keyword_token Kw_On = P_On"
| "keyword_token Kw_Optional = P_Optional"
| "keyword_token Kw_Or = P_Or"
| "keyword_token Kw_Order = P_Order"
| "keyword_token Kw_Path = P_Path"
| "keyword_token Kw_Paths = P_Paths"
| "keyword_token Kw_Reduce = P_Reduce"
| "keyword_token Kw_Remove = P_Remove"
| "keyword_token Kw_Return = P_Return"
| "keyword_token Kw_Set = P_Set"
| "keyword_token Kw_Shortest = P_Shortest"
| "keyword_token Kw_ShortestPath = P_ShortestPath"
| "keyword_token Kw_Simple = P_Simple"
| "keyword_token Kw_Single = P_Single"
| "keyword_token Kw_Skip = P_Skip"
| "keyword_token Kw_Starts = P_Starts"
| "keyword_token Kw_Then = P_Then"
| "keyword_token Kw_Trail = P_Trail"
| "keyword_token Kw_Trim = P_Trim"
| "keyword_token Kw_True = P_True"
| "keyword_token Kw_Union = P_Union"
| "keyword_token Kw_Unwind = P_Unwind"
| "keyword_token Kw_Walk = P_Walk"
| "keyword_token Kw_When = P_When"
| "keyword_token Kw_Where = P_Where"
| "keyword_token Kw_With = P_With"
| "keyword_token Kw_Xor = P_Xor"
| "keyword_token Kw_Yield = P_Yield"

text \<open>
  \<open>impl From<TokenKind> for ParserToken\<close>: trivia has no terminal, the conversion is
  \<open>unreachable!\<close> there.
\<close>

primrec ptok_from :: "token_kind \<Rightarrow> parser_token panics" where
  "ptok_from (T_Keyword kw) = Some (keyword_token kw)"
| "ptok_from T_Identifier = Some P_Identifier"
| "ptok_from T_EscapedIdentifier = Some P_EscapedIdentifier"
| "ptok_from T_Parameter = Some P_Parameter"
| "ptok_from T_Integer = Some P_Integer"
| "ptok_from T_HexInteger = Some P_HexInteger"
| "ptok_from T_OctalInteger = Some P_OctalInteger"
| "ptok_from T_Float = Some P_Float"
| "ptok_from T_String = Some P_String"
| "ptok_from T_LeftParen = Some P_LeftParen"
| "ptok_from T_RightParen = Some P_RightParen"
| "ptok_from T_LeftBracket = Some P_LeftBracket"
| "ptok_from T_RightBracket = Some P_RightBracket"
| "ptok_from T_LeftBrace = Some P_LeftBrace"
| "ptok_from T_RightBrace = Some P_RightBrace"
| "ptok_from T_Comma = Some P_Comma"
| "ptok_from T_Dot = Some P_Dot"
| "ptok_from T_DotDot = Some P_DotDot"
| "ptok_from T_Colon = Some P_Colon"
| "ptok_from T_DoubleColon = Some P_DoubleColon"
| "ptok_from T_Semicolon = Some P_Semicolon"
| "ptok_from T_Pipe = Some P_Pipe"
| "ptok_from T_DoublePipe = Some P_DoublePipe"
| "ptok_from T_Ampersand = Some P_Ampersand"
| "ptok_from T_Question = Some P_Question"
| "ptok_from T_Dollar = Some P_Dollar"
| "ptok_from T_Plus = Some P_Plus"
| "ptok_from T_Minus = Some P_Minus"
| "ptok_from T_Star = Some P_Star"
| "ptok_from T_Slash = Some P_Slash"
| "ptok_from T_Percent = Some P_Percent"
| "ptok_from T_Caret = Some P_Caret"
| "ptok_from T_Bang = Some P_Bang"
| "ptok_from T_Equal = Some P_Equal"
| "ptok_from T_NotEqual = Some P_NotEqual"
| "ptok_from T_Less = Some P_Less"
| "ptok_from T_LessEqual = Some P_LessEqual"
| "ptok_from T_Greater = Some P_Greater"
| "ptok_from T_GreaterEqual = Some P_GreaterEqual"
| "ptok_from T_PlusEqual = Some P_PlusEqual"
| "ptok_from T_FatArrow = Some P_FatArrow"
| "ptok_from T_RegexMatch = Some P_RegexMatch"
| "ptok_from T_LeftArrow = Some P_LeftArrow"
| "ptok_from T_RightArrow = Some P_RightArrow"
| "ptok_from T_Invalid = Some P_Invalid"
| "ptok_from T_Whitespace = None"
| "ptok_from T_LineComment = None"
| "ptok_from T_BlockComment = None"

section \<open>Coherence of the tables\<close>

lemma ptok_from_None_iff: "ptok_from k = None \<longleftrightarrow> kind_is_trivia k"
  by (cases k) (simp_all add: kind_is_trivia_def)

lemma ptok_from_Some: "\<not> kind_is_trivia k \<Longrightarrow> \<exists>t. ptok_from k = Some t"
  using ptok_from_None_iff [of k] by (cases "ptok_from k") simp_all

text \<open>The name of a keyword terminal is the keyword's spelling.\<close>

lemma ptok_name_keyword_token: "ptok_name (keyword_token k) = keyword_as_str k"
  by (cases k) (simp_all only: keyword_token.simps ptok_name.simps keyword_as_str.simps)

lemma keyword_token_inject: "keyword_token a = keyword_token b \<longleftrightarrow> a = b"
  by (metis ptok_name_keyword_token keyword_as_str_inject)

lemma keyword_token_candidate: "is_contextual_name_candidate (keyword_token k)"
  by (cases k) (simp_all add: is_contextual_name_candidate_def)

text \<open>
  the contextual-name candidates, which the source lists by exclusion, are exactly the
  terminals of the keywords and the \<open>ALL\<close> of a set quantifier.
\<close>

theorem contextual_candidates_are_keywords:
  "is_contextual_name_candidate t \<longleftrightarrow> t = P_SetAll \<or> (\<exists>k. t = keyword_token k)"
proof
  have key: "P (keyword_token k) \<Longrightarrow> \<exists>k. P (keyword_token k)" for P k by blast
  assume "is_contextual_name_candidate t"
  then have "t = P_SetAll \<or> t \<in> range keyword_token"
    by (cases t) (simp_all add: is_contextual_name_candidate_def,
        (rule image_eqI [OF _ UNIV_I], rule keyword_token.simps [symmetric])+)
  then show "t = P_SetAll \<or> (\<exists>k. t = keyword_token k)" by auto
next
  assume "t = P_SetAll \<or> (\<exists>k. t = keyword_token k)"
  then show "is_contextual_name_candidate t"
    by (auto simp: keyword_token_candidate) (simp add: is_contextual_name_candidate_def)
qed

end
