(* ===== verification/Scanners.thy ===== *)
theory Scanners
  imports Parser_Tokens
begin

text \<open>
  The lookahead functions of \<open>src/parser.rs\<close> that decide, over the significant lexer tokens, which
  runs of tokens become one parser token. A function named \<open>*_end\<close> returns the index of the last
  token of the run.

  \<open>tokens.get(i)\<close> is \<open>kind_at\<close>. Where the source indexes a slice directly, the guard before it (or
  the caller's loop condition \<open>index < tokens.len()\<close>) puts the index in range, so the same function
  is used.
\<close>

definition kind_at :: "token list \<Rightarrow> nat \<Rightarrow> token_kind option" where
  "kind_at ts i = map_option token_kind (slice_get ts i)"

abbreviation kw :: "keyword \<Rightarrow> token_kind option" where
  "kw k \<equiv> Some (T_Keyword k)"

lemma kind_at_bound: "kind_at ts i = Some k \<Longrightarrow> i < length ts"
  by (auto simp: kind_at_def dest: slice_get_SomeD)

lemma kind_at_None_iff: "kind_at ts i = None \<longleftrightarrow> length ts \<le> i"
  by (simp add: kind_at_def slice_get_None_iff)

lemma kind_at_nth: "i < length ts \<Longrightarrow> kind_at ts i = Some (token_kind (ts ! i))"
  by (simp add: kind_at_def slice_get_def)

section \<open>Parameters and qualified names\<close>

definition escaped_parameter_end :: "token list \<Rightarrow> nat \<Rightarrow> nat option" where
  "escaped_parameter_end ts start =
     Option.bind (slice_get ts start) (\<lambda>first.
       if token_kind first = T_Dollar \<and> is_some_and (slice_get ts (start + 1)) (\<lambda>t.
            token_kind t = T_EscapedIdentifier \<and>
            span_end (token_span first) = span_start (token_span t))
       then Some (start + 1) else None)"

definition is_symbolic_name_kind :: "token_kind \<Rightarrow> bool" where
  "is_symbolic_name_kind k = (case k of
     T_Identifier \<Rightarrow> True | T_EscapedIdentifier \<Rightarrow> True | T_Keyword _ \<Rightarrow> True | _ \<Rightarrow> False)"

text \<open>The while loop over further components: the last index and the number of components.\<close>

function qualified_name_loop :: "token list \<Rightarrow> nat \<Rightarrow> nat \<Rightarrow> nat \<times> nat" where
  "qualified_name_loop ts e components =
     (if kind_at ts (e + 1) = Some T_Dot \<and> is_some_and (kind_at ts (e + 2)) is_symbolic_name_kind
      then qualified_name_loop ts (e + 2) (components + 1)
      else (e, components))"
  by pat_completeness auto
termination
  by (relation "measure (\<lambda>(ts, e, components). length ts - e)") (auto dest: kind_at_bound)

declare qualified_name_loop.simps [simp del]

definition qualified_function_name_end :: "token list \<Rightarrow> nat \<Rightarrow> nat option" where
  "qualified_function_name_end ts start =
     Option.bind (kind_at ts start) (\<lambda>k.
       if \<not> is_symbolic_name_kind k then None
       else (case qualified_name_loop ts start 1 of (e, components) \<Rightarrow>
         if components > 1 \<and> kind_at ts (e + 1) = Some T_LeftParen then Some e else None))"

fun first_component :: "token list \<Rightarrow> nat \<Rightarrow> nat" where
  "first_component ts i =
     (if 2 \<le> i \<and> kind_at ts (i - 1) = Some T_Dot \<and>
         is_some_and (kind_at ts (i - 2)) is_symbolic_name_kind
      then first_component ts (i - 2) else i)"

declare first_component.simps [simp del]

definition is_procedure_name_start :: "token list \<Rightarrow> nat \<Rightarrow> bool" where
  "is_procedure_name_start ts start =
     is_some_and (checked_sub (first_component ts start) 1) (\<lambda>i. kind_at ts i = kw Kw_Call)"

definition is_explicit_set_all :: "token list \<Rightarrow> nat \<Rightarrow> bool" where
  "is_explicit_set_all ts index =
     (if kind_at ts (index + 1) = Some T_LeftParen then False
      else
        (case Option.bind (checked_sub index 1) (kind_at ts) of
           None \<Rightarrow> False
         | Some previous \<Rightarrow>
             if previous \<in> {T_Keyword Kw_Return, T_Keyword Kw_With} then True
             else if previous \<noteq> T_LeftParen then False
             else is_some_and (Option.bind (checked_sub index 2) (kind_at ts)) (\<lambda>k.
               ptok_from k \<in> {Some P_Identifier, Some P_EscapedIdentifier, Some P_Count,
                 Some P_Match, Some P_Path, Some P_Return})))"

section \<open>Matching delimiters\<close>

fun matching_from :: "token_kind \<Rightarrow> token_kind \<Rightarrow> nat \<Rightarrow> nat \<Rightarrow> token list \<Rightarrow> nat option" where
  "matching_from open_kind close_kind depth index [] = None"
| "matching_from open_kind close_kind depth index (t # ts) =
     (if token_kind t = open_kind then matching_from open_kind close_kind (depth + 1) (index + 1) ts
      else if token_kind t = close_kind then
        (if depth - 1 = 0 then Some index
         else matching_from open_kind close_kind (depth - 1) (index + 1) ts)
      else matching_from open_kind close_kind depth (index + 1) ts)"

definition matching_delimiter :: "token list \<Rightarrow> nat \<Rightarrow> token_kind \<Rightarrow> token_kind \<Rightarrow> nat option" where
  "matching_delimiter ts start open_kind close_kind =
     (if kind_at ts start \<noteq> Some open_kind then None
      else matching_from open_kind close_kind 0 start (drop start ts))"

lemma matching_from_bound:
  "matching_from a b depth index ts = Some e \<Longrightarrow> index \<le> e \<and> e < index + length ts"
  by (induction a b depth index ts rule: matching_from.induct) (auto split: if_splits)

lemma matching_delimiter_bound [scan_intros]:
  "matching_delimiter ts start a b = Some e \<Longrightarrow> start \<le> e \<and> e < length ts"
  by (auto simp: matching_delimiter_def dest!: matching_from_bound kind_at_bound split: if_splits)

section \<open>Pattern comprehensions\<close>

text \<open>The counters of the scan of \<open>pattern_comprehension_end\<close>.\<close>

record comprehension_scan =
  brackets :: nat
  parentheses :: nat
  braces :: nat
  pipe_at :: "nat option"
  where_seen :: bool
  arrow :: bool
  top_level_nodes :: nat
  top_level_minuses :: nat

definition comprehension_start :: comprehension_scan where
  "comprehension_start =
     \<lparr>brackets = 0, parentheses = 0, braces = 0, pipe_at = None, where_seen = False,
      arrow = False, top_level_nodes = 0, top_level_minuses = 0\<rparr>"

definition at_bracket_level :: "comprehension_scan \<Rightarrow> bool" where
  "at_bracket_level st = (brackets st = 1 \<and> parentheses st = 0 \<and> braces st = 0)"

definition in_pattern_region :: "comprehension_scan \<Rightarrow> bool" where
  "in_pattern_region st = (pipe_at st = None \<and> \<not> where_seen st)"

definition call_or_grouping :: "token list \<Rightarrow> nat \<Rightarrow> nat \<Rightarrow> bool" where
  "call_or_grouping ts start index =
     (index > start \<and> is_some_and (kind_at ts (index - 1)) (\<lambda>k.
        k \<in> {T_RightParen, T_RightBracket, T_RightBrace} \<or> is_symbolic_name_kind k))"

text \<open>One iteration that does not return.\<close>

definition comprehension_step ::
  "token list \<Rightarrow> nat \<Rightarrow> nat \<Rightarrow> token_kind \<Rightarrow> comprehension_scan \<Rightarrow> comprehension_scan" where
  "comprehension_step ts start index k st =
     (if k = T_LeftBracket then st\<lparr>brackets := brackets st + 1\<rparr>
      else if k = T_RightBracket then st\<lparr>brackets := brackets st - 1\<rparr>
      else if k = T_LeftParen then
        st\<lparr>top_level_nodes := top_level_nodes st +
             (if in_pattern_region st \<and> at_bracket_level st \<and> \<not> call_or_grouping ts start index
              then 1 else 0),
           parentheses := parentheses st + 1\<rparr>
      else if k = T_RightParen then st\<lparr>parentheses := parentheses st - 1\<rparr>
      else if k = T_LeftBrace then st\<lparr>braces := braces st + 1\<rparr>
      else if k = T_RightBrace then st\<lparr>braces := braces st - 1\<rparr>
      else if k = T_Pipe \<and> at_bracket_level st then st\<lparr>pipe_at := Some index\<rparr>
      else if k = T_Keyword Kw_Where \<and> in_pattern_region st \<and> at_bracket_level st \<and>
          is_none_or (kind_at ts (index + 1)) (\<lambda>next_kind. next_kind \<noteq> T_Equal)
        then st\<lparr>where_seen := True\<rparr>
      else if k \<in> {T_LeftArrow, T_RightArrow} \<and> in_pattern_region st \<and> brackets st = 1
        then st\<lparr>arrow := True\<rparr>
      else if k = T_Minus \<and> in_pattern_region st \<and> at_bracket_level st
        then st\<lparr>top_level_minuses := top_level_minuses st + 1\<rparr>
      else st)"

definition comprehension_verdict :: "comprehension_scan \<Rightarrow> nat \<Rightarrow> nat option" where
  "comprehension_verdict st index =
     (let has_projection = is_some_and (pipe_at st) (\<lambda>pipe. index > pipe + 1);
          undirected_relationship = 2 \<le> top_level_nodes st \<and> 2 \<le> top_level_minuses st in
      if has_projection \<and> (arrow st \<or> undirected_relationship) then Some index else None)"

fun comprehension_from ::
  "token list \<Rightarrow> nat \<Rightarrow> comprehension_scan \<Rightarrow> nat \<Rightarrow> token list \<Rightarrow> nat option" where
  "comprehension_from ts start st index [] = None"
| "comprehension_from ts start st index (t # rest) =
     (if token_kind t = T_RightBracket \<and> at_bracket_level st then comprehension_verdict st index
      else comprehension_from ts start (comprehension_step ts start index (token_kind t) st)
        (index + 1) rest)"

definition pattern_comprehension_end :: "token list \<Rightarrow> nat \<Rightarrow> nat option" where
  "pattern_comprehension_end ts start =
     (if kind_at ts start \<noteq> Some T_LeftBracket then None
      else comprehension_from ts start comprehension_start start (drop start ts))"

lemma comprehension_from_bound:
  "comprehension_from ts start st index rest = Some e \<Longrightarrow> index \<le> e \<and> e < index + length rest"
  by (induction ts start st index rest rule: comprehension_from.induct)
    (auto simp: comprehension_verdict_def Let_def split: if_splits)

lemma pattern_comprehension_end_bound [scan_intros]:
  "pattern_comprehension_end ts start = Some e \<Longrightarrow> start \<le> e \<and> e < length ts"
  by (auto simp: pattern_comprehension_end_def dest!: comprehension_from_bound kind_at_bound
      split: if_splits)

section \<open>Maps and braces\<close>

fun open_brace_stack :: "nat list \<Rightarrow> nat \<Rightarrow> token list \<Rightarrow> nat list" where
  "open_brace_stack stack index [] = stack"
| "open_brace_stack stack index (t # ts) =
     (if token_kind t = T_LeftBrace then open_brace_stack (index # stack) (index + 1) ts
      else if token_kind t = T_RightBrace then open_brace_stack (tl stack) (index + 1) ts
      else open_brace_stack stack (index + 1) ts)"

fun after_separator :: "nat \<Rightarrow> bool \<Rightarrow> token list \<Rightarrow> bool" where
  "after_separator depth after [] = after"
| "after_separator depth after (t # ts) =
     (let k = token_kind t in
      if k \<in> {T_LeftParen, T_LeftBracket, T_LeftBrace} then after_separator (depth + 1) after ts
      else if k \<in> {T_RightParen, T_RightBracket, T_RightBrace} then
        after_separator (depth - 1) after ts
      else if k = T_Comma \<and> depth = 0 then after_separator depth False ts
      else if k = T_Colon \<and> depth = 0 then after_separator depth True ts
      else after_separator depth after ts)"

definition is_in_map_entry_value :: "token list \<Rightarrow> nat \<Rightarrow> bool" where
  "is_in_map_entry_value ts start =
     (case open_brace_stack [] 0 (take start ts) of
        [] \<Rightarrow> False
      | open_index # _ \<Rightarrow> after_separator 0 False (drop (open_index + 1) (take start ts)))"

fun inside_braces_back :: "token list \<Rightarrow> nat \<Rightarrow> nat \<Rightarrow> bool" where
  "inside_braces_back ts 0 nested = False"
| "inside_braces_back ts (Suc i) nested =
     (if kind_at ts i = Some T_RightBrace then inside_braces_back ts i (nested + 1)
      else if kind_at ts i = Some T_LeftBrace then
        (if nested = 0 then True else inside_braces_back ts i (nested - 1))
      else inside_braces_back ts i nested)"

definition is_inside_braces :: "token list \<Rightarrow> nat \<Rightarrow> bool" where
  "is_inside_braces ts start = inside_braces_back ts start 0"

section \<open>Expression contexts\<close>

text \<open>
  The backward scan that both context functions share in the source: tokens in completed brackets
  and braces are skipped, so is a token before an equals sign; the first decisive marker decides.
\<close>

fun context_back ::
  "(token_kind \<Rightarrow> bool option) \<Rightarrow> token list \<Rightarrow> nat \<Rightarrow> nat \<Rightarrow> nat \<Rightarrow> bool" where
  "context_back marker ts 0 nested_brackets nested_braces = False"
| "context_back marker ts (Suc i) nested_brackets nested_braces =
     (case kind_at ts i of
        None \<Rightarrow> False
      | Some k \<Rightarrow>
          if k = T_RightBracket then context_back marker ts i (nested_brackets + 1) nested_braces
          else if k = T_LeftBracket \<and> nested_brackets \<noteq> 0 then
            context_back marker ts i (nested_brackets - 1) nested_braces
          else if k = T_RightBrace then
            context_back marker ts i nested_brackets (nested_braces + 1)
          else if k = T_LeftBrace \<and> nested_braces \<noteq> 0 then
            context_back marker ts i nested_brackets (nested_braces - 1)
          else if nested_brackets \<noteq> 0 \<or> nested_braces \<noteq> 0 then
            context_back marker ts i nested_brackets nested_braces
          else if kind_at ts (i + 1) = Some T_Equal then
            context_back marker ts i nested_brackets nested_braces
          else
            (case marker k of
               Some verdict \<Rightarrow> verdict
             | None \<Rightarrow> context_back marker ts i nested_brackets nested_braces))"

definition pattern_marker :: "token_kind \<Rightarrow> bool option" where
  "pattern_marker k =
     (if k = T_Pipe then Some True
      else if k \<in> T_Keyword ` {Kw_Where, Kw_Return, Kw_With, Kw_Unwind, Kw_Set, Kw_Delete, Kw_Then,
          Kw_Else, Kw_When, Kw_Case} then Some True
      else if k \<in> T_Keyword ` {Kw_Match, Kw_Create, Kw_Merge, Kw_Call, Kw_Remove} then Some False
      else None)"

definition label_marker :: "token_kind \<Rightarrow> bool option" where
  "label_marker k =
     (if k = T_Pipe then Some True
      else if k \<in> T_Keyword ` {Kw_Where, Kw_Return, Kw_With, Kw_Unwind, Kw_Delete, Kw_Then,
          Kw_Else, Kw_When, Kw_Case} then Some True
      else if k \<in> T_Keyword ` {Kw_Match, Kw_Create, Kw_Merge, Kw_Call, Kw_Set, Kw_Remove}
        then Some False
      else None)"

definition is_pattern_expression_context :: "token list \<Rightarrow> nat \<Rightarrow> bool" where
  "is_pattern_expression_context ts start =
     (if 2 \<le> start \<and> kind_at ts (start - 1) = Some T_LeftParen \<and>
         kind_at ts (start - 2) \<in> {kw Kw_ShortestPath, kw Kw_AllShortestPaths} then False
      else if 2 \<le> start \<and> kind_at ts (start - 1) = Some T_LeftBrace \<and>
         kind_at ts (start - 2) \<in> {kw Kw_Exists, kw Kw_Count, kw Kw_Collect} then False
      else if is_in_map_entry_value ts start then True
      else context_back pattern_marker ts start 0 0)"

definition is_label_predicate_context :: "token list \<Rightarrow> nat \<Rightarrow> bool" where
  "is_label_predicate_context ts start =
     (if kind_at ts start \<notin> {Some T_Colon, kw Kw_Is} then False
      else if kind_at ts start = kw Kw_Is \<and> kind_at ts (start + 1) = kw Kw_As \<and>
         is_some_and (kind_at ts (start + 2)) is_symbolic_name_kind then False
      else if kind_at ts start = Some T_Colon \<and> 2 \<le> start \<and>
         is_some_and (kind_at ts (start - 1)) is_symbolic_name_kind \<and>
         kind_at ts (start - 2) = Some T_LeftBrace then False
      else if is_in_map_entry_value ts start then True
      else if kind_at ts start = Some T_Colon \<and> 2 \<le> start \<and>
         is_some_and (kind_at ts (start - 1)) is_symbolic_name_kind \<and>
         kind_at ts (start - 2) = Some T_Comma \<and> is_inside_braces ts start then False
      else context_back label_marker ts start 0 0)"

section \<open>Pattern expressions\<close>

definition relationship_syntax_end :: "token list \<Rightarrow> nat \<Rightarrow> nat option" where
  "relationship_syntax_end ts start =
     Option.bind
       (if kind_at ts start \<in> {Some T_Minus, Some T_LeftArrow} then Some (start + 1)
        else if kind_at ts start = Some T_Less \<and> kind_at ts (start + 1) = Some T_Minus
          then Some (start + 2)
        else None) (\<lambda>cursor.
     Option.bind
       (if kind_at ts cursor = Some T_LeftBracket
        then map_option (\<lambda>e. e + 1) (matching_delimiter ts cursor T_LeftBracket T_RightBracket)
        else Some cursor) (\<lambda>cursor.
       if kind_at ts cursor = Some T_Minus \<and> kind_at ts (cursor + 1) = Some T_Greater
         then Some (cursor + 2)
       else if kind_at ts cursor \<in> {Some T_Minus, Some T_RightArrow} then Some (cursor + 1)
       else None))"

lemma relationship_syntax_end_bound [scan_intros]:
  "relationship_syntax_end ts start = Some e \<Longrightarrow> start + 2 \<le> e \<and> e \<le> length ts"
  by (auto simp: relationship_syntax_end_def split: if_splits bind_splits
      dest!: matching_delimiter_bound kind_at_bound)

text \<open>The optional quantifier between a relationship and the next node.\<close>

definition after_quantifier :: "token list \<Rightarrow> nat \<Rightarrow> nat option" where
  "after_quantifier ts next_node =
     (if kind_at ts next_node \<in> {Some T_Star, Some T_Plus, Some T_Question} then Some (next_node + 1)
      else if kind_at ts next_node = Some T_LeftBrace then
        map_option (\<lambda>e. e + 1) (matching_delimiter ts next_node T_LeftBrace T_RightBrace)
      else Some next_node)"

lemma after_quantifier_bound: "after_quantifier ts i = Some j \<Longrightarrow> i \<le> j"
  by (auto simp: after_quantifier_def split: if_splits dest!: matching_delimiter_bound)

function pattern_expression_loop :: "token list \<Rightarrow> nat \<Rightarrow> nat \<Rightarrow> nat option" where
  "pattern_expression_loop ts node_end relationships =
     (let finish = (if relationships > 0 then Some node_end else None) in
      case relationship_syntax_end ts (node_end + 1) of
        None \<Rightarrow> finish
      | Some after_relationship \<Rightarrow>
          (case after_quantifier ts after_relationship of
             None \<Rightarrow> None
           | Some next_node \<Rightarrow>
               if kind_at ts next_node \<noteq> Some T_LeftParen then finish
               else
                 (case matching_delimiter ts next_node T_LeftParen T_RightParen of
                    None \<Rightarrow> None
                  | Some node_end' \<Rightarrow>
                      pattern_expression_loop ts node_end' (relationships + 1))))"
  by pat_completeness auto
termination
  by (relation "measure (\<lambda>(ts, node_end, relationships). length ts - node_end)")
    (auto dest!: relationship_syntax_end_bound after_quantifier_bound matching_delimiter_bound)

declare pattern_expression_loop.simps [simp del]

definition pattern_expression_end :: "token list \<Rightarrow> nat \<Rightarrow> nat option" where
  "pattern_expression_end ts start =
     (if kind_at ts start \<noteq> Some T_LeftParen then None
      else Option.bind (matching_delimiter ts start T_LeftParen T_RightParen) (\<lambda>node_end.
        pattern_expression_loop ts node_end 0))"

lemma pattern_expression_loop_bound:
  "pattern_expression_loop ts node_end n = Some e \<Longrightarrow> node_end < length ts \<Longrightarrow>
     node_end \<le> e \<and> e < length ts"
proof (induction ts node_end n rule: pattern_expression_loop.induct)
  case (1 ts node_end n)
  show ?case
  proof (rule ccontr)
    assume no: "\<not> (node_end \<le> e \<and> e < length ts)"
    with "1.prems" obtain r q d where *: "relationship_syntax_end ts (node_end + 1) = Some r"
      "after_quantifier ts r = Some q" "kind_at ts q = Some T_LeftParen"
      "matching_delimiter ts q T_LeftParen T_RightParen = Some d"
      "pattern_expression_loop ts d (n + 1) = Some e"
      by (subst (asm) pattern_expression_loop.simps) (auto simp: Let_def split: option.splits if_splits)
    have "node_end \<le> d" "d < length ts"
      using relationship_syntax_end_bound [OF *(1)] after_quantifier_bound [OF *(2)]
        matching_delimiter_bound [OF *(4)] by auto
    moreover from "1.IH" [OF refl *(1,2) _ *(4,5)] *(3) \<open>d < length ts\<close>
    have "d \<le> e \<and> e < length ts" by simp
    ultimately show False using no by linarith
  qed
qed

lemma pattern_expression_end_bound [scan_intros]:
  "pattern_expression_end ts start = Some e \<Longrightarrow> start \<le> e \<and> e < length ts"
  by (auto simp: pattern_expression_end_def split: if_splits bind_splits
      dest!: matching_delimiter_bound pattern_expression_loop_bound)

section \<open>Label expressions\<close>

text \<open>
  \<open>label_or_end\<close>, \<open>label_and_end\<close> and \<open>label_primary_end\<close> call each other; they are one function
  with a mode, and each of the two loops is a mode of its own.
\<close>

datatype (plugins only: size) label_mode = L_Or | L_OrLoop | L_And | L_AndLoop | L_Primary

function label_end :: "label_mode \<Rightarrow> token list \<Rightarrow> nat \<Rightarrow> nat option" where
  "label_end L_Or ts start =
     (case label_end L_And ts start of None \<Rightarrow> None | Some cursor \<Rightarrow> label_end L_OrLoop ts cursor)"
| "label_end L_OrLoop ts cursor =
     (if kind_at ts cursor = Some T_Pipe then
        (case label_end L_And ts
            (if kind_at ts (cursor + 1) = Some T_Colon then cursor + 2 else cursor + 1) of
           None \<Rightarrow> None
         | Some cursor' \<Rightarrow> label_end L_OrLoop ts cursor')
      else Some cursor)"
| "label_end L_And ts start =
     (case label_end L_Primary ts start of
        None \<Rightarrow> None | Some cursor \<Rightarrow> label_end L_AndLoop ts cursor)"
| "label_end L_AndLoop ts cursor =
     (if kind_at ts cursor \<in> {Some T_Ampersand, Some T_Colon} then
        (case label_end L_Primary ts (cursor + 1) of
           None \<Rightarrow> None
         | Some cursor' \<Rightarrow> label_end L_AndLoop ts cursor')
      else Some cursor)"
| "label_end L_Primary ts start =
     (let cursor = (if kind_at ts start = Some T_Bang then start + 1 else start) in
      case kind_at ts cursor of
        None \<Rightarrow> None
      | Some k \<Rightarrow>
          if k = T_Percent then Some (cursor + 1)
          else if is_symbolic_name_kind k then Some (cursor + 1)
          else if k = T_LeftParen then
            (case label_end L_Or ts (cursor + 1) of
               None \<Rightarrow> None
             | Some e \<Rightarrow> if kind_at ts e = Some T_RightParen then Some (e + 1) else None)
          else None)"
  by pat_completeness auto

text \<open>Progress, which the termination proof needs because the recursion is nested.\<close>

definition label_progress :: "label_mode \<Rightarrow> token list \<Rightarrow> nat \<Rightarrow> nat \<Rightarrow> bool" where
  "label_progress m ts s e =
     (if m = L_OrLoop \<or> m = L_AndLoop then s \<le> e \<and> (s \<le> length ts \<longrightarrow> e \<le> length ts)
      else s < e \<and> e \<le> length ts)"

lemma label_end_progress:
  "label_end_dom (m, ts, s) \<Longrightarrow> label_end m ts s = Some e \<Longrightarrow> label_progress m ts s e"
proof (induction m ts s arbitrary: e rule: label_end.pinduct)
  case (1 ts start)
  then show ?case
    by (fastforce simp: label_end.psimps label_progress_def split: option.splits)
next
  case (2 ts cursor)
  then show ?case
    by (fastforce simp: label_end.psimps label_progress_def split: option.splits if_splits)
next
  case (3 ts start)
  then show ?case
    by (fastforce simp: label_end.psimps label_progress_def split: option.splits)
next
  case (4 ts cursor)
  then show ?case
    by (fastforce simp: label_end.psimps label_progress_def split: option.splits if_splits)
next
  case (5 ts start)
  then show ?case
    by (fastforce simp: label_end.psimps label_progress_def Let_def dest: kind_at_bound
        split: option.splits if_splits)
qed

primrec label_rank :: "label_mode \<Rightarrow> nat" where
  "label_rank L_Or = 2"
| "label_rank L_And = 1"
| "label_rank L_Primary = 0"
| "label_rank L_OrLoop = 0"
| "label_rank L_AndLoop = 0"

lemma label_end_all_dom: "All label_end_dom"
  by (relation "measures [\<lambda>(m, ts, s). length ts - s, \<lambda>(m, ts, s). label_rank m]")
    (auto simp: label_progress_def dest!: label_end_progress dest: kind_at_bound split: if_splits)

termination label_end
  by (rule label_end_all_dom)

declare label_end.simps [simp del]

definition label_predicate_end :: "token list \<Rightarrow> nat \<Rightarrow> nat option" where
  "label_predicate_end ts start =
     Option.bind
       (if kind_at ts start = Some T_Colon then Some (start + 1)
        else if kind_at ts start = kw Kw_Is then
          (if kind_at ts (start + 1) = kw Kw_Null \<and>
              kind_at ts (start + 2) \<notin> {Some T_Pipe, Some T_Ampersand} \<or>
              kind_at ts (start + 1) = kw Kw_Not \<and> kind_at ts (start + 2) = kw Kw_Null
           then None else Some (start + 1))
        else None) (\<lambda>expression_start.
       map_option (\<lambda>e. e - 1) (label_end L_Or ts expression_start))"

lemma label_predicate_end_bound [scan_intros]:
  "label_predicate_end ts start = Some e \<Longrightarrow> start < e \<and> e < length ts"
proof -
  assume "label_predicate_end ts start = Some e"
  then obtain e' where "label_end L_Or ts (start + 1) = Some e'" "e = e' - 1"
    by (auto simp: label_predicate_end_def split: if_splits bind_splits)
  moreover from this have "label_progress L_Or ts (start + 1) e'"
    using label_end_progress label_end_all_dom by blast
  ultimately show ?thesis by (auto simp: label_progress_def)
qed

section \<open>Relationship labels\<close>

definition is_relationship_label_start :: "token list \<Rightarrow> nat \<Rightarrow> bool" where
  "is_relationship_label_start ts start =
     (if is_none_or (kind_at ts start) (\<lambda>k. k \<noteq> T_Colon) then False
      else
        (case Option.bind (checked_sub start 1) (kind_at ts) of
           None \<Rightarrow> False
         | Some k \<Rightarrow>
             if k = T_LeftBracket then True
             else if is_symbolic_name_kind k then
               2 \<le> start \<and> kind_at ts (start - 2) = Some T_LeftBracket
             else False))"

function relationship_label_loop :: "token list \<Rightarrow> nat \<Rightarrow> nat \<Rightarrow> nat option" where
  "relationship_label_loop ts e cursor =
     (if cursor > e \<or> \<not> is_some_and (kind_at ts cursor) is_symbolic_name_kind then None
      else if cursor + 1 > e then Some e
      else if kind_at ts (cursor + 1) \<noteq> Some T_Pipe \<or>
          is_none_or (kind_at ts (cursor + 2)) (\<lambda>k. k \<noteq> T_Colon) then None
      else relationship_label_loop ts e (cursor + 3))"
  by pat_completeness auto
termination
  by (relation "measure (\<lambda>(ts, e, cursor). Suc e - cursor)") auto

declare relationship_label_loop.simps [simp del]

definition relationship_label_end :: "token list \<Rightarrow> nat \<Rightarrow> nat option" where
  "relationship_label_end ts start =
     Option.bind (label_predicate_end ts start) (\<lambda>e.
       if \<not> list_ex (\<lambda>i. kind_at ts i = Some T_Colon) [start + 1..<Suc e] then Some e
       else relationship_label_loop ts e (start + 1))"

lemma relationship_label_loop_result:
  "relationship_label_loop ts e cursor = Some r \<Longrightarrow> r = e"
  by (induction ts e cursor rule: relationship_label_loop.induct)
    (subst (asm) (2) relationship_label_loop.simps, auto split: if_splits)

lemma relationship_label_end_bound [scan_intros]:
  "relationship_label_end ts start = Some e \<Longrightarrow> start < e \<and> e < length ts"
  by (auto simp: relationship_label_end_def split: bind_splits if_splits
      dest!: relationship_label_loop_result label_predicate_end_bound)

lemma qualified_name_loop_bound:
  "qualified_name_loop ts e n = (e', n') \<Longrightarrow> e < length ts \<Longrightarrow> e \<le> e' \<and> e' < length ts"
proof (induction ts e n rule: qualified_name_loop.induct)
  case (1 ts e n)
  show ?case
  proof (cases "kind_at ts (e + 1) = Some T_Dot \<and>
      is_some_and (kind_at ts (e + 2)) is_symbolic_name_kind")
    case True
    then have "e + 2 < length ts" by (auto simp: is_some_and_iff dest: kind_at_bound)
    moreover from True "1.prems" have "qualified_name_loop ts (e + 2) (n + 1) = (e', n')"
      by (simp add: qualified_name_loop.simps [of ts e])
    ultimately show ?thesis using "1.IH" True by simp
  next
    case False
    with "1.prems" show ?thesis by (auto simp: qualified_name_loop.simps [of ts e])
  qed
qed

lemma qualified_function_name_end_bound [scan_intros]:
  "qualified_function_name_end ts start = Some e \<Longrightarrow> start \<le> e \<and> e < length ts"
  by (auto simp: qualified_function_name_end_def split: bind_splits if_splits prod.splits
      dest!: qualified_name_loop_bound dest: kind_at_bound)

lemma escaped_parameter_end_bound [scan_intros]:
  "escaped_parameter_end ts start = Some e \<Longrightarrow> start \<le> e \<and> e < length ts"
  by (auto simp: escaped_parameter_end_def is_some_and_iff split: bind_splits if_splits
      dest: slice_get_SomeD)

end
