(* ===== verification/Parse_Errors.thy ===== *)
theory Parse_Errors
  imports Diagnostics Parser_Tokens
begin

text \<open>
  The errors of the generated parsers as \<open>src/parser.rs\<close> uses them: where an error lies, which of
  two errors is kept, and the diagnostic an error becomes. \<open>ParseError\<close> is a type of the crate
  lalrpop_util; the source matches on its five constructors, whose payloads it fixes to byte
  offsets, spanned parser tokens and, for user errors, an offset.
\<close>

type_synonym spanned = "nat \<times> parser_token \<times> nat"

datatype (plugins only: size) lalrpop_error =
    PE_InvalidToken nat
  | PE_UnrecognizedEof nat "ustr list"
  | PE_UnrecognizedToken spanned "ustr list"
  | PE_ExtraToken spanned
  | PE_User nat

type_synonym 'a parsed = "lalrpop_error + 'a"

abbreviation tok_start :: "spanned \<Rightarrow> nat" where
  "tok_start t \<equiv> fst t"

abbreviation tok_kind :: "spanned \<Rightarrow> parser_token" where
  "tok_kind t \<equiv> fst (snd t)"

abbreviation tok_end :: "spanned \<Rightarrow> nat" where
  "tok_end t \<equiv> snd (snd t)"

primrec error_location :: "lalrpop_error \<Rightarrow> nat" where
  "error_location (PE_InvalidToken location) = location"
| "error_location (PE_UnrecognizedEof location expected) = location"
| "error_location (PE_UnrecognizedToken token expected) = tok_start token"
| "error_location (PE_ExtraToken token) = tok_start token"
| "error_location (PE_User location) = location"

definition user_parse_error :: "nat \<Rightarrow> lalrpop_error" where
  "user_parse_error location = PE_User location"

text \<open>The later of two equally far errors is kept.\<close>

definition retain_farthest_error :: "lalrpop_error option \<Rightarrow> lalrpop_error \<Rightarrow> lalrpop_error option" where
  "retain_farthest_error slot candidate =
     (if is_none_or slot (\<lambda>current. error_location current \<le> error_location candidate)
      then Some candidate else slot)"

section \<open>Expected items\<close>

text \<open>\<open>str::trim_matches\<close> on the quotation mark.\<close>

definition trim_quotes :: "ustr \<Rightarrow> ustr" where
  "trim_quotes s = rev (dropWhile (\<lambda>c. c = 34) (rev (dropWhile (\<lambda>c. c = 34) s)))"

definition error_expression :: ustr where
  "error_expression = ascii ''error expression''"

text \<open>\<open>Vec::sort\<close> orders strings by their bytes, which is the order of their scalars.\<close>

definition expected_items :: "ustr list \<Rightarrow> ustr list" where
  "expected_items expected =
     dedup_by (\<lambda>a b. a = b)
       (sort (map trim_quotes (filter (\<lambda>item. trim_quotes item \<noteq> error_expression) expected)))"

definition backticks :: "ustr \<Rightarrow> ustr" where
  "backticks item = ascii ''`'' @ item @ ascii ''`''"

fun join :: "ustr \<Rightarrow> ustr list \<Rightarrow> ustr" where
  "join sep [] = []"
| "join sep [x] = x"
| "join sep (x # xs) = x @ sep @ join sep xs"

definition normalized_expected :: "ustr list \<Rightarrow> ustr" where
  "normalized_expected expected =
     (case expected_items expected of
        [] \<Rightarrow> []
      | [only] \<Rightarrow> backticks only
      | items \<Rightarrow> join (ascii '', '') (map backticks (butlast items)) @ ascii '', or '' @
          backticks (last items))"

definition with_expected :: "ustr \<Rightarrow> ustr list \<Rightarrow> ustr" where
  "with_expected message expected =
     (let items = normalized_expected expected in
      if items = [] then message else message @ ascii ''; expected '' @ items)"

fun parse_diagnostic :: "ustr \<Rightarrow> lalrpop_error \<Rightarrow> diagnostic panics" where
  "parse_diagnostic source (PE_InvalidToken location) =
     map_option (diagnostic_error DC_InvalidToken (ascii ''invalid token''))
       (span_empty (min location (byte_len source)))"
| "parse_diagnostic source (PE_UnrecognizedEof location expected) =
     map_option (diagnostic_error DC_UnexpectedEof
         (with_expected (ascii ''unexpected end of input'') expected))
       (span_empty (min location (byte_len source)))"
| "parse_diagnostic source (PE_UnrecognizedToken (s, token, e) expected) =
     map_option (diagnostic_error DC_UnexpectedToken
         (with_expected (ascii ''unexpected token '' @ ptok_display token) expected))
       (span_new s e)"
| "parse_diagnostic source (PE_ExtraToken (s, token, e)) =
     map_option (diagnostic_error DC_ExtraToken
         (ascii ''extra token '' @ ptok_display token @ ascii '' after the end of the statement''))
       (span_new s e)"
| "parse_diagnostic source (PE_User location) =
     map_option (diagnostic_error DC_UnexpectedToken
         (ascii ''input does not satisfy the selected syntax production''))
       (span_empty (min location (byte_len source)))"

section \<open>Properties\<close>

lemma retain_farthest_error_simps [simp]:
  "retain_farthest_error None e = Some e"
  "retain_farthest_error (Some c) e = Some (if error_location c \<le> error_location e then e else c)"
  by (simp_all add: retain_farthest_error_def)

lemma retain_farthest_error_not_None [simp]: "retain_farthest_error slot e \<noteq> None"
  by (cases slot) simp_all

lemma expected_items_set:
  "set (expected_items expected) = trim_quotes ` set expected - {error_expression}"
proof -
  have same: "set (dedup_by (\<lambda>a b. a = b) xs) = set xs" for xs :: "ustr list"
    using key_set_dedup_by [of "\<lambda>a b. a = b" "\<lambda>x. x" xs] by simp
  show ?thesis unfolding expected_items_def same by auto
qed

text \<open>
  the items an error message lists are, each once and in ascending order, the expected
  terminals without their quotation marks; the terminal that only recovery inserts is never listed,
  and the message without items is exactly the case that nothing else is expected.
\<close>

theorem normalized_expected_spec:
  "set (expected_items expected) = trim_quotes ` set expected - {error_expression} \<and>
   sorted_wrt (<) (expected_items expected) \<and>
   (normalized_expected expected = [] \<longleftrightarrow> trim_quotes ` set expected \<subseteq> {error_expression})"
proof (intro conjI)
  show "set (expected_items expected) = trim_quotes ` set expected - {error_expression}"
    by (rule expected_items_set)
  show "sorted_wrt (<) (expected_items expected)"
    unfolding expected_items_def
    by (rule dedup_by_strict [of "\<lambda>a b. a = b" "\<lambda>x. x", simplified map_ident]) simp_all
  have "normalized_expected expected = [] \<longleftrightarrow> expected_items expected = []"
    by (auto simp: normalized_expected_def backticks_def split: list.splits)
  also have "\<dots> \<longleftrightarrow> trim_quotes ` set expected - {error_expression} = {}"
    by (metis expected_items_set set_empty)
  finally show "normalized_expected expected = [] \<longleftrightarrow> trim_quotes ` set expected \<subseteq> {error_expression}"
    by blast
qed

text \<open>A token error is well formed when its token's span is.\<close>

definition wf_error :: "lalrpop_error \<Rightarrow> bool" where
  "wf_error e = (case e of
     PE_UnrecognizedToken t _ \<Rightarrow> tok_start t \<le> tok_end t
   | PE_ExtraToken t \<Rightarrow> tok_start t \<le> tok_end t
   | _ \<Rightarrow> True)"

lemma parse_diagnostic_total: "wf_error e \<Longrightarrow> \<exists>d. parse_diagnostic source e = Some d"
  by (cases "(source, e)" rule: parse_diagnostic.cases) (simp_all add: wf_error_def)

text \<open>
  A parser error becomes an error diagnostic whose span starts at the error's location (clamped
  to the end of the source for errors that carry no token) and is empty exactly when there is no
  token or an empty one; only a reversed token span would panic.
\<close>

theorem parse_diagnostic_anchored:
  "(parse_diagnostic source e = None \<longleftrightarrow> \<not> wf_error e) \<and>
   (\<forall>d. parse_diagnostic source e = Some d \<longrightarrow> is_error d \<and> wf_span (diag_span d) \<and>
      span_start (diag_span d) =
        (case e of PE_UnrecognizedToken t _ \<Rightarrow> error_location e | PE_ExtraToken t \<Rightarrow> error_location e
         | _ \<Rightarrow> min (error_location e) (byte_len source)))"
  by (cases "(source, e)" rule: parse_diagnostic.cases)
    (auto simp: wf_error_def wf_span_def span_new_None_iff dest!: span_new_SomeD)

lemma parse_diagnostic_anchored_witness:
  "\<exists>d. parse_diagnostic (ascii ''RETURN'') (PE_UnrecognizedEof 9 []) = Some d \<and>
     is_error d \<and> span_start (diag_span d) = 6"
proof -
  obtain d where d: "parse_diagnostic (ascii ''RETURN'') (PE_UnrecognizedEof 9 []) = Some d" by simp
  with parse_diagnostic_anchored [of "ascii ''RETURN''" "PE_UnrecognizedEof 9 []"]
  have "is_error d \<and> span_start (diag_span d) = min 9 (byte_len (ascii ''RETURN''))" by auto
  with d show ?thesis by auto
qed

end
