(* ===== verification/Lex_Total.thy ===== *)
theory Lex_Total
  imports Lexer
begin

text \<open>
  What \<open>lex\<close> of \<open>src/lexer.rs\<close> promises, for every automaton that behaves like one: it returns,
  its tokens tile the source without a gap, and its diagnostics are the invalid tokens.

  The locale \<open>raw_engine\<close> is the contract of the generated automaton; \<open>Logos_Engine\<close>
  interprets it.
\<close>

section \<open>Tilings\<close>

text \<open>Consecutive nonempty spans from \<open>a\<close> to \<open>b\<close>.\<close>

fun tiles :: "nat \<Rightarrow> span list \<Rightarrow> nat \<Rightarrow> bool" where
  "tiles a [] b = (a = b)"
| "tiles a (s # ss) b = (span_start s = a \<and> a < span_end s \<and> tiles (span_end s) ss b)"

lemma tiles_le: "tiles a ss b \<Longrightarrow> a \<le> b"
  by (induction ss arbitrary: a) fastforce+

lemma tiles_wf: "tiles a ss b \<Longrightarrow> s \<in> set ss \<Longrightarrow> wf_span s \<and> a \<le> span_start s \<and> span_end s \<le> b"
proof (induction ss arbitrary: a)
  case (Cons t ts)
  then have t: "span_start t = a" "a < span_end t" "tiles (span_end t) ts b" by auto
  with Cons.IH [OF t(3)] Cons.prems(2) tiles_le [OF t(3)] show ?case
    by (auto simp: wf_span_def)
qed simp

lemma tiles_sorted: "tiles a ss b \<Longrightarrow> sorted_wrt (\<lambda>s t. span_end s \<le> span_start t) ss"
proof (induction ss arbitrary: a)
  case (Cons t ts)
  then have t: "tiles (span_end t) ts b" by simp
  with Cons.IH tiles_wf [OF t] show ?case by fastforce
qed simp

section \<open>The contract of the automaton\<close>

locale raw_engine =
  fixes next_match :: engine
  assumes progress: "s \<noteq> [] \<Longrightarrow> 0 < snd (next_match s)"
    and within: "snd (next_match s) \<le> length s"
begin

lemma lexer_next_total:
  assumes "s \<noteq> []"
  shows "\<exists>result text rest. lexer_next next_match s = Some (result, text, rest) \<and>
    s = text @ rest \<and> text \<noteq> []"
proof -
  obtain found n where m: "next_match s = (found, n)" by (cases "next_match s")
  with assms progress [of s] within [of s] have n: "0 < n" "n \<le> length s" by simp_all
  with assms have nonempty: "take n s \<noteq> []" by simp
  show ?thesis
  proof (cases found)
    case None
    with m nonempty show ?thesis by (auto simp: lexer_next_def)
  next
    case (Some pattern)
    obtain result bump where cb: "run_callback pattern (drop n s) = (result, bump)"
      by (cases "run_callback pattern (drop n s)")
    then obtain p q where pq: "drop n s = p @ q" "bump = byte_len p"
      using run_callback_split by blast
    have "take n s @ p @ q = s" using pq(1) append_take_drop_id [of n s] by simp
    then show ?thesis using m Some cb pq nonempty by (simp add: lexer_next_def)
  qed
qed

text \<open>The loop from any position of the source.\<close>

lemma lex_from_total:
  "\<exists>ts ds texts. lex_from next_match offset source tokens diagnostics =
       Some \<lparr>lex_tokens = tokens @ ts, lex_diagnostics = diagnostics @ ds\<rparr> \<and>
     tiles offset (map token_span ts) (offset + byte_len source) \<and>
     concat texts = source \<and> map (\<lambda>x. byte_len x) texts = map (\<lambda>t. span_end (token_span t) - span_start (token_span t)) ts \<and>
     map diag_span ds = map token_span (filter (\<lambda>t. token_kind t = T_Invalid) ts) \<and>
     (\<forall>d\<in>set ds. \<exists>err. d = diagnostic_error (fst (lexing_error_diagnostic err))
        (snd (lexing_error_diagnostic err)) (diag_span d))"
proof (induction "length source" arbitrary: offset source tokens diagnostics rule: less_induct)
  case less
  show ?case
  proof (cases "source = []")
    case True
    then show ?thesis
      by (intro exI [of _ "[]"]) (simp add: lex_from.simps [of _ _ "[]"])
  next
    case False
    obtain raw word rest where nx: "lexer_next next_match source = Some (raw, word, rest)"
      "source = word @ rest" "word \<noteq> []"
      using lexer_next_total [OF False] by blast
    define k where "k = (case raw of Inr r \<Rightarrow> raw_token_kind r word | Inl _ \<Rightarrow> T_Invalid)"
    define t where "t = \<lparr>token_kind = k, token_span = mk_span offset (offset + byte_len word)\<rparr>"
    define d where "d = (case raw of Inr _ \<Rightarrow> [] | Inl err \<Rightarrow>
      [diagnostic_error (fst (lexing_error_diagnostic err)) (snd (lexing_error_diagnostic err))
         (mk_span offset (offset + byte_len word))])"
    have "length rest < length source" using nx by (cases word) auto
    then obtain ts ds texts where IH:
      "lex_from next_match (offset + byte_len word) rest (tokens @ [t]) (diagnostics @ d) =
         Some \<lparr>lex_tokens = (tokens @ [t]) @ ts, lex_diagnostics = (diagnostics @ d) @ ds\<rparr>"
      "tiles (offset + byte_len word) (map token_span ts) (offset + byte_len word + byte_len rest)"
      "concat texts = rest"
      "map (\<lambda>x. byte_len x) texts = map (\<lambda>t. span_end (token_span t) - span_start (token_span t)) ts"
      "map diag_span ds = map token_span (filter (\<lambda>t. token_kind t = T_Invalid) ts)"
      "\<forall>d\<in>set ds. \<exists>err. d = diagnostic_error (fst (lexing_error_diagnostic err))
        (snd (lexing_error_diagnostic err)) (diag_span d)"
      using less.hyps by (metis (no_types, lifting))
    have step: "lex_from next_match offset source tokens diagnostics =
        lex_from next_match (offset + byte_len word) rest (tokens @ [t]) (diagnostics @ d)"
      using nx False
      by (subst lex_from.simps) (auto simp: t_def d_def k_def split: sum.splits)
    have plain: "raw_token_kind r word \<noteq> T_Invalid" for r
      by (cases r) (auto split: option.splits)
    have diag: "map diag_span d = map token_span (filter (\<lambda>t. token_kind t = T_Invalid) [t])"
      by (cases raw) (auto simp: t_def d_def k_def plain)
    have err: "\<forall>x\<in>set d. \<exists>err. x = diagnostic_error (fst (lexing_error_diagnostic err))
        (snd (lexing_error_diagnostic err)) (diag_span x)"
      by (cases raw) (auto simp: d_def)
    have pos: "0 < byte_len word" using nx(3) by (simp add: neq0_conv [symmetric] del: neq0_conv)
    show ?thesis
    proof (intro exI [of _ "t # ts"] exI [of _ "d @ ds"] exI [of _ "word # texts"] conjI)
      show "lex_from next_match offset source tokens diagnostics =
          Some \<lparr>lex_tokens = tokens @ t # ts, lex_diagnostics = diagnostics @ d @ ds\<rparr>"
        using step IH(1) by simp
      show "tiles offset (map token_span (t # ts)) (offset + byte_len source)"
        using IH(2) pos nx(2) by (simp add: t_def add.assoc)
      show "map diag_span (d @ ds) =
          map token_span (filter (\<lambda>t. token_kind t = T_Invalid) (t # ts))"
        using diag IH(5) by (simp split: if_splits)
      show "\<forall>x\<in>set (d @ ds). \<exists>err. x = diagnostic_error (fst (lexing_error_diagnostic err))
          (snd (lexing_error_diagnostic err)) (diag_span x)"
        using err IH(6) by auto
    qed (use IH nx in \<open>simp_all add: t_def\<close>)
  qed
qed

end

section \<open>The texts of a tiling\<close>

lemma tiles_texts:
  assumes "tiles (byte_len pre) (map token_span ts) (byte_len pre + byte_len (concat texts))"
    and "map (\<lambda>x. byte_len x) texts = map (\<lambda>t. span_end (token_span t) - span_start (token_span t)) ts"
  shows "those (map (\<lambda>t. token_text t (pre @ concat texts)) ts) = Some texts"
  using assms
proof (induction ts arbitrary: pre texts)
  case Nil
  then show ?case by simp
next
  case (Cons t ts)
  then obtain x xs where texts: "texts = x # xs" by (cases texts) auto
  with Cons.prems have t: "span_start (token_span t) = byte_len pre"
    "span_end (token_span t) = byte_len pre + byte_len x" by auto
  have "those (map (\<lambda>t. token_text t ((pre @ x) @ concat xs)) ts) = Some xs"
    using Cons.prems texts t by (intro Cons.IH) (simp_all add: add.assoc)
  moreover have "token_text t (pre @ x @ concat xs) = Some x"
    by (simp add: token_text_def span_text_def t)
  ultimately show ?case using texts by simp
qed

lemma lex_result:
  assumes "raw_engine engine"
  shows "\<exists>out texts. lex engine source = Some out \<and>
    tiles 0 (map token_span (lex_tokens out)) (byte_len source) \<and>
    those (map (\<lambda>t. token_text t source) (lex_tokens out)) = Some texts \<and> concat texts = source \<and>
    map diag_span (lex_diagnostics out) =
      map token_span (filter (\<lambda>t. token_kind t = T_Invalid) (lex_tokens out)) \<and>
    (\<forall>d\<in>set (lex_diagnostics out). is_error d \<and>
       diag_code d \<in> {DC_InvalidToken, DC_UnterminatedString, DC_UnterminatedIdentifier,
         DC_UnterminatedComment, DC_InvalidEscape})"
proof -
  from raw_engine.lex_from_total [OF assms, of 0 source "[]" "[]"] obtain ts ds texts where
    *: "lex_from engine 0 source [] [] = Some \<lparr>lex_tokens = ts, lex_diagnostics = ds\<rparr>"
      "tiles 0 (map token_span ts) (byte_len source)" "concat texts = source"
      "map (\<lambda>x. byte_len x) texts = map (\<lambda>t. span_end (token_span t) - span_start (token_span t)) ts"
      "map diag_span ds = map token_span (filter (\<lambda>t. token_kind t = T_Invalid) ts)"
      "\<forall>d\<in>set ds. \<exists>err. d = diagnostic_error (fst (lexing_error_diagnostic err))
        (snd (lexing_error_diagnostic err)) (diag_span d)"
    by auto
  have "is_error d \<and> diag_code d \<in> {DC_InvalidToken, DC_UnterminatedString,
      DC_UnterminatedIdentifier, DC_UnterminatedComment, DC_InvalidEscape}" if "d \<in> set ds" for d
  proof -
    from *(6) that obtain err where d: "d = diagnostic_error (fst (lexing_error_diagnostic err))
        (snd (lexing_error_diagnostic err)) (diag_span d)" by blast
    have "is_error d" by (subst d) simp
    moreover have "diag_code d = fst (lexing_error_diagnostic err)" by (subst d) simp
    ultimately show ?thesis by (cases err) simp_all
  qed
  with * show ?thesis using tiles_texts [of "[]" ts texts] by (simp add: lex_def)
qed

text \<open>
  C5: lexing is lossless and total. For every automaton that takes at least one character and no
  more than there are, \<open>lex\<close> returns without a panic; its tokens tile the source from 0 to its
  length with nonempty spans, and their texts are slices of the source whose concatenation is the
  source.
\<close>

theorem lex_lossless:
  assumes "raw_engine engine"
  shows "\<exists>out texts. lex engine source = Some out \<and>
    tiles 0 (map token_span (lex_tokens out)) (byte_len source) \<and>
    those (map (\<lambda>t. token_text t source) (lex_tokens out)) = Some texts \<and> concat texts = source"
  using lex_result [OF assms] by blast

text \<open>
  C30: the lexical diagnostics are exactly the invalid tokens: the same spans in the same order, and
  each diagnostic is the error diagnostic of one of the five lexing errors.
\<close>

theorem lex_diagnostics_are_invalid_tokens:
  assumes "raw_engine engine" and "lex engine source = Some out"
  shows "map diag_span (lex_diagnostics out) =
      map token_span (filter (\<lambda>t. token_kind t = T_Invalid) (lex_tokens out)) \<and>
    (\<forall>d\<in>set (lex_diagnostics out). is_error d \<and>
       diag_code d \<in> {DC_InvalidToken, DC_UnterminatedString, DC_UnterminatedIdentifier,
         DC_UnterminatedComment, DC_InvalidEscape})"
  using lex_result [OF assms(1), of source] assms(2) by auto

end
