(* ===== verification/Tokenize.thy ===== *)
theory Tokenize
  imports Scanners Parse_Errors Lex_Total
begin

text \<open>
  \<open>parser_tokens\<close> and \<open>nested_parser_tokens\<close> of \<open>src/parser.rs\<close>: the significant lexer tokens are
  cut into runs, each of which becomes one spanned parser token. Both functions have the same loop;
  they differ in the base offset, in the slice that the forward scans see, and in the scans that are
  suppressed at the first token.
\<close>

definition significant :: "token list \<Rightarrow> token list" where
  "significant tokens = filter (\<lambda>t. \<not> token_is_trivia t) tokens"

section \<open>One iteration\<close>

text \<open>The four scans that a nested fragment does not try at its first token.\<close>

definition fused_pattern :: "token list \<Rightarrow> token list \<Rightarrow> nat \<Rightarrow> (parser_token \<times> nat) option" where
  "fused_pattern scan full index =
     (case pattern_comprehension_end scan index of
        Some e \<Rightarrow> Some (P_PatternComprehension, e)
      | None \<Rightarrow>
     (case (if kind_at full index = Some T_LeftParen \<and> is_pattern_expression_context full index
            then pattern_expression_end scan index else None) of
        Some e \<Rightarrow> Some (P_PatternExpression, e)
      | None \<Rightarrow>
     (case (if is_relationship_label_start full index then relationship_label_end scan index
            else None) of
        Some e \<Rightarrow> Some (P_RelationshipLabelExpression, e)
      | None \<Rightarrow>
     (case (if is_label_predicate_context full index then label_predicate_end scan index
            else None) of
        Some e \<Rightarrow> Some (P_LabelPredicate, e)
      | None \<Rightarrow> None))))"

text \<open>The parser token of the run that starts at \<open>index\<close>, and the index of its last token.\<close>

definition classify ::
  "token list \<Rightarrow> token list \<Rightarrow> nat \<Rightarrow> bool \<Rightarrow> (parser_token \<times> nat) panics" where
  "classify scan full index patterns =
     (case escaped_parameter_end scan index of
        Some e \<Rightarrow> Some (P_Parameter, e)
      | None \<Rightarrow>
     (case (if patterns then fused_pattern scan full index else None) of
        Some r \<Rightarrow> Some r
      | None \<Rightarrow>
     (case (if \<not> is_procedure_name_start full index then qualified_function_name_end scan index
            else None) of
        Some e \<Rightarrow> Some (P_QualifiedFunctionName, e)
      | None \<Rightarrow>
          Option.bind (kind_at full index) (\<lambda>k.
          map_option (\<lambda>t.
              (if t = P_All \<and> is_explicit_set_all full index then P_SetAll else t, index))
            (ptok_from k)))))"

lemma fused_pattern_bound:
  "fused_pattern scan full index = Some (t, e) \<Longrightarrow> index \<le> e \<and> e < length scan"
  by (auto simp: fused_pattern_def split: option.splits if_splits dest!: scan_intros)

lemma classify_bound:
  "classify scan full index p = Some (t, e) \<Longrightarrow> index \<le> e \<and> (e < length scan \<or> e < length full)"
  by (auto simp: classify_def split: option.splits if_splits bind_splits
      dest!: fused_pattern_bound scan_intros kind_at_bound)

section \<open>The loops\<close>

function tokenize_from ::
  "(nat \<Rightarrow> token list) \<Rightarrow> (nat \<Rightarrow> bool) \<Rightarrow> nat \<Rightarrow> token list \<Rightarrow> nat \<Rightarrow> spanned list panics" where
  "tokenize_from scan_of patterns base full index =
     (if length full \<le> index then Some []
      else
        (case classify (scan_of index) full index (patterns index) of
           None \<Rightarrow> None
         | Some (t, e) \<Rightarrow>
             (case slice_get full e of
                None \<Rightarrow> None
              | Some last_token \<Rightarrow>
                  map_option (\<lambda>rest.
                      (base + span_start (token_span (full ! index)), t,
                       base + span_end (token_span last_token)) # rest)
                    (tokenize_from scan_of patterns base full (e + 1)))))"
  by pat_completeness auto
termination
  by (relation "measure (\<lambda>(scan_of, patterns, base, full, index). length full - index)")
    (auto dest!: classify_bound)

declare tokenize_from.simps [simp del]

definition parser_tokens :: "token list \<Rightarrow> spanned list panics" where
  "parser_tokens tokens =
     (let full = significant tokens in tokenize_from (\<lambda>_. full) (\<lambda>_. True) 0 full 0)"

definition nested_parser_tokens :: "token list \<Rightarrow> nat \<Rightarrow> nat option \<Rightarrow> spanned list panics" where
  "nested_parser_tokens tokens base reserved_pipe =
     (let full = significant tokens in
      case reserved_pipe of
        None \<Rightarrow> tokenize_from (\<lambda>_. full) (\<lambda>index. index \<noteq> 0) base full 0
      | Some raw \<Rightarrow>
          if raw \<le> length tokens then
            (let boundary = length (significant (take raw tokens)) in
             tokenize_from (\<lambda>index. if index < boundary then take boundary full else full)
               (\<lambda>index. index \<noteq> 0) base full 0)
          else None)"

section \<open>The runs cover the input\<close>

definition fused_kinds :: "parser_token set" where
  "fused_kinds = {P_Parameter, P_PatternComprehension, P_PatternExpression,
     P_RelationshipLabelExpression, P_LabelPredicate, P_QualifiedFunctionName}"

text \<open>
  A run of lexer tokens and its parser token: the same extent, and a token that is not one of the
  fused kinds stands for a single lexer token of its kind.
\<close>

definition run_of :: "nat \<Rightarrow> token list \<Rightarrow> spanned \<Rightarrow> bool" where
  "run_of base run out = (run \<noteq> [] \<and>
     tok_start out = base + span_start (token_span (hd run)) \<and>
     tok_end out = base + span_end (token_span (last run)) \<and>
     (tok_kind out \<in> fused_kinds \<or>
      (\<exists>t. run = [t] \<and> (ptok_from (token_kind t) = Some (tok_kind out) \<or>
         token_kind t = T_Keyword Kw_All \<and> tok_kind out = P_SetAll))))"

lemma ptok_from_All: "ptok_from k = Some P_All \<Longrightarrow> k = T_Keyword Kw_All"
proof (cases k)
  case (T_Keyword x)
  assume "ptok_from k = Some P_All"
  with T_Keyword have "keyword_token x = keyword_token Kw_All" by simp
  then have "x = Kw_All" by (simp only: keyword_token_inject)
  with T_Keyword show ?thesis by simp
qed simp_all

lemma classify_kind:
  assumes "classify scan full index p = Some (t, e)" and "index < length full"
  shows "t \<in> fused_kinds \<or> e = index \<and>
    (ptok_from (token_kind (full ! index)) = Some t \<or>
     token_kind (full ! index) = T_Keyword Kw_All \<and> t = P_SetAll)"
  using assms
  by (auto simp: classify_def fused_pattern_def fused_kinds_def kind_at_nth
      split: option.splits if_splits dest: ptok_from_All)

lemma classify_total:
  assumes "index < length full" and "\<not> token_is_trivia (full ! index)"
  shows "\<exists>t e. classify scan full index p = Some (t, e)"
proof -
  from assms(2) obtain t where "ptok_from (token_kind (full ! index)) = Some t"
    using ptok_from_Some by (auto simp: token_is_trivia_def)
  with assms(1) show ?thesis
    by (auto simp: classify_def kind_at_nth split: option.splits)
qed

text \<open>The slice of a list between two indices.\<close>

lemma slice_facts:
  assumes "i \<le> e" and "e < length xs"
  shows "take (Suc e - i) (drop i xs) \<noteq> []" and "hd (take (Suc e - i) (drop i xs)) = xs ! i"
    and "last (take (Suc e - i) (drop i xs)) = xs ! e"
    and "take (Suc e - i) (drop i xs) @ drop (Suc e) xs = drop i xs"
proof -
  have len: "length (take (Suc e - i) (drop i xs)) = Suc e - i" using assms by simp
  with assms show ne: "take (Suc e - i) (drop i xs) \<noteq> []" by (metis Suc_diff_le list.size(3) nat.simps(3))
  show "hd (take (Suc e - i) (drop i xs)) = xs ! i"
    using ne assms by (simp add: hd_conv_nth)
  show "last (take (Suc e - i) (drop i xs)) = xs ! e"
    using ne len assms by (simp add: last_conv_nth)
  have "drop (Suc e) xs = drop (Suc e - i) (drop i xs)" using assms by simp
  then show "take (Suc e - i) (drop i xs) @ drop (Suc e) xs = drop i xs"
    by (simp only: append_take_drop_id)
qed

lemma tokenize_from_cover:
  assumes "\<And>i. length (scan_of i) \<le> length full" and "\<forall>t\<in>set full. \<not> token_is_trivia t"
  shows "\<exists>out runs. tokenize_from scan_of patterns base full index = Some out \<and>
    concat runs = drop index full \<and> list_all2 (run_of base) runs out"
proof (induction "length full - index" arbitrary: index rule: less_induct)
  case less
  show ?case
  proof (cases "length full \<le> index")
    case True
    then show ?thesis by (auto simp: tokenize_from.simps [of _ _ _ full index] intro: exI [of _ "[]"])
  next
    case False
    with assms(2) obtain t e where c: "classify (scan_of index) full index (patterns index) = Some (t, e)"
      using classify_total [of index full] by fastforce
    from classify_bound [OF c] assms(1) [of index] have e: "index \<le> e" "e < length full" by auto
    then have "length full - (e + 1) < length full - index" by linarith
    from less [OF this] obtain out runs where IH:
      "tokenize_from scan_of patterns base full (e + 1) = Some out"
      "concat runs = drop (e + 1) full" "list_all2 (run_of base) runs out" by blast
    let ?run = "take (Suc e - index) (drop index full)"
    let ?o = "(base + span_start (token_span (full ! index)), t, base + span_end (token_span (full ! e)))"
    have "t \<in> fused_kinds \<or> (\<exists>x. ?run = [x] \<and> (ptok_from (token_kind x) = Some t \<or>
        token_kind x = T_Keyword Kw_All \<and> t = P_SetAll))"
      using classify_kind [OF c] False by (auto simp: take_Suc hd_drop_conv_nth)
    then have "run_of base ?run ?o"
      using slice_facts [OF e] by (simp add: run_of_def)
    moreover have "tokenize_from scan_of patterns base full index = Some (?o # out)"
      using False c e IH(1)
      by (simp add: tokenize_from.simps [of _ _ _ full index] slice_get_def)
    moreover have "concat (?run # runs) = drop index full"
      using slice_facts(4) [OF e] IH(2) by simp
    ultimately show ?thesis using IH(3) by (intro exI [of _ "?o # out"] exI [of _ "?run # runs"]) simp
  qed
qed

lemma significant_not_trivia: "\<forall>t\<in>set (significant ts). \<not> token_is_trivia t"
  by (simp add: significant_def)

text \<open>
  C29: turning lexer tokens into parser tokens loses nothing and never panics. The significant
  tokens are cut into consecutive nonempty runs, one for each parser token, which has exactly the
  extent of its run; only the six fused kinds stand for more than one token, every other parser
  token is the terminal of its single lexer token (or the \<open>ALL\<close> of a set quantifier).
\<close>

theorem parser_tokens_cover:
  "\<exists>out runs. parser_tokens tokens = Some out \<and>
     concat runs = filter (\<lambda>t. \<not> token_is_trivia t) tokens \<and> list_all2 (run_of 0) runs out"
proof -
  have "\<exists>out runs. tokenize_from (\<lambda>_. significant tokens) (\<lambda>_. True) 0 (significant tokens) 0 = Some out \<and>
      concat runs = drop 0 (significant tokens) \<and> list_all2 (run_of 0) runs out"
    by (rule tokenize_from_cover) (simp_all add: significant_not_trivia)
  then show ?thesis by (simp only: parser_tokens_def Let_def significant_def drop_0)
qed

lemma nested_tokens_runs:
  assumes "\<And>raw. reserved = Some raw \<Longrightarrow> raw \<le> length tokens"
  shows "\<exists>out runs. nested_parser_tokens tokens base reserved = Some out \<and>
    concat runs = significant tokens \<and> list_all2 (run_of base) runs out"
proof -
  have cover: "\<exists>out runs. tokenize_from scan_of (\<lambda>index. index \<noteq> 0) base (significant tokens) 0 = Some out \<and>
      concat runs = significant tokens \<and> list_all2 (run_of base) runs out"
    if "\<And>i. length (scan_of i) \<le> length (significant tokens)" for scan_of
  proof -
    have "\<exists>out runs. tokenize_from scan_of (\<lambda>index. index \<noteq> 0) base (significant tokens) 0 = Some out \<and>
        concat runs = drop 0 (significant tokens) \<and> list_all2 (run_of base) runs out"
      by (rule tokenize_from_cover [OF that significant_not_trivia])
    then show ?thesis by (simp only: drop_0)
  qed
  show ?thesis
  proof (cases reserved)
    case None
    with cover [of "\<lambda>_. significant tokens"] show ?thesis
      by (auto simp: nested_parser_tokens_def Let_def)
  next
    case (Some raw)
    let ?b = "length (significant (take raw tokens))"
    let ?scan = "\<lambda>index. if index < ?b then take ?b (significant tokens) else significant tokens"
    have "\<exists>out runs. tokenize_from ?scan (\<lambda>index. index \<noteq> 0) base (significant tokens) 0 = Some out \<and>
        concat runs = significant tokens \<and> list_all2 (run_of base) runs out"
      by (rule cover) simp
    with Some assms show ?thesis by (auto simp: nested_parser_tokens_def Let_def)
  qed
qed

text \<open>
  the same for a nested fragment, shifted by its base: also with a reserved pipe, which hides
  the rest from the forward scans, every significant token of the fragment is in exactly one run.
  The only panic is a reserved index beyond the tokens.
\<close>

theorem nested_parser_tokens_cover:
  "case nested_parser_tokens tokens base reserved of
     None \<Rightarrow> (\<exists>raw. reserved = Some raw \<and> length tokens < raw)
   | Some out \<Rightarrow> (\<exists>runs. concat runs = filter (\<lambda>t. \<not> token_is_trivia t) tokens \<and>
       list_all2 (run_of base) runs out)"
proof (cases "\<exists>raw. reserved = Some raw \<and> length tokens < raw")
  case True
  then show ?thesis by (auto simp: nested_parser_tokens_def Let_def)
next
  case False
  then have "\<exists>out runs. nested_parser_tokens tokens base reserved = Some out \<and>
      concat runs = significant tokens \<and> list_all2 (run_of base) runs out"
    by (intro nested_tokens_runs) auto
  then show ?thesis by (auto simp: significant_def)
qed

section \<open>Order\<close>

text \<open>Spanned tokens in source order, without overlap.\<close>

definition ordered_tokens :: "spanned list \<Rightarrow> bool" where
  "ordered_tokens ts = ((\<forall>t\<in>set ts. tok_start t \<le> tok_end t) \<and>
     sorted_wrt (\<lambda>a b. tok_end a \<le> tok_start b) ts)"

lemma ordered_tokens_Nil [simp]: "ordered_tokens []"
  by (simp add: ordered_tokens_def)

lemma ordered_tokens_Cons:
  "ordered_tokens (t # ts) \<longleftrightarrow>
     tok_start t \<le> tok_end t \<and> (\<forall>u\<in>set ts. tok_end t \<le> tok_start u) \<and> ordered_tokens ts"
  by (auto simp: ordered_tokens_def)

lemma ordered_tokens_append:
  "ordered_tokens (xs @ ys) \<longleftrightarrow>
     ordered_tokens xs \<and> ordered_tokens ys \<and> (\<forall>x\<in>set xs. \<forall>y\<in>set ys. tok_end x \<le> tok_start y)"
  by (auto simp: ordered_tokens_def sorted_wrt_append)

lemma ordered_tokens_take: "ordered_tokens ts \<Longrightarrow> ordered_tokens (take n ts)"
  by (metis append_take_drop_id ordered_tokens_append)

lemma ordered_tokens_drop: "ordered_tokens ts \<Longrightarrow> ordered_tokens (drop n ts)"
  by (metis append_take_drop_id ordered_tokens_append)

lemma ordered_tokens_hd_last: "ordered_tokens ts \<Longrightarrow> ts \<noteq> [] \<Longrightarrow> tok_start (hd ts) \<le> tok_end (last ts)"
proof (cases ts rule: rev_cases)
  case (snoc xs x)
  assume "ordered_tokens ts"
  with snoc show ?thesis by (cases xs) (auto simp: ordered_tokens_def)
qed simp

lemma ordered_tokens_nth:
  "ordered_tokens ts \<Longrightarrow> i \<le> j \<Longrightarrow> j < length ts \<Longrightarrow> tok_start (ts ! i) \<le> tok_end (ts ! j)"
proof -
  assume o: "ordered_tokens ts" and ij: "i \<le> j" "j < length ts"
  show ?thesis
  proof (cases "i = j")
    case True
    with o ij show ?thesis by (simp add: ordered_tokens_def)
  next
    case False
    with ij have "i < j" by simp
    with o ij have "tok_end (ts ! i) \<le> tok_start (ts ! j)"
      unfolding ordered_tokens_def by (auto simp: sorted_wrt_iff_nth_less)
    moreover from o ij have "tok_start (ts ! i) \<le> tok_end (ts ! i)" "tok_start (ts ! j) \<le> tok_end (ts ! j)"
      by (simp_all add: ordered_tokens_def)
    ultimately show ?thesis by linarith
  qed
qed

lemma run_of_ordered:
  assumes "list_all2 (run_of base) runs out"
    and "sorted_wrt (\<lambda>a b. span_end (token_span a) \<le> span_start (token_span b)) (concat runs)"
    and "\<forall>t\<in>set (concat runs). wf_span (token_span t)"
  shows "ordered_tokens out \<and>
    (\<forall>o'\<in>set out. \<exists>a\<in>set (concat runs). \<exists>b\<in>set (concat runs).
       tok_start o' = base + span_start (token_span a) \<and> tok_end o' = base + span_end (token_span b))"
  using assms
proof (induction rule: list_all2_induct)
  case Nil
  then show ?case by simp
next
  case (Cons run runs o' out)
  from Cons.prems have "sorted_wrt (\<lambda>a b. span_end (token_span a) \<le> span_start (token_span b)) (concat runs)"
    "\<forall>t\<in>set (concat runs). wf_span (token_span t)" by (simp_all add: sorted_wrt_append)
  note IH = Cons.IH [OF this]
  from Cons.hyps(1) have run: "run \<noteq> []" "tok_start o' = base + span_start (token_span (hd run))"
    "tok_end o' = base + span_end (token_span (last run))" by (simp_all add: run_of_def)
  have wf: "tok_start o' \<le> tok_end o'"
  proof (cases run rule: rev_cases)
    case (snoc xs x)
    with Cons.prems run show ?thesis
      by (cases xs) (auto simp: wf_span_def sorted_wrt_append)
  qed (simp add: run)
  have before: "tok_end o' \<le> tok_start u" if u: "u \<in> set out" for u
  proof -
    from IH u obtain a where "a \<in> set (concat runs)" "tok_start u = base + span_start (token_span a)"
      by blast
    with run(1,3) Cons.prems(1) show ?thesis by (auto simp: sorted_wrt_append)
  qed
  from run(1) have "hd run \<in> set (concat (run # runs))" "last run \<in> set (concat (run # runs))" by auto
  with run have own: "\<exists>a\<in>set (concat (run # runs)). \<exists>b\<in>set (concat (run # runs)).
      tok_start o' = base + span_start (token_span a) \<and> tok_end o' = base + span_end (token_span b)"
    by blast
  have "ordered_tokens (o' # out)"
    using IH wf before by (simp add: ordered_tokens_Cons)
  moreover have "\<exists>a\<in>set (concat (run # runs)). \<exists>b\<in>set (concat (run # runs)).
      tok_start x = base + span_start (token_span a) \<and> tok_end x = base + span_end (token_span b)"
    if "x \<in> set out" for x
    using IH that by fastforce
  ultimately show ?case using own by auto
qed

text \<open>The tokens of a tiled source give ordered parser tokens inside the source.\<close>

lemma parser_tokens_ordered:
  assumes "tiles 0 (map token_span tokens) n"
  shows "\<exists>out. parser_tokens tokens = Some out \<and> ordered_tokens out \<and>
    (\<forall>t\<in>set out. tok_end t \<le> n)"
proof -
  have "\<exists>out runs. tokenize_from (\<lambda>_. significant tokens) (\<lambda>_. True) 0 (significant tokens) 0 = Some out \<and>
      concat runs = drop 0 (significant tokens) \<and> list_all2 (run_of 0) runs out"
    by (rule tokenize_from_cover) (simp_all add: significant_not_trivia)
  then obtain out runs where
    *: "parser_tokens tokens = Some out" "concat runs = significant tokens"
      "list_all2 (run_of 0) runs out"
    by (auto simp only: parser_tokens_def Let_def drop_0)
  have "sorted_wrt (\<lambda>a b. span_end (token_span a) \<le> span_start (token_span b)) tokens"
    using tiles_sorted [OF assms] by (simp add: sorted_wrt_map)
  then have "sorted_wrt (\<lambda>a b. span_end (token_span a) \<le> span_start (token_span b)) (concat runs)"
    unfolding * significant_def by (rule sorted_wrt_filter)
  moreover have wf: "wf_span (token_span t) \<and> span_end (token_span t) \<le> n" if "t \<in> set (concat runs)" for t
    using tiles_wf [OF assms, of "token_span t"] that * by (auto simp: significant_def)
  ultimately have "ordered_tokens out \<and>
    (\<forall>o'\<in>set out. \<exists>a\<in>set (concat runs). \<exists>b\<in>set (concat runs).
       tok_start o' = 0 + span_start (token_span a) \<and> tok_end o' = 0 + span_end (token_span b))"
    by (intro run_of_ordered [OF *(3)]) auto
  with * wf show ?thesis by fastforce
qed

end
