(* ===== verification/Contextual.thy ===== *)
theory Contextual
  imports Tokenize
begin

text \<open>
  \<open>parse_tokens_with_contextual_names\<close> of \<open>src/parser.rs\<close>: openCypher keywords are not reserved, so a
  parse that fails is retried with keywords read as names. The parser that is retried is a
  parameter, as it is in the source.
\<close>

section \<open>Token classes\<close>

definition ptok_at :: "spanned list \<Rightarrow> nat \<Rightarrow> parser_token option" where
  "ptok_at ts i = map_option tok_kind (slice_get ts i)"

definition ptok_before :: "spanned list \<Rightarrow> nat \<Rightarrow> parser_token option" where
  "ptok_before ts i = Option.bind (checked_sub i 1) (ptok_at ts)"

definition clause_starts :: "parser_token \<Rightarrow> bool" where
  "clause_starts t = (t \<in> {P_Match, P_Optional, P_Unwind, P_With, P_Return, P_Create, P_Merge, P_Set,
     P_Remove, P_Delete, P_Detach, P_Call})"

definition is_aliased_bare_expression :: "spanned list \<Rightarrow> nat \<Rightarrow> bool" where
  "is_aliased_bare_expression ts index =
     (is_some_and (ptok_before ts index) (\<lambda>t. t \<in> {P_Return, P_With, P_Yield, P_Comma}) \<and>
      ptok_at ts (index + 1) = Some P_As)"

definition is_solo_projection_keyword :: "spanned list \<Rightarrow> nat \<Rightarrow> bool" where
  "is_solo_projection_keyword ts index =
     (if \<not> is_some_and (ptok_at ts index) (\<lambda>t. t \<in> {P_SetAll, P_Distinct}) \<or>
         \<not> is_some_and (ptok_before ts index) (\<lambda>t. t \<in> {P_Return, P_With}) then False
      else is_none_or (ptok_at ts (index + 1)) (\<lambda>t.
        t \<in> {P_As, P_Comma, P_Order, P_Offset, P_Skip, P_Limit, P_Where, P_Union, P_Semicolon} \<or>
        clause_starts t))"

type_synonym name_signature = "parser_token option \<times> parser_token option \<times> parser_token option"

definition contextual_name_signature :: "spanned list \<Rightarrow> nat \<Rightarrow> name_signature" where
  "contextual_name_signature ts index =
     (ptok_before ts index, ptok_at ts index, ptok_at ts (index + 1))"

section \<open>The first reading\<close>

definition follows_name_marker :: "spanned list \<Rightarrow> nat \<Rightarrow> bool" where
  "follows_name_marker ts index = is_some_and (ptok_before ts index) (\<lambda>t. t \<in> {P_As, P_Dot})"

definition preserves_literal :: "spanned list \<Rightarrow> nat \<Rightarrow> bool" where
  "preserves_literal ts index =
     (is_aliased_bare_expression ts index \<and> is_some_and (ptok_at ts index) is_keyword_literal)"

definition reads_as_name :: "spanned list \<Rightarrow> nat \<Rightarrow> bool" where
  "reads_as_name ts index =
     (\<not> preserves_literal ts index \<and>
      is_some_and (ptok_at ts index) is_contextual_name_candidate \<and>
      (follows_name_marker ts index \<and>
         \<not> (ptok_at ts index = Some P_As \<and> ptok_before ts index = Some P_As) \<or>
       is_solo_projection_keyword ts index \<or> is_aliased_bare_expression ts index))"

definition as_name :: "spanned \<Rightarrow> spanned" where
  "as_name t = (tok_start t, P_Identifier, tok_end t)"

definition initial_contextual :: "spanned list \<Rightarrow> spanned list" where
  "initial_contextual ts =
     map (\<lambda>i. if reads_as_name ts i then as_name (ts ! i) else ts ! i) [0..<length ts]"

definition initial_resolved :: "spanned list \<Rightarrow> bool list" where
  "initial_resolved ts = map (\<lambda>i. preserves_literal ts i \<or> reads_as_name ts i) [0..<length ts]"

section \<open>The retries\<close>

text \<open>The ranking of an unresolved candidate against the location of the error.\<close>

definition candidate_rank :: "spanned list \<Rightarrow> nat \<Rightarrow> nat \<Rightarrow> nat \<times> nat \<times> nat" where
  "candidate_rank ts location index =
     (let start = tok_start (ts ! index); e = tok_end (ts ! index);
          distance = (if location < start then start - location else location - e);
          exact = (start \<le> location \<and> location < e);
          followed_by_as = (ptok_at ts (index + 1) = Some P_As);
          is_as = (ptok_at ts index = Some P_As);
          priority = (if exact \<and> (\<not> is_as \<or> followed_by_as) then 0
                      else if followed_by_as \<and> \<not> is_as then 1
                      else if exact then 2
                      else 3)
      in (priority, distance, index))"

definition unresolved_candidates :: "spanned list \<Rightarrow> bool list \<Rightarrow> nat list" where
  "unresolved_candidates ts resolved =
     filter (\<lambda>i. is_contextual_name_candidate (tok_kind (ts ! i)) \<and> \<not> resolved ! i) [0..<length ts]"

definition next_candidate :: "spanned list \<Rightarrow> bool list \<Rightarrow> nat \<Rightarrow> nat option" where
  "next_candidate ts resolved location =
     (case map (candidate_rank ts location) (unresolved_candidates ts resolved) of
        [] \<Rightarrow> None
      | ranks \<Rightarrow> Some (snd (snd (min_list ranks))))"

text \<open>All unresolved candidates with the same keyword and neighbours are read as names together.\<close>

definition peers :: "spanned list \<Rightarrow> bool list \<Rightarrow> nat \<Rightarrow> nat list" where
  "peers ts resolved index =
     filter (\<lambda>i. \<not> resolved ! i \<and> is_contextual_name_candidate (tok_kind (ts ! i)) \<and>
         contextual_name_signature ts i = contextual_name_signature ts index) [0..<length ts]"

definition resolve :: "spanned list \<Rightarrow> bool list \<Rightarrow> nat list \<Rightarrow> bool list" where
  "resolve ts resolved ps = map (\<lambda>i. i \<in> set ps \<or> resolved ! i) [0..<length ts]"

definition rename :: "spanned list \<Rightarrow> spanned list \<Rightarrow> nat list \<Rightarrow> spanned list" where
  "rename ts contextual ps =
     map (\<lambda>i. if i \<in> set ps then as_name (contextual ! i) else contextual ! i) [0..<length ts]"

definition lands_on :: "spanned list \<Rightarrow> nat list \<Rightarrow> nat \<Rightarrow> bool" where
  "lands_on ts ps location =
     list_ex (\<lambda>i. tok_start (ts ! i) \<le> location \<and> location < tok_end (ts ! i)) ps"

lemma min_list_in_set: "xs \<noteq> [] \<Longrightarrow> min_list xs \<in> set xs" for xs :: "'a::linorder list"
  by (simp add: min_list_Min)

lemma next_candidate_unresolved:
  assumes "next_candidate ts resolved location = Some index"
  shows "index \<in> set (unresolved_candidates ts resolved)"
proof -
  define ranks where "ranks = map (candidate_rank ts location) (unresolved_candidates ts resolved)"
  from assms have "ranks \<noteq> []" and index: "index = snd (snd (min_list ranks))"
    by (cases ranks; simp add: next_candidate_def ranks_def [symmetric])+
  then have "min_list ranks \<in> set ranks" by (intro min_list_in_set)
  then obtain i where "i \<in> set (unresolved_candidates ts resolved)"
    "min_list ranks = candidate_rank ts location i" unfolding ranks_def set_map by blast
  with index show ?thesis by (simp add: candidate_rank_def Let_def)
qed

definition open_count :: "spanned list \<Rightarrow> bool list \<Rightarrow> nat" where
  "open_count ts resolved = length (unresolved_candidates ts resolved)"

text \<open>Every pass resolves the chosen candidate: this is the termination of the search.\<close>

lemma open_count_resolve:
  assumes "next_candidate ts resolved location = Some index"
  shows "open_count ts (resolve ts resolved (peers ts resolved index)) < open_count ts resolved"
proof -
  from next_candidate_unresolved [OF assms] have index: "index \<in> set (unresolved_candidates ts resolved)" .
  let ?new = "unresolved_candidates ts (resolve ts resolved (peers ts resolved index))"
  have "index \<in> set (peers ts resolved index)"
    using index by (simp add: unresolved_candidates_def peers_def)
  then have "index \<notin> set ?new" using index
    by (simp add: unresolved_candidates_def resolve_def)
  moreover have "set ?new \<subseteq> set (unresolved_candidates ts resolved)"
    by (auto simp: unresolved_candidates_def resolve_def)
  ultimately have "set ?new \<subset> set (unresolved_candidates ts resolved)" using index by blast
  then have "card (set ?new) < card (set (unresolved_candidates ts resolved))"
    by (intro psubset_card_mono) simp_all
  moreover have "distinct (unresolved_candidates ts r)" for r by (simp add: unresolved_candidates_def)
  ultimately show ?thesis by (simp add: open_count_def distinct_card)
qed

function contextual_search ::
  "(spanned list \<Rightarrow> 'a parsed) \<Rightarrow> spanned list \<Rightarrow> spanned list \<Rightarrow> bool list \<Rightarrow>
   lalrpop_error \<Rightarrow> lalrpop_error \<Rightarrow> 'a parsed" where
  "contextual_search parse ts contextual resolved error best =
     (let best' = (if error_location best \<le> error_location error then error else best);
          location = error_location error in
      case next_candidate ts resolved location of
        None \<Rightarrow> Inl best'
      | Some index \<Rightarrow>
          (let ps = peers ts resolved index;
               contextual' = rename ts contextual ps in
           case parse contextual' of
             Inr v \<Rightarrow> Inr v
           | Inl next_error \<Rightarrow>
               if error_location next_error > location \<and>
                  \<not> lands_on ts ps (error_location next_error)
               then contextual_search parse ts contextual' (resolve ts resolved ps) next_error best'
               else Inl best'))"
  by pat_completeness auto
termination
  by (relation "measure (\<lambda>(parse, ts, contextual, resolved, error, best). open_count ts resolved)")
    (auto simp: open_count_resolve)

declare contextual_search.simps [simp del]

definition parse_tokens_with_contextual_names ::
  "(spanned list \<Rightarrow> 'a parsed) \<Rightarrow> spanned list \<Rightarrow> 'a parsed" where
  "parse_tokens_with_contextual_names parse ts =
     (case parse (initial_contextual ts) of
        Inr v \<Rightarrow> Inr v
      | Inl initial_error \<Rightarrow>
          contextual_search parse ts (initial_contextual ts) (initial_resolved ts)
            initial_error initial_error)"

section \<open>What the search may change\<close>

text \<open>A rereading of the tokens: the same spans, and only keywords turned into names.\<close>

definition rereads :: "spanned \<Rightarrow> spanned \<Rightarrow> bool" where
  "rereads t c = (tok_start c = tok_start t \<and> tok_end c = tok_end t \<and>
     (tok_kind c = tok_kind t \<or>
      is_contextual_name_candidate (tok_kind t) \<and> tok_kind c = P_Identifier))"

definition rereading :: "spanned list \<Rightarrow> spanned list \<Rightarrow> bool" where
  "rereading ts cs = list_all2 rereads ts cs"

lemma rereading_iff:
  "rereading ts cs \<longleftrightarrow> length ts = length cs \<and> (\<forall>i<length ts. rereads (ts ! i) (cs ! i))"
  by (simp add: rereading_def list_all2_conv_all_nth)

lemma rereads_refl [simp]: "rereads t t"
  by (simp add: rereads_def)

lemma rereading_initial: "rereading ts (initial_contextual ts)"
  by (auto simp: rereading_iff initial_contextual_def reads_as_name_def ptok_at_def is_some_and_iff
      slice_get_def rereads_def as_name_def)

lemma rereading_rename:
  "rereading ts cs \<Longrightarrow> rereading ts (rename ts cs (peers ts resolved index))"
  by (auto simp: rereading_iff rename_def peers_def rereads_def as_name_def)

lemma contextual_search_source:
  assumes "rereading ts contextual"
    and "\<exists>cs. rereading ts cs \<and> parse cs = Inl error" and "\<exists>cs. rereading ts cs \<and> parse cs = Inl best"
  shows "\<exists>cs. rereading ts cs \<and> parse cs = contextual_search parse ts contextual resolved error best"
  using assms
proof (induction parse ts contextual resolved error best rule: contextual_search.induct)
  case (1 parse ts contextual resolved error best)
  let ?best = "if error_location best \<le> error_location error then error else best"
  have best: "\<exists>cs. rereading ts cs \<and> parse cs = Inl ?best" using "1.prems" by simp
  show ?case
  proof (cases "next_candidate ts resolved (error_location error)")
    case None
    with best show ?thesis by (simp add: contextual_search.simps [of parse] Let_def)
  next
    case (Some index)
    let ?ps = "peers ts resolved index"
    let ?cs = "rename ts contextual ?ps"
    have re: "rereading ts ?cs" using "1.prems"(1) by (rule rereading_rename)
    show ?thesis
    proof (cases "parse ?cs")
      case (Inr v)
      with Some re show ?thesis
        by (intro exI [of _ ?cs]) (simp add: contextual_search.simps [of parse] Let_def)
    next
      case (Inl next_error)
      show ?thesis
      proof (cases "error_location next_error > error_location error \<and>
          \<not> lands_on ts ?ps (error_location next_error)")
        case True
        from "1.IH" [OF refl refl Some refl refl Inl True re _ best] re Inl
        have "\<exists>cs. rereading ts cs \<and> parse cs =
            contextual_search parse ts ?cs (resolve ts resolved ?ps) next_error ?best" by blast
        with True Some Inl show ?thesis by (simp add: contextual_search.simps [of parse _ contextual] Let_def)
      next
        case False
        with best Some Inl show ?thesis by (auto simp: contextual_search.simps [of parse] Let_def)
      qed
    qed
  qed
qed

lemma contextual_outcome:
  "\<exists>cs. rereading ts cs \<and> parse_tokens_with_contextual_names parse ts = parse cs"
proof (cases "parse (initial_contextual ts)")
  case (Inl e)
  then have "\<exists>cs. rereading ts cs \<and> parse cs =
      contextual_search parse ts (initial_contextual ts) (initial_resolved ts) e e"
    using rereading_initial by (intro contextual_search_source) auto
  with Inl show ?thesis
    by (auto simp: parse_tokens_with_contextual_names_def)
next
  case (Inr v)
  with rereading_initial [of ts] show ?thesis
    by (auto simp: parse_tokens_with_contextual_names_def)
qed

text \<open>
  C9: the outcome of the contextual-name search is the parser's own outcome on a rereading of the
  tokens: some assignment of the name reading to keywords, spans unchanged and every other token
  untouched. In particular the search terminates, invents no error, and accepts only what the
  grammar accepts under such a rereading.
\<close>

theorem contextual_result_is_rereading:
  "\<exists>cs. list_all2 rereads ts cs \<and> parse_tokens_with_contextual_names parse ts = parse cs"
  using contextual_outcome [of ts parse] by (simp only: rereading_def)

lemma contextual_search_farther:
  "contextual_search parse ts contextual resolved error best = Inl e \<Longrightarrow>
     error_location error \<le> error_location e \<and> error_location best \<le> error_location e"
proof (induction parse ts contextual resolved error best rule: contextual_search.induct)
  case (1 parse ts contextual resolved error best)
  let ?best = "if error_location best \<le> error_location error then error else best"
  have far: "error_location error \<le> error_location ?best \<and> error_location best \<le> error_location ?best"
    by simp
  show ?case
  proof (cases "next_candidate ts resolved (error_location error)")
    case None
    with "1.prems" show ?thesis by (auto simp: contextual_search.simps [of parse] Let_def split: if_splits)
  next
    case (Some index)
    let ?ps = "peers ts resolved index"
    let ?cs = "rename ts contextual ?ps"
    from "1.prems" Some obtain next_error where Inl: "parse ?cs = Inl next_error"
      by (auto simp: contextual_search.simps [of parse] Let_def split: sum.splits)
    show ?thesis
    proof (cases "error_location next_error > error_location error \<and>
        \<not> lands_on ts ?ps (error_location next_error)")
      case True
      with "1.prems" Some Inl have
        "contextual_search parse ts ?cs (resolve ts resolved ?ps) next_error ?best = Inl e"
        by (simp add: contextual_search.simps [of parse _ contextual] Let_def)
      from "1.IH" [OF refl refl Some refl refl Inl True this] far show ?thesis by linarith
    next
      case False
      with "1.prems" Some Inl have "e = ?best"
        by (auto simp: contextual_search.simps [of parse] Let_def)
      with far show ?thesis by simp
    qed
  qed
qed

text \<open>
  C10: a failing search reports an error at least as far into the input as the first attempt's; and
  when no token can be read as a name, the search is one plain parse of the tokens as they are.
\<close>

theorem contextual_error_progress:
  "(\<forall>e0 e. parse (initial_contextual ts) = Inl e0 \<and>
        parse_tokens_with_contextual_names parse ts = Inl e \<longrightarrow> error_location e0 \<le> error_location e) \<and>
   (list_all (\<lambda>t. \<not> is_contextual_name_candidate (tok_kind t)) ts \<longrightarrow>
      parse_tokens_with_contextual_names parse ts = parse ts)"
proof (intro conjI allI impI)
  fix e0 e
  assume "parse (initial_contextual ts) = Inl e0 \<and>
    parse_tokens_with_contextual_names parse ts = Inl e"
  then show "error_location e0 \<le> error_location e"
    by (auto simp: parse_tokens_with_contextual_names_def dest!: contextual_search_farther)
next
  assume none: "list_all (\<lambda>t. \<not> is_contextual_name_candidate (tok_kind t)) ts"
  then have "\<not> reads_as_name ts i" for i
    by (auto simp: reads_as_name_def ptok_at_def slice_get_def list_all_length is_some_and_iff)
  then have same: "initial_contextual ts = ts"
    by (simp add: initial_contextual_def map_nth)
  from none have "unresolved_candidates ts r = []" for r
    by (simp add: unresolved_candidates_def list_all_length)
  then have "next_candidate ts r l = None" for r l by (simp add: next_candidate_def)
  with same show "parse_tokens_with_contextual_names parse ts = parse ts"
    by (simp add: parse_tokens_with_contextual_names_def contextual_search.simps Let_def
        split: sum.splits)
qed

text \<open>A parser that wants two names: \<open>COUNT\<close> is reread, and the search succeeds.\<close>

definition wants_identifier :: "spanned list \<Rightarrow> nat parsed" where
  "wants_identifier ts = (case ts of
     [a] \<Rightarrow> if tok_kind a = P_Identifier then Inr 1 else Inl (PE_UnrecognizedEof (tok_end a) [])
   | _ \<Rightarrow> Inl (PE_User 0))"

lemma contextual_error_progress_witness:
  "parse_tokens_with_contextual_names wants_identifier [(0, P_Count, 5)] = Inr 1 \<and>
   parse_tokens_with_contextual_names wants_identifier [(0, P_Star, 1)] =
     wants_identifier [(0, P_Star, 1)]"
proof
  have "reads_as_name [(0, P_Count, 5)] 0 = False"
    by (simp add: reads_as_name_def follows_name_marker_def is_solo_projection_keyword_def
        is_aliased_bare_expression_def ptok_at_def ptok_before_def checked_sub_def)
  then show "parse_tokens_with_contextual_names wants_identifier [(0, P_Count, 5)] = Inr 1"
    by (simp add: parse_tokens_with_contextual_names_def initial_contextual_def wants_identifier_def
        contextual_search.simps Let_def next_candidate_def unresolved_candidates_def
        initial_resolved_def preserves_literal_def is_aliased_bare_expression_def ptok_at_def
        ptok_before_def checked_sub_def is_contextual_name_candidate_def candidate_rank_def
        rename_def peers_def as_name_def)
  have "list_all (\<lambda>t. \<not> is_contextual_name_candidate (tok_kind t)) [(0, P_Star, 1)]"
    by (simp add: is_contextual_name_candidate_def)
  with contextual_error_progress [of wants_identifier "[(0, P_Star, 1)]"]
  show "parse_tokens_with_contextual_names wants_identifier [(0, P_Star, 1)] =
     wants_identifier [(0, P_Star, 1)]" by blast
qed

end
