(* ===== verification/Queries.thy ===== *)
theory Queries
  imports Contextual Ast
begin

text \<open>
  The upper half of the parser in \<open>src/parser.rs\<close>: \<open>parse_single_query\<close> cuts a query into clauses,
  \<open>parse_regular_query\<close> into UNION branches, and \<open>parse_program\<close> wraps the result.

  The LR parsers for one clause or one fragment are generated by LALRPOP from \<open>grammar/\<close>; they are
  parameters, the fields of the record \<open>grammar\<close>. Nothing is assumed about them.
\<close>

record grammar =
  clause_root :: "ustr \<Rightarrow> spanned list \<Rightarrow> clause parsed"
  standalone_call_root :: "ustr \<Rightarrow> spanned list \<Rightarrow> clause parsed"
  pattern_fragment :: "ustr \<Rightarrow> spanned list \<Rightarrow> pattern parsed"
  expr_fragment :: "ustr \<Rightarrow> spanned list \<Rightarrow> expr parsed"
  label_predicate_fragment :: "ustr \<Rightarrow> spanned list \<Rightarrow> label_expression parsed"

section \<open>Positions outside delimiters\<close>

definition opens :: "parser_token \<Rightarrow> bool" where
  "opens t = (t \<in> {P_LeftParen, P_LeftBracket, P_LeftBrace})"

definition closes_one :: "parser_token \<Rightarrow> bool" where
  "closes_one t = (t \<in> {P_RightParen, P_RightBracket, P_RightBrace})"

fun top_level_from :: "(parser_token \<Rightarrow> bool) \<Rightarrow> nat \<Rightarrow> nat \<Rightarrow> spanned list \<Rightarrow> nat list" where
  "top_level_from predicate depth index [] = []"
| "top_level_from predicate depth index (t # ts) =
     (let rest = top_level_from predicate
            (if opens (tok_kind t) then depth + 1
             else if closes_one (tok_kind t) then depth - 1 else depth) (index + 1) ts in
      if depth = 0 \<and> predicate (tok_kind t) then index # rest else rest)"

definition top_level_indices :: "spanned list \<Rightarrow> (parser_token \<Rightarrow> bool) \<Rightarrow> nat list" where
  "top_level_indices ts predicate = top_level_from predicate 0 0 ts"

lemma top_level_from_bounds:
  "i \<in> set (top_level_from p depth index ts) \<Longrightarrow>
     index \<le> i \<and> i < index + length ts \<and> p (tok_kind (ts ! (i - index)))"
proof (induction p depth index ts arbitrary: i rule: top_level_from.induct)
  case (2 p depth index t ts)
  from "2.prems" consider "i = index" "p (tok_kind t)"
    | "i \<in> set (top_level_from p (if opens (tok_kind t) then depth + 1
          else if closes_one (tok_kind t) then depth - 1 else depth) (index + 1) ts)"
    by (auto simp: Let_def split: if_splits)
  then show ?case
  proof cases
    case 2
    from "2.IH" [OF this] show ?thesis by (auto simp: nth_Cons split: nat.splits)
      (metis Suc_diff_Suc Suc_le_lessD diff_Suc_Suc nat.inject)
  qed simp
qed simp

lemma length_top_level_from: "length (top_level_from p depth index ts) \<le> length ts"
proof (induction p depth index ts rule: top_level_from.induct)
  case (2 p depth index t ts)
  then show ?case by (simp add: Let_def le_SucI)
qed simp

lemma sorted_top_level_from: "sorted_wrt (<) (top_level_from p depth index ts)"
proof (induction p depth index ts rule: top_level_from.induct)
  case (2 p depth index t ts)
  then show ?case by (auto simp: Let_def Suc_le_eq dest: top_level_from_bounds)
qed simp

lemma top_level_indices_bound:
  "i \<in> set (top_level_indices ts p) \<Longrightarrow> i < length ts \<and> p (tok_kind (ts ! i))"
  unfolding top_level_indices_def by (drule top_level_from_bounds) simp

lemma length_top_level_indices: "length (top_level_indices ts p) \<le> length ts"
  by (simp add: top_level_indices_def length_top_level_from)

section \<open>Clauses\<close>

definition is_return :: "clause \<Rightarrow> bool" where
  "is_return c = (case node_kind (clause_node c) of CK_Return _ \<Rightarrow> True | _ \<Rightarrow> False)"

definition slice :: "'a list \<Rightarrow> nat \<Rightarrow> nat \<Rightarrow> 'a list" where
  "slice ts a b = take (b - a) (drop a ts)"

definition query_clause_expected :: "nat \<Rightarrow> lalrpop_error" where
  "query_clause_expected location = PE_UnrecognizedEof location [ascii ''query clause'']"

definition candidate_ends :: "spanned list \<Rightarrow> nat \<Rightarrow> nat list" where
  "candidate_ends ts cursor =
     dedup_by (\<lambda>a b. a = b)
       (sort (map (\<lambda>index. cursor + 1 + index)
           (top_level_indices (drop (cursor + 1) ts) clause_starts) @ [length ts]))"

text \<open>The loop over the candidate ends of one clause.\<close>

fun try_clause_ends ::
  "grammar \<Rightarrow> ustr \<Rightarrow> spanned list \<Rightarrow> nat \<Rightarrow> nat list \<Rightarrow> lalrpop_error option \<Rightarrow> (clause \<times> nat) parsed" where
  "try_clause_ends g source ts cursor [] best =
     Inl (case best of Some e \<Rightarrow> e | None \<Rightarrow> query_clause_expected (tok_start (ts ! cursor)))"
| "try_clause_ends g source ts cursor (e # ends) best =
     (case clause_root g source (slice ts cursor e) of
        Inr clause \<Rightarrow>
          (if is_return clause \<and> e < length ts then Inl (PE_ExtraToken (ts ! e))
           else Inr (clause, e))
      | Inl error \<Rightarrow>
          (case error of
             PE_UnrecognizedToken _ _ \<Rightarrow> Inl error
           | _ \<Rightarrow> try_clause_ends g source ts cursor ends (retain_farthest_error best error)))"

lemma candidate_ends_bound:
  "e \<in> set (candidate_ends ts cursor) \<Longrightarrow> cursor < length ts \<Longrightarrow> cursor < e \<and> e \<le> length ts"
  by (auto simp: candidate_ends_def dest!: subsetD [OF set_dedup_by] top_level_indices_bound)

lemma candidate_ends_start:
  assumes "e \<in> set (candidate_ends ts cursor)" and "e < length ts"
  shows "clause_starts (tok_kind (ts ! e))"
proof -
  from assms obtain i where "i \<in> set (top_level_indices (drop (cursor + 1) ts) clause_starts)"
    "e = cursor + 1 + i"
    by (auto simp: candidate_ends_def dest!: subsetD [OF set_dedup_by])
  moreover from this top_level_indices_bound [of i "drop (cursor + 1) ts" clause_starts]
  have "i < length (drop (cursor + 1) ts)" "clause_starts (tok_kind (drop (cursor + 1) ts ! i))"
    by auto
  ultimately show ?thesis by (simp add: nth_drop)
qed

lemma try_clause_ends_Inr:
  "try_clause_ends g source ts cursor ends best = Inr (clause, e) \<Longrightarrow>
     e \<in> set ends \<and> clause_root g source (slice ts cursor e) = Inr clause \<and>
     (is_return clause \<longrightarrow> length ts \<le> e)"
  by (induction g source ts cursor ends best rule: try_clause_ends.induct)
    (auto split: sum.splits lalrpop_error.splits if_splits)

function clause_loop :: "grammar \<Rightarrow> ustr \<Rightarrow> spanned list \<Rightarrow> nat \<Rightarrow> clause list parsed" where
  "clause_loop g source ts cursor =
     (if length ts \<le> cursor then Inr []
      else
        (case try_clause_ends g source ts cursor (candidate_ends ts cursor) None of
           Inl error \<Rightarrow> Inl error
         | Inr (clause, e) \<Rightarrow>
             (case clause_loop g source ts e of
                Inl error \<Rightarrow> Inl error
              | Inr clauses \<Rightarrow> Inr (clause # clauses))))"
  by pat_completeness auto
termination
  by (relation "measure (\<lambda>(g, source, ts, cursor). length ts - cursor)")
    (auto dest!: try_clause_ends_Inr [OF sym] try_clause_ends_Inr dest: candidate_ends_bound
      intro!: diff_less_mono2)

declare clause_loop.simps [simp del]

text \<open>\<open>Span::new\<close> over the first and the last token panics if they are out of order.\<close>

definition parse_single_query :: "grammar \<Rightarrow> ustr \<Rightarrow> spanned list \<Rightarrow> single_query parsed panics" where
  "parse_single_query g source ts =
     (if ts = [] then Some (Inl (query_clause_expected 0))
      else
        (case clause_loop g source ts 0 of
           Inl error \<Rightarrow> Some (Inl error)
         | Inr clauses \<Rightarrow>
             map_option (\<lambda>sp. Inr (Node (SingleQueryKind clauses) sp))
               (span_new (tok_start (hd ts)) (tok_end (last ts)))))"

section \<open>Unions\<close>

definition union_quantifier :: "parser_token option \<Rightarrow> union_operator \<times> nat" where
  "union_quantifier t =
     (if t = Some P_All then (UO_All, 1)
      else if t = Some P_Distinct then (UO_Distinct, 1)
      else (UO_Default, 0))"

definition beyond_error :: "lalrpop_error \<Rightarrow> nat \<Rightarrow> bool" where
  "beyond_error error location =
     (case error of PE_UnrecognizedToken token _ \<Rightarrow> location > tok_start token | _ \<Rightarrow> False)"

type_synonym union_tail = "clause union_branch list"

text \<open>\<open>parse_regular_query\<close> and its loop over the top-level \<open>UNION\<close> tokens.\<close>

function parse_regular_query ::
    "grammar \<Rightarrow> ustr \<Rightarrow> spanned list \<Rightarrow> (single_query \<times> union_tail) parsed panics"
  and try_unions ::
    "grammar \<Rightarrow> ustr \<Rightarrow> spanned list \<Rightarrow> lalrpop_error \<Rightarrow> nat list \<Rightarrow>
     (single_query \<times> union_tail) parsed panics" where
  "parse_regular_query g source ts =
     Option.bind (parse_single_query g source ts) (\<lambda>unsplit.
       (case unsplit of
          Inr query \<Rightarrow> Some (Inr (query, []))
        | Inl unsplit_error \<Rightarrow>
            try_unions g source ts unsplit_error (top_level_indices ts (\<lambda>t. t = P_Union))))"
| "try_unions g source ts unsplit_error [] = Some (Inl unsplit_error)"
| "try_unions g source ts unsplit_error (union_index # indices) =
     (if beyond_error unsplit_error (tok_start (ts ! union_index)) then Some (Inl unsplit_error)
      else
        Option.bind (parse_single_query g source (take union_index ts)) (\<lambda>left.
          (case left of
             Inl _ \<Rightarrow> try_unions g source ts unsplit_error indices
           | Inr head \<Rightarrow>
               (case union_quantifier (ptok_at ts (union_index + 1)) of
                  (operator, n) \<Rightarrow>
                    if length ts \<le> union_index + 1 + n then
                      try_unions g source ts unsplit_error indices
                    else
                      Option.bind (parse_regular_query g source (drop (union_index + 1 + n) ts))
                        (\<lambda>right.
                        (case right of
                           Inl _ \<Rightarrow> try_unions g source ts unsplit_error indices
                         | Inr (query, tail) \<Rightarrow>
                             map_option (\<lambda>sp.
                                 Inr (head, UnionBranch (Node operator sp) query # tail))
                               (span_new (tok_start (ts ! union_index))
                                 (tok_end (ts ! (union_index + n))))))))))"
  by pat_completeness auto
termination
  by (relation "measures [\<lambda>x. case x of Inl (g, s, ts) \<Rightarrow> length ts | Inr (g, s, ts, e, is) \<Rightarrow> length ts,
      \<lambda>x. case x of Inl (g, s, ts) \<Rightarrow> Suc (length ts) | Inr (g, s, ts, e, is) \<Rightarrow> length is]")
    (auto intro: le_imp_less_Suc length_top_level_indices)

declare parse_regular_query.simps [simp del] try_unions.simps [simp del]

section \<open>Programs\<close>

definition split_terminator :: "spanned list \<Rightarrow> (spanned list \<times> span option) panics" where
  "split_terminator ts =
     (if ts \<noteq> [] \<and> tok_kind (last ts) = P_Semicolon
      then map_option (\<lambda>sp. (butlast ts, Some sp)) (span_new (tok_start (last ts)) (tok_end (last ts)))
      else Some (ts, None))"

definition wrap_statement ::
  "single_query \<Rightarrow> union_tail \<Rightarrow> span \<Rightarrow> span option \<Rightarrow> program panics" where
  "wrap_statement head unions query_span terminator =
     map_option (\<lambda>statement_span.
       Program [Node (ST_Query (QueryStatement None
           (Node (QU_Regular (RegularQuery head unions)) query_span) terminator)) statement_span]
         statement_span)
     (case terminator of None \<Rightarrow> Some query_span | Some sp \<Rightarrow> span_cover query_span sp)"

definition parse_program :: "grammar \<Rightarrow> ustr \<Rightarrow> spanned list \<Rightarrow> program parsed panics" where
  "parse_program g source ts =
     (if ts = [] then map_option (\<lambda>sp. Inr (Program [] sp)) (span_empty 0)
      else
        Option.bind (split_terminator ts) (\<lambda>(query_tokens, terminator).
          if query_tokens = [] then
            Some (Inl (query_clause_expected
              (case terminator of None \<Rightarrow> 0 | Some sp \<Rightarrow> span_start sp)))
          else
            Option.bind (parse_regular_query g source query_tokens) (\<lambda>regular.
              (case
                 (case regular of
                    Inr (head, unions) \<Rightarrow> Inr (head, unions)
                  | Inl regular_error \<Rightarrow>
                      (case standalone_call_root g source query_tokens of
                         Inr clause \<Rightarrow> Inr (Node (SingleQueryKind [clause]) (clause_span clause), [])
                       | Inl _ \<Rightarrow> Inl regular_error))
               of
                 Inl error \<Rightarrow> Some (Inl error)
               | Inr (head, unions) \<Rightarrow>
                   Option.bind (span_new (tok_start (hd query_tokens)) (tok_end (last query_tokens)))
                     (\<lambda>query_span.
                     map_option Inr (wrap_statement head unions query_span terminator))))))"

section \<open>Single queries are sequences of clauses\<close>

text \<open>The slices of the tokens that the clauses were parsed from.\<close>

definition clause_pieces ::
  "grammar \<Rightarrow> ustr \<Rightarrow> spanned list list \<Rightarrow> clause list \<Rightarrow> bool" where
  "clause_pieces g source pieces clauses = (
     list_all2 (\<lambda>p c. p \<noteq> [] \<and> clause_root g source p = Inr c) pieces clauses \<and>
     (\<forall>c\<in>set (butlast clauses). \<not> is_return c) \<and>
     (\<forall>p\<in>set (tl pieces). clause_starts (tok_kind (hd p))))"

lemma clause_loop_pieces:
  "clause_loop g source ts cursor = Inr clauses \<Longrightarrow> cursor \<le> length ts \<Longrightarrow>
     \<exists>pieces. concat pieces = drop cursor ts \<and> clause_pieces g source pieces clauses"
proof (induction g source ts cursor arbitrary: clauses rule: clause_loop.induct)
  case (1 g source ts cursor)
  show ?case
  proof (cases "length ts \<le> cursor")
    case True
    with "1.prems" show ?thesis
      by (intro exI [of _ "[]"]) (simp add: clause_loop.simps [of g] clause_pieces_def)
  next
    case False
    with "1.prems" obtain clause e rest where
      step: "try_clause_ends g source ts cursor (candidate_ends ts cursor) None = Inr (clause, e)"
        "clause_loop g source ts e = Inr rest" "clauses = clause # rest"
      by (auto simp: clause_loop.simps [of g source ts cursor] split: sum.splits)
    from try_clause_ends_Inr [OF step(1)] have e: "e \<in> set (candidate_ends ts cursor)"
      "clause_root g source (slice ts cursor e) = Inr clause" "is_return clause \<longrightarrow> length ts \<le> e"
      by auto
    from False candidate_ends_bound [OF e(1)] have bound: "cursor < e" "e \<le> length ts" by auto
    from "1.IH" [OF False step(1) refl step(2) bound(2)] obtain pieces where
      pieces: "concat pieces = drop e ts" "clause_pieces g source pieces rest" by blast
    have "slice ts cursor e @ drop e ts = drop cursor ts"
      using bound by (simp add: slice_def) (metis append_take_drop_id drop_drop le_add_diff_inverse2 less_imp_le)
    moreover have "slice ts cursor e \<noteq> []" using bound False by (simp add: slice_def)
    moreover have "\<forall>c\<in>set (butlast clauses). \<not> is_return c"
    proof (cases "rest = []")
      case False
      then have "pieces \<noteq> []" using pieces(2) by (auto simp: clause_pieces_def)
      then have "drop e ts \<noteq> []" using pieces by (cases pieces; cases rest) (auto simp: clause_pieces_def)
      then have "\<not> is_return clause" using e(3) by auto
      with pieces(2) step(3) False show ?thesis by (simp add: clause_pieces_def)
    qed (simp add: step(3))
    moreover have "\<forall>p\<in>set pieces. clause_starts (tok_kind (hd p))"
    proof (cases pieces)
      case (Cons p ps)
      with pieces have p: "p \<noteq> []" "drop e ts = p @ concat ps"
        by (cases rest; auto simp: clause_pieces_def)+
      then have "e < length ts" by (metis append_is_Nil_conv drop_all not_less)
      moreover from this p have "hd p = ts ! e" by (metis hd_append2 hd_drop_conv_nth)
      ultimately show ?thesis
        using candidate_ends_start [OF e(1)] pieces(2) Cons by (simp add: clause_pieces_def)
    qed simp
    ultimately show ?thesis
      using pieces e(2) step(3)
      by (intro exI [of _ "slice ts cursor e # pieces"]) (simp add: clause_pieces_def)
  qed
qed

text \<open>
  C6: a parsed single query is a sequence of clauses that covers its tokens. The tokens are cut
  into consecutive nonempty pieces, the n-th clause is what the clause parser returns for the n-th
  piece, every cut is at a token that starts a clause, \<open>RETURN\<close> can only be the last clause, there
  is at least one clause, and the span runs from the first to the last token.
\<close>

theorem parse_single_query_sound:
  assumes "parse_single_query g source ts = Some (Inr query)"
  shows "\<exists>pieces clauses. concat pieces = ts \<and> clauses \<noteq> [] \<and>
    query = Node (SingleQueryKind clauses) (mk_span (tok_start (hd ts)) (tok_end (last ts))) \<and>
    list_all2 (\<lambda>p c. p \<noteq> [] \<and> clause_root g source p = Inr c) pieces clauses \<and>
    (\<forall>c\<in>set (butlast clauses). \<not> is_return c) \<and>
    (\<forall>p\<in>set (tl pieces). clause_starts (tok_kind (hd p)))"
proof -
  from assms obtain clauses sp where ts: "ts \<noteq> []" and loop: "clause_loop g source ts 0 = Inr clauses"
    and sp: "span_new (tok_start (hd ts)) (tok_end (last ts)) = Some sp"
      "query = Node (SingleQueryKind clauses) sp"
    by (auto simp: parse_single_query_def split: if_splits sum.splits)
  from clause_loop_pieces [OF loop] obtain pieces where
    pieces: "concat pieces = ts" "clause_pieces g source pieces clauses" by auto
  from ts pieces have "clauses \<noteq> []" by (auto simp: clause_pieces_def)
  with pieces sp span_new_SomeD [OF sp(1)] show ?thesis by (auto simp: clause_pieces_def)
qed

section \<open>Unions\<close>

text \<open>The grammar of UNION: the operator's tokens, and a query as a head with branches.\<close>

definition union_operator_tokens :: "union_operator \<Rightarrow> spanned list \<Rightarrow> bool" where
  "union_operator_tokens op ts =
     (case map tok_kind ts of
        [a] \<Rightarrow> a = P_Union \<and> op = UO_Default
      | [a, b] \<Rightarrow> a = P_Union \<and> (b = P_All \<and> op = UO_All \<or> b = P_Distinct \<and> op = UO_Distinct)
      | _ \<Rightarrow> False)"

inductive union_query ::
  "grammar \<Rightarrow> ustr \<Rightarrow> spanned list \<Rightarrow> single_query \<Rightarrow> union_tail \<Rightarrow> bool" for g source where
  uq_single: "parse_single_query g source ts = Some (Inr query) \<Longrightarrow> union_query g source ts query []"
| uq_union: "parse_single_query g source left = Some (Inr head) \<Longrightarrow> union_operator_tokens op ops \<Longrightarrow>
    right \<noteq> [] \<Longrightarrow> union_query g source right query tail \<Longrightarrow>
    union_query g source (left @ ops @ right) head
      (UnionBranch (Node op (mk_span (tok_start (hd ops)) (tok_end (last ops)))) query # tail)"

lemma ptok_at_nth: "i < length ts \<Longrightarrow> ptok_at ts i = Some (tok_kind (ts ! i))"
  by (simp add: ptok_at_def slice_get_def)

lemma ptok_at_bound: "ptok_at ts i = Some k \<Longrightarrow> i < length ts \<and> tok_kind (ts ! i) = k"
  by (auto simp: ptok_at_def slice_get_Some_iff)

lemma union_quantifier_tokens:
  assumes "u < length ts" and "tok_kind (ts ! u) = P_Union"
    and "union_quantifier (ptok_at ts (u + 1)) = (op, n)"
  shows "\<exists>ops. ts = take u ts @ ops @ drop (u + 1 + n) ts \<and> union_operator_tokens op ops \<and>
    hd ops = ts ! u \<and> last ops = ts ! (u + n)"
proof -
  have split: "ts = take u ts @ ts ! u # drop (u + 1) ts"
    using assms(1) by (simp add: Cons_nth_drop_Suc)
  show ?thesis
  proof (cases n)
    case 0
    with assms split show ?thesis
      by (intro exI [of _ "[ts ! u]"])
        (auto simp: union_quantifier_def union_operator_tokens_def split: if_splits)
  next
    case (Suc m)
    with assms have n: "n = 1" "u + 1 < length ts"
      by (auto simp: union_quantifier_def split: if_splits dest!: ptok_at_bound)
    then have "drop (u + 1) ts = ts ! (u + 1) # drop (u + 2) ts"
      using Cons_nth_drop_Suc [of "u + 1" ts] by simp
    with split have "ts = take u ts @ [ts ! u, ts ! (u + 1)] @ drop (u + 2) ts" by simp
    moreover from assms n have "union_operator_tokens op [ts ! u, ts ! (u + 1)]"
      by (auto simp: union_quantifier_def union_operator_tokens_def split: if_splits
          dest!: ptok_at_bound)
    ultimately show ?thesis using n by (intro exI [of _ "[ts ! u, ts ! (u + 1)]"]) simp
  qed
qed

lemma regular_query_sound:
  "(parse_regular_query g source ts = Some (Inr (head, tail)) \<longrightarrow> union_query g source ts head tail)"
  "(try_unions g source ts unsplit_error indices = Some (Inr (head, tail)) \<longrightarrow>
     (\<forall>i\<in>set indices. i < length ts \<and> tok_kind (ts ! i) = P_Union) \<longrightarrow>
     union_query g source ts head tail)"
proof (induction g source ts and g source ts unsplit_error indices arbitrary: head tail and head tail
    rule: parse_regular_query_try_unions.induct)
  case (1 g source ts)
  show ?case
  proof
    assume run: "parse_regular_query g source ts = Some (Inr (head, tail))"
    then obtain unsplit where unsplit: "parse_single_query g source ts = Some unsplit"
      by (auto simp: parse_regular_query.simps split: bind_splits)
    show "union_query g source ts head tail"
    proof (cases unsplit)
      case (Inr query)
      with run unsplit show ?thesis by (simp add: parse_regular_query.simps uq_single)
    next
      case (Inl e)
      have "\<forall>i\<in>set (top_level_indices ts (\<lambda>t. t = P_Union)). i < length ts \<and> tok_kind (ts ! i) = P_Union"
        using top_level_indices_bound by blast
      with 1 [OF unsplit Inl] run unsplit Inl show ?thesis by (simp add: parse_regular_query.simps)
    qed
  qed
next
  case (2 g source ts unsplit_error)
  then show ?case by (simp add: try_unions.simps)
next
  case (3 g source ts unsplit_error u indices)
  show ?case
  proof (intro impI)
    assume run: "try_unions g source ts unsplit_error (u # indices) = Some (Inr (head, tail))"
      and idx: "\<forall>i\<in>set (u # indices). i < length ts \<and> tok_kind (ts ! i) = P_Union"
    from run have nb: "\<not> beyond_error unsplit_error (tok_start (ts ! u))"
      by (auto simp: try_unions.simps)
    from run nb obtain left where left: "parse_single_query g source (take u ts) = Some left"
      by (auto simp: try_unions.simps split: bind_splits)
    show "union_query g source ts head tail"
    proof (cases left)
      case (Inl e)
      with run nb left idx "3.IH"(1) [OF nb left Inl] show ?thesis by (simp add: try_unions.simps)
    next
      case (Inr h)
      obtain op n where q: "union_quantifier (ptok_at ts (u + 1)) = (op, n)"
        by (cases "union_quantifier (ptok_at ts (u + 1))")
      show ?thesis
      proof (cases "length ts \<le> u + 1 + n")
        case True
        with run nb left Inr q idx "3.IH"(2) [OF nb left Inr q [symmetric] True] show ?thesis
          by (simp add: try_unions.simps)
      next
        case False
        with run nb left Inr q obtain right where
          right: "parse_regular_query g source (drop (u + 1 + n) ts) = Some right"
          by (auto simp: try_unions.simps split: bind_splits)
        show ?thesis
        proof (cases right)
          case (Inl e)
          with run nb left Inr q False right idx "3.IH"(4) [OF nb left \<open>left = Inr h\<close> q [symmetric] False right Inl] show ?thesis
            by (simp add: try_unions.simps)
        next
          case (Inr r)
          obtain query tl' where r: "r = (query, tl')" by (cases r)
          from run nb left \<open>left = Inr h\<close> q False right Inr r obtain sp where
            res: "span_new (tok_start (ts ! u)) (tok_end (ts ! (u + n))) = Some sp" "head = h"
              "tail = UnionBranch (Node op sp) query # tl'"
            by (auto simp: try_unions.simps)
          from idx have u: "u < length ts" "tok_kind (ts ! u) = P_Union" by auto
          from union_quantifier_tokens [OF u q] obtain ops where
            ops: "ts = take u ts @ ops @ drop (u + 1 + n) ts" "union_operator_tokens op ops"
              "hd ops = ts ! u" "last ops = ts ! (u + n)" by blast
          have "union_query g source (drop (u + 1 + n) ts) query tl'"
            using "3.IH"(3) [OF nb left \<open>left = Inr h\<close> q [symmetric] False] right Inr r by simp
          moreover have "drop (u + 1 + n) ts \<noteq> []" using False by simp
          ultimately have "union_query g source (take u ts @ ops @ drop (u + 1 + n) ts) h
              (UnionBranch (Node op (mk_span (tok_start (hd ops)) (tok_end (last ops)))) query # tl')"
            using left \<open>left = Inr h\<close> ops(2) by (intro uq_union) simp_all
          with ops res span_new_SomeD [OF res(1)] show ?thesis by simp
        qed
      qed
    qed
  qed
qed

text \<open>
  C7: a parsed regular query follows the grammar of UNION. Its tokens are a single query, or a
  single query, the tokens of the operator with the recorded quantifier and span, and a nonempty
  rest that is again a regular query, whose head becomes the branch of the operator.
\<close>

theorem parse_regular_query_sound:
  assumes "parse_regular_query g source ts = Some (Inr (head, unions))"
  shows "union_query g source ts head unions"
  using regular_query_sound(1) assms by blast

section \<open>No panic on ordered tokens\<close>

lemma parse_single_query_total:
  "ordered_tokens ts \<Longrightarrow> \<exists>r. parse_single_query g source ts = Some r"
  by (auto simp: parse_single_query_def ordered_tokens_hd_last split: sum.splits)

lemma union_quantifier_bound:
  "union_quantifier t = (op, n) \<Longrightarrow> n \<le> 1"
  by (auto simp: union_quantifier_def split: if_splits)

lemma regular_query_total:
  "ordered_tokens ts \<longrightarrow> (\<exists>r. parse_regular_query g source ts = Some r)"
  "ordered_tokens ts \<longrightarrow> (\<exists>r. try_unions g source ts unsplit_error indices = Some r)"
proof (induction g source ts and g source ts unsplit_error indices
    rule: parse_regular_query_try_unions.induct)
  case (1 g source ts)
  show ?case
  proof
    assume o: "ordered_tokens ts"
    then obtain unsplit where unsplit: "parse_single_query g source ts = Some unsplit"
      using parse_single_query_total by blast
    with 1 [OF unsplit] o show "\<exists>r. parse_regular_query g source ts = Some r"
      by (cases unsplit) (auto simp: parse_regular_query.simps)
  qed
next
  case (2 g source ts unsplit_error)
  then show ?case by (simp add: try_unions.simps)
next
  case (3 g source ts unsplit_error u indices)
  show ?case
  proof
    assume o: "ordered_tokens ts"
    show "\<exists>r. try_unions g source ts unsplit_error (u # indices) = Some r"
    proof (cases "beyond_error unsplit_error (tok_start (ts ! u))")
      case True
      then show ?thesis by (simp add: try_unions.simps)
    next
      case nb: False
      obtain left where left: "parse_single_query g source (take u ts) = Some left"
        using parse_single_query_total [OF ordered_tokens_take [OF o]] by blast
      show ?thesis
      proof (cases left)
        case (Inl e)
        with nb left o "3.IH"(1) [OF nb left Inl] show ?thesis by (simp add: try_unions.simps)
      next
        case head: (Inr h)
        obtain op n where q: "union_quantifier (ptok_at ts (u + 1)) = (op, n)"
          by (cases "union_quantifier (ptok_at ts (u + 1))")
        show ?thesis
        proof (cases "length ts \<le> u + 1 + n")
          case True
          with nb left head q o "3.IH"(2) [OF nb left head q [symmetric] True] show ?thesis
            by (simp add: try_unions.simps)
        next
          case False
          obtain right where right: "parse_regular_query g source (drop (u + 1 + n) ts) = Some right"
            using "3.IH"(3) [OF nb left head q [symmetric] False] ordered_tokens_drop [OF o] by blast
          from False ordered_tokens_nth [OF o, of u "u + n"] have
            "tok_start (ts ! u) \<le> tok_end (ts ! (u + n))" by simp
          with nb left head q False right o
            "3.IH"(4) [OF nb left head q [symmetric] False right]
          show ?thesis by (cases right) (auto simp: try_unions.simps)
        qed
      qed
    qed
  qed
qed

lemma split_terminator_ordered:
  assumes "ordered_tokens ts"
  shows "\<exists>qs t. split_terminator ts = Some (qs, t) \<and> ordered_tokens qs \<and>
    (t = None \<and> qs = ts \<or>
     ts \<noteq> [] \<and> qs = butlast ts \<and> tok_kind (last ts) = P_Semicolon \<and>
       t = Some (mk_span (tok_start (last ts)) (tok_end (last ts))))"
proof (cases "ts \<noteq> [] \<and> tok_kind (last ts) = P_Semicolon")
  case True
  then have "last ts \<in> set ts" by simp
  with assms have "tok_start (last ts) \<le> tok_end (last ts)" unfolding ordered_tokens_def by blast
  moreover have "ordered_tokens (butlast ts)"
    using assms by (simp add: butlast_conv_take ordered_tokens_take)
  ultimately show ?thesis using True by (simp add: split_terminator_def)
next
  case False
  with assms show ?thesis by (auto simp: split_terminator_def)
qed

lemma parse_program_total:
  assumes "ordered_tokens ts"
  shows "\<exists>r. parse_program g source ts = Some r"
proof (cases "ts = []")
  case True
  then show ?thesis by (simp add: parse_program_def)
next
  case False
  from split_terminator_ordered [OF assms] obtain qs t where
    st: "split_terminator ts = Some (qs, t)" "ordered_tokens qs" by blast
  show ?thesis
  proof (cases "qs = []")
    case True
    with False st show ?thesis by (simp add: parse_program_def)
  next
    case qs: False
    obtain regular where regular: "parse_regular_query g source qs = Some regular"
      using regular_query_total(1) st(2) by blast
    have sp: "tok_start (hd qs) \<le> tok_end (last qs)" using st(2) qs by (rule ordered_tokens_hd_last)
    then have wrap: "\<exists>p. wrap_statement head unions (mk_span (tok_start (hd qs)) (tok_end (last qs))) t = Some p"
      for head unions
      by (cases t) (auto simp: wrap_statement_def span_cover_Some wf_span_def)
    show ?thesis
      using False st qs regular sp wrap
      by (cases regular; cases "standalone_call_root g source qs") (fastforce simp: parse_program_def)+
  qed
qed

text \<open>The branches of a program: a regular query, or one standalone call.\<close>

definition program_of :: "single_query \<Rightarrow> union_tail \<Rightarrow> span \<Rightarrow> span option \<Rightarrow> span \<Rightarrow> program" where
  "program_of head unions query_span terminator statement_span =
     Program [Node (ST_Query (QueryStatement None
       (Node (QU_Regular (RegularQuery head unions)) query_span) terminator)) statement_span]
       statement_span"

text \<open>The statement's span is that of all tokens, the terminator included.\<close>

lemma wrap_statement_program:
  assumes "ordered_tokens ts"
    and "t = None \<and> qs = ts \<or> ts \<noteq> [] \<and> qs = butlast ts \<and> tok_kind (last ts) = P_Semicolon \<and>
       t = Some (mk_span (tok_start (last ts)) (tok_end (last ts)))"
    and "qs \<noteq> []"
  shows "wrap_statement head unions (mk_span (tok_start (hd qs)) (tok_end (last qs))) t =
    Some (program_of head unions (mk_span (tok_start (hd qs)) (tok_end (last qs))) t
      (mk_span (tok_start (hd ts)) (tok_end (last ts))))"
proof -
  have hd_eq: "hd ts = hd qs" using assms(2,3) by (cases ts rule: rev_cases) (auto simp: butlast_append)
  have "(case t of None \<Rightarrow> Some (mk_span (tok_start (hd qs)) (tok_end (last qs)))
      | Some s \<Rightarrow> span_cover (mk_span (tok_start (hd qs)) (tok_end (last qs))) s) =
      Some (mk_span (tok_start (hd ts)) (tok_end (last ts)))"
  proof (cases t)
    case None
    with assms(2) show ?thesis by auto
  next
    case (Some s)
    with assms(2) have ts: "ts = qs @ [last ts]" and s: "s = mk_span (tok_start (last ts)) (tok_end (last ts))"
      by auto
    from assms(1) ts have o: "ordered_tokens (qs @ [last ts])" by simp
    then have "ordered_tokens qs" "tok_end (last qs) \<le> tok_start (last ts)"
      "tok_start (last ts) \<le> tok_end (last ts)"
      using assms(3) by (auto simp: ordered_tokens_append ordered_tokens_Cons)
    with ordered_tokens_hd_last [of qs] assms(3) Some s hd_eq show ?thesis
      by (simp add: span_cover_Some wf_span_def min_def max_def)
  qed
  then show ?thesis by (simp add: wrap_statement_def program_of_def)
qed

lemma parse_program_parts:
  assumes "ordered_tokens ts" and "ts \<noteq> []" and "parse_program g source ts = Some (Inr program)"
  shows "\<exists>qs head unions terminator. qs \<noteq> [] \<and>
    program = program_of head unions (mk_span (tok_start (hd qs)) (tok_end (last qs))) terminator
      (mk_span (tok_start (hd ts)) (tok_end (last ts))) \<and>
    (terminator = None \<and> qs = ts \<or>
     (\<exists>semi. tok_kind semi = P_Semicolon \<and> ts = qs @ [semi] \<and>
        terminator = Some (mk_span (tok_start semi) (tok_end semi)))) \<and>
    (union_query g source qs head unions \<or>
     (\<exists>clause. standalone_call_root g source qs = Inr clause \<and>
        head = Node (SingleQueryKind [clause]) (clause_span clause) \<and> unions = []))"
proof -
  from split_terminator_ordered [OF assms(1)] obtain qs t where
    st: "split_terminator ts = Some (qs, t)" "ordered_tokens qs"
      "t = None \<and> qs = ts \<or> ts \<noteq> [] \<and> qs = butlast ts \<and> tok_kind (last ts) = P_Semicolon \<and>
       t = Some (mk_span (tok_start (last ts)) (tok_end (last ts)))" by blast
  from assms(2,3) st have qs: "qs \<noteq> []" by (auto simp: parse_program_def)
  from regular_query_total(1) st(2) obtain regular where
    regular: "parse_regular_query g source qs = Some regular" by blast
  have sp: "tok_start (hd qs) \<le> tok_end (last qs)" using st(2) qs by (rule ordered_tokens_hd_last)
  from assms(2,3) st(1) qs regular obtain head unions where
    hu: "wrap_statement head unions (mk_span (tok_start (hd qs)) (tok_end (last qs))) t = Some program"
      "regular = Inr (head, unions) \<or> (\<exists>clause. standalone_call_root g source qs = Inr clause \<and>
        head = Node (SingleQueryKind [clause]) (clause_span clause) \<and> unions = [])"
    by (cases regular; cases "standalone_call_root g source qs")
      (auto simp: parse_program_def sp split: bind_splits)
  have "program = program_of head unions (mk_span (tok_start (hd qs)) (tok_end (last qs))) t
      (mk_span (tok_start (hd ts)) (tok_end (last ts)))"
    using hu(1) wrap_statement_program [OF assms(1) st(3) qs] by simp
  moreover have "t = None \<and> qs = ts \<or> (\<exists>semi. tok_kind semi = P_Semicolon \<and> ts = qs @ [semi] \<and>
        t = Some (mk_span (tok_start semi) (tok_end semi)))"
    using st(3) by (metis append_butlast_last_id)
  moreover have "union_query g source qs head unions \<or>
     (\<exists>clause. standalone_call_root g source qs = Inr clause \<and>
        head = Node (SingleQueryKind [clause]) (clause_span clause) \<and> unions = [])"
    using hu(2) regular regular_query_sound(1) by blast
  ultimately show ?thesis using qs by blast
qed

text \<open>
  C8: the shape of a parsed program. Without tokens it is the empty program; otherwise it is one
  statement whose query is either a regular query over the tokens without the final semicolon or a
  single standalone call, the terminator is the span of that semicolon, and the statement spans
  exactly from the first to the last token.
\<close>

theorem parse_program_shape:
  assumes "ordered_tokens ts" and "ts \<noteq> []"
  shows "\<exists>r. parse_program g source ts = Some r \<and>
    (\<forall>program. r = Inr program \<longrightarrow>
      (\<exists>qs head unions terminator. qs \<noteq> [] \<and>
        program = program_of head unions (mk_span (tok_start (hd qs)) (tok_end (last qs))) terminator
          (mk_span (tok_start (hd ts)) (tok_end (last ts))) \<and>
        (terminator = None \<and> qs = ts \<or>
         (\<exists>semi. tok_kind semi = P_Semicolon \<and> ts = qs @ [semi] \<and>
            terminator = Some (mk_span (tok_start semi) (tok_end semi)))) \<and>
        (union_query g source qs head unions \<or>
         (\<exists>clause. standalone_call_root g source qs = Inr clause \<and>
            head = Node (SingleQueryKind [clause]) (clause_span clause) \<and> unions = []))))"
proof -
  from parse_program_total [OF assms(1)] obtain r where r: "parse_program g source ts = Some r" by blast
  with parse_program_parts [OF assms] show ?thesis by blast
qed

section \<open>A grammar for evaluation\<close>

text \<open>It accepts \<open>RETURN *\<close> and nothing else.\<close>

definition return_clause_at :: "nat \<Rightarrow> nat \<Rightarrow> clause" where
  "return_clause_at s e = mk_clause (CK_Return (ReturnClause
     (ProjectionClause None [Node PI_Wildcard (mk_span s e)] None None None None (mk_span s e))))
     (mk_span s e)"

definition return_star :: grammar where
  "return_star =
     \<lparr>clause_root = (\<lambda>source ts. case ts of
          [r, s] \<Rightarrow> if tok_kind r = P_Return \<and> tok_kind s = P_Star
            then Inr (return_clause_at (tok_start r) (tok_end s)) else Inl (PE_User (tok_start r))
        | [] \<Rightarrow> Inl (PE_UnrecognizedEof 0 [])
        | r # _ \<Rightarrow> Inl (PE_UnrecognizedEof (tok_end (last ts)) [])),
      standalone_call_root = (\<lambda>source ts. Inl (PE_User 0)),
      pattern_fragment = (\<lambda>source ts. Inl (PE_User 0)),
      expr_fragment = (\<lambda>source ts. Inl (PE_User 0)),
      label_predicate_fragment = (\<lambda>source ts. Inl (PE_User 0))\<rparr>"

definition sample_return :: "spanned list" where
  "sample_return = [(0, P_Return, 6), (7, P_Star, 8)]"

definition sample_union :: "spanned list" where
  "sample_union = sample_return @ [(9, P_Union, 14), (15, P_Return, 21), (22, P_Star, 23)]"

lemma is_return_at [simp]: "is_return (return_clause_at s e)"
  by (simp add: is_return_def return_clause_at_def)

lemmas evaluate_queries =
  sample_return_def sample_union_def return_star_def parse_single_query_def clause_loop.simps
  candidate_ends_def top_level_indices_def opens_def closes_one_def clause_starts_def slice_def Let_def
  parse_regular_query.simps try_unions.simps beyond_error_def union_quantifier_def ptok_at_def
  slice_get_def

lemma parse_single_query_sound_witness:
  "parse_single_query return_star [] sample_return =
     Some (Inr (Node (SingleQueryKind [return_clause_at 0 8]) (mk_span 0 8))) \<and>
   (\<exists>pieces. concat pieces = sample_return)"
proof -
  have run: "parse_single_query return_star [] sample_return =
     Some (Inr (Node (SingleQueryKind [return_clause_at 0 8]) (mk_span 0 8)))"
    by (simp add: evaluate_queries)
  from parse_single_query_sound [OF run] run show ?thesis by blast
qed

lemma parse_regular_query_sound_witness:
  "\<exists>head unions. parse_regular_query return_star [] sample_union = Some (Inr (head, unions)) \<and>
     length unions = 1 \<and> union_query return_star [] sample_union head unions"
proof -
  have run: "parse_regular_query return_star [] sample_union =
     Some (Inr (Node (SingleQueryKind [return_clause_at 0 8]) (mk_span 0 8),
       [UnionBranch (Node UO_Default (mk_span 9 14))
          (Node (SingleQueryKind [return_clause_at 15 23]) (mk_span 15 23))]))"
    by (simp add: evaluate_queries)
  from parse_regular_query_sound [OF run] run show ?thesis by simp
qed

lemma sample_ordered: "ordered_tokens sample_union" "ordered_tokens sample_return"
  by (simp_all add: ordered_tokens_def sample_union_def sample_return_def)

lemma parse_program_shape_witness:
  "\<exists>head unions. parse_program return_star [] sample_return =
     Some (Inr (program_of head unions (mk_span 0 8) None (mk_span 0 8)))"
proof -
  have "\<exists>p. parse_program return_star [] sample_return = Some (Inr p)"
    by (simp add: parse_program_def split_terminator_def wrap_statement_def evaluate_queries)
  then obtain p where p: "parse_program return_star [] sample_return = Some (Inr p)" ..
  have "sample_return \<noteq> []" by (simp add: sample_return_def)
  from parse_program_shape [OF sample_ordered(2) this, of return_star "[]"] p obtain qs head unions terminator
    where *: "qs \<noteq> []" "p = program_of head unions (mk_span (tok_start (hd qs)) (tok_end (last qs))) terminator
        (mk_span (tok_start (hd sample_return)) (tok_end (last sample_return)))"
      "terminator = None \<and> qs = sample_return \<or> (\<exists>semi. tok_kind semi = P_Semicolon \<and>
        sample_return = qs @ [semi] \<and> terminator = Some (mk_span (tok_start semi) (tok_end semi)))"
    by auto
  have "tok_kind (last sample_return) = P_Star" by (simp add: sample_return_def)
  then have "False" if "tok_kind semi = P_Semicolon" "sample_return = qs @ [semi]" for semi
  proof -
    have "last sample_return = semi" unfolding that(2) by (rule last_snoc)
    with that(1) \<open>tok_kind (last sample_return) = P_Star\<close> show False by simp
  qed
  with *(3) have "terminator = None" "qs = sample_return" by blast+
  with *(2) p show ?thesis by (auto simp: sample_return_def)
qed

end
