(* ===== verification/Recovery.thy ===== *)
theory Recovery
  imports Queries Tokens
begin

text \<open>
  The recovery of \<open>src/parser.rs\<close>: \<open>recover_clauses\<close> walks over the top-level boundaries of a
  rejected statement and keeps the clauses that parse, \<open>recover_expression_operands\<close> inserts
  missing operands into one clause, and \<open>recovered_program\<close> is the fallback. Both searches share a
  budget of 128 parser runs.
\<close>

section \<open>Missing operands\<close>

definition boundary_keyword :: "parser_token \<Rightarrow> bool" where
  "boundary_keyword t = (t \<in> {P_As, P_When, P_Then, P_Else, P_End, P_Where})"

definition operator_token :: "parser_token \<Rightarrow> bool" where
  "operator_token t = (t \<in> {P_Plus, P_Minus, P_Star, P_Slash, P_Percent, P_Caret, P_And, P_Or, P_Xor,
     P_Not, P_Equal, P_NotEqual, P_Less, P_LessEqual, P_Greater, P_GreaterEqual})"

definition expects_operand :: "ustr list \<Rightarrow> bool" where
  "expects_operand expected = list_ex (\<lambda>item. trim_quotes item = error_expression) expected"

definition position :: "spanned \<Rightarrow> spanned list \<Rightarrow> nat option" where
  "position token ts = find (\<lambda>i. ts ! i = token) [0..<length ts]"

text \<open>Index and location of the failure, with what was expected there.\<close>

fun failure_point :: "spanned list \<Rightarrow> lalrpop_error \<Rightarrow> (nat \<times> nat \<times> ustr list) option" where
  "failure_point repaired (PE_UnrecognizedEof location expected) =
     (if repaired = [] then None
      else Some (length repaired, tok_end (last repaired), expected))"
| "failure_point repaired (PE_UnrecognizedToken token expected) =
     (if tok_kind token = P_ErrorExpression then None
      else map_option (\<lambda>index. (index, tok_start token, expected)) (position token repaired))"
| "failure_point repaired error = None"

text \<open>Where the next operand goes.\<close>

definition insertion_point :: "spanned list \<Rightarrow> lalrpop_error \<Rightarrow> (nat \<times> nat) option" where
  "insertion_point repaired error =
     Option.bind (failure_point repaired error) (\<lambda>(index, location, expected).
       if expects_operand expected then Some (index, location)
       else
         Option.bind (checked_sub index 1) (\<lambda>boundary.
         Option.bind (checked_sub boundary 1) (\<lambda>operator.
           if is_some_and (ptok_at repaired boundary) boundary_keyword \<and>
              is_some_and (ptok_at repaired operator) operator_token
           then Some (boundary, tok_start (repaired ! boundary))
           else None)))"

definition insert_operand :: "spanned list \<Rightarrow> nat \<Rightarrow> nat \<Rightarrow> spanned list" where
  "insert_operand ts index location =
     take index ts @ (location, P_ErrorExpression, location) # drop index ts"

definition parse_clause :: "grammar \<Rightarrow> ustr \<Rightarrow> spanned list \<Rightarrow> clause parsed" where
  "parse_clause g source = parse_tokens_with_contextual_names (clause_root g source)"

text \<open>At most \<open>n\<close> insertions; the second component is what is left of the budget.\<close>

fun repair_loop ::
  "nat \<Rightarrow> grammar \<Rightarrow> ustr \<Rightarrow> spanned list \<Rightarrow> lalrpop_error \<Rightarrow> nat \<Rightarrow> clause option \<times> nat" where
  "repair_loop 0 g source repaired error attempts = (None, attempts)"
| "repair_loop (Suc n) g source repaired error attempts =
     (if attempts = 0 then (None, attempts)
      else
        (case insertion_point repaired error of
           None \<Rightarrow> (None, attempts)
         | Some (index, location) \<Rightarrow>
             (let repaired' = insert_operand repaired index location in
              case parse_clause g source repaired' of
                Inr clause \<Rightarrow> (Some clause, attempts - 1)
              | Inl next_error \<Rightarrow>
                  repair_loop n g source repaired' next_error (attempts - 1))))"

definition recover_expression_operands ::
  "grammar \<Rightarrow> ustr \<Rightarrow> spanned list \<Rightarrow> lalrpop_error \<Rightarrow> nat \<Rightarrow> clause option \<times> nat" where
  "recover_expression_operands g source ts error attempts =
     (if attempts = 0 then (None, attempts) else repair_loop 4 g source ts error attempts)"

section \<open>One clause\<close>

type_synonym failures = "(nat \<times> lalrpop_error) list"

text \<open>The loop over the candidate ends: the longest clause that parses, and the failures.\<close>

fun try_boundaries ::
  "grammar \<Rightarrow> ustr \<Rightarrow> spanned list \<Rightarrow> nat \<Rightarrow> nat list \<Rightarrow> nat \<Rightarrow>
   (clause \<times> nat) option \<Rightarrow> failures \<Rightarrow> (clause \<times> nat) option \<times> failures \<times> nat" where
  "try_boundaries g source ts cursor [] attempts found failed = (found, failed, attempts)"
| "try_boundaries g source ts cursor (e # ends) attempts found failed =
     (if attempts = 0 then (found, failed, attempts)
      else
        (case parse_clause g source (slice ts cursor e) of
           Inr clause \<Rightarrow>
             try_boundaries g source ts cursor ends (attempts - 1) (Some (clause, e)) failed
         | Inl error \<Rightarrow>
             try_boundaries g source ts cursor ends (attempts - 1) found (failed @ [(e, error)])))"

fun try_repairs ::
  "grammar \<Rightarrow> ustr \<Rightarrow> spanned list \<Rightarrow> nat \<Rightarrow> failures \<Rightarrow> nat \<Rightarrow> (clause \<times> nat) option \<times> nat" where
  "try_repairs g source ts cursor [] attempts = (None, attempts)"
| "try_repairs g source ts cursor ((e, error) # failed) attempts =
     (case recover_expression_operands g source (slice ts cursor e) error attempts of
        (Some clause, left) \<Rightarrow> (Some (clause, e), left)
      | (None, left) \<Rightarrow> try_repairs g source ts cursor failed left)"

definition recover_clause_at ::
  "grammar \<Rightarrow> ustr \<Rightarrow> spanned list \<Rightarrow> nat list \<Rightarrow> nat \<Rightarrow> nat \<Rightarrow> (clause \<times> nat) option \<times> nat" where
  "recover_clause_at g source ts boundaries cursor attempts =
     (case try_boundaries g source ts cursor (filter (\<lambda>e. e > cursor) boundaries) attempts None [] of
        (Some found, failed, left) \<Rightarrow> (Some found, left)
      | (None, failed, left) \<Rightarrow> try_repairs g source ts cursor failed left)"

section \<open>The walk over the boundaries\<close>

record recovery =
  rc_clauses :: "clause list"
  rc_branches :: "single_query list"
  rc_operators :: "union_operator node list"
  rc_branch_start :: nat
  rc_cursor :: nat
  rc_skipped :: "nat option"
  rc_retained :: bool
  rc_returned :: bool
  rc_attempts :: nat

definition error_clause :: "span \<Rightarrow> clause" where
  "error_clause sp = mk_clause (CK_Error Error_node) sp"

definition recovered_branch :: "clause list \<Rightarrow> span \<Rightarrow> single_query" where
  "recovered_branch clauses sp =
     Node (SingleQueryKind (if clauses = [] then [error_clause sp] else clauses)) sp"

text \<open>\<open>tokens[cursor - 1].2\<close>.\<close>

definition end_before :: "spanned list \<Rightarrow> nat \<Rightarrow> nat panics" where
  "end_before ts cursor =
     Option.bind (checked_sub cursor 1) (\<lambda>i. map_option tok_end (slice_get ts i))"

text \<open>\<open>skipped.take()\<close>: a pending region becomes an error clause that ends at \<open>e\<close>.\<close>

definition flush_skipped :: "recovery \<Rightarrow> nat \<Rightarrow> clause list panics" where
  "flush_skipped st e =
     (case rc_skipped st of
        None \<Rightarrow> Some (rc_clauses st)
      | Some start \<Rightarrow>
          map_option (\<lambda>sp. rc_clauses st @ [error_clause sp]) (span_new start e))"

text \<open>A UNION at the cursor closes the branch.\<close>

definition union_step :: "spanned list \<Rightarrow> recovery \<Rightarrow> recovery panics" where
  "union_step ts st =
     Option.bind (if rc_clauses st = [] \<and> rc_skipped st = None then Some (rc_branch_start st)
            else end_before ts (rc_cursor st)) (\<lambda>e.
     Option.bind (flush_skipped st e) (\<lambda>clauses.
     Option.bind (span_new (rc_branch_start st) e) (\<lambda>branch_span.
       (case union_quantifier (ptok_at ts (rc_cursor st + 1)) of
          (kind, n) \<Rightarrow>
            (let cursor = rc_cursor st + 1 + n in
             Option.bind (end_before ts cursor) (\<lambda>operator_end.
             Option.bind (span_new (tok_start (ts ! rc_cursor st)) operator_end) (\<lambda>operator_span.
               Some (st\<lparr>rc_branches := rc_branches st @ [recovered_branch clauses branch_span],
                 rc_clauses := [],
                 rc_skipped := None,
                 rc_operators := rc_operators st @ [Node kind operator_span],
                 rc_cursor := cursor,
                 rc_branch_start :=
                   (case slice_get ts cursor of None \<Rightarrow> operator_end | Some t \<Rightarrow> tok_start t),
                 rc_returned := False,
                 rc_attempts := rc_attempts st - 1\<rparr>))))))))"

text \<open>Where the walk goes on after a region that was not understood.\<close>

definition skip_target ::
  "spanned list \<Rightarrow> nat list \<Rightarrow> nat list \<Rightarrow> nat \<Rightarrow> nat \<Rightarrow> bool \<Rightarrow> nat option" where
  "skip_target ts unions boundaries cursor attempts returned =
     (if attempts = 0 then Some (length ts)
      else if returned then
        (case find (\<lambda>i. i > cursor) unions of Some i \<Rightarrow> Some i | None \<Rightarrow> Some (length ts))
      else find (\<lambda>e. e > cursor) boundaries)"

text \<open>
  Any other position: keep a clause or extend the skipped region. The inner option is the \<open>?\<close> on the
  next boundary.
\<close>

definition clause_step ::
  "grammar \<Rightarrow> ustr \<Rightarrow> spanned list \<Rightarrow> nat list \<Rightarrow> nat list \<Rightarrow> recovery \<Rightarrow> recovery option panics" where
  "clause_step g source ts unions boundaries st =
     (case (if rc_returned st then (None, rc_attempts st)
            else recover_clause_at g source ts boundaries (rc_cursor st) (rc_attempts st)) of
        (Some (clause, e), attempts) \<Rightarrow>
          Option.bind (case rc_skipped st of
                  None \<Rightarrow> Some (rc_clauses st)
                | Some _ \<Rightarrow> Option.bind (end_before ts (rc_cursor st)) (flush_skipped st)) (\<lambda>clauses.
            Some (Some (st\<lparr>rc_clauses := clauses @ [clause],
              rc_skipped := None,
              rc_returned := is_return clause,
              rc_retained := True,
              rc_cursor := e,
              rc_attempts := attempts\<rparr>)))
      | (None, attempts) \<Rightarrow>
          Some (map_option (\<lambda>cursor.
              st\<lparr>rc_skipped := (case rc_skipped st of
                     None \<Rightarrow> Some (tok_start (ts ! rc_cursor st)) | Some start \<Rightarrow> Some start),
                 rc_cursor := cursor,
                 rc_attempts := attempts\<rparr>)
            (skip_target ts unions boundaries (rc_cursor st) attempts (rc_returned st))))"

definition recovery_step ::
  "grammar \<Rightarrow> ustr \<Rightarrow> spanned list \<Rightarrow> nat list \<Rightarrow> nat list \<Rightarrow> recovery \<Rightarrow> recovery option panics" where
  "recovery_step g source ts unions boundaries st =
     (if 0 < rc_attempts st \<and> rc_cursor st \<in> set unions
      then map_option Some (union_step ts st)
      else clause_step g source ts unions boundaries st)"

section \<open>Progress\<close>

lemma try_boundaries_found:
  "try_boundaries g source ts cursor ends attempts found failed = (Some (clause, e), failed', left) \<Longrightarrow>
     e \<in> set ends \<and> parse_clause g source (slice ts cursor e) = Inr clause \<or> found = Some (clause, e)"
  by (induction g source ts cursor ends attempts found failed rule: try_boundaries.induct)
    (auto split: sum.splits if_splits)

lemma try_boundaries_failed:
  "try_boundaries g source ts cursor ends attempts found failed = (found', failed', left) \<Longrightarrow>
     (e, error) \<in> set failed' \<Longrightarrow>
     (e, error) \<in> set failed \<or> e \<in> set ends \<and> parse_clause g source (slice ts cursor e) = Inl error"
proof (induction g source ts cursor ends attempts found failed rule: try_boundaries.induct)
  case (2 g source ts cursor e' ends attempts found failed)
  show ?case
  proof (cases "attempts = 0")
    case True
    with "2.prems" show ?thesis by simp
  next
    case False
    show ?thesis
    proof (cases "parse_clause g source (slice ts cursor e')")
      case (Inl err)
      with "2.IH"(1) [OF False Inl] "2.prems" False show ?thesis by auto
    next
      case (Inr clause)
      with "2.IH"(2) [OF False Inr] "2.prems" False show ?thesis by auto
    qed
  qed
qed simp

lemma try_repairs_found:
  "try_repairs g source ts cursor failed attempts = (Some (clause, e), left) \<Longrightarrow> e \<in> fst ` set failed"
  by (induction g source ts cursor failed attempts rule: try_repairs.induct)
    (auto split: prod.splits option.splits)

lemma recover_clause_at_bound:
  assumes "recover_clause_at g source ts boundaries cursor attempts = (Some (clause, e), left)"
  shows "cursor < e \<and> e \<in> set boundaries"
proof -
  let ?ends = "filter (\<lambda>e. e > cursor) boundaries"
  obtain found failed left' where
    tb: "try_boundaries g source ts cursor ?ends attempts None [] = (found, failed, left')"
    by (cases "try_boundaries g source ts cursor ?ends attempts None []")
  have "e \<in> set ?ends"
  proof (cases found)
    case None
    with assms tb have "e \<in> fst ` set failed"
      by (auto simp: recover_clause_at_def dest: try_repairs_found)
    with try_boundaries_failed [OF tb] show ?thesis by auto
  next
    case (Some r)
    with assms tb have "found = Some (clause, e)" by (simp add: recover_clause_at_def)
    with try_boundaries_found tb show ?thesis by blast
  qed
  then show ?thesis by simp
qed

lemma find_Some_greater: "find (\<lambda>i. i > c) xs = Some i \<Longrightarrow> c < i \<and> i \<in> set xs"
  by (auto simp: find_Some_iff)

lemma skip_target_greater:
  "skip_target ts unions boundaries cursor attempts returned = Some c \<Longrightarrow> cursor < length ts \<Longrightarrow> cursor < c"
  by (auto simp: skip_target_def split: if_splits option.splits dest!: find_Some_greater)

lemma recovery_step_progress:
  assumes "recovery_step g source ts unions boundaries st = Some (Some st')"
    and "rc_cursor st < length ts"
  shows "rc_cursor st < rc_cursor st'"
  using assms
  by (auto simp: recovery_step_def union_step_def clause_step_def Let_def
      split: if_splits bind_splits prod.splits option.splits
      dest: recover_clause_at_bound skip_target_greater)

function recovery_loop ::
  "grammar \<Rightarrow> ustr \<Rightarrow> spanned list \<Rightarrow> nat list \<Rightarrow> nat list \<Rightarrow> recovery \<Rightarrow> recovery option panics" where
  "recovery_loop g source ts unions boundaries st =
     (if length ts \<le> rc_cursor st then Some (Some st)
      else
        (case recovery_step g source ts unions boundaries st of
           None \<Rightarrow> None
         | Some None \<Rightarrow> Some None
         | Some (Some st') \<Rightarrow> recovery_loop g source ts unions boundaries st'))"
  by pat_completeness auto
termination
  by (relation "measure (\<lambda>(g, source, ts, unions, boundaries, st). length ts - rc_cursor st)")
    (auto dest!: recovery_step_progress)

declare recovery_loop.simps [simp del]

definition union_boundaries :: "spanned list \<Rightarrow> nat list" where
  "union_boundaries ts =
     filter (\<lambda>i. \<not> is_some_and (ptok_before ts i) (\<lambda>t. t \<in> {P_As, P_Dot, P_Colon, P_Call}))
       (top_level_indices ts (\<lambda>t. t = P_Union))"

definition clause_boundaries :: "spanned list \<Rightarrow> nat list" where
  "clause_boundaries ts =
     sort (top_level_indices ts clause_starts @ union_boundaries ts) @ [length ts]"

definition recovery_budget :: nat where
  "recovery_budget = 128"

definition recovery_start :: "spanned list \<Rightarrow> recovery" where
  "recovery_start ts =
     \<lparr>rc_clauses = [], rc_branches = [], rc_operators = [], rc_branch_start = tok_start (hd ts),
      rc_cursor = 0, rc_skipped = None, rc_retained = False, rc_returned = False,
      rc_attempts = recovery_budget\<rparr>"

definition recovery_finish ::
  "spanned list \<Rightarrow> span option \<Rightarrow> recovery \<Rightarrow> program option panics" where
  "recovery_finish ts terminator st =
     (if \<not> rc_retained st then Some None
      else
        Option.bind (flush_skipped st (tok_end (last ts))) (\<lambda>clauses.
        Option.bind (span_new (tok_start (hd ts)) (tok_end (last ts))) (\<lambda>query_span.
        Option.bind (span_new (rc_branch_start st) (tok_end (last ts))) (\<lambda>branch_span.
          (case rc_branches st @ [recovered_branch clauses branch_span] of
             [] \<Rightarrow> Some None
           | head # branches \<Rightarrow>
               map_option Some
                 (wrap_statement head (map (\<lambda>(operator, query). UnionBranch operator query)
                     (zip (rc_operators st) branches)) query_span terminator))))))"

definition recover_clauses :: "grammar \<Rightarrow> ustr \<Rightarrow> spanned list \<Rightarrow> program option panics" where
  "recover_clauses g source all_tokens =
     Option.bind (split_terminator all_tokens) (\<lambda>(ts, terminator).
       if ts = [] then Some None
       else if top_level_indices ts (\<lambda>t. t = P_Semicolon) \<noteq> [] then Some None
       else
         Option.bind (recovery_loop g source ts (union_boundaries ts) (clause_boundaries ts)
             (recovery_start ts)) (\<lambda>outcome.
           (case outcome of
              None \<Rightarrow> Some None
            | Some st \<Rightarrow> recovery_finish ts terminator st)))"

section \<open>The fallback\<close>

fun cover_all :: "span \<Rightarrow> token list \<Rightarrow> span panics" where
  "cover_all sp [] = Some sp"
| "cover_all sp (t # ts) = Option.bind (span_cover sp (token_span t)) (\<lambda>sp'. cover_all sp' ts)"

definition significant_span :: "token list \<Rightarrow> span option panics" where
  "significant_span tokens =
     (case significant tokens of
        [] \<Rightarrow> Some None
      | t # ts \<Rightarrow> map_option Some (cover_all (token_span t) ts))"

definition recovered_program :: "ustr \<Rightarrow> token list \<Rightarrow> program panics" where
  "recovered_program source tokens =
     Option.bind (significant_span tokens) (\<lambda>found.
     map_option (\<lambda>sp.
         Program (if span_is_empty sp then [] else [Node (ST_Error Error_node) sp]) sp)
       (case found of Some sp \<Rightarrow> Some sp | None \<Rightarrow> span_empty (byte_len source)))"

end
