(* ===== verification/Recovery_Facts.thy ===== *)
theory Recovery_Facts
  imports Recovery
begin

text \<open>
  What recovery guarantees: the invariant of its walk over the boundaries, its budget, and where the
  clauses of a recovered program come from.
\<close>

section \<open>Inserted operands\<close>

definition source_token :: "spanned \<Rightarrow> bool" where
  "source_token t = (tok_kind t \<noteq> P_ErrorExpression)"

text \<open>\<open>repaired\<close> is \<open>ts\<close> with \<open>n\<close> error operands inserted and nothing else changed.\<close>

definition repairs :: "nat \<Rightarrow> spanned list \<Rightarrow> spanned list \<Rightarrow> bool" where
  "repairs n ts repaired = (length repaired = length ts + n \<and>
     filter source_token repaired = filter source_token ts)"

lemma repairs_0 [simp]: "repairs 0 ts ts"
  by (simp add: repairs_def)

lemma repairs_insert:
  assumes "repairs n ts repaired" and "index \<le> length repaired"
  shows "repairs (Suc n) ts (insert_operand repaired index location)"
proof -
  have "filter source_token (insert_operand repaired index location) =
      filter source_token (take index repaired @ drop index repaired)"
    by (simp only: insert_operand_def filter_append) (simp add: source_token_def)
  with assms show ?thesis by (simp add: repairs_def insert_operand_def)
qed

lemma position_bound: "position t ts = Some i \<Longrightarrow> i < length ts"
  by (auto simp: position_def find_Some_iff)

lemma failure_point_bound: "failure_point ts error = Some (i, location, expected) \<Longrightarrow> i \<le> length ts"
  by (cases "(ts, error)" rule: failure_point.cases)
    (auto split: if_splits dest: position_bound)

lemma insertion_point_bound: "insertion_point ts error = Some (i, location) \<Longrightarrow> i \<le> length ts"
  by (auto simp: insertion_point_def checked_sub_def split: bind_splits if_splits
      dest!: failure_point_bound)

lemma parse_clause_source:
  "\<exists>cs. list_all2 rereads ts cs \<and> parse_clause g source ts = clause_root g source cs"
  using contextual_outcome [of ts "clause_root g source"] by (simp only: rereading_def parse_clause_def)

lemma repair_loop_sound:
  "repair_loop n g source repaired error attempts = (result, left) \<Longrightarrow>
     repairs k ts repaired \<Longrightarrow>
     left \<le> attempts \<and> attempts - left \<le> n \<and>
     (\<forall>clause. result = Some clause \<longrightarrow> left < attempts \<and>
       (\<exists>repaired'. repairs (k + (attempts - left)) ts repaired' \<and>
          parse_clause g source repaired' = Inr clause))"
proof (induction n g source repaired error attempts arbitrary: k rule: repair_loop.induct)
  case (1 g source repaired error attempts)
  then show ?case by simp
next
  case (2 n g source repaired error attempts)
  show ?case
  proof (cases "attempts = 0 \<or> insertion_point repaired error = None")
    case True
    with "2.prems" have "result = None \<and> left = attempts" by (cases "attempts = 0") auto
    then show ?thesis by simp
  next
    case False
    then obtain index location where at: "attempts \<noteq> 0"
      and ip: "insertion_point repaired error = Some (index, location)" by auto
    let ?r = "insert_operand repaired index location"
    have rep: "repairs (Suc k) ts ?r"
      using "2.prems"(2) insertion_point_bound [OF ip] by (rule repairs_insert)
    show ?thesis
    proof (cases "parse_clause g source ?r")
      case (Inr clause)
      with "2.prems"(1) at ip have "result = Some clause" "left = attempts - 1" by (simp_all add: Let_def)
      moreover have "k + (attempts - left) = Suc k" using at calculation(2) by simp
      ultimately show ?thesis using rep Inr at by auto
    next
      case (Inl e)
      with "2.prems"(1) at ip have
        "repair_loop n g source ?r e (attempts - 1) = (result, left)" by (simp add: Let_def)
      note IH = "2.IH" [OF at ip refl refl Inl this rep]
      then have left: "left \<le> attempts - 1" "attempts - 1 - left \<le> n" by simp_all
      with at have eq: "Suc k + (attempts - 1 - left) = k + (attempts - left)" by linarith
      have "left < attempts \<and> (\<exists>repaired'. repairs (k + (attempts - left)) ts repaired' \<and>
          parse_clause g source repaired' = Inr clause)" if "result = Some clause" for clause
        using IH that left at unfolding eq by auto
      moreover from left at have "left \<le> attempts \<and> attempts - left \<le> Suc n" by linarith
      ultimately show ?thesis by blast
    qed
  qed
qed

text \<open>
  C33: operand recovery only inserts. It spends at most four parser runs of the budget it is given
  and never more than are left; a clause it returns is what the clause parser says, up to the
  reading of keywords as names, about the tokens with at least one and at most four error operands
  inserted: no source token is dropped, moved or changed.
\<close>

theorem operand_recovery_only_inserts:
  assumes "recover_expression_operands g source ts error attempts = (result, left)"
  shows "left \<le> attempts \<and> attempts - left \<le> 4 \<and>
    (\<forall>clause. result = Some clause \<longrightarrow>
      (\<exists>n repaired cs. 1 \<le> n \<and> n \<le> 4 \<and> length repaired = length ts + n \<and>
         filter source_token repaired = filter source_token ts \<and>
         list_all2 rereads repaired cs \<and> clause_root g source cs = Inr clause))"
proof (cases "attempts = 0")
  case True
  with assms show ?thesis by (auto simp: recover_expression_operands_def)
next
  case False
  with assms have "repair_loop 4 g source ts error attempts = (result, left)"
    by (simp add: recover_expression_operands_def)
  from repair_loop_sound [OF this repairs_0] have
    *: "left \<le> attempts" "attempts - left \<le> 4"
      "\<And>clause. result = Some clause \<Longrightarrow> left < attempts \<and>
        (\<exists>repaired'. repairs (0 + (attempts - left)) ts repaired' \<and>
          parse_clause g source repaired' = Inr clause)" by blast+
  have "\<exists>n repaired cs. 1 \<le> n \<and> n \<le> 4 \<and> length repaired = length ts + n \<and>
         filter source_token repaired = filter source_token ts \<and>
         list_all2 rereads repaired cs \<and> clause_root g source cs = Inr clause"
    if "result = Some clause" for clause
  proof -
    from *(3) [OF that] obtain r where r: "left < attempts" "repairs (attempts - left) ts r"
      "parse_clause g source r = Inr clause" by auto
    from parse_clause_source [of r g source] r(3) obtain cs where
      "list_all2 rereads r cs" "clause_root g source cs = Inr clause" by auto
    with r *(2) show ?thesis
      by (intro exI [of _ "attempts - left"] exI [of _ r] exI [of _ cs]) (simp add: repairs_def)
  qed
  with * show ?thesis by blast
qed

section \<open>Where recovered clauses come from\<close>

text \<open>A clause the parser returned for a slice of the tokens, possibly with inserted operands.\<close>

definition parsed_clause :: "grammar \<Rightarrow> ustr \<Rightarrow> spanned list \<Rightarrow> clause \<Rightarrow> bool" where
  "parsed_clause g source ts clause =
     (\<exists>a b n repaired cs. n \<le> 4 \<and> repairs n (slice ts a b) repaired \<and> list_all2 rereads repaired cs \<and>
        clause_root g source cs = Inr clause)"

definition recovered_clause :: "grammar \<Rightarrow> ustr \<Rightarrow> spanned list \<Rightarrow> clause \<Rightarrow> bool" where
  "recovered_clause g source ts clause =
     ((\<exists>sp. clause = error_clause sp) \<or> parsed_clause g source ts clause)"

lemma try_repairs_parsed:
  "try_repairs g source ts cursor failed attempts = (found, left) \<Longrightarrow>
     left \<le> attempts \<and> (\<forall>clause e. found = Some (clause, e) \<longrightarrow>
       left < attempts \<and> parsed_clause g source ts clause)"
proof (induction g source ts cursor failed attempts rule: try_repairs.induct)
  case (1 g source ts cursor attempts)
  then show ?case by simp
next
  case (2 g source ts cursor e error failed attempts)
  obtain result mid where
    r: "recover_expression_operands g source (slice ts cursor e) error attempts = (result, mid)"
    by (cases "recover_expression_operands g source (slice ts cursor e) error attempts")
  show ?case
  proof (cases "attempts = 0")
    case True
    with r have "result = None" "mid = 0" by (simp_all add: recover_expression_operands_def)
    with "2.IH" [OF r [symmetric] _] r "2.prems" True show ?thesis by simp
  next
    case False
    with r have "repair_loop 4 g source (slice ts cursor e) error attempts = (result, mid)"
      by (simp add: recover_expression_operands_def)
    note sound = repair_loop_sound [OF this repairs_0]
    show ?thesis
    proof (cases result)
      case None
      with "2.IH" [OF r [symmetric] None] r "2.prems" sound show ?thesis by auto
    next
      case (Some clause)
      with r "2.prems" have found: "found = Some (clause, e)" "left = mid" by simp_all
      from sound Some obtain rep where *: "mid < attempts" "attempts - mid \<le> 4"
        "repairs (attempts - mid) (slice ts cursor e) rep" "parse_clause g source rep = Inr clause" by auto
      with parse_clause_source [of rep g source] have "parsed_clause g source ts clause"
        unfolding parsed_clause_def by fastforce
      with found * show ?thesis by simp
    qed
  qed
qed

lemma try_boundaries_left:
  "try_boundaries g source ts cursor ends attempts found failed = (found', failed', left) \<Longrightarrow>
     left \<le> attempts \<and> (found' \<noteq> found \<longrightarrow> left < attempts)"
proof (induction g source ts cursor ends attempts found failed rule: try_boundaries.induct)
  case (2 g source ts cursor e ends attempts found failed)
  then show ?case
    by (cases "attempts = 0"; cases "parse_clause g source (slice ts cursor e)") fastforce+
qed simp

lemma recover_clause_at_parsed:
  assumes "recover_clause_at g source ts boundaries cursor attempts = (found, left)"
  shows "left \<le> attempts \<and> (\<forall>clause e. found = Some (clause, e) \<longrightarrow>
    left < attempts \<and> parsed_clause g source ts clause)"
proof -
  let ?ends = "filter (\<lambda>e. e > cursor) boundaries"
  obtain found' failed left' where
    tb: "try_boundaries g source ts cursor ?ends attempts None [] = (found', failed, left')"
    by (cases "try_boundaries g source ts cursor ?ends attempts None []")
  note tbl = try_boundaries_left [OF tb]
  show ?thesis
  proof (cases found')
    case None
    with assms tb have "try_repairs g source ts cursor failed left' = (found, left)"
      by (simp add: recover_clause_at_def)
    from try_repairs_parsed [OF this] tbl show ?thesis by auto
  next
    case (Some r)
    obtain clause e where r: "r = (clause, e)" by (cases r)
    with Some tb assms have f: "found = Some (clause, e)" "left = left'"
      by (simp_all add: recover_clause_at_def)
    from tb Some r try_boundaries_found have "parse_clause g source (slice ts cursor e) = Inr clause"
      by fastforce
    with parse_clause_source [of "slice ts cursor e" g source] repairs_0 [of "slice ts cursor e"]
    have "parsed_clause g source ts clause" unfolding parsed_clause_def by fastforce
    with f tbl Some show ?thesis by auto
  qed
qed

section \<open>The invariant of the walk\<close>

definition wf_boundaries :: "spanned list \<Rightarrow> nat list \<Rightarrow> nat list \<Rightarrow> bool" where
  "wf_boundaries ts unions boundaries =
     ((\<forall>i\<in>set unions. i < length ts) \<and> (\<forall>i\<in>set boundaries. i \<le> length ts) \<and>
      length ts \<in> set boundaries)"

text \<open>The branch started at token \<open>b\<close>, and a skipped region at some earlier token.\<close>

definition branch_origin :: "spanned list \<Rightarrow> recovery \<Rightarrow> nat \<Rightarrow> bool" where
  "branch_origin ts st b =
     (b \<le> rc_cursor st \<and>
      rc_branch_start st = (if b < length ts then tok_start (ts ! b) else tok_end (last ts)) \<and>
      (rc_clauses st \<noteq> [] \<or> rc_skipped st \<noteq> None \<longrightarrow> b < rc_cursor st))"

definition skipped_origin :: "spanned list \<Rightarrow> recovery \<Rightarrow> bool" where
  "skipped_origin ts st =
     (\<forall>s. rc_skipped st = Some s \<longrightarrow> (\<exists>i<rc_cursor st. s = tok_start (ts ! i)))"

definition branch_ok :: "grammar \<Rightarrow> ustr \<Rightarrow> spanned list \<Rightarrow> single_query \<Rightarrow> bool" where
  "branch_ok g source ts q =
     (sq_clauses (node_kind q) \<noteq> [] \<and>
      (\<forall>c\<in>set (sq_clauses (node_kind q)). recovered_clause g source ts c))"

definition recovery_inv :: "grammar \<Rightarrow> ustr \<Rightarrow> spanned list \<Rightarrow> recovery \<Rightarrow> bool" where
  "recovery_inv g source ts st =
     (rc_cursor st \<le> length ts \<and> (\<exists>b. branch_origin ts st b) \<and> skipped_origin ts st \<and>
      (\<forall>c\<in>set (rc_clauses st). recovered_clause g source ts c) \<and>
      (\<forall>q\<in>set (rc_branches st). branch_ok g source ts q) \<and>
      length (rc_operators st) = length (rc_branches st) \<and>
      length (rc_branches st) + rc_attempts st \<le> recovery_budget \<and>
      (rc_retained st \<longrightarrow> (\<exists>c. parsed_clause g source ts c \<and>
         (c \<in> set (rc_clauses st) \<or>
          (\<exists>q\<in>set (rc_branches st). c \<in> set (sq_clauses (node_kind q)))))))"

lemma end_before_eq: "0 < c \<Longrightarrow> c \<le> length ts \<Longrightarrow> end_before ts c = Some (tok_end (ts ! (c - 1)))"
proof -
  assume "0 < c" "c \<le> length ts"
  then have "c - 1 < length ts" "1 \<le> c" by simp_all
  then show ?thesis unfolding end_before_def checked_sub_def slice_get_def by simp
qed

lemma flush_skipped_eq:
  assumes "ordered_tokens ts" and "skipped_origin ts st" and "0 < c" and "c \<le> length ts"
    and "rc_cursor st \<le> c"
  shows "\<exists>clauses. flush_skipped st (tok_end (ts ! (c - 1))) = Some clauses \<and>
    (clauses = rc_clauses st \<and> rc_skipped st = None \<or>
     (\<exists>sp. clauses = rc_clauses st @ [error_clause sp]))"
proof (cases "rc_skipped st")
  case None
  then show ?thesis by (simp add: flush_skipped_def)
next
  case (Some s)
  with assms(2) obtain i where i: "i < rc_cursor st" "s = tok_start (ts ! i)"
    by (auto simp: skipped_origin_def)
  with assms have "s \<le> tok_end (ts ! (c - 1))" by (auto intro!: ordered_tokens_nth)
  with Some show ?thesis by (auto simp: flush_skipped_def)
qed

lemma recovered_clause_error [simp]: "recovered_clause g source ts (error_clause sp)"
  by (auto simp: recovered_clause_def)

lemma recovered_branch_ok:
  "\<forall>c\<in>set clauses. recovered_clause g source ts c \<Longrightarrow> branch_ok g source ts (recovered_branch clauses sp)"
  by (simp add: branch_ok_def recovered_branch_def)

lemma recovered_branch_clauses:
  "set clauses \<subseteq> set (sq_clauses (node_kind (recovered_branch clauses sp)))"
  by (simp add: recovered_branch_def)

lemma quantifier_within:
  "union_quantifier (ptok_at ts (c + 1)) = (op, n) \<Longrightarrow> c < length ts \<Longrightarrow> c + 1 + n \<le> length ts"
  by (auto simp: union_quantifier_def split: if_splits dest!: ptok_at_bound)

lemma union_step_inv:
  assumes o: "ordered_tokens ts" and inv: "recovery_inv g source ts st"
    and c: "rc_cursor st < length ts" and a: "0 < rc_attempts st"
  shows "\<exists>st'. union_step ts st = Some st' \<and> recovery_inv g source ts st'"
proof -
  from inv obtain b where b: "branch_origin ts st b" by (auto simp: recovery_inv_def)
  have skipped: "skipped_origin ts st" using inv by (simp add: recovery_inv_def)
  let ?idle = "rc_clauses st = [] \<and> rc_skipped st = None"
  obtain e clauses where e:
    "(if ?idle then Some (rc_branch_start st) else end_before ts (rc_cursor st)) = Some e"
    "rc_branch_start st \<le> e" "flush_skipped st e = Some clauses"
    "clauses = rc_clauses st \<and> rc_skipped st = None \<or> (\<exists>sp. clauses = rc_clauses st @ [error_clause sp])"
  proof (cases ?idle)
    case True
    then show ?thesis using that [of "rc_branch_start st" "[]"] by (simp add: flush_skipped_def)
  next
    case False
    with b have bc: "b < rc_cursor st" by (auto simp: branch_origin_def)
    then have "rc_branch_start st \<le> tok_end (ts ! (rc_cursor st - 1))"
      using b c o by (auto simp: branch_origin_def intro!: ordered_tokens_nth)
    moreover obtain clauses where "flush_skipped st (tok_end (ts ! (rc_cursor st - 1))) = Some clauses"
      "clauses = rc_clauses st \<and> rc_skipped st = None \<or> (\<exists>sp. clauses = rc_clauses st @ [error_clause sp])"
      using flush_skipped_eq [OF o skipped, of "rc_cursor st"] bc c by auto
    ultimately show ?thesis using that False bc c by (auto simp: end_before_eq)
  qed
  obtain op n where q: "union_quantifier (ptok_at ts (rc_cursor st + 1)) = (op, n)"
    by (cases "union_quantifier (ptok_at ts (rc_cursor st + 1))")
  let ?cursor = "rc_cursor st + 1 + n"
  have cur: "?cursor \<le> length ts" using q c by (rule quantifier_within)
  then have oe: "end_before ts ?cursor = Some (tok_end (ts ! (rc_cursor st + n)))"
    by (simp add: end_before_eq)
  have osp: "tok_start (ts ! rc_cursor st) \<le> tok_end (ts ! (rc_cursor st + n))"
    using o cur by (intro ordered_tokens_nth) auto
  define st' where "st' = st\<lparr>rc_branches := rc_branches st @ [recovered_branch clauses (mk_span (rc_branch_start st) e)],
      rc_clauses := [], rc_skipped := None,
      rc_operators := rc_operators st @ [Node op (mk_span (tok_start (ts ! rc_cursor st)) (tok_end (ts ! (rc_cursor st + n))))],
      rc_cursor := ?cursor,
      rc_branch_start := (case slice_get ts ?cursor of None \<Rightarrow> tok_end (ts ! (rc_cursor st + n))
        | Some t \<Rightarrow> tok_start t),
      rc_returned := False, rc_attempts := rc_attempts st - 1\<rparr>"
  have step: "union_step ts st = Some st'"
    using e oe osp q by (simp add: union_step_def st'_def Let_def)
  have clauses_ok: "\<forall>c\<in>set clauses. recovered_clause g source ts c" "set (rc_clauses st) \<subseteq> set clauses"
    using e(4) inv by (auto simp: recovery_inv_def)
  have "branch_origin ts st' ?cursor"
  proof (cases "?cursor < length ts")
    case True
    then show ?thesis by (simp add: branch_origin_def st'_def slice_get_def)
  next
    case False
    with cur have "?cursor = length ts" by simp
    moreover from c have "last ts = ts ! (length ts - 1)" by (intro last_conv_nth) auto
    moreover from \<open>?cursor = length ts\<close> have "length ts - 1 = rc_cursor st + n" by linarith
    ultimately have "last ts = ts ! (rc_cursor st + n)" by simp
    with False show ?thesis by (simp add: branch_origin_def st'_def slice_get_def)
  qed
  moreover have "\<exists>c. parsed_clause g source ts c \<and>
         (\<exists>q\<in>set (rc_branches st'). c \<in> set (sq_clauses (node_kind q)))" if "rc_retained st'"
  proof -
    from that inv obtain c where "parsed_clause g source ts c" "c \<in> set (rc_clauses st) \<or>
          (\<exists>q\<in>set (rc_branches st). c \<in> set (sq_clauses (node_kind q)))"
      by (auto simp: recovery_inv_def st'_def)
    with clauses_ok(2) recovered_branch_clauses [of clauses "mk_span (rc_branch_start st) e"] show ?thesis
      by (fastforce simp: st'_def)
  qed
  moreover have "\<forall>q\<in>set (rc_branches st'). branch_ok g source ts q"
    using inv recovered_branch_ok [OF clauses_ok(1)] by (simp add: recovery_inv_def st'_def)
  moreover have "length (rc_operators st') = length (rc_branches st')"
    "length (rc_branches st') + rc_attempts st' \<le> recovery_budget"
    using inv a by (simp_all add: recovery_inv_def st'_def)
  moreover have "rc_cursor st' \<le> length ts" "rc_clauses st' = []" "skipped_origin ts st'"
    using cur by (simp_all add: st'_def skipped_origin_def)
  ultimately have "recovery_inv g source ts st'"
    unfolding recovery_inv_def by auto
  with step show ?thesis by blast
qed

lemma skip_target_within:
  assumes "wf_boundaries ts unions boundaries" and "c < length ts"
  shows "\<exists>c'. skip_target ts unions boundaries c attempts returned = Some c' \<and> c' \<le> length ts"
proof -
  have "\<exists>e. find (\<lambda>e. e > c) boundaries = Some e"
  proof (rule ccontr)
    assume "\<not> ?thesis"
    then have "\<forall>e\<in>set boundaries. \<not> c < e" by (auto simp: find_None_iff)
    with assms show False by (auto simp: wf_boundaries_def)
  qed
  then obtain e where e: "find (\<lambda>e. e > c) boundaries = Some e" ..
  with assms(1) have "e \<le> length ts" by (auto simp: wf_boundaries_def dest: find_Some_greater)
  moreover have "find (\<lambda>i. i > c) unions = Some i \<Longrightarrow> i \<le> length ts" for i
    using assms(1) by (fastforce simp: wf_boundaries_def dest: find_Some_greater)
  ultimately show ?thesis using e by (auto simp: skip_target_def split: option.splits)
qed

lemma clause_step_inv:
  assumes o: "ordered_tokens ts" and wf: "wf_boundaries ts unions boundaries"
    and inv: "recovery_inv g source ts st" and c: "rc_cursor st < length ts"
  shows "\<exists>st'. clause_step g source ts unions boundaries st = Some (Some st') \<and>
    recovery_inv g source ts st'"
proof -
  obtain found attempts where f:
    "(if rc_returned st then (None, rc_attempts st)
      else recover_clause_at g source ts boundaries (rc_cursor st) (rc_attempts st)) = (found, attempts)"
    by (cases "if rc_returned st then (None, rc_attempts st)
      else recover_clause_at g source ts boundaries (rc_cursor st) (rc_attempts st)")
  have fa: "attempts \<le> rc_attempts st"
    using f recover_clause_at_parsed [of g source ts boundaries "rc_cursor st" "rc_attempts st" found attempts]
    by (auto split: if_splits)
  from inv obtain b where b: "branch_origin ts st b" by (auto simp: recovery_inv_def)
  have skipped: "skipped_origin ts st" using inv by (simp add: recovery_inv_def)
  show ?thesis
  proof (cases found)
    case None
    obtain c' where c': "skip_target ts unions boundaries (rc_cursor st) attempts (rc_returned st) = Some c'"
      "c' \<le> length ts" using skip_target_within [OF wf c] by blast
    have gt: "rc_cursor st < c'" using skip_target_greater [OF c'(1) c] .
    define st' where "st' = st\<lparr>rc_skipped := (case rc_skipped st of
        None \<Rightarrow> Some (tok_start (ts ! rc_cursor st)) | Some start \<Rightarrow> Some start),
      rc_cursor := c', rc_attempts := attempts\<rparr>"
    have "clause_step g source ts unions boundaries st = Some (Some st')"
      using f None c' by (simp add: clause_step_def st'_def)
    moreover have "branch_origin ts st' b"
      using b gt by (auto simp: branch_origin_def st'_def)
    moreover have "skipped_origin ts st'"
      using skipped gt by (auto simp: skipped_origin_def st'_def split: option.splits intro: less_trans)
    ultimately show ?thesis
      using inv c'(2) fa by (auto simp: recovery_inv_def st'_def)
  next
    case (Some r)
    obtain clause e where r: "r = (clause, e)" by (cases r)
    with f Some have rc: "recover_clause_at g source ts boundaries (rc_cursor st) (rc_attempts st) =
        (Some (clause, e), attempts)" by (auto split: if_splits)
    from recover_clause_at_bound [OF rc] wf have e: "rc_cursor st < e" "e \<le> length ts"
      by (auto simp: wf_boundaries_def)
    from recover_clause_at_parsed [OF rc] have pc: "parsed_clause g source ts clause" by simp
    obtain clauses where cl: "(case rc_skipped st of
        None \<Rightarrow> Some (rc_clauses st)
      | Some _ \<Rightarrow> Option.bind (end_before ts (rc_cursor st)) (flush_skipped st)) = Some clauses"
      "\<forall>c\<in>set clauses. recovered_clause g source ts c" "set (rc_clauses st) \<subseteq> set clauses"
    proof (cases "rc_skipped st")
      case None
      with that inv show ?thesis by (auto simp: recovery_inv_def)
    next
      case (Some s)
      with skipped have pos: "0 < rc_cursor st" by (auto simp: skipped_origin_def)
      with flush_skipped_eq [OF o skipped, of "rc_cursor st"] c obtain clauses where
        "flush_skipped st (tok_end (ts ! (rc_cursor st - 1))) = Some clauses"
        "clauses = rc_clauses st \<and> rc_skipped st = None \<or> (\<exists>sp. clauses = rc_clauses st @ [error_clause sp])"
        by auto
      moreover from this(2) inv have "\<forall>c\<in>set clauses. recovered_clause g source ts c"
        "set (rc_clauses st) \<subseteq> set clauses" by (auto simp: recovery_inv_def)
      ultimately show ?thesis using that [of clauses] Some pos c by (simp add: end_before_eq)
    qed
    define st' where "st' = st\<lparr>rc_clauses := clauses @ [clause], rc_skipped := None,
      rc_returned := is_return clause, rc_retained := True, rc_cursor := e, rc_attempts := attempts\<rparr>"
    have "clause_step g source ts unions boundaries st = Some (Some st')"
      using f Some r cl(1) by (simp add: clause_step_def st'_def)
    moreover have "branch_origin ts st' b"
      using b e by (auto simp: branch_origin_def st'_def)
    moreover have "skipped_origin ts st'" by (simp add: skipped_origin_def st'_def)
    moreover have "recovered_clause g source ts clause" using pc by (simp add: recovered_clause_def)
    ultimately show ?thesis
      using inv e fa pc cl(2,3) by (auto simp: recovery_inv_def st'_def)
  qed
qed

lemma recovery_loop_inv:
  assumes "ordered_tokens ts" and "wf_boundaries ts unions boundaries"
  shows "recovery_inv g source ts st \<Longrightarrow>
    \<exists>st'. recovery_loop g source ts unions boundaries st = Some (Some st') \<and>
      recovery_inv g source ts st' \<and> rc_cursor st' = length ts"
proof (induction "length ts - rc_cursor st" arbitrary: st rule: less_induct)
  case less
  show ?case
  proof (cases "length ts \<le> rc_cursor st")
    case True
    with less.prems show ?thesis
      by (auto simp: recovery_loop.simps [of g source ts _ _ st] recovery_inv_def)
  next
    case False
    then have c: "rc_cursor st < length ts" by simp
    have "\<exists>st'. recovery_step g source ts unions boundaries st = Some (Some st') \<and>
        recovery_inv g source ts st'"
      using union_step_inv [OF assms(1) less.prems c] clause_step_inv [OF assms less.prems c]
      by (auto simp: recovery_step_def)
    then obtain st' where st': "recovery_step g source ts unions boundaries st = Some (Some st')"
      "recovery_inv g source ts st'" by blast
    have "length ts - rc_cursor st' < length ts - rc_cursor st"
      using recovery_step_progress [OF st'(1) c] c by linarith
    from less.hyps [OF this st'(2)] st'(1) False show ?thesis
      by (simp add: recovery_loop.simps [of g source ts _ _ st])
  qed
qed

lemma wf_boundaries_start: "wf_boundaries ts (union_boundaries ts) (clause_boundaries ts)"
  by (auto simp: wf_boundaries_def union_boundaries_def clause_boundaries_def
      dest!: top_level_indices_bound)

lemma recovery_inv_start: "ts \<noteq> [] \<Longrightarrow> recovery_inv g source ts (recovery_start ts)"
  by (auto simp: recovery_inv_def recovery_start_def skipped_origin_def branch_origin_def hd_conv_nth
      intro: exI [of _ 0])

section \<open>Recovered programs\<close>

text \<open>The branches of a regular query in order.\<close>

definition query_branches :: "single_query \<Rightarrow> union_tail \<Rightarrow> single_query list" where
  "query_branches head unions = head # map ub_query unions"

lemma recover_clauses_result:
  assumes "ordered_tokens ts"
  shows "\<exists>result. recover_clauses g source ts = Some result \<and>
    (\<forall>program. result = Some program \<longrightarrow>
      (\<exists>qs head unions terminator.
        program = program_of head unions (mk_span (tok_start (hd qs)) (tok_end (last qs))) terminator
          (mk_span (tok_start (hd ts)) (tok_end (last ts))) \<and>
        qs \<noteq> [] \<and> (qs = ts \<or> qs = butlast ts) \<and> length unions \<le> 128 \<and>
        (\<forall>q\<in>set (query_branches head unions). branch_ok g source qs q) \<and>
        (\<exists>q\<in>set (query_branches head unions). \<exists>c\<in>set (sq_clauses (node_kind q)).
           parsed_clause g source qs c)))"
proof -
  from split_terminator_ordered [OF assms] obtain qs t where
    st: "split_terminator ts = Some (qs, t)" "ordered_tokens qs"
      "t = None \<and> qs = ts \<or> ts \<noteq> [] \<and> qs = butlast ts \<and> tok_kind (last ts) = P_Semicolon \<and>
       t = Some (mk_span (tok_start (last ts)) (tok_end (last ts)))" by blast
  show ?thesis
  proof (cases "qs = [] \<or> top_level_indices qs (\<lambda>t. t = P_Semicolon) \<noteq> []")
    case True
    with st(1) have "recover_clauses g source ts = Some None"
      by (cases "qs = []") (simp_all add: recover_clauses_def)
    then show ?thesis by simp
  next
    case False
    then have qs: "qs \<noteq> []" and ns: "top_level_indices qs (\<lambda>t. t = P_Semicolon) = []" by simp_all
    from recovery_loop_inv [OF st(2) wf_boundaries_start recovery_inv_start [OF qs]] obtain fin where
      loop: "recovery_loop g source qs (union_boundaries qs) (clause_boundaries qs)
          (recovery_start qs) = Some (Some fin)"
      and inv: "recovery_inv g source qs fin" and cur: "rc_cursor fin = length qs" by blast
    have eq: "recover_clauses g source ts = recovery_finish qs t fin"
      using st(1) qs ns loop by (simp add: recover_clauses_def)
    show ?thesis
    proof (cases "rc_retained fin")
      case False
      with eq show ?thesis by (simp add: recovery_finish_def)
    next
      case True
      have last_eq: "last qs = qs ! (length qs - 1)" using qs by (rule last_conv_nth)
      from inv have skipped: "skipped_origin qs fin" by (simp add: recovery_inv_def)
      from flush_skipped_eq [OF st(2) skipped, of "length qs"] qs cur last_eq obtain clauses where
        fl: "flush_skipped fin (tok_end (last qs)) = Some clauses"
          "clauses = rc_clauses fin \<and> rc_skipped fin = None \<or>
           (\<exists>sp. clauses = rc_clauses fin @ [error_clause sp])" by auto
      have qsp: "tok_start (hd qs) \<le> tok_end (last qs)" using st(2) qs by (rule ordered_tokens_hd_last)
      from inv obtain b where b: "branch_origin qs fin b" by (auto simp: recovery_inv_def)
      have bsp: "rc_branch_start fin \<le> tok_end (last qs)"
        using b last_eq st(2) qs by (auto simp: branch_origin_def intro!: ordered_tokens_nth)
      let ?last = "recovered_branch clauses (mk_span (rc_branch_start fin) (tok_end (last qs)))"
      have clauses_ok: "\<forall>c\<in>set clauses. recovered_clause g source qs c" "set (rc_clauses fin) \<subseteq> set clauses"
        using fl(2) inv by (auto simp: recovery_inv_def)
      have all_ok: "\<forall>q\<in>set (rc_branches fin @ [?last]). branch_ok g source qs q"
        using inv recovered_branch_ok [OF clauses_ok(1)] by (simp add: recovery_inv_def)
      have some_parsed: "\<exists>q\<in>set (rc_branches fin @ [?last]). \<exists>c\<in>set (sq_clauses (node_kind q)).
          parsed_clause g source qs c"
      proof -
        from inv True obtain c where "parsed_clause g source qs c" "c \<in> set (rc_clauses fin) \<or>
            (\<exists>q\<in>set (rc_branches fin). c \<in> set (sq_clauses (node_kind q)))"
          by (auto simp: recovery_inv_def)
        with clauses_ok(2) recovered_branch_clauses [of clauses] show ?thesis by fastforce
      qed
      obtain head branches where hb: "rc_branches fin @ [?last] = head # branches"
        by (cases "rc_branches fin @ [?last]") auto
      define unions where "unions = map (\<lambda>(operator, query). UnionBranch operator query)
        (zip (rc_operators fin) branches)"
      from hb have "length branches = length (rc_branches fin)"
        by (metis length_Cons length_append_singleton nat.inject)
      with inv have len: "length (rc_operators fin) = length branches" "length branches \<le> 128"
        by (auto simp: recovery_inv_def recovery_budget_def)
      then have "map ub_query unions = map snd (zip (rc_operators fin) branches)"
        by (simp add: unions_def comp_def case_prod_beta)
      with len have branches: "query_branches head unions = rc_branches fin @ [?last]"
        by (simp add: query_branches_def hb)
      obtain program where wrap: "wrap_statement head unions (mk_span (tok_start (hd qs)) (tok_end (last qs))) t =
          Some program"
        "program = program_of head unions (mk_span (tok_start (hd qs)) (tok_end (last qs))) t
          (mk_span (tok_start (hd ts)) (tok_end (last ts)))"
        using wrap_statement_program [OF assms st(3) qs] by blast
      have "recover_clauses g source ts = Some (Some program)"
        using eq True fl(1) qsp bsp hb wrap(1) by (simp add: recovery_finish_def unions_def)
      moreover have "length unions \<le> 128" using len by (simp add: unions_def)
      ultimately show ?thesis
        using wrap(2) qs st(3) all_ok some_parsed unfolding branches [symmetric] by blast
    qed
  qed
qed



text \<open>A clause parser that expects an operand after \<open>RETURN\<close>.\<close>

definition return_operand :: grammar where
  "return_operand = return_star\<lparr>clause_root := (\<lambda>source ts.
     if map tok_kind ts = [P_Return, P_ErrorExpression] then Inr (return_clause_at 0 6)
     else Inl (PE_UnrecognizedEof 6 [error_expression]))\<rparr>"

lemma operand_recovery_only_inserts_witness:
  "recover_expression_operands return_operand [] [(0, P_Return, 6)]
     (PE_UnrecognizedEof 6 [error_expression]) 128 = (Some (return_clause_at 0 6), 127) \<and>
   (\<exists>n repaired cs. 1 \<le> n \<and> n \<le> 4 \<and> length repaired = 1 + n \<and>
      list_all2 rereads repaired cs \<and> clause_root return_operand [] cs = Inr (return_clause_at 0 6))"
proof -
  let ?ts = "[(0, P_Return, 6), (6, P_ErrorExpression, 6)]"
  have "trim_quotes error_expression = error_expression"
    by (simp add: trim_quotes_def error_expression_def)
  then have at: "insertion_point [(0, P_Return, 6)] (PE_UnrecognizedEof 6 [error_expression]) = Some (1, 6)"
    by (simp add: insertion_point_def expects_operand_def)
  have "\<not> reads_as_name ?ts 0" "\<not> reads_as_name ?ts 1"
    by (simp_all add: reads_as_name_def follows_name_marker_def is_solo_projection_keyword_def
        is_aliased_bare_expression_def ptok_at_def ptok_before_def checked_sub_def slice_get_def)
  then have "initial_contextual ?ts = ?ts" by (simp add: initial_contextual_def upt_rec)
  then have "parse_clause return_operand [] ?ts = Inr (return_clause_at 0 6)"
    by (simp add: parse_clause_def parse_tokens_with_contextual_names_def return_operand_def)
  with at have run: "recover_expression_operands return_operand [] [(0, P_Return, 6)]
     (PE_UnrecognizedEof 6 [error_expression]) 128 = (Some (return_clause_at 0 6), 127)"
    by (simp add: recover_expression_operands_def insert_operand_def Let_def numeral_eq_Suc)
  from operand_recovery_only_inserts [OF run] have "\<exists>n repaired cs. 1 \<le> n \<and> n \<le> 4 \<and>
      length repaired = length [(0::nat, P_Return, 6::nat)] + n \<and>
      list_all2 rereads repaired cs \<and> clause_root return_operand [] cs = Inr (return_clause_at 0 6)"
    by blast
  with run show ?thesis by simp
qed

end
