(* ===== verification/Logos_Engine.thy ===== *)
theory Logos_Engine
  imports Lex_Total
begin

text \<open>
  The patterns that the attributes of \<open>RawToken\<close> in \<open>src/lexer.rs\<close> declare, as regular
  expressions, and the automaton they stand for: the longest match of any pattern wins. The three
  Unicode properties the patterns use are parameters. \<open>ascii_unicode\<close> is their restriction to
  ASCII, for evaluation.
\<close>

section \<open>Regular expressions\<close>

datatype re =
    R_None
  | R_Empty
  | R_Set "uchar \<Rightarrow> bool"
  | R_Seq re re
  | R_Alt re re
  | R_Star re

primrec nullable :: "re \<Rightarrow> bool" where
  "nullable R_None = False"
| "nullable R_Empty = True"
| "nullable (R_Set p) = False"
| "nullable (R_Seq r1 r2) = (nullable r1 \<and> nullable r2)"
| "nullable (R_Alt r1 r2) = (nullable r1 \<or> nullable r2)"
| "nullable (R_Star r) = True"

primrec deriv :: "uchar \<Rightarrow> re \<Rightarrow> re" where
  "deriv c R_None = R_None"
| "deriv c R_Empty = R_None"
| "deriv c (R_Set p) = (if p c then R_Empty else R_None)"
| "deriv c (R_Seq r1 r2) =
     (if nullable r1 then R_Alt (R_Seq (deriv c r1) r2) (deriv c r2) else R_Seq (deriv c r1) r2)"
| "deriv c (R_Alt r1 r2) = R_Alt (deriv c r1) (deriv c r2)"
| "deriv c (R_Star r) = R_Seq (deriv c r) (R_Star r)"

text \<open>The length of the longest prefix that matches.\<close>

fun longest :: "re \<Rightarrow> ustr \<Rightarrow> nat option" where
  "longest r [] = (if nullable r then Some 0 else None)"
| "longest r (c # s) =
     (case longest (deriv c r) s of
        Some n \<Rightarrow> Some (Suc n)
      | None \<Rightarrow> if nullable r then Some 0 else None)"

text \<open>The language, as the specification of \<open>longest\<close>.\<close>

inductive matches :: "re \<Rightarrow> ustr \<Rightarrow> bool" where
  matches_Empty: "matches R_Empty []"
| matches_Set: "p c \<Longrightarrow> matches (R_Set p) [c]"
| matches_Seq: "matches r1 s \<Longrightarrow> matches r2 t \<Longrightarrow> matches (R_Seq r1 r2) (s @ t)"
| matches_Alt1: "matches r1 s \<Longrightarrow> matches (R_Alt r1 r2) s"
| matches_Alt2: "matches r2 s \<Longrightarrow> matches (R_Alt r1 r2) s"
| matches_Star0: "matches (R_Star r) []"
| matches_Star: "matches r s \<Longrightarrow> matches (R_Star r) t \<Longrightarrow> matches (R_Star r) (s @ t)"

inductive_cases matches_None_elim: "matches R_None s"
inductive_cases matches_Empty_elim: "matches R_Empty s"
inductive_cases matches_Set_elim: "matches (R_Set p) s"
inductive_cases matches_Seq_elim: "matches (R_Seq r1 r2) s"
inductive_cases matches_Alt_elim: "matches (R_Alt r1 r2) s"

lemmas matches_elims =
  matches_None_elim matches_Empty_elim matches_Set_elim matches_Seq_elim matches_Alt_elim

lemma nullable_iff: "nullable r \<longleftrightarrow> matches r []"
  by (induction r) (auto intro: matches.intros elim!: matches_elims
      dest: matches_Seq [of _ "[]" _ "[]", simplified])

lemma star_Cons:
  "matches r0 w \<Longrightarrow> r0 = R_Star r \<Longrightarrow> w = c # s \<Longrightarrow>
     \<exists>u v. s = u @ v \<and> matches r (c # u) \<and> matches (R_Star r) v"
proof (induction arbitrary: c s rule: matches.induct)
  case (matches_Star r' u v)
  show ?case
  proof (cases u)
    case Nil
    with matches_Star show ?thesis by simp
  next
    case (Cons d u')
    with matches_Star have "s = u' @ v \<and> matches r (c # u') \<and> matches (R_Star r) v" by simp
    then show ?thesis by blast
  qed
qed simp_all

lemma deriv_iff: "matches (deriv c r) s \<longleftrightarrow> matches r (c # s)"
proof (induction r arbitrary: s)
  case R_None
  then show ?case by (auto elim: matches_elims)
next
  case R_Empty
  then show ?case by (auto elim: matches_elims)
next
  case (R_Set p)
  then show ?case by (auto elim!: matches_elims intro: matches.intros)
next
  case (R_Alt r1 r2)
  then show ?case by (auto elim!: matches_elims intro: matches.intros)
next
  case (R_Star r)
  show ?case
  proof
    assume "matches (deriv c (R_Star r)) s"
    then obtain u v where "s = u @ v" "matches (deriv c r) u" "matches (R_Star r) v"
      by (auto elim: matches_elims)
    with R_Star matches_Star [of r "c # u" v] show "matches (R_Star r) (c # s)" by simp
  next
    assume "matches (R_Star r) (c # s)"
    then obtain u v where "s = u @ v" "matches r (c # u)" "matches (R_Star r) v"
      using star_Cons by blast
    with R_Star show "matches (deriv c (R_Star r)) s" by (auto intro: matches_Seq)
  qed
next
  case (R_Seq r1 r2)
  show ?case
  proof
    assume "matches (deriv c (R_Seq r1 r2)) s"
    then consider u v where "s = u @ v" "matches (deriv c r1) u" "matches r2 v"
      | "matches r1 []" "matches (deriv c r2) s"
      by (auto split: if_splits elim!: matches_elims simp: nullable_iff)
    then show "matches (R_Seq r1 r2) (c # s)"
    proof cases
      case (1 u v)
      with R_Seq matches_Seq [of r1 "c # u" r2 v] show ?thesis by simp
    next
      case 2
      with R_Seq matches_Seq [of r1 "[]" r2 "c # s"] show ?thesis by simp
    qed
  next
    assume "matches (R_Seq r1 r2) (c # s)"
    then obtain u v where uv: "c # s = u @ v" "matches r1 u" "matches r2 v"
      by (auto elim: matches_elims)
    show "matches (deriv c (R_Seq r1 r2)) s"
    proof (cases u)
      case Nil
      with uv R_Seq show ?thesis by (auto simp: nullable_iff intro: matches.intros)
    next
      case (Cons d u')
      with uv R_Seq have "matches (R_Seq (deriv c r1) r2) s" by (auto intro: matches.intros)
      then show ?thesis by (auto intro: matches.intros)
    qed
  qed
qed

lemma longest_Some: "longest r s = Some n \<Longrightarrow> n \<le> length s \<and> matches r (take n s)"
proof (induction s arbitrary: r n)
  case Nil
  then show ?case by (simp add: nullable_iff split: if_splits)
next
  case (Cons c s)
  show ?case
  proof (cases "longest (deriv c r) s")
    case None
    with Cons.prems show ?thesis by (simp add: nullable_iff split: if_splits)
  next
    case (Some m)
    with Cons.prems Cons.IH [OF Some] show ?thesis by (auto simp: deriv_iff)
  qed
qed

lemma longest_maximal:
  "m \<le> length s \<Longrightarrow> matches r (take m s) \<Longrightarrow> \<exists>n. longest r s = Some n \<and> m \<le> n"
proof (induction s arbitrary: r m)
  case Nil
  then show ?case by (simp add: nullable_iff)
next
  case (Cons c s)
  show ?case
  proof (cases m)
    case 0
    with Cons.prems show ?thesis by (auto simp: nullable_iff split: option.splits)
  next
    case (Suc k)
    with Cons.prems have "k \<le> length s" "matches (deriv c r) (take k s)" by (simp_all add: deriv_iff)
    with Cons.IH obtain n where "longest (deriv c r) s = Some n" "k \<le> n" by blast
    with Suc show ?thesis by simp
  qed
qed

section \<open>The declared patterns\<close>

record unicode =
  white_space :: "uchar \<Rightarrow> bool"
  xid_start :: "uchar \<Rightarrow> bool"
  xid_continue :: "uchar \<Rightarrow> bool"

fun lit :: "ustr \<Rightarrow> re" where
  "lit [] = R_Empty"
| "lit [c] = R_Set (\<lambda>d. d = c)"
| "lit (c # s) = R_Seq (R_Set (\<lambda>d. d = c)) (lit s)"

definition one_of :: "string \<Rightarrow> re" where
  "one_of cs = R_Set (\<lambda>d. d \<in> set (ascii cs))"

definition re_opt :: "re \<Rightarrow> re" where
  "re_opt r = R_Alt r R_Empty"

definition re_plus :: "re \<Rightarrow> re" where
  "re_plus r = R_Seq r (R_Star r)"

text \<open>\<open>(?:_?d)\<close>, and the digit runs \<open>[0-9](?:_?[0-9])*\<close>.\<close>

definition sep :: "(uchar \<Rightarrow> bool) \<Rightarrow> re" where
  "sep d = R_Seq (re_opt (lit (ascii ''_''))) (R_Set d)"

definition digits :: re where
  "digits = R_Seq (R_Set is_ascii_digit) (R_Star (sep is_ascii_digit))"

definition exponent :: re where
  "exponent = R_Seq (one_of ''eE'') (R_Seq (re_opt (one_of ''+-'')) digits)"

definition raw_patterns :: "unicode \<Rightarrow> (raw_pattern \<times> re) list" where
  "raw_patterns u =
    [(Pat_Plain RT_Whitespace, re_plus (R_Set (white_space u))),
     (Pat_Plain RT_LineComment,
       R_Seq (lit (ascii ''//'')) (R_Star (R_Set (\<lambda>c. c \<noteq> 13 \<and> c \<noteq> 10)))),
     (Pat_BlockComment, lit (ascii ''/*'')),
     (Pat_SingleQuote, lit [39]),
     (Pat_DoubleQuote, lit [34]),
     (Pat_Backtick, lit [96]),
     (Pat_Plain RT_Parameter,
       R_Seq (lit (ascii ''$'')) (re_plus (R_Set (\<lambda>c. c = 95 \<or> xid_continue u c)))),
     (Pat_Plain RT_HexInteger,
       R_Seq (lit (ascii ''0'')) (R_Seq (one_of ''xX'') (re_plus (sep is_ascii_hexdigit)))),
     (Pat_Plain RT_OctalInteger,
       R_Seq (lit (ascii ''0'')) (R_Seq (one_of ''oO'') (re_plus (sep (\<lambda>c. 48 \<le> c \<and> c \<le> 55))))),
     (Pat_Plain RT_Float,
       R_Seq (re_opt digits) (R_Seq (lit (ascii ''.'')) (R_Seq digits
         (R_Seq (re_opt exponent) (re_opt (one_of ''fFdD'')))))),
     (Pat_Plain RT_Float, R_Seq digits (R_Seq exponent (re_opt (one_of ''fFdD'')))),
     (Pat_Plain RT_Integer, digits),
     (Pat_Plain RT_Word,
       R_Seq (R_Set (\<lambda>c. c = 95 \<or> xid_start u c))
         (R_Star (R_Set (\<lambda>c. c = 95 \<or> xid_continue u c)))),
     (Pat_Plain RT_DoublePipe, lit (ascii ''||'')),
     (Pat_Plain RT_DoubleColon, lit (ascii ''::'')),
     (Pat_Plain RT_DotDot, lit (ascii ''..'')),
     (Pat_Plain RT_LessEqual, lit (ascii ''<='')),
     (Pat_Plain RT_GreaterEqual, lit (ascii ''>='')),
     (Pat_Plain RT_NotEqual, lit (ascii ''<>'')),
     (Pat_Plain RT_NotEqual, lit (ascii ''!='')),
     (Pat_Plain RT_PlusEqual, lit (ascii ''+='')),
     (Pat_Plain RT_FatArrow, lit (ascii ''=>'')),
     (Pat_Plain RT_RegexMatch, lit (ascii ''=~'')),
     (Pat_Plain RT_LeftArrow, lit (ascii ''<-'')),
     (Pat_Plain RT_RightArrow, lit (ascii ''->'')),
     (Pat_Plain RT_LeftParen, lit (ascii ''('')),
     (Pat_Plain RT_RightParen, lit (ascii '')'')),
     (Pat_Plain RT_LeftBracket, lit (ascii ''['')),
     (Pat_Plain RT_RightBracket, lit (ascii '']'')),
     (Pat_Plain RT_LeftBrace, lit (ascii ''{'')),
     (Pat_Plain RT_RightBrace, lit (ascii ''}'')),
     (Pat_Plain RT_Comma, lit (ascii '','')),
     (Pat_Plain RT_Dot, lit (ascii ''.'')),
     (Pat_Plain RT_Colon, lit (ascii '':'')),
     (Pat_Plain RT_Semicolon, lit (ascii '';'')),
     (Pat_Plain RT_Pipe, lit (ascii ''|'')),
     (Pat_Plain RT_Ampersand, lit (ascii ''&'')),
     (Pat_Plain RT_Question, lit (ascii ''?'')),
     (Pat_Plain RT_Dollar, lit (ascii ''$'')),
     (Pat_Plain RT_Plus, lit (ascii ''+'')),
     (Pat_Plain RT_Minus, lit (ascii ''-'')),
     (Pat_Plain RT_Star, lit (ascii ''*'')),
     (Pat_Plain RT_Slash, lit (ascii ''/'')),
     (Pat_Plain RT_Percent, lit (ascii ''%'')),
     (Pat_Plain RT_Caret, lit (ascii ''^'')),
     (Pat_Plain RT_Bang, lit (ascii ''!'')),
     (Pat_Plain RT_Equal, lit (ascii ''='')),
     (Pat_Plain RT_Less, lit (ascii ''<'')),
     (Pat_Plain RT_Greater, lit (ascii ''>''))]"

section \<open>The automaton\<close>

text \<open>
  The longest match of the patterns; on a tie the earlier pattern stays. When nothing matches, one
  character is an error: every pattern of two or more characters has a first character that is a
  pattern by itself, so no longer prefix can be in progress.
\<close>

fun best_match :: "(raw_pattern \<times> re) list \<Rightarrow> ustr \<Rightarrow> (raw_pattern \<times> nat) option" where
  "best_match [] s = None"
| "best_match ((p, r) # rs) s =
     (case longest r s of
        None \<Rightarrow> best_match rs s
      | Some n \<Rightarrow>
          (case best_match rs s of
             Some (q, m) \<Rightarrow> if n < m then Some (q, m) else Some (p, n)
           | None \<Rightarrow> Some (p, n)))"

definition logos_next :: "unicode \<Rightarrow> engine" where
  "logos_next u s =
     (case best_match (raw_patterns u) s of
        Some (p, n) \<Rightarrow> (Some p, n)
      | None \<Rightarrow> (None, if s = [] then 0 else 1))"

lemma best_match_Some:
  "best_match ps s = Some (p, n) \<Longrightarrow> \<exists>r. (p, r) \<in> set ps \<and> longest r s = Some n"
  by (induction ps) (fastforce split: option.splits if_splits)+

lemma best_match_maximal:
  "(q, r) \<in> set ps \<Longrightarrow> longest r s = Some m \<Longrightarrow> \<exists>p n. best_match ps s = Some (p, n) \<and> m \<le> n"
  by (induction ps) (fastforce split: option.splits if_splits)+

lemma raw_patterns_not_nullable: "(p, r) \<in> set (raw_patterns u) \<Longrightarrow> \<not> nullable r"
  by (auto simp: raw_patterns_def re_plus_def digits_def sep_def one_of_def re_opt_def exponent_def)

interpretation logos: raw_engine "logos_next u" for u
proof
  fix s :: ustr
  show "snd (logos_next u s) \<le> length s"
    by (auto simp: logos_next_def Suc_le_eq dest!: best_match_Some longest_Some split: option.splits)
  assume s: "s \<noteq> []"
  have "0 < n" if b: "best_match (raw_patterns u) s = Some (p, n)" for p n
  proof (rule ccontr)
    assume "\<not> 0 < n"
    with b obtain r where "(p, r) \<in> set (raw_patterns u)" "longest r s = Some 0"
      using best_match_Some by fastforce
    then show False
      using raw_patterns_not_nullable longest_Some [of r s 0] by (simp add: nullable_iff)
  qed
  with s show "0 < snd (logos_next u s)" by (auto simp: logos_next_def split: option.splits)
qed


section \<open>Evaluation\<close>

definition ascii_unicode :: unicode where
  "ascii_unicode =
     \<lparr>white_space = (\<lambda>c. c = 32 \<or> 9 \<le> c \<and> c \<le> 13),
      xid_start = (\<lambda>c. 65 \<le> c \<and> c \<le> 90 \<or> 97 \<le> c \<and> c \<le> 122),
      xid_continue = (\<lambda>c. 65 \<le> c \<and> c \<le> 90 \<or> 97 \<le> c \<and> c \<le> 122 \<or> 48 \<le> c \<and> c \<le> 57 \<or> c = 95)\<rparr>"

lemma lex_sample:
  "lex (logos_next ascii_unicode) (ascii ''1..2'') =
     Some \<lparr>lex_tokens = [\<lparr>token_kind = T_Integer, token_span = mk_span 0 1\<rparr>,
       \<lparr>token_kind = T_DotDot, token_span = mk_span 1 3\<rparr>,
       \<lparr>token_kind = T_Integer, token_span = mk_span 3 4\<rparr>], lex_diagnostics = []\<rparr>"
  by code_simp

lemma lex_lossless_witness:
  "raw_engine (logos_next ascii_unicode) \<and>
   (\<exists>out texts. lex (logos_next ascii_unicode) (ascii ''a;'') = Some out \<and>
     tiles 0 (map token_span (lex_tokens out)) (byte_len (ascii ''a;'')) \<and>
     those (map (\<lambda>t. token_text t (ascii ''a;'')) (lex_tokens out)) = Some texts \<and>
     concat texts = ascii ''a;'')"
  using lex_lossless [OF logos.raw_engine_axioms [of ascii_unicode], of "ascii ''a;''"]
    logos.raw_engine_axioms by blast

lemma lex_diagnostics_are_invalid_tokens_witness:
  "\<exists>out. lex (logos_next ascii_unicode) (ascii ''a~'') = Some out \<and>
     map diag_span (lex_diagnostics out) = [mk_span 1 2]"
proof -
  let ?out = "\<lparr>lex_tokens = [\<lparr>token_kind = T_Identifier, token_span = mk_span 0 1\<rparr>,
      \<lparr>token_kind = T_Invalid, token_span = mk_span 1 2\<rparr>],
    lex_diagnostics = [diagnostic_error DC_InvalidToken (ascii ''invalid openCypher token'')
      (mk_span 1 2)]\<rparr>"
  have run: "lex (logos_next ascii_unicode) (ascii ''a~'') = Some ?out" by code_simp
  with lex_diagnostics_are_invalid_tokens [OF logos.raw_engine_axioms run]
  show ?thesis by simp
qed

end
