(* ===== verification/Entry.thy ===== *)
theory Entry
  imports Recovery_Facts Delimiters Normalize Logos_Engine
begin

text \<open>
  The entry points of \<open>src/parser.rs\<close>: \<open>parse_recovering\<close> and \<open>parse\<close>. The automaton of the lexer
  and the generated parsers are the parameters \<open>engine\<close> and \<open>g\<close>.
\<close>

record parsed_program =
  pp_program :: program
  pp_tokens :: "token list"

record parse_outcome =
  po_value :: "parsed_program option"
  po_diagnostics :: "diagnostic list"

text \<open>
  A panic of the parser ends the search at once, as a success would; the search carries it as the
  value \<open>None\<close>.
\<close>

definition panics_as_value :: "'a parsed panics \<Rightarrow> 'a panics parsed" where
  "panics_as_value r = (case r of
     None \<Rightarrow> Inr None | Some (Inr v) \<Rightarrow> Inr (Some v) | Some (Inl e) \<Rightarrow> Inl e)"

definition value_as_panics :: "'a panics parsed \<Rightarrow> 'a parsed panics" where
  "value_as_panics r = (case r of
     Inr None \<Rightarrow> None | Inr (Some v) \<Rightarrow> Some (Inr v) | Inl e \<Rightarrow> Some (Inl e))"

definition parse_program_with_contextual_names ::
  "grammar \<Rightarrow> ustr \<Rightarrow> spanned list \<Rightarrow> program parsed panics" where
  "parse_program_with_contextual_names g source ts =
     value_as_panics (parse_tokens_with_contextual_names
       (\<lambda>contextual. panics_as_value (parse_program g source contextual)) ts)"

definition recovered_value :: "grammar \<Rightarrow> ustr \<Rightarrow> spanned list \<Rightarrow> token list \<Rightarrow> program panics" where
  "recovered_value g source ts tokens =
     Option.bind (recover_clauses g source ts) (\<lambda>recovered.
       (case recovered of
          Some program \<Rightarrow> Some program
        | None \<Rightarrow> recovered_program source tokens))"

definition parse_recovering :: "engine \<Rightarrow> grammar \<Rightarrow> ustr \<Rightarrow> parse_outcome panics" where
  "parse_recovering engine g source =
     Option.bind (lex engine source) (\<lambda>lexed.
     Option.bind (parser_tokens (lex_tokens lexed)) (\<lambda>significant_tokens.
     Option.bind (parse_program_with_contextual_names g source significant_tokens) (\<lambda>parsed.
     Option.bind
       (case parsed of
          Inr program \<Rightarrow> Some (Some program, lex_diagnostics lexed)
        | Inl error \<Rightarrow>
            map_option (\<lambda>d. (None, lex_diagnostics lexed @ [d])) (parse_diagnostic source error))
       (\<lambda>(program, diagnostics).
     Option.bind
       (if program = None \<or> diagnostics \<noteq> []
        then collect_delimiter_diagnostics source (lex_tokens lexed) diagnostics
        else Some diagnostics) (\<lambda>diagnostics.
     Option.bind (normalize_diagnostics (byte_len source) diagnostics) (\<lambda>diagnostics.
     Option.bind
       (case program of
          Some p \<Rightarrow> Some p
        | None \<Rightarrow> recovered_value g source significant_tokens (lex_tokens lexed)) (\<lambda>program.
       Some \<lparr>po_value = Some \<lparr>pp_program = program, pp_tokens = lex_tokens lexed\<rparr>,
             po_diagnostics = diagnostics\<rparr>)))))))"

definition parse :: "engine \<Rightarrow> grammar \<Rightarrow> ustr \<Rightarrow> (parse_errors + parsed_program) panics" where
  "parse engine g source =
     Option.bind (parse_recovering engine g source) (\<lambda>outcome.
       if list_ex is_error (po_diagnostics outcome)
       then map_option Inl (parse_errors_new (po_diagnostics outcome))
       else
         (case po_value outcome of
            Some value \<Rightarrow> Some (Inr value)
          | None \<Rightarrow>
              Option.bind (span_empty (byte_len source)) (\<lambda>sp.
                map_option Inl (parse_errors_new [diagnostic_error DC_Internal
                  (ascii ''the parser did not produce a program'') sp]))))"

section \<open>Errors of the program parser\<close>

text \<open>
  The hypothesis on the generated parsers: an error names a token of the input, whose span is then
  not reversed when the input's spans are not.
\<close>

definition reports_input :: "grammar \<Rightarrow> bool" where
  "reports_input g = (\<forall>source ts e. ordered_tokens ts \<longrightarrow> clause_root g source ts = Inl e \<longrightarrow> wf_error e)"

lemma rereading_ordered: "rereading ts cs \<Longrightarrow> ordered_tokens ts \<Longrightarrow> ordered_tokens cs"
proof -
  assume r: "rereading ts cs" and o: "ordered_tokens ts"
  then have "length ts = length cs" "\<forall>i<length ts. tok_start (cs ! i) = tok_start (ts ! i) \<and>
      tok_end (cs ! i) = tok_end (ts ! i)" by (auto simp: rereading_iff rereads_def)
  with o show ?thesis
    by (simp add: ordered_tokens_def all_set_conv_all_nth sorted_wrt_iff_nth_less)
qed

lemma ordered_slice: "ordered_tokens ts \<Longrightarrow> ordered_tokens (slice ts a b)"
  by (simp add: slice_def ordered_tokens_take ordered_tokens_drop)

lemma ordered_nth_wf: "ordered_tokens ts \<Longrightarrow> i < length ts \<Longrightarrow> tok_start (ts ! i) \<le> tok_end (ts ! i)"
  by (simp add: ordered_tokens_def)

lemma try_clause_ends_wf:
  "try_clause_ends g source ts cursor ends best = Inl e \<Longrightarrow> reports_input g \<Longrightarrow> ordered_tokens ts \<Longrightarrow>
     (\<forall>b. best = Some b \<longrightarrow> wf_error b) \<Longrightarrow> wf_error e"
proof (induction g source ts cursor ends best rule: try_clause_ends.induct)
  case (1 g source ts cursor best)
  then show ?case by (cases best) (auto simp: query_clause_expected_def wf_error_def)
next
  case (2 g source ts cursor e' ends best)
  show ?case
  proof (cases "clause_root g source (slice ts cursor e')")
    case (Inr clause)
    with "2.prems" show ?thesis
      by (auto simp: wf_error_def ordered_nth_wf split: if_splits)
  next
    case (Inl err)
    then have wf: "wf_error err"
      using "2.prems"(2,3) ordered_slice unfolding reports_input_def by blast
    then have best: "\<forall>b. retain_farthest_error best err = Some b \<longrightarrow> wf_error b"
      using "2.prems"(4) by (cases best) auto
    from "2.prems" Inl wf best "2.IH" [OF Inl] show ?thesis
      by (cases err) auto
  qed
qed

lemma clause_loop_wf:
  "clause_loop g source ts cursor = Inl e \<Longrightarrow> reports_input g \<Longrightarrow> ordered_tokens ts \<Longrightarrow> wf_error e"
proof (induction g source ts cursor rule: clause_loop.induct)
  case (1 g source ts cursor)
  then have "\<not> length ts \<le> cursor" by (auto simp: clause_loop.simps [of g])
  with 1 show ?case
    by (auto simp: clause_loop.simps [of g source ts cursor] split: sum.splits prod.splits
        dest: try_clause_ends_wf)
qed

lemma parse_single_query_wf:
  "parse_single_query g source ts = Some (Inl e) \<Longrightarrow> reports_input g \<Longrightarrow> ordered_tokens ts \<Longrightarrow> wf_error e"
  by (auto simp: parse_single_query_def query_clause_expected_def wf_error_def
      split: if_splits sum.splits dest: clause_loop_wf [unfolded wf_error_def])

lemma try_unions_error:
  "try_unions g source ts unsplit_error indices = Some (Inl e) \<Longrightarrow> e = unsplit_error"
proof (induction indices)
  case Nil
  then show ?case by (simp add: try_unions.simps)
next
  case (Cons u indices)
  then show ?case
    by (auto simp: try_unions.simps(2) split: if_splits bind_splits sum.splits prod.splits)
qed

lemma parse_regular_query_wf:
  "parse_regular_query g source ts = Some (Inl e) \<Longrightarrow> reports_input g \<Longrightarrow> ordered_tokens ts \<Longrightarrow> wf_error e"
  by (auto simp: parse_regular_query.simps split: bind_splits sum.splits
      dest!: try_unions_error dest: parse_single_query_wf)

lemma parse_program_wf:
  assumes "parse_program g source ts = Some (Inl e)" and "reports_input g" and "ordered_tokens ts"
  shows "wf_error e"
proof -
  from split_terminator_ordered [OF assms(3)] obtain qs t where
    st: "split_terminator ts = Some (qs, t)" "ordered_tokens qs" by blast
  from assms(1) st(1) consider "e = query_clause_expected (case t of None \<Rightarrow> 0 | Some sp \<Rightarrow> span_start sp)"
    | "parse_regular_query g source qs = Some (Inl e)"
    by (auto simp: parse_program_def split: if_splits bind_splits sum.splits prod.splits)
  then show ?thesis
  proof cases
    case 1
    then show ?thesis by (simp add: query_clause_expected_def wf_error_def)
  next
    case 2
    then show ?thesis using assms(2) st(2) by (rule parse_regular_query_wf)
  qed
qed

lemma contextual_program_source:
  "\<exists>cs. rereading ts cs \<and> parse_program_with_contextual_names g source ts = parse_program g source cs"
proof -
  have inverse: "value_as_panics (panics_as_value r) = r" for r :: "program parsed panics"
    by (cases r) (auto simp: value_as_panics_def panics_as_value_def split: sum.splits)
  then show ?thesis
    using contextual_outcome [of ts "\<lambda>contextual. panics_as_value (parse_program g source contextual)"]
    by (auto simp: parse_program_with_contextual_names_def)
qed

lemma contextual_program_total:
  assumes "reports_input g" and "ordered_tokens ts"
  shows "\<exists>r. parse_program_with_contextual_names g source ts = Some r \<and> (\<forall>e. r = Inl e \<longrightarrow> wf_error e)"
proof -
  from contextual_program_source [of ts g source] obtain cs where
    cs: "rereading ts cs" "parse_program_with_contextual_names g source ts = parse_program g source cs"
    by blast
  have o: "ordered_tokens cs" using rereading_ordered [OF cs(1) assms(2)] .
  have "\<exists>r. parse_program g source cs = Some r"
    using parse_program_total [OF o] .
  with cs parse_program_wf [OF _ assms(1) o] show ?thesis by fastforce
qed

section \<open>The entry points never panic\<close>

lemma cover_all_total:
  "wf_span sp \<Longrightarrow> \<forall>t\<in>set ts. wf_span (token_span t) \<Longrightarrow>
     \<exists>sp'. cover_all sp ts = Some sp' \<and> wf_span sp'"
proof (induction ts arbitrary: sp)
  case (Cons t ts)
  then obtain sp' where "span_cover sp (token_span t) = Some sp'" by (auto simp: span_cover_Some)
  moreover from this have "wf_span sp'" by (auto simp: span_cover_def dest: span_new_wf)
  ultimately show ?case using Cons by auto
qed simp

lemma recovered_program_total:
  assumes "\<forall>t\<in>set tokens. wf_span (token_span t)"
  shows "\<exists>p. recovered_program source tokens = Some p"
proof -
  have wf: "\<forall>t\<in>set (significant tokens). wf_span (token_span t)"
    using assms by (simp add: significant_def)
  show ?thesis
  proof (cases "significant tokens")
    case Nil
    then show ?thesis by (simp add: recovered_program_def significant_span_def)
  next
    case (Cons t ts)
    with wf cover_all_total [of "token_span t" ts] show ?thesis
      by (auto simp: recovered_program_def significant_span_def)
  qed
qed

lemma recovered_value_total:
  assumes "ordered_tokens ts" and "\<forall>t\<in>set tokens. wf_span (token_span t)"
  shows "\<exists>p. recovered_value g source ts tokens = Some p"
proof -
  from recover_clauses_result [OF assms(1)] obtain r where "recover_clauses g source ts = Some r" by blast
  with recovered_program_total [OF assms(2)] show ?thesis
    by (auto simp: recovered_value_def split: option.splits)
qed

lemma parse_diagnostic_wf: "wf_error e \<Longrightarrow> \<exists>d. parse_diagnostic source e = Some d \<and> is_error d"
  using parse_diagnostic_total [of e source]
  by (cases "(source, e)" rule: parse_diagnostic.cases) (auto simp: wf_error_def)

lemma delimiter_diagnostics_errors:
  assumes "\<forall>d\<in>set ds. is_error d"
  shows "\<exists>ds'. collect_delimiter_diagnostics source tokens ds = Some (ds @ ds') \<and>
    (\<forall>d\<in>set (ds @ ds'). is_error d)"
proof -
  obtain stack ds' where scan: "delimiter_scan [] (filter (\<lambda>t. \<not> token_is_trivia t) tokens) ds = Some (stack, ds @ ds')"
    using delimiter_scan_total by blast
  have "\<forall>d\<in>set (ds @ ds'). is_error d"
    using delimiter_scan_sound [OF scan] assms by blast
  with scan show ?thesis
    by (auto simp: collect_delimiter_diagnostics_def)
qed

text \<open>The outcome, with the intermediate results it comes from.\<close>

lemma parse_recovering_result:
  assumes "raw_engine engine" and "reports_input g"
  shows "\<exists>lexed ts parsed out v. lex engine source = Some lexed \<and>
    parser_tokens (lex_tokens lexed) = Some ts \<and> ordered_tokens ts \<and>
    parse_program_with_contextual_names g source ts = Some parsed \<and>
    parse_recovering engine g source = Some out \<and> po_value out = Some v \<and>
    pp_tokens v = lex_tokens lexed \<and> (\<forall>p. parsed = Inr p \<longrightarrow> pp_program v = p) \<and>
    (\<forall>d\<in>set (po_diagnostics out). is_error d) \<and> length (po_diagnostics out) \<le> 32 \<and>
    (po_diagnostics out = [] \<longleftrightarrow> lex_diagnostics lexed = [] \<and> (\<exists>p. parsed = Inr p))"
proof -
  from lex_result [OF assms(1), of source] obtain lexed where
    lexed: "lex engine source = Some lexed" "tiles 0 (map token_span (lex_tokens lexed)) (byte_len source)"
      "\<forall>d\<in>set (lex_diagnostics lexed). is_error d" by blast
  from parser_tokens_ordered [OF lexed(2)] obtain ts where
    ts: "parser_tokens (lex_tokens lexed) = Some ts" "ordered_tokens ts" by blast
  from contextual_program_total [OF assms(2) ts(2), of source] obtain parsed where
    parsed: "parse_program_with_contextual_names g source ts = Some parsed"
      "\<forall>e. parsed = Inl e \<longrightarrow> wf_error e" by blast
  have wf: "\<forall>t\<in>set (lex_tokens lexed). wf_span (token_span t)"
    using tiles_wf [OF lexed(2)] by simp
  let ?first = "case parsed of Inr program \<Rightarrow> Some (Some program, lex_diagnostics lexed)
      | Inl error \<Rightarrow> map_option (\<lambda>d. (None, lex_diagnostics lexed @ [d])) (parse_diagnostic source error)"
  obtain program ds where first: "?first = Some (program, ds)" "\<forall>d\<in>set ds. is_error d"
    "ds = [] \<longleftrightarrow> lex_diagnostics lexed = [] \<and> (\<exists>p. parsed = Inr p)"
    "program = (case parsed of Inr p \<Rightarrow> Some p | Inl _ \<Rightarrow> None)"
  proof (cases parsed)
    case (Inl e)
    with parsed(2) parse_diagnostic_wf [of e source] obtain d where
      "parse_diagnostic source e = Some d" "is_error d" by blast
    with that Inl lexed(3) show ?thesis by simp
  next
    case (Inr p)
    with that lexed(3) show ?thesis by simp
  qed
  let ?second = "if program = None \<or> ds \<noteq> []
    then collect_delimiter_diagnostics source (lex_tokens lexed) ds else Some ds"
  obtain ds' where second: "?second = Some ds'" "\<forall>d\<in>set ds'. is_error d" "ds' = [] \<longleftrightarrow> ds = []"
  proof (cases "program = None \<or> ds \<noteq> []")
    case True
    then have "ds \<noteq> []" using first(3,4) by (cases parsed) auto
    with True that delimiter_diagnostics_errors [OF first(2), of source "lex_tokens lexed"] show ?thesis
      by fastforce
  next
    case False
    with that first(2) show ?thesis by simp
  qed
  from normalize_total obtain final where final: "normalize_diagnostics (byte_len source) ds' = Some final"
    by blast
  have fin: "\<forall>d\<in>set final. is_error d" "final = [] \<longleftrightarrow> ds = []" "length final \<le> 32"
    using normalize_errors [OF final second(2)] normalize_Nil_iff [OF final] second(3)
      normalize_length [OF final] by auto
  obtain p where p: "(case program of Some p \<Rightarrow> Some p
      | None \<Rightarrow> recovered_value g source ts (lex_tokens lexed)) = Some p"
    using recovered_value_total [OF ts(2) wf] by (cases program) auto
  let ?v = "\<lparr>pp_program = p, pp_tokens = lex_tokens lexed\<rparr>"
  have run: "parse_recovering engine g source = Some \<lparr>po_value = Some ?v, po_diagnostics = final\<rparr>"
    unfolding parse_recovering_def using lexed(1) ts(1) parsed(1) first(1) second(1) final p by simp
  have "\<forall>q. parsed = Inr q \<longrightarrow> pp_program ?v = q" using p first(4) by auto
  with run lexed(1) ts parsed(1) fin first(3) show ?thesis
    by (intro exI [of _ lexed] exI [of _ ts] exI [of _ parsed]
        exI [of _ "\<lparr>po_value = Some ?v, po_diagnostics = final\<rparr>"] exI [of _ ?v]) simp
qed


text \<open>
  C3: the strict parser is the recovering parser with a verdict. It succeeds, with the same value,
  exactly when the recovering parser reports nothing, and otherwise fails with exactly the reported
  diagnostics, in the order of the collection; there is no third outcome.
\<close>

theorem parse_agrees_with_recovering:
  assumes "raw_engine engine" and "reports_input g"
  shows "\<exists>out v. parse_recovering engine g source = Some out \<and> po_value out = Some v \<and>
    (if po_diagnostics out = [] then parse engine g source = Some (Inr v)
     else \<exists>errors. parse engine g source = Some (Inl errors) \<and>
       mset (pe_diagnostics errors) = mset (po_diagnostics out) \<and>
       sorted (map diagnostic_key (pe_diagnostics errors)))"
proof -
  from parse_recovering_result [OF assms, of source] obtain out v where
    *: "parse_recovering engine g source = Some out" "po_value out = Some v"
      "\<forall>d\<in>set (po_diagnostics out). is_error d" by blast
  show ?thesis
  proof (cases "po_diagnostics out")
    case Nil
    with * show ?thesis by (simp add: parse_def)
  next
    case (Cons d ds)
    with * have "list_ex is_error (po_diagnostics out)" by simp
    with * Cons show ?thesis
      by (simp add: parse_def parse_errors_new_def sorted_sort_diagnostics)
  qed
qed

text \<open>
  C1: what the strict parser accepts. A source is accepted exactly when the lexer reports nothing and
  the program parser accepts some contextual reading that the search tries; the value then is that
  program. A rejected source has at least one diagnostic.
\<close>

theorem parse_accepts_iff:
  assumes "raw_engine engine" and "reports_input g"
  shows "\<exists>lexed ts parsed. lex engine source = Some lexed \<and> parser_tokens (lex_tokens lexed) = Some ts \<and>
    parse_program_with_contextual_names g source ts = Some parsed \<and>
    (case parse engine g source of
       Some (Inr v) \<Rightarrow> lex_diagnostics lexed = [] \<and> parsed = Inr (pp_program v) \<and>
         (\<exists>cs. rereading ts cs \<and> parse_program g source cs = Some (Inr (pp_program v)))
     | Some (Inl errors) \<Rightarrow> pe_diagnostics errors \<noteq> [] \<and>
         (lex_diagnostics lexed \<noteq> [] \<or> (\<exists>e. parsed = Inl e))
     | None \<Rightarrow> False)"
proof -
  from parse_recovering_result [OF assms, of source] obtain lexed ts parsed out v where
    *: "lex engine source = Some lexed" "parser_tokens (lex_tokens lexed) = Some ts"
      "parse_program_with_contextual_names g source ts = Some parsed"
      "parse_recovering engine g source = Some out" "po_value out = Some v"
      "\<forall>p. parsed = Inr p \<longrightarrow> pp_program v = p" "\<forall>d\<in>set (po_diagnostics out). is_error d"
      "po_diagnostics out = [] \<longleftrightarrow> lex_diagnostics lexed = [] \<and> (\<exists>p. parsed = Inr p)" by blast
  show ?thesis
  proof (cases "po_diagnostics out")
    case Nil
    then have run: "parse engine g source = Some (Inr v)" using * by (simp add: parse_def)
    from Nil *(6,8) have acc: "lex_diagnostics lexed = []" "parsed = Inr (pp_program v)" by auto
    with *(3) contextual_program_source [of ts g source] have
      "\<exists>cs. rereading ts cs \<and> parse_program g source cs = Some (Inr (pp_program v))" by metis
    with run acc *(1-3) show ?thesis
      by (intro exI [of _ lexed] exI [of _ ts] exI [of _ parsed]) simp
  next
    case (Cons d ds)
    with *(7) have "list_ex is_error (po_diagnostics out)" by simp
    then have run: "parse engine g source = Some (Inl \<lparr>pe_diagnostics = sort_diagnostics (po_diagnostics out)\<rparr>)"
      using *(4) Cons by (simp add: parse_def parse_errors_new_def)
    have "sort_diagnostics (po_diagnostics out) \<noteq> []"
      using Cons by (metis list.distinct(1) set_empty set_sort_diagnostics)
    moreover have "lex_diagnostics lexed \<noteq> [] \<or> (\<exists>e. parsed = Inl e)"
      using *(8) Cons by (cases parsed) auto
    ultimately show ?thesis using run *(1-3)
      by (intro exI [of _ lexed] exI [of _ ts] exI [of _ parsed]) simp
  qed
qed

lemma return_star_reports: "reports_input return_star"
proof -
  have "wf_error e" if e: "clause_root return_star source ts = Inl e" for source ts e
  proof (cases ts)
    case Nil
    with e have "e = PE_UnrecognizedEof 0 []" by (simp add: return_star_def)
    then show ?thesis by (simp add: wf_error_def)
  next
    case (Cons a as)
    note ts = this
    consider "as = []" | b where "as = [b]" | b c cs where "as = b # c # cs"
      by (cases as; cases "tl as") auto
    then show ?thesis
    proof cases
      case 1
      with ts e have "e = PE_UnrecognizedEof (tok_end a) []" by (simp add: return_star_def)
      then show ?thesis by (simp add: wf_error_def)
    next
      case (2 b)
      with ts e have "e = PE_User (tok_start a)"
        by (cases "tok_kind a = P_Return \<and> tok_kind b = P_Star") (simp_all add: return_star_def)
      then show ?thesis by (simp add: wf_error_def)
    next
      case (3 b c cs)
      with ts e have "e = PE_UnrecognizedEof (tok_end (last ts)) []" by (simp add: return_star_def)
      then show ?thesis by (simp add: wf_error_def)
    qed
  qed
  then show ?thesis by (simp add: reports_input_def)
qed


lemma parse_agrees_with_recovering_witness:
  "raw_engine (logos_next ascii_unicode) \<and> reports_input return_star \<and>
   (\<exists>out v. parse_recovering (logos_next ascii_unicode) return_star [] = Some out \<and>
      po_value out = Some v \<and> (po_diagnostics out = [] \<longrightarrow>
        parse (logos_next ascii_unicode) return_star [] = Some (Inr v)))"
proof -
  from parse_agrees_with_recovering [OF logos.raw_engine_axioms [of ascii_unicode] return_star_reports, of "[]"]
  obtain out v where "parse_recovering (logos_next ascii_unicode) return_star [] = Some out"
    "po_value out = Some v" "po_diagnostics out = [] \<longrightarrow>
        parse (logos_next ascii_unicode) return_star [] = Some (Inr v)" by (auto split: if_splits)
  with logos.raw_engine_axioms return_star_reports show ?thesis by blast
qed

lemma parse_accepts_iff_witness:
  "raw_engine (logos_next ascii_unicode) \<and> reports_input return_star \<and>
   parse (logos_next ascii_unicode) return_star (ascii ''RETURN *'') \<noteq> None"
proof -
  from parse_accepts_iff [OF logos.raw_engine_axioms [of ascii_unicode] return_star_reports,
      of "ascii ''RETURN *''"]
  have "parse (logos_next ascii_unicode) return_star (ascii ''RETURN *'') \<noteq> None"
    by (auto split: option.splits)
  with logos.raw_engine_axioms return_star_reports show ?thesis by blast
qed

end
