(* ===== verification/Folds.thy ===== *)
theory Folds
  imports Ast Parse_Errors
begin

text \<open>
  The tree builders of \<open>src/parser.rs\<close> that the grammar calls after it has collected a sequence:
  left-associative folds of binary, comparison and postfix tails, list comprehensions, and the
  wrappers for patterns. \<open>Span::cover\<close> and \<open>Span::new\<close> can panic, so the builders do.
\<close>

section \<open>Folds\<close>

fun fold_binary :: "expr \<Rightarrow> (binary_operator node \<times> expr) list \<Rightarrow> expr panics" where
  "fold_binary e [] = Some e"
| "fold_binary e ((operator, right) # tail) =
     Option.bind (span_cover (expr_span e) (expr_span right)) (\<lambda>sp.
       fold_binary (mk_expr (EK_Binary e operator right) sp) tail)"

datatype (plugins only: size) comparison_suffix =
    CS_Binary "binary_operator node" expr
  | CS_Is bool is_predicate nat

fun fold_comparison :: "expr \<Rightarrow> comparison_suffix list \<Rightarrow> expr panics" where
  "fold_comparison e [] = Some e"
| "fold_comparison e (CS_Binary operator right # tail) =
     Option.bind (span_cover (expr_span e) (expr_span right)) (\<lambda>sp.
       fold_comparison (mk_expr (EK_Binary e operator right) sp) tail)"
| "fold_comparison e (CS_Is negated predicate last_end # tail) =
     Option.bind (span_new (span_start (expr_span e)) last_end) (\<lambda>sp.
       fold_comparison (mk_expr (EK_Is e negated predicate) sp) tail)"

datatype (plugins only: size) postfix_suffix =
    PX_Property name
  | PX_MapProjection "expr map_projection_item_kind node list" nat
  | PX_Index expr nat
  | PX_Slice "expr option" "expr option" nat

fun apply_postfix :: "expr \<Rightarrow> postfix_suffix \<Rightarrow> expr panics" where
  "apply_postfix e (PX_Property key) =
     map_option (mk_expr (EK_Property e key)) (span_cover (expr_span e) (node_span key))"
| "apply_postfix e (PX_MapProjection items last_end) =
     map_option (mk_expr (EK_MapProjection (MapProjection e items)))
       (span_new (span_start (expr_span e)) last_end)"
| "apply_postfix e (PX_Index index last_end) =
     map_option (mk_expr (EK_Index e index)) (span_new (span_start (expr_span e)) last_end)"
| "apply_postfix e (PX_Slice lower upper last_end) =
     map_option (mk_expr (EK_Slice e lower upper)) (span_new (span_start (expr_span e)) last_end)"

fun fold_postfix :: "expr \<Rightarrow> postfix_suffix list \<Rightarrow> expr panics" where
  "fold_postfix e [] = Some e"
| "fold_postfix e (suffix # suffixes) =
     Option.bind (apply_postfix e suffix) (\<lambda>e'. fold_postfix e' suffixes)"

section \<open>List comprehensions\<close>

datatype (plugins only: size) comprehension_source =
    Comprehension name expr
  | Plain_expression expr

definition split_comprehension_source :: "expr \<Rightarrow> comprehension_source" where
  "split_comprehension_source e =
     (case node_kind (expr_node e) of
        EK_Binary left operator right \<Rightarrow>
          (case (node_kind operator, node_kind (expr_node left)) of
             (BO_In, EK_Variable variable) \<Rightarrow> Comprehension variable right
           | _ \<Rightarrow> Plain_expression e)
      | _ \<Rightarrow> Plain_expression e)"

definition list_singleton_or_comprehension :: "nat \<Rightarrow> nat \<Rightarrow> expr \<Rightarrow> expr panics" where
  "list_singleton_or_comprehension s e expression =
     map_option (\<lambda>sp. mk_expr
         (case split_comprehension_source expression of
            Comprehension variable list \<Rightarrow>
              EK_ListComprehension (ListComprehension variable list None None)
          | Plain_expression plain \<Rightarrow> EK_List [plain]) sp)
       (span_new s e)"

definition list_comprehension_expr ::
  "nat \<Rightarrow> nat \<Rightarrow> expr \<Rightarrow> expr option \<Rightarrow> expr option \<Rightarrow> expr parsed panics" where
  "list_comprehension_expr s e source_expression predicate projection =
     (case split_comprehension_source source_expression of
        Plain_expression _ \<Rightarrow> Some (Inl (user_parse_error s))
      | Comprehension variable list \<Rightarrow>
          map_option (\<lambda>sp. Inr (mk_expr
              (EK_ListComprehension (ListComprehension variable list predicate projection)) sp))
            (span_new s e))"

section \<open>Patterns\<close>

definition query_from_pattern :: "pattern \<Rightarrow> expr option \<Rightarrow> query" where
  "query_from_pattern pattern where_clause =
     (let sp = pattern_span pattern;
          clause = mk_clause (CK_Match (MatchClause False None pattern [] where_clause)) sp;
          head = Node (SingleQueryKind [clause]) sp in
      Node (QU_Regular (RegularQuery head [])) sp)"

text \<open>The query has the extent of its pattern alone: the condition of a \<open>WHERE\<close> after it lies outside.\<close>

lemma subquery_span_without_where:
  "node_span (query_from_pattern pattern (Some condition)) = pattern_span pattern"
  by (simp add: query_from_pattern_def Let_def)

type_synonym relationship_detail =
  "name option \<times> label_expression option \<times> quantifier option \<times> expr option \<times> expr option"

definition relationship_factor ::
  "nat \<Rightarrow> nat \<Rightarrow> relationship_direction \<Rightarrow> relationship_detail option \<Rightarrow> quantifier option \<Rightarrow>
   (expr, path_pattern) path_factor_kind node panics" where
  "relationship_factor s e direction detail outer_quantifier =
     (case (case detail of Some d \<Rightarrow> d | None \<Rightarrow> (None, None, None, None, None)) of
        (variable, labels, inner_quantifier, properties, where_clause) \<Rightarrow>
          map_option (\<lambda>sp. Node (PF_Relationship (RelationshipPattern (Node direction sp) variable labels
              inner_quantifier outer_quantifier properties where_clause)) sp)
            (span_new s e))"

section \<open>Operators associate to the left, and nothing is lost\<close>

text \<open>Reads \<open>n\<close> binary nodes off the left spine.\<close>

fun unfold_binary :: "nat \<Rightarrow> expr \<Rightarrow> (expr \<times> (binary_operator node \<times> expr) list) option" where
  "unfold_binary 0 e = Some (e, [])"
| "unfold_binary (Suc n) e =
     (case node_kind (expr_node e) of
        EK_Binary left operator right \<Rightarrow>
          map_option (\<lambda>(base, tail). (base, tail @ [(operator, right)])) (unfold_binary n left)
      | _ \<Rightarrow> None)"

lemma fold_binary_snoc:
  "fold_binary e (tail @ [(operator, right)]) =
     Option.bind (fold_binary e tail) (\<lambda>left.
       map_option (mk_expr (EK_Binary left operator right))
         (span_cover (expr_span left) (expr_span right)))"
proof (induction tail arbitrary: e)
  case Nil
  then show ?case by (cases "span_cover (expr_span e) (expr_span right)") simp_all
next
  case (Cons p tail)
  then show ?case by (cases p; cases "span_cover (expr_span e) (expr_span (snd p))") simp_all
qed

definition span_hull :: "span \<Rightarrow> span list \<Rightarrow> span" where
  "span_hull s ss = mk_span (fold min (map span_start ss) (span_start s))
     (fold max (map span_end ss) (span_end s))"

lemma span_hull_snoc:
  "span_hull s (ss @ [t]) = mk_span (min (span_start t) (span_start (span_hull s ss)))
     (max (span_end t) (span_end (span_hull s ss)))"
  by (simp add: span_hull_def)

text \<open>
  the fold of a binary tail is total on expressions with proper spans and loses nothing: the left
  spine of the result, read back, is the first operand and the tail in order, each operator with its
  right operand, and the span of the result is the hull of the operands' spans.
\<close>

theorem fold_binary_roundtrip:
  assumes "wf_span (expr_span e)" and "\<forall>(operator, right)\<in>set tail. wf_span (expr_span right)"
  shows "\<exists>result. fold_binary e tail = Some result \<and>
    unfold_binary (length tail) result = Some (e, tail) \<and>
    expr_span result = span_hull (expr_span e) (map (\<lambda>(operator, right). expr_span right) tail) \<and>
    wf_span (expr_span result)"
  using assms(2)
proof (induction tail rule: rev_induct)
  case Nil
  then show ?case using assms(1) by (auto simp: span_hull_def intro: span.equality)
next
  case (snoc p tail)
  obtain operator right where p: "p = (operator, right)" by (cases p)
  from snoc obtain left where left: "fold_binary e tail = Some left"
    "unfold_binary (length tail) left = Some (e, tail)"
    "expr_span left = span_hull (expr_span e) (map (\<lambda>(operator, right). expr_span right) tail)"
    "wf_span (expr_span left)" by auto
  let ?sp = "mk_span (min (span_start (expr_span left)) (span_start (expr_span right)))
      (max (span_end (expr_span left)) (span_end (expr_span right)))"
  have cover: "span_cover (expr_span left) (expr_span right) = Some ?sp"
    using left(4) by (simp add: span_cover_Some)
  have "wf_span ?sp" using left(4) by (auto simp: wf_span_def)
  with left cover p show ?case
    by (simp add: fold_binary_snoc span_hull_snoc min.commute max.commute)
qed

lemma fold_binary_roundtrip_witness:
  "\<exists>result. fold_binary (mk_expr EK_Wildcard (mk_span 0 1))
      [(Node BO_Add (mk_span 2 3), mk_expr EK_Wildcard (mk_span 4 5))] = Some result \<and>
    expr_span result = mk_span 0 5"
proof -
  let ?tail = "[(Node BO_Add (mk_span 2 3), mk_expr EK_Wildcard (mk_span 4 5))]"
  have "wf_span (expr_span (mk_expr EK_Wildcard (mk_span 0 1)))"
    "\<forall>(operator, right)\<in>set ?tail. wf_span (expr_span right)" by (simp_all add: wf_span_def)
  from fold_binary_roundtrip [OF this] show ?thesis by (auto simp: span_hull_def)
qed

text \<open>
  \<open>[x IN xs]\<close> is a list comprehension and every other single element a list of one: the shape
  is decided by the element alone, and the comprehension takes the variable and the list from it.
\<close>

theorem list_singleton_or_comprehension_spec:
  "(\<exists>result sp. list_singleton_or_comprehension s e expression = Some (mk_expr result sp) \<and>
      span_start sp = s \<and> span_end sp = e \<and>
      (case result of
         EK_ListComprehension c \<Rightarrow> lc_predicate c = None \<and> lc_projection c = None \<and>
           (\<exists>vs os. node_kind (expr_node expression) =
              EK_Binary (mk_expr (EK_Variable (lc_variable c)) vs) (Node BO_In os) (lc_list c))
       | EK_List es \<Rightarrow> es = [expression] \<and>
           (\<nexists>v vs os right. node_kind (expr_node expression) =
              EK_Binary (mk_expr (EK_Variable v) vs) (Node BO_In os) right)
       | _ \<Rightarrow> False)) \<longleftrightarrow> s \<le> e"
proof
  assume "s \<le> e"
  show "\<exists>result sp. list_singleton_or_comprehension s e expression = Some (mk_expr result sp) \<and>
      span_start sp = s \<and> span_end sp = e \<and>
      (case result of
         EK_ListComprehension c \<Rightarrow> lc_predicate c = None \<and> lc_projection c = None \<and>
           (\<exists>vs os. node_kind (expr_node expression) =
              EK_Binary (mk_expr (EK_Variable (lc_variable c)) vs) (Node BO_In os) (lc_list c))
       | EK_List es \<Rightarrow> es = [expression] \<and>
           (\<nexists>v vs os right. node_kind (expr_node expression) =
              EK_Binary (mk_expr (EK_Variable v) vs) (Node BO_In os) right)
       | _ \<Rightarrow> False)"
  proof (cases "\<exists>v vs os right. node_kind (expr_node expression) =
      EK_Binary (mk_expr (EK_Variable v) vs) (Node BO_In os) right")
    case True
    then obtain v vs os right where k: "node_kind (expr_node expression) =
      EK_Binary (mk_expr (EK_Variable v) vs) (Node BO_In os) right" by blast
    then have "split_comprehension_source expression = Comprehension v right"
      by (simp add: split_comprehension_source_def)
    with k \<open>s \<le> e\<close> show ?thesis
      by (intro exI [of _ "EK_ListComprehension (ListComprehension v right None None)"]
          exI [of _ "mk_span s e"]) (auto simp: list_singleton_or_comprehension_def)
  next
    case False
    have "split_comprehension_source expression = Plain_expression expression"
    proof (cases "node_kind (expr_node expression)")
      case (EK_Binary left operator right)
      show ?thesis
      proof (cases "node_kind operator = BO_In \<and> (\<exists>v. node_kind (expr_node left) = EK_Variable v)")
        case True
        then obtain v where v: "node_kind operator = BO_In" "node_kind (expr_node left) = EK_Variable v"
          by blast
        then have "left = mk_expr (EK_Variable v) (expr_span left)" "operator = Node BO_In (node_span operator)"
          by (cases left; cases "expr_node left"; simp add: mk_expr_def expr_span_def)
            (use v in \<open>cases operator; simp\<close>)
        with EK_Binary False show ?thesis by metis
      next
        case no: False
        with EK_Binary show ?thesis
          by (auto simp: split_comprehension_source_def split: binary_operator.splits expr_kind.splits)
      qed
    qed (simp_all add: split_comprehension_source_def)
    with False \<open>s \<le> e\<close> show ?thesis
      by (intro exI [of _ "EK_List [expression]"] exI [of _ "mk_span s e"])
        (simp add: list_singleton_or_comprehension_def)
  qed
next
  assume "\<exists>result sp. list_singleton_or_comprehension s e expression = Some (mk_expr result sp) \<and>
      span_start sp = s \<and> span_end sp = e \<and>
      (case result of
         EK_ListComprehension c \<Rightarrow> lc_predicate c = None \<and> lc_projection c = None \<and>
           (\<exists>vs os. node_kind (expr_node expression) =
              EK_Binary (mk_expr (EK_Variable (lc_variable c)) vs) (Node BO_In os) (lc_list c))
       | EK_List es \<Rightarrow> es = [expression] \<and>
           (\<nexists>v vs os right. node_kind (expr_node expression) =
              EK_Binary (mk_expr (EK_Variable v) vs) (Node BO_In os) right)
       | _ \<Rightarrow> False)"
  then obtain result sp where "list_singleton_or_comprehension s e expression = Some (mk_expr result sp)"
    by blast
  then show "s \<le> e"
    by (auto simp: list_singleton_or_comprehension_def dest: span_new_SomeD)
qed

end
