(* ===== verification/Fragments.thy ===== *)
theory Fragments
  imports Queries Literals Folds Logos_Engine
begin

text \<open>
  The nested fragments of \<open>src/parser.rs\<close>: a parser token that stands for a pattern comprehension, a
  pattern expression or a label expression is lexed again from the source and parsed on its own.
  Each function is a lexer run, a cut into tokens with \<open>nested_parser_tokens\<close>, and calls of the
  generated fragment parsers.
\<close>

section \<open>Searching tokens\<close>

fun pipe_candidates_from :: "nat \<Rightarrow> nat \<Rightarrow> nat \<Rightarrow> nat \<Rightarrow> token list \<Rightarrow> nat list" where
  "pipe_candidates_from nb np nc index [] = []"
| "pipe_candidates_from nb np nc index (t # ts) =
     (let k = token_kind t in
      if token_is_trivia t then pipe_candidates_from nb np nc (index + 1) ts
      else if k = T_LeftBracket then pipe_candidates_from (nb + 1) np nc (index + 1) ts
      else if k = T_RightBracket then pipe_candidates_from (nb - 1) np nc (index + 1) ts
      else if k = T_LeftParen then pipe_candidates_from nb (np + 1) nc (index + 1) ts
      else if k = T_RightParen then pipe_candidates_from nb (np - 1) nc (index + 1) ts
      else if k = T_LeftBrace then pipe_candidates_from nb np (nc + 1) (index + 1) ts
      else if k = T_RightBrace then pipe_candidates_from nb np (nc - 1) (index + 1) ts
      else if k = T_Pipe \<and> nb = 1 \<and> np = 0 \<and> nc = 0
        then index # pipe_candidates_from nb np nc (index + 1) ts
      else pipe_candidates_from nb np nc (index + 1) ts)"

definition top_level_pipe_candidates :: "token list \<Rightarrow> nat list" where
  "top_level_pipe_candidates tokens = pipe_candidates_from 0 0 0 0 tokens"

text \<open>The saturating depth counters of parentheses, brackets and braces.\<close>

definition bracket_step :: "parser_token \<Rightarrow> nat \<times> nat \<times> nat \<Rightarrow> nat \<times> nat \<times> nat" where
  "bracket_step k depths = (case depths of (np, nb, nc) \<Rightarrow>
     if k = P_LeftParen then (np + 1, nb, nc)
     else if k = P_RightParen then (np - 1, nb, nc)
     else if k = P_LeftBracket then (np, nb + 1, nc)
     else if k = P_RightBracket then (np, nb - 1, nc)
     else if k = P_LeftBrace then (np, nb, nc + 1)
     else if k = P_RightBrace then (np, nb, nc - 1)
     else (np, nb, nc))"

fun find_top_level_from ::
  "parser_token \<Rightarrow> nat \<times> nat \<times> nat \<Rightarrow> nat \<Rightarrow> spanned list \<Rightarrow> nat option" where
  "find_top_level_from needle depths index [] = None"
| "find_top_level_from needle depths index (t # ts) =
     (if depths = (0, 0, 0) \<and> tok_kind t = needle then Some index
      else find_top_level_from needle (bracket_step (tok_kind t) depths) (index + 1) ts)"

definition find_top_level_token ::
  "spanned list \<Rightarrow> nat \<Rightarrow> nat \<Rightarrow> parser_token \<Rightarrow> nat option" where
  "find_top_level_token ts start e needle =
     find_top_level_from needle (0, 0, 0) start (drop start (take e ts))"

definition is_name_token :: "parser_token \<Rightarrow> bool" where
  "is_name_token t = (t \<in> {P_Identifier, P_EscapedIdentifier, P_Match, P_Path, P_Return})"

lemma find_top_level_from_bound:
  "find_top_level_from needle depths index ts = Some i \<Longrightarrow>
     index \<le> i \<and> i < index + length ts \<and> tok_kind (ts ! (i - index)) = needle"
proof (induction needle depths index ts rule: find_top_level_from.induct)
  case (2 needle depths index t ts)
  show ?case
  proof (cases "depths = (0, 0, 0) \<and> tok_kind t = needle")
    case True
    with "2.prems" show ?thesis by simp
  next
    case False
    with "2.prems" have "find_top_level_from needle (bracket_step (tok_kind t) depths) (index + 1) ts = Some i"
      by (simp split: if_splits)
    from "2.IH" [OF False this] have "index + 1 \<le> i" "i < index + 1 + length ts"
      "tok_kind (ts ! (i - (index + 1))) = needle" by simp_all
    moreover from this(1) have "i - index = Suc (i - (index + 1))" by linarith
    ultimately show ?thesis by simp
  qed
qed simp

lemma find_top_level_token_bound:
  assumes "find_top_level_token ts start e needle = Some i"
  shows "start \<le> i \<and> i < e \<and> i < length ts \<and> tok_kind (ts ! i) = needle"
proof -
  from find_top_level_from_bound [OF assms [unfolded find_top_level_token_def]] have
    i: "start \<le> i" "i < start + length (drop start (take e ts))"
      "tok_kind (drop start (take e ts) ! (i - start)) = needle" by auto
  then have "i < length (take e ts)" by auto
  then have "i < e" "i < length ts" by auto
  moreover from i \<open>i < length (take e ts)\<close> have "drop start (take e ts) ! (i - start) = ts ! i" by simp
  ultimately show ?thesis using i by simp
qed

section \<open>Comprehensions and patterns\<close>

text \<open>\<open>iter().position\<close> and \<open>iter().rposition\<close>.\<close>

definition first_index :: "(spanned \<Rightarrow> bool) \<Rightarrow> spanned list \<Rightarrow> nat option" where
  "first_index p ts = find (\<lambda>i. p (ts ! i)) [0..<length ts]"

definition last_index :: "(spanned \<Rightarrow> bool) \<Rightarrow> spanned list \<Rightarrow> nat option" where
  "last_index p ts = find (\<lambda>i. p (ts ! i)) (rev [0..<length ts])"

definition parse_pattern_fragment :: "grammar \<Rightarrow> ustr \<Rightarrow> spanned list \<Rightarrow> pattern parsed" where
  "parse_pattern_fragment g source = parse_tokens_with_contextual_names (pattern_fragment g source)"

definition parse_expr_fragment :: "grammar \<Rightarrow> ustr \<Rightarrow> spanned list \<Rightarrow> expr parsed" where
  "parse_expr_fragment g source = parse_tokens_with_contextual_names (expr_fragment g source)"

text \<open>\<open>&tokens[a..b]\<close>, which panics out of range.\<close>

definition slice_range :: "'a list \<Rightarrow> nat \<Rightarrow> nat \<Rightarrow> 'a list panics" where
  "slice_range ts a b = (if a \<le> b \<and> b \<le> length ts then Some (slice ts a b) else None)"

definition user_error :: "nat \<Rightarrow> 'a parsed panics" where
  "user_error location = Some (Inl (user_parse_error location))"

text \<open>The binding of \<open>[p = (a)-->(b) | e]\<close>, and where the pattern starts.\<close>

definition comprehension_binding ::
  "ustr \<Rightarrow> spanned list \<Rightarrow> nat \<Rightarrow> nat \<Rightarrow> (name option \<times> nat) panics" where
  "comprehension_binding source ts pattern_start pipe =
     (if pattern_start + 1 < pipe then
        Option.bind (slice_get ts (pattern_start + 1)) (\<lambda>next.
        Option.bind (slice_get ts pattern_start) (\<lambda>t.
          if tok_kind next = P_Equal \<and>
             (is_name_token (tok_kind t) \<or> is_contextual_name_candidate (tok_kind t))
          then map_option (\<lambda>name. (Some name, pattern_start + 2))
            (make_name source (tok_start t) (tok_end t) (tok_kind t = P_EscapedIdentifier))
          else Some (None, pattern_start)))
      else Some (None, pattern_start))"

definition user_error_at :: "spanned list \<Rightarrow> nat \<Rightarrow> 'a parsed panics" where
  "user_error_at ts i = Option.bind (slice_get ts i) (\<lambda>t. user_error (tok_start t))"

text \<open>The optional \<open>WHERE\<close> between the pattern and the pipe.\<close>

definition comprehension_predicate ::
  "grammar \<Rightarrow> ustr \<Rightarrow> spanned list \<Rightarrow> nat option \<Rightarrow> nat \<Rightarrow> expr option parsed panics" where
  "comprehension_predicate g source ts where_index pipe =
     (case where_index of
        None \<Rightarrow> Some (Inr None)
      | Some index \<Rightarrow>
          if index + 1 < pipe
          then map_option (\<lambda>ws. map_sum id Some (parse_expr_fragment g source ws))
            (slice_range ts (index + 1) pipe)
          else user_error_at ts pipe)"

text \<open>The part after the binding: pattern, predicate and projection, in the order of the code.\<close>

definition comprehension_body ::
  "grammar \<Rightarrow> ustr \<Rightarrow> nat \<Rightarrow> nat \<Rightarrow> spanned list \<Rightarrow> nat \<Rightarrow> nat \<Rightarrow> name option \<Rightarrow> nat \<Rightarrow>
     expr parsed panics" where
  "comprehension_body g source start e ts outer_end pipe binding pattern_start =
     (let where_index = find_top_level_token ts pattern_start pipe P_Where;
          pattern_end = (case where_index of Some i \<Rightarrow> i | None \<Rightarrow> pipe) in
      if pattern_end \<le> pattern_start then user_error_at ts pattern_end
      else if outer_end \<le> pipe + 1 then user_error_at ts outer_end
      else
        Option.bind (slice_range ts pattern_start pattern_end) (\<lambda>ps.
        (case parse_pattern_fragment g source ps of
           Inl error \<Rightarrow> Some (Inl error)
         | Inr pattern \<Rightarrow>
        Option.bind (comprehension_predicate g source ts where_index pipe) (\<lambda>r.
        (case r of
           Inl error \<Rightarrow> Some (Inl error)
         | Inr predicate \<Rightarrow>
        Option.bind (slice_range ts (pipe + 1) outer_end) (\<lambda>xs.
        (case parse_expr_fragment g source xs of
           Inl error \<Rightarrow> Some (Inl error)
         | Inr projection \<Rightarrow>
             map_option (\<lambda>sp. Inr (mk_expr (EK_PatternComprehension
                 (PatternComprehension binding pattern predicate projection)) sp))
               (span_new start e))))))))"

definition parse_comprehension_tokens ::
  "grammar \<Rightarrow> ustr \<Rightarrow> nat \<Rightarrow> nat \<Rightarrow> spanned list \<Rightarrow> expr parsed panics" where
  "parse_comprehension_tokens g source start e ts =
     (case first_index (\<lambda>t. tok_start t = start \<and> tok_kind t = P_LeftBracket) ts of
        None \<Rightarrow> user_error start
      | Some outer_start \<Rightarrow>
     (case last_index (\<lambda>t. tok_end t = e \<and> tok_kind t = P_RightBracket) ts of
        None \<Rightarrow> user_error start
      | Some outer_end \<Rightarrow>
     (case find_top_level_token ts (outer_start + 1) outer_end P_Pipe of
        None \<Rightarrow> user_error start
      | Some pipe \<Rightarrow>
     Option.bind (comprehension_binding source ts (outer_start + 1) pipe)
       (\<lambda>(binding, pattern_start).
          comprehension_body g source start e ts outer_end pipe binding pattern_start))))"

text \<open>The loop over the pipes: the first success wins, else the farthest error.\<close>

fun try_pipes ::
  "grammar \<Rightarrow> ustr \<Rightarrow> nat \<Rightarrow> nat \<Rightarrow> token list \<Rightarrow> nat list \<Rightarrow> lalrpop_error option \<Rightarrow> expr parsed panics" where
  "try_pipes g source start e tokens [] best =
     Some (Inl (case best of Some error \<Rightarrow> error | None \<Rightarrow> user_parse_error start))"
| "try_pipes g source start e tokens (pipe # pipes) best =
     Option.bind (nested_parser_tokens tokens start (Some pipe)) (\<lambda>ts.
     Option.bind (parse_comprehension_tokens g source start e ts) (\<lambda>result.
       (case result of
          Inr expression \<Rightarrow> Some (Inr expression)
        | Inl error \<Rightarrow>
            try_pipes g source start e tokens pipes (retain_farthest_error best error))))"

definition pattern_comprehension ::
  "engine \<Rightarrow> grammar \<Rightarrow> ustr \<Rightarrow> nat \<Rightarrow> nat \<Rightarrow> expr parsed panics" where
  "pattern_comprehension engine g source start e =
     (case str_get source start e of
        None \<Rightarrow> user_error start
      | Some fragment \<Rightarrow>
          Option.bind (lex engine fragment) (\<lambda>lexed.
            if lex_diagnostics lexed \<noteq> [] then user_error start
            else try_pipes g source start e (lex_tokens lexed)
              (top_level_pipe_candidates (lex_tokens lexed)) None))"

definition pattern_expression ::
  "engine \<Rightarrow> grammar \<Rightarrow> ustr \<Rightarrow> nat \<Rightarrow> nat \<Rightarrow> expr parsed panics" where
  "pattern_expression engine g source start e =
     (case str_get source start e of
        None \<Rightarrow> user_error start
      | Some fragment \<Rightarrow>
          Option.bind (lex engine fragment) (\<lambda>lexed.
            if lex_diagnostics lexed \<noteq> [] then user_error start
            else
              Option.bind (nested_parser_tokens (lex_tokens lexed) start None) (\<lambda>ts.
                (case parse_pattern_fragment g source ts of
                   Inl error \<Rightarrow> Some (Inl error)
                 | Inr pattern \<Rightarrow>
                     map_option (\<lambda>sp. Inr (mk_expr (EK_Pattern pattern) sp)) (span_new start e)))))"

section \<open>Label expressions\<close>

definition is_label_name :: "parser_token \<Rightarrow> bool" where
  "is_label_name t = (is_name_token t \<or> is_contextual_name_candidate t)"

text \<open>The loop over the kinds after the first name: separator and name, again and again.\<close>

fun legacy_label_tail :: "bool \<Rightarrow> parser_token list \<Rightarrow> bool" where
  "legacy_label_tail pipe_separated [] = True"
| "legacy_label_tail True (a # b # c # rest) =
     (a = P_Pipe \<and> b = P_Colon \<and> is_label_name c \<and> legacy_label_tail True rest)"
| "legacy_label_tail False (a # c # rest) =
     (a = P_Colon \<and> is_label_name c \<and> legacy_label_tail False rest)"
| "legacy_label_tail pipe_separated rest = False"

definition legacy_label_tokens_are_consistent :: "spanned list \<Rightarrow> bool" where
  "legacy_label_tokens_are_consistent ts =
     (if \<not> list_ex (\<lambda>t. tok_kind t = P_Colon) (drop 1 ts) then True
      else if ptok_at ts 0 \<noteq> Some P_Colon then False
      else if \<not> is_some_and (ptok_at ts 1) is_label_name then False
      else legacy_label_tail (ptok_at ts 2 = Some P_Pipe) (map tok_kind (drop 2 ts)))"

fun normalize_label_tokens :: "bool \<Rightarrow> nat \<Rightarrow> spanned list \<Rightarrow> spanned list \<Rightarrow> spanned list" where
  "normalize_label_tokens legacy index normalized [] = normalized"
| "normalize_label_tokens legacy index normalized (t # ts) =
     (if legacy \<and> tok_kind t = P_Colon \<and> normalized \<noteq> [] \<and> tok_kind (last normalized) = P_Pipe
      then normalize_label_tokens legacy (index + 1) normalized ts
      else normalize_label_tokens legacy (index + 1)
        (normalized @ [if 0 < index \<and> is_contextual_name_candidate (tok_kind t) then as_name t else t])
        ts)"

definition parse_label_expression ::
  "engine \<Rightarrow> grammar \<Rightarrow> ustr \<Rightarrow> nat \<Rightarrow> nat \<Rightarrow> bool \<Rightarrow> label_expression parsed panics" where
  "parse_label_expression engine g source start e legacy =
     (case str_get source start e of
        None \<Rightarrow> user_error start
      | Some fragment \<Rightarrow>
          Option.bind (lex engine fragment) (\<lambda>lexed.
            if lex_diagnostics lexed \<noteq> [] then user_error start
            else
              Option.bind (those (map (\<lambda>t. map_option (\<lambda>k.
                    (start + span_start (token_span t), k, start + span_end (token_span t)))
                  (ptok_from (token_kind t))) (significant (lex_tokens lexed)))) (\<lambda>ts.
                if legacy \<and> \<not> legacy_label_tokens_are_consistent ts then user_error start
                else Some (label_predicate_fragment g source
                  (normalize_label_tokens legacy 0 [] ts)))))"

definition label_comparison_suffix ::
  "engine \<Rightarrow> grammar \<Rightarrow> ustr \<Rightarrow> nat \<Rightarrow> nat \<Rightarrow> comparison_suffix parsed panics" where
  "label_comparison_suffix engine g source start e =
     map_option (map_sum id (\<lambda>labels. CS_Is False (IP_Label labels) e))
       (parse_label_expression engine g source start e True)"

definition relationship_label_expression ::
  "engine \<Rightarrow> grammar \<Rightarrow> ustr \<Rightarrow> nat \<Rightarrow> nat \<Rightarrow> label_expression parsed panics" where
  "relationship_label_expression engine g source start e =
     parse_label_expression engine g source start e True"

section \<open>The legacy label syntax\<close>

text \<open>Names, each after the separator.\<close>

definition separated :: "parser_token list \<Rightarrow> parser_token list \<Rightarrow> parser_token list" where
  "separated between names = concat (map (\<lambda>n. between @ [n]) names)"

lemma legacy_label_tail_iff:
  "legacy_label_tail pipe_separated kinds \<longleftrightarrow>
     (\<exists>names. list_all is_label_name names \<and>
        kinds = separated (if pipe_separated then [P_Pipe, P_Colon] else [P_Colon]) names)"
    (is "?lhs \<longleftrightarrow> ?rhs")
proof
  show "?lhs \<Longrightarrow> ?rhs"
  proof (induction pipe_separated kinds rule: legacy_label_tail.induct)
    case (1 pipe_separated)
    then show ?case by (intro exI [of _ "[]"]) (simp add: separated_def)
  next
    case (2 a b c rest)
    then obtain names where "list_all is_label_name names" "rest = separated [P_Pipe, P_Colon] names"
      by auto
    with 2 show ?case by (intro exI [of _ "c # names"]) (simp add: separated_def)
  next
    case (3 a c rest)
    then obtain names where "list_all is_label_name names" "rest = separated [P_Colon] names"
      by auto
    with 3 show ?case by (intro exI [of _ "c # names"]) (simp add: separated_def)
  qed simp_all
  have "legacy_label_tail pipe_separated
      (separated (if pipe_separated then [P_Pipe, P_Colon] else [P_Colon]) names)"
    if "list_all is_label_name names" for names
    using that by (induction names) (cases pipe_separated; simp add: separated_def)+
  then show "?rhs \<Longrightarrow> ?lhs" by blast
qed

text \<open>
  which legacy relationship labels are accepted. A label expression without a second colon always
  passes; with one it passes exactly when it is a colon and a name followed by names that are all
  separated by \<open>|:\<close> or all by \<open>:\<close>, so the two legacy forms cannot be mixed.
\<close>

theorem legacy_labels_spec:
  "legacy_label_tokens_are_consistent ts \<longleftrightarrow>
     P_Colon \<notin> set (map tok_kind (drop 1 ts)) \<or>
     (\<exists>first names. is_label_name first \<and> list_all is_label_name names \<and>
        (map tok_kind ts = P_Colon # first # separated [P_Pipe, P_Colon] names \<or>
         map tok_kind ts = P_Colon # first # separated [P_Colon] names))"
proof (cases "list_ex (\<lambda>t. tok_kind t = P_Colon) (drop 1 ts)")
  case False
  then have "P_Colon \<notin> set (map tok_kind (drop 1 ts))" by (auto simp: list_ex_iff)
  with False show ?thesis by (simp add: legacy_label_tokens_are_consistent_def)
next
  case True
  then have colon: "P_Colon \<in> set (map tok_kind (drop 1 ts))" by (force simp: list_ex_iff)
  from True obtain t0 t1 ts' where ts: "ts = t0 # t1 # ts'"
    by (cases ts; cases "tl ts") auto
  have sep: "separated [P_Pipe, P_Colon] names \<noteq> [] \<longleftrightarrow> names \<noteq> []"
    "separated [P_Colon] names \<noteq> [] \<longleftrightarrow> names \<noteq> []"
    "names \<noteq> [] \<Longrightarrow> hd (separated [P_Pipe, P_Colon] names) = P_Pipe"
    "names \<noteq> [] \<Longrightarrow> hd (separated [P_Colon] names) = P_Colon" for names
    by (cases names; simp add: separated_def)+
  have two: "ptok_at ts 2 = Some P_Pipe \<longleftrightarrow> ts' \<noteq> [] \<and> hd (map tok_kind ts') = P_Pipe"
    by (cases ts') (simp_all add: ts ptok_at_def numeral_2_eq_2)
  have "legacy_label_tokens_are_consistent ts \<longleftrightarrow> tok_kind t0 = P_Colon \<and> is_label_name (tok_kind t1) \<and>
      legacy_label_tail (ptok_at ts 2 = Some P_Pipe) (map tok_kind ts')"
    using True by (simp add: legacy_label_tokens_are_consistent_def ts ptok_at_def numeral_2_eq_2)
  also have "\<dots> \<longleftrightarrow> (\<exists>first names. is_label_name first \<and> list_all is_label_name names \<and>
        (map tok_kind ts = P_Colon # first # separated [P_Pipe, P_Colon] names \<or>
         map tok_kind ts = P_Colon # first # separated [P_Colon] names))"
  proof (cases "ptok_at ts 2 = Some P_Pipe")
    case True
    with two have "map tok_kind ts' \<noteq> separated [P_Colon] names" for names
      using sep(2,4) [of names] by (cases "names = []") auto
    with True show ?thesis by (auto simp: legacy_label_tail_iff ts)
  next
    case no: False
    have "map tok_kind ts' = separated [P_Pipe, P_Colon] names \<Longrightarrow> names = []" for names
      using sep(1,3) [of names] no two by (cases "names = []") auto
    moreover have "separated s [] = []" for s by (simp add: separated_def)
    ultimately show ?thesis using no by (auto simp: legacy_label_tail_iff ts) metis
  qed
  finally show ?thesis using colon by (simp only: not_not simp_thms)
qed

lemma legacy_labels_spec_witness:
  "legacy_label_tokens_are_consistent
     [(0, P_Colon, 1), (1, P_Identifier, 2), (2, P_Pipe, 3), (3, P_Colon, 4), (4, P_Identifier, 5)]"
  unfolding legacy_labels_spec
  by (intro disjI2 exI [of _ P_Identifier] exI [of _ "[P_Identifier]"])
    (simp add: separated_def is_label_name_def is_name_token_def)

section \<open>The fragments do not panic\<close>

text \<open>A token whose span is a slice of the source.\<close>

definition spanned_ok :: "ustr \<Rightarrow> spanned \<Rightarrow> bool" where
  "spanned_ok source t = (tok_start t \<le> tok_end t \<and>
     is_char_boundary source (tok_start t) \<and> is_char_boundary source (tok_end t))"

lemma make_name_ok:
  assumes "spanned_ok source t"
  shows "\<exists>n. make_name source (tok_start t) (tok_end t) escaped = Some n"
proof -
  from assms obtain raw where "str_get source (tok_start t) (tok_end t) = Some raw"
    using str_get_is_Some_iff [of source "tok_start t" "tok_end t"] by (auto simp: spanned_ok_def)
  with assms show ?thesis by (simp add: make_name_def span_new_def spanned_ok_def)
qed

lemma find_index_bound:
  "find p xs = Some i \<Longrightarrow> set xs \<subseteq> {..<n} \<Longrightarrow> i < (n::nat) \<and> p i"
  by (auto simp: find_Some_iff) (metis in_mono lessThan_iff nth_mem)

lemma last_index_bound: "last_index p ts = Some i \<Longrightarrow> i < length ts \<and> p (ts ! i)"
  unfolding last_index_def by (drule find_index_bound [of _ _ _ "length ts"]) auto

lemma slice_range_in: "a \<le> b \<Longrightarrow> b \<le> length ts \<Longrightarrow> slice_range ts a b = Some (slice ts a b)"
  by (simp add: slice_range_def)

lemma user_error_at_in: "i < length ts \<Longrightarrow> user_error_at ts i = user_error (tok_start (ts ! i))"
  by (simp add: user_error_at_def slice_get_def)

lemma comprehension_binding_total:
  assumes "list_all (spanned_ok source) ts" and "pipe < length ts"
  shows "\<exists>binding pattern_start. comprehension_binding source ts start pipe = Some (binding, pattern_start) \<and>
    pattern_start \<le> max start pipe"
proof -
  have named: "\<exists>n. make_name source (tok_start (ts ! start)) (tok_end (ts ! start)) escaped = Some n"
    if "start + 1 < pipe" for escaped
    using that assms by (intro make_name_ok) (simp add: list_all_length)
  show ?thesis
  proof (cases "start + 1 < pipe")
    case True
    then obtain n where "make_name source (tok_start (ts ! start)) (tok_end (ts ! start))
        (tok_kind (ts ! start) = P_EscapedIdentifier) = Some n"
      using named by blast
    with True assms(2) show ?thesis by (auto simp: comprehension_binding_def slice_get_def)
  qed (simp add: comprehension_binding_def)
qed

lemma comprehension_body_total:
  assumes "start \<le> e" and "pipe < outer_end" and "outer_end < length ts" and "pattern_start \<le> pipe"
  shows "\<exists>r. comprehension_body g source start e ts outer_end pipe binding pattern_start = Some r \<and>
    (\<forall>x. r = Inr x \<longrightarrow> (\<exists>pattern predicate projection. x = mk_expr (EK_PatternComprehension
        (PatternComprehension binding pattern predicate projection)) (mk_span start e)))"
proof -
  define w where "w = find_top_level_token ts pattern_start pipe P_Where"
  define pattern_end where "pattern_end = (case w of Some i \<Rightarrow> i | None \<Rightarrow> pipe)"
  have w: "i < pipe" if "w = Some i" for i
    using find_top_level_token_bound that by (auto simp: w_def)
  then have pe: "pattern_end \<le> pipe" by (auto simp: pattern_end_def split: option.splits)
  have pred: "\<exists>r. comprehension_predicate g source ts w pipe = Some r"
    using assms(2,3) by (auto simp: comprehension_predicate_def slice_range_in user_error_at_in
        user_error_def split: option.splits)
  then obtain r where r: "comprehension_predicate g source ts w pipe = Some r" ..
  show ?thesis
    unfolding comprehension_body_def Let_def w_def [symmetric] pattern_end_def [symmetric]
    using assms pe
    by (auto simp: slice_range_in user_error_at_in user_error_def r span_new_def split: sum.splits)
qed

lemma parse_comprehension_tokens_total:
  assumes "start \<le> e" and "list_all (spanned_ok source) ts"
  shows "\<exists>r. parse_comprehension_tokens g source start e ts = Some r \<and>
    (\<forall>x. r = Inr x \<longrightarrow> (\<exists>binding pattern predicate projection. x = mk_expr (EK_PatternComprehension
        (PatternComprehension binding pattern predicate projection)) (mk_span start e)))"
proof -
  let ?first = "first_index (\<lambda>t. tok_start t = start \<and> tok_kind t = P_LeftBracket) ts"
  let ?last = "last_index (\<lambda>t. tok_end t = e \<and> tok_kind t = P_RightBracket) ts"
  consider "?first = None \<or> ?last = None"
    | a b where "?first = Some a" "?last = Some b" "find_top_level_token ts (a + 1) b P_Pipe = None"
    | outer_start outer_end pipe where "?first = Some outer_start" "?last = Some outer_end"
        "find_top_level_token ts (outer_start + 1) outer_end P_Pipe = Some pipe"
    by fastforce
  then show ?thesis
  proof cases
    case 1
    then show ?thesis
      by (cases ?first) (simp_all add: parse_comprehension_tokens_def user_error_def split: option.splits)
  next
    case (2 a b)
    then show ?thesis by (simp add: parse_comprehension_tokens_def user_error_def)
  next
    case (3 outer_start outer_end pipe)
    from last_index_bound [OF 3(2)] find_top_level_token_bound [OF 3(3)]
    have *: "outer_end < length ts" "outer_start + 1 \<le> pipe" "pipe < outer_end" "pipe < length ts"
      by auto
    from comprehension_binding_total [OF assms(2) *(4), of "outer_start + 1"] *(2)
    obtain binding pattern_start where binding:
      "comprehension_binding source ts (outer_start + 1) pipe = Some (binding, pattern_start)"
      "pattern_start \<le> pipe" by auto
    have "parse_comprehension_tokens g source start e ts =
        comprehension_body g source start e ts outer_end pipe binding pattern_start"
      using 3 binding(1) by (simp add: parse_comprehension_tokens_def)
    with comprehension_body_total [OF assms(1) *(3,1) binding(2)] show ?thesis by metis
  qed
qed

text \<open>The tokens of a fragment, shifted into the source.\<close>

lemma str_get_boundary:
  assumes "str_get source start e = Some fragment" and "is_char_boundary fragment n"
  shows "is_char_boundary source (start + n)"
proof -
  from assms(1) obtain p q where s: "source = p @ fragment @ q" "byte_len p = start"
    by (auto simp: str_get_Some_iff)
  from assms(2) obtain a b where f: "fragment = a @ b" "byte_len a = n"
    by (auto simp: is_char_boundary_iff)
  have "source = (p @ a) @ (b @ q)" using s f by simp
  then show ?thesis using s(2) f(2) by (metis byte_len_append is_char_boundary_append)
qed

lemma lex_boundaries:
  assumes "raw_engine engine" and "lex engine fragment = Some lexed" and "t \<in> set (lex_tokens lexed)"
  shows "wf_span (token_span t) \<and> is_char_boundary fragment (span_start (token_span t)) \<and>
    is_char_boundary fragment (span_end (token_span t))"
proof -
  from lex_result [OF assms(1), of fragment] assms(2) obtain texts where
    tiling: "tiles 0 (map token_span (lex_tokens lexed)) (byte_len fragment)" and
    texts: "those (map (\<lambda>t. token_text t fragment) (lex_tokens lexed)) = Some texts" by auto
  have "\<exists>x. f t = Some x" if "those (map f ts) = Some ys" "t \<in> set ts" for f :: "token \<Rightarrow> ustr option" and ts ys
    using that by (induction ts arbitrary: ys) (auto split: option.splits)
  from this [OF texts assms(3)] have
    "\<exists>x. str_get fragment (span_start (token_span t)) (span_end (token_span t)) = Some x"
    by (auto simp: token_text_def span_text_def)
  then show ?thesis using str_get_is_Some_iff by (simp add: wf_span_def)
qed

text \<open>\<open>nested_parser_tokens_cover\<close> for a lexed fragment: every token is a slice of the source.\<close>

lemma nested_tokens_ok:
  assumes "raw_engine engine" and "str_get source start e = Some fragment"
    and "lex engine fragment = Some lexed"
    and "\<And>raw. reserved = Some raw \<Longrightarrow> raw \<le> length (lex_tokens lexed)"
  shows "\<exists>ts. nested_parser_tokens (lex_tokens lexed) start reserved = Some ts \<and>
    list_all (spanned_ok source) ts"
proof -
  from nested_tokens_runs [OF assms(4)] obtain out runs where
    out: "nested_parser_tokens (lex_tokens lexed) start reserved = Some out"
      "concat runs = significant (lex_tokens lexed)" "list_all2 (run_of start) runs out"
    by blast
  from lex_result [OF assms(1), of fragment] assms(3) have
    "tiles 0 (map token_span (lex_tokens lexed)) (byte_len fragment)" by auto
  then have "sorted_wrt (\<lambda>s t. span_end (token_span s) \<le> span_start (token_span t)) (lex_tokens lexed)"
    using tiles_sorted by (fastforce simp: sorted_wrt_map)
  then have sorted: "sorted_wrt (\<lambda>s t. span_end (token_span s) \<le> span_start (token_span t)) (concat runs)"
    by (simp add: out(2) significant_def sorted_wrt_filter)
  have wf: "wf_span (token_span t) \<and> is_char_boundary fragment (span_start (token_span t)) \<and>
      is_char_boundary fragment (span_end (token_span t))" if "t \<in> set (concat runs)" for t
    using lex_boundaries [OF assms(1,3)] that by (simp add: out(2) significant_def)
  note ordered = run_of_ordered [OF out(3) sorted]
  have "spanned_ok source t" if t: "t \<in> set out" for t
  proof -
    from ordered wf t obtain a b where "a \<in> set (concat runs)" "b \<in> set (concat runs)"
      "tok_start t = start + span_start (token_span a)" "tok_end t = start + span_end (token_span b)"
      by meson
    moreover from ordered wf t have "tok_start t \<le> tok_end t" by (simp add: ordered_tokens_def)
    ultimately show ?thesis
      using wf str_get_boundary [OF assms(2)] by (simp add: spanned_ok_def)
  qed
  with out(1) show ?thesis by (simp add: list_all_iff)
qed

lemma pipe_candidates_bound:
  "i \<in> set (pipe_candidates_from nb np nc index ts) \<Longrightarrow> index \<le> i \<and> i < index + length ts"
proof (induction ts arbitrary: nb np nc index)
  case (Cons t ts)
  from Cons.prems have "i = index \<or> (\<exists>a b c. i \<in> set (pipe_candidates_from a b c (index + 1) ts))"
    by (auto simp: Let_def split: if_splits)
  then show ?case using Cons.IH [where index = "index + 1"] by fastforce
qed simp

section \<open>The splits of a comprehension\<close>

text \<open>One round of the loop: the pipe \<open>pipe\<close> is the separator of the projection.\<close>

definition comprehension_split ::
  "grammar \<Rightarrow> ustr \<Rightarrow> nat \<Rightarrow> nat \<Rightarrow> token list \<Rightarrow> nat \<Rightarrow> expr parsed panics" where
  "comprehension_split g source start e tokens pipe =
     Option.bind (nested_parser_tokens tokens start (Some pipe))
       (parse_comprehension_tokens g source start e)"

text \<open>The comprehension of exactly the given extent.\<close>

definition is_comprehension_at :: "nat \<Rightarrow> nat \<Rightarrow> expr \<Rightarrow> bool" where
  "is_comprehension_at start e x = (\<exists>binding pattern predicate projection.
     x = mk_expr (EK_PatternComprehension
       (PatternComprehension binding pattern predicate projection)) (mk_span start e))"

lemma comprehension_split_total:
  assumes "raw_engine engine" and "str_get source start e = Some fragment"
    and "lex engine fragment = Some lexed"
    and "pipe \<in> set (top_level_pipe_candidates (lex_tokens lexed))"
  shows "\<exists>r. comprehension_split g source start e (lex_tokens lexed) pipe = Some r \<and>
    (\<forall>x. r = Inr x \<longrightarrow> is_comprehension_at start e x)"
proof -
  from assms(4) have "pipe \<le> length (lex_tokens lexed)"
    using pipe_candidates_bound by (fastforce simp: top_level_pipe_candidates_def)
  then obtain ts where ts: "nested_parser_tokens (lex_tokens lexed) start (Some pipe) = Some ts"
    "list_all (spanned_ok source) ts"
    using nested_tokens_ok [OF assms(1-3), of "Some pipe"] by auto
  from assms(2) have "start \<le> e" by (auto simp: str_get_Some_iff)
  from parse_comprehension_tokens_total [OF this ts(2)] ts(1) show ?thesis
    by (auto simp: comprehension_split_def is_comprehension_at_def)
qed

lemma try_pipes_step:
  "try_pipes g source start e tokens (pipe # pipes) best =
     Option.bind (comprehension_split g source start e tokens pipe) (\<lambda>r.
       case r of Inr x \<Rightarrow> Some (Inr x)
       | Inl error \<Rightarrow> try_pipes g source start e tokens pipes (retain_farthest_error best error))"
  by (cases "nested_parser_tokens tokens start (Some pipe)") (simp_all add: comprehension_split_def)

lemma try_pipes_success:
  assumes "\<forall>p\<in>set pre. \<exists>error. comprehension_split g source start e tokens p = Some (Inl error)"
    and "comprehension_split g source start e tokens pipe = Some (Inr x)"
  shows "try_pipes g source start e tokens (pre @ pipe # post) best = Some (Inr x)"
  using assms
  by (induction pre arbitrary: best) (auto simp: try_pipes_step simp del: try_pipes.simps)

lemma try_pipes_failure:
  assumes "\<forall>p\<in>set pipes. \<exists>error. comprehension_split g source start e tokens p = Some (Inl error)"
  shows "\<exists>error. try_pipes g source start e tokens pipes best = Some (Inl error) \<and>
    (case best of None \<Rightarrow> pipes = [] \<and> error = user_parse_error start \<or>
         (\<exists>p\<in>set pipes. comprehension_split g source start e tokens p = Some (Inl error))
     | Some b \<Rightarrow> error_location b \<le> error_location error \<and> (error = b \<or>
         (\<exists>p\<in>set pipes. comprehension_split g source start e tokens p = Some (Inl error)))) \<and>
    (\<forall>p\<in>set pipes. \<forall>other. comprehension_split g source start e tokens p = Some (Inl other) \<longrightarrow>
       error_location other \<le> error_location error)"
  using assms
proof (induction pipes arbitrary: best)
  case Nil
  then show ?case by (cases best) simp_all
next
  case (Cons p pipes)
  then obtain err where p: "comprehension_split g source start e tokens p = Some (Inl err)" by auto
  obtain best' where best': "retain_farthest_error best err = Some best'"
    "best' = err \<or> best = Some best'" "error_location err \<le> error_location best'"
    "\<And>b. best = Some b \<Longrightarrow> error_location b \<le> error_location best'"
    by (cases best; cases "error_location (the best) \<le> error_location err")
      (simp_all add: retain_farthest_error_def)
  from Cons.IH [of "Some best'"] Cons.prems obtain error where IH:
    "try_pipes g source start e tokens pipes (Some best') = Some (Inl error)"
    "error_location best' \<le> error_location error"
    "error = best' \<or> (\<exists>p\<in>set pipes. comprehension_split g source start e tokens p = Some (Inl error))"
    "\<forall>p\<in>set pipes. \<forall>other. comprehension_split g source start e tokens p = Some (Inl other) \<longrightarrow>
       error_location other \<le> error_location error"
    by auto
  have run: "try_pipes g source start e tokens (p # pipes) best = Some (Inl error)"
    using p best'(1) IH(1) by (simp add: try_pipes_step del: try_pipes.simps)
  have far: "\<forall>q\<in>set (p # pipes). \<forall>other. comprehension_split g source start e tokens q = Some (Inl other) \<longrightarrow>
       error_location other \<le> error_location error"
    using p best'(3) IH(2,4) by auto
  show ?case
    using run far IH(2,3) best'(2,4) p by (cases best) (fastforce intro: order_trans)+
qed

text \<open>The splits of a list at its first element with a property.\<close>

lemma comprehension_splits_cases:
  assumes "\<forall>p\<in>set pipes. \<exists>r. f p = Some r"
  obtains "\<forall>p\<in>set pipes. \<exists>error. f p = Some (Inl error)"
  | pre pipe post x where "pipes = pre @ pipe # post" "f pipe = Some (Inr x)"
      "\<forall>p\<in>set pre. \<exists>error. f p = Some (Inl error)"
proof (cases "\<exists>p\<in>set pipes. \<exists>x. f p = Some (Inr x)")
  case True
  then have "\<exists>p\<in>set pipes. is_some_and (f p) (\<lambda>r. \<exists>x. r = Inr x)" by (auto simp: is_some_and_iff)
  then obtain pre pipe post where "pipes = pre @ pipe # post" "is_some_and (f pipe) (\<lambda>r. \<exists>x. r = Inr x)"
    "\<forall>p\<in>set pre. \<not> is_some_and (f p) (\<lambda>r. \<exists>x. r = Inr x)"
    by (rule split_list_first_propE) blast
  then have "pipes = pre @ pipe # post" "\<exists>x. f pipe = Some (Inr x)" "\<forall>p\<in>set pre. \<not> (\<exists>x. f p = Some (Inr x))"
    by (auto simp: is_some_and_def split: option.splits)
  then have split: "pipes = pre @ pipe # post" "\<exists>x. f pipe = Some (Inr x)"
    "\<forall>p\<in>set pre. \<not> (\<exists>x. f p = Some (Inr x))" by blast+
  have "\<exists>error. f p = Some (Inl error)" if "p \<in> set pre" for p
  proof -
    from split(1) that assms obtain r where "f p = Some r" by auto
    with split(3) that show ?thesis by (cases r) auto
  qed
  with split(1,2) that(2) show ?thesis by blast
next
  case False
  have "\<exists>error. f p = Some (Inl error)" if "p \<in> set pipes" for p
  proof -
    from that assms obtain r where "f p = Some r" by auto
    with False that show ?thesis by (cases r) auto
  qed
  with that(1) show ?thesis by blast
qed


lemma try_pipes_total:
  assumes "\<forall>p\<in>set pipes. \<exists>r. comprehension_split g source start e tokens p = Some r \<and>
    (\<forall>x. r = Inr x \<longrightarrow> is_comprehension_at start e x)"
  shows "\<exists>r. try_pipes g source start e tokens pipes best = Some r \<and>
    (\<forall>x. r = Inr x \<longrightarrow> is_comprehension_at start e x)"
  using assms
proof (induction pipes arbitrary: best)
  case (Cons p pipes)
  then obtain r where r: "comprehension_split g source start e tokens p = Some r"
    and x: "\<forall>x. r = Inr x \<longrightarrow> is_comprehension_at start e x" by auto
  show ?case
  proof (cases r)
    case (Inl error)
    have "\<exists>r. try_pipes g source start e tokens pipes (retain_farthest_error best error) = Some r \<and>
        (\<forall>x. r = Inr x \<longrightarrow> is_comprehension_at start e x)"
      using Cons.prems by (intro Cons.IH) simp
    with r Inl show ?thesis by (simp add: try_pipes_step del: try_pipes.simps)
  next
    case (Inr y)
    with r x show ?thesis by (simp add: try_pipes_step del: try_pipes.simps)
  qed
qed simp

lemma those_map_total: "\<forall>x\<in>set xs. \<exists>y. p x = Some y \<Longrightarrow> \<exists>ys. those (map p xs) = Some ys"
  by (induction xs) auto

lemma label_terminals_total:
  "\<exists>ts. those (map (\<lambda>t. map_option (\<lambda>k. (f t, k, h t)) (ptok_from (token_kind t)))
     (significant tokens)) = Some ts"
proof -
  have "\<exists>y. map_option (\<lambda>k. (f t, k, h t)) (ptok_from (token_kind t)) = Some y"
    if "t \<in> set (significant tokens)" for t
  proof -
    from that significant_not_trivia [of tokens] have "\<not> kind_is_trivia (token_kind t)"
      by (simp add: token_is_trivia_def)
    from ptok_from_Some [OF this] show ?thesis by auto
  qed
  then have "\<forall>x\<in>set (significant tokens).
      \<exists>y. map_option (\<lambda>k. (f x, k, h x)) (ptok_from (token_kind x)) = Some y" by blast
  then show ?thesis by (rule those_map_total)
qed

lemma parse_label_expression_total:
  assumes "raw_engine engine"
  shows "\<exists>r. parse_label_expression engine g source start e legacy = Some r"
proof (cases "str_get source start e")
  case None
  then show ?thesis by (simp add: parse_label_expression_def user_error_def)
next
  case (Some fragment)
  from lex_result [OF assms, of fragment] obtain lexed where "lex engine fragment = Some lexed" by blast
  with Some label_terminals_total [of "\<lambda>t. start + span_start (token_span t)"
      "\<lambda>t. start + span_end (token_span t)" "lex_tokens lexed"]
  show ?thesis by (auto simp: parse_label_expression_def user_error_def)
qed

lemma pattern_comprehension_total:
  assumes "raw_engine engine"
  shows "\<exists>r. pattern_comprehension engine g source start e = Some r \<and>
    (\<forall>x. r = Inr x \<longrightarrow> is_comprehension_at start e x)"
proof (cases "str_get source start e")
  case None
  then show ?thesis by (simp add: pattern_comprehension_def user_error_def)
next
  case (Some fragment)
  from lex_result [OF assms, of fragment] obtain lexed where lexed: "lex engine fragment = Some lexed"
    by blast
  have "\<forall>p\<in>set (top_level_pipe_candidates (lex_tokens lexed)).
      \<exists>r. comprehension_split g source start e (lex_tokens lexed) p = Some r \<and>
        (\<forall>x. r = Inr x \<longrightarrow> is_comprehension_at start e x)"
    using comprehension_split_total [OF assms Some lexed] by blast
  from try_pipes_total [OF this] Some lexed show ?thesis
    by (auto simp: pattern_comprehension_def user_error_def)
qed

lemma pattern_expression_total:
  assumes "raw_engine engine"
  shows "\<exists>r. pattern_expression engine g source start e = Some r \<and>
    (\<forall>x. r = Inr x \<longrightarrow> (\<exists>pattern. x = mk_expr (EK_Pattern pattern) (mk_span start e)))"
proof (cases "str_get source start e")
  case None
  then show ?thesis by (simp add: pattern_expression_def user_error_def)
next
  case (Some fragment)
  from lex_result [OF assms, of fragment] obtain lexed where lexed: "lex engine fragment = Some lexed"
    by blast
  from Some have "start \<le> e" by (auto simp: str_get_Some_iff)
  moreover from nested_tokens_ok [OF assms Some lexed, of None] obtain ts where
    "nested_parser_tokens (lex_tokens lexed) start None = Some ts" by auto
  ultimately show ?thesis using Some lexed
    by (cases "parse_pattern_fragment g source ts")
      (auto simp: pattern_expression_def user_error_def span_new_def)
qed

text \<open>
  C35: no entry point of the nested fragments panics. For every source, extent and grammar the
  comprehension, the pattern expression and the two label entry points return; a pattern expression
  that parses has exactly the given extent.
\<close>

theorem nested_fragments_total:
  assumes "raw_engine engine"
  shows "(\<exists>r. pattern_comprehension engine g source start e = Some r) \<and>
    (\<exists>r. pattern_expression engine g source start e = Some r \<and>
       (\<forall>x. r = Inr x \<longrightarrow> (\<exists>pattern. x = mk_expr (EK_Pattern pattern) (mk_span start e)))) \<and>
    (\<exists>r. label_comparison_suffix engine g source start e = Some r) \<and>
    (\<exists>r. relationship_label_expression engine g source start e = Some r)"
proof (intro conjI)
  show "\<exists>r. label_comparison_suffix engine g source start e = Some r"
    "\<exists>r. relationship_label_expression engine g source start e = Some r"
    using parse_label_expression_total [OF assms]
    by (auto simp: label_comparison_suffix_def relationship_label_expression_def)
  show "\<exists>r. pattern_comprehension engine g source start e = Some r"
    using pattern_comprehension_total [OF assms] by blast
qed (rule pattern_expression_total [OF assms])

section \<open>A grammar for evaluation\<close>

text \<open>It accepts every pattern and every expression.\<close>

definition any_fragment :: grammar where
  "any_fragment = return_star
     \<lparr>pattern_fragment := (\<lambda>source ts. Inr (Pattern [] (mk_span 0 0))),
      expr_fragment := (\<lambda>source ts. Inr (mk_expr (EK_Literal (Node LK_Null (mk_span 0 0))) (mk_span 0 0)))\<rparr>"

definition sample_lexed :: lex_outcome where
  "sample_lexed = \<lparr>lex_tokens =
     [\<lparr>token_kind = T_LeftBracket, token_span = mk_span 0 1\<rparr>,
      \<lparr>token_kind = T_Integer, token_span = mk_span 1 2\<rparr>,
      \<lparr>token_kind = T_Pipe, token_span = mk_span 2 3\<rparr>,
      \<lparr>token_kind = T_Integer, token_span = mk_span 3 4\<rparr>,
      \<lparr>token_kind = T_RightBracket, token_span = mk_span 4 5\<rparr>], lex_diagnostics = []\<rparr>"

lemma lex_sample_comprehension:
  "lex (logos_next ascii_unicode) (ascii ''[1|2]'') = Some sample_lexed"
  by code_simp

lemma sample_fragment: "str_get (ascii ''[1|2]'') 0 5 = Some (ascii ''[1|2]'')"
  by code_simp


lemma nested_fragments_total_witness:
  "\<exists>r. pattern_expression (logos_next ascii_unicode) any_fragment (ascii ''[1|2]'') 0 5 = Some r"
  using nested_fragments_total [OF logos.raw_engine_axioms, of ascii_unicode any_fragment
      "ascii ''[1|2]''" 0 5]
  by blast

end
