(* ===== verification/Visitor.thy ===== *)
theory Visitor
  imports Ast
begin

text \<open>
  The traversal of \<open>src/ast/visit.rs\<close>. A \<open>walk_*\<close> function calls hooks on the children of a node, one
  after the other; it is modelled by the list of these calls. A visitor is what it does before and
  after the children, and whether it calls the walk function at all.
\<close>

section \<open>The hooks\<close>

text \<open>One constructor for each hook of the trait, with the node it is called on.\<close>

datatype (plugins only: size) ast_node =
    N_Program program
  | N_Statement "statement_kind node"
  | N_Query query
  | N_SingleQuery single_query
  | N_Clause clause
  | N_Expr expr
  | N_Pattern pattern
  | N_PatternPart "path_pattern pattern_part_kind node"
  | N_PathPattern path_pattern
  | N_PathFactor "(expr, path_pattern) path_factor_kind node"
  | N_LabelExpression label_expression
  | N_Error span

section \<open>The walk functions\<close>

definition walk_program :: "program \<Rightarrow> ast_node list" where
  "walk_program p = map N_Statement (program_statements p)"

definition walk_statement :: "statement_kind node \<Rightarrow> ast_node list" where
  "walk_statement n =
     (case node_kind n of
        ST_Query statement \<Rightarrow> [N_Query (qs_query statement)]
      | ST_Error _ \<Rightarrow> [N_Error (node_span n)])"

definition walk_query :: "query \<Rightarrow> ast_node list" where
  "walk_query n =
     (case node_kind n of
        QU_Regular q \<Rightarrow>
          N_SingleQuery (rq_head q) # map (\<lambda>branch. N_SingleQuery (ub_query branch)) (rq_unions q)
      | QU_Error _ \<Rightarrow> [N_Error (node_span n)])"

definition walk_single_query :: "single_query \<Rightarrow> ast_node list" where
  "walk_single_query n = map N_Clause (sq_clauses (node_kind n))"

definition optional_expr :: "expr option \<Rightarrow> ast_node list" where
  "optional_expr e = (case e of None \<Rightarrow> [] | Some x \<Rightarrow> [N_Expr x])"

definition visit_items :: "expr projection_item_kind node list \<Rightarrow> ast_node list" where
  "visit_items items = concat (map (\<lambda>item. case node_kind item of
     PI_Expression e _ \<Rightarrow> [N_Expr e] | PI_Wildcard \<Rightarrow> []) items)"

definition visit_projection :: "expr projection_clause \<Rightarrow> ast_node list" where
  "visit_projection p =
     visit_items (pj_items p) @
     (case pj_order_by p of
        None \<Rightarrow> [] | Some order \<Rightarrow> map (\<lambda>item. N_Expr (so_expression item)) (ob_items order)) @
     optional_expr (pj_offset p) @ optional_expr (pj_skip p) @ optional_expr (pj_limit p)"

definition visit_set :: "expr set_clause \<Rightarrow> ast_node list" where
  "visit_set s = concat (map (\<lambda>item. case node_kind item of
       SI_Property target new_value \<Rightarrow> [N_Expr target, N_Expr new_value]
     | SI_ReplaceProperties _ new_value \<Rightarrow> [N_Expr new_value]
     | SI_MergeProperties _ new_value \<Rightarrow> [N_Expr new_value]
     | SI_Labels _ labels \<Rightarrow> [N_LabelExpression labels]) (set_items s))"

definition visit_remove :: "expr remove_clause \<Rightarrow> ast_node list" where
  "visit_remove c = map (\<lambda>item. case node_kind item of
       RI_Property e \<Rightarrow> N_Expr e
     | RI_Labels _ labels \<Rightarrow> N_LabelExpression labels) (remove_items c)"

definition visit_call :: "(expr, clause) call_clause \<Rightarrow> ast_node list" where
  "visit_call c =
     (case cc_target c of
        CT_Procedure _ arguments \<Rightarrow> (case arguments of None \<Rightarrow> [] | Some es \<Rightarrow> map N_Expr es)
      | CT_Subquery _ q in_transactions \<Rightarrow>
          N_Query q # (case in_transactions of None \<Rightarrow> [] | Some t \<Rightarrow> optional_expr (it_rows t))) @
     (case cc_yield c of
        None \<Rightarrow> [] | Some y \<Rightarrow> visit_items (yc_items y) @ optional_expr (yc_where y))"

definition walk_clause :: "clause \<Rightarrow> ast_node list" where
  "walk_clause n =
     (case node_kind (clause_node n) of
        CK_Use c \<Rightarrow> [N_Expr (use_graph c)]
      | CK_Match c \<Rightarrow> N_Pattern (mc_pattern c) # optional_expr (mc_where c)
      | CK_Unwind c \<Rightarrow> [N_Expr (uc_expression c)]
      | CK_Let c \<Rightarrow> map (\<lambda>b. N_Expr (lb_expression b)) (let_bindings c)
      | CK_Create c \<Rightarrow> [N_Pattern (create_pattern c)]
      | CK_Insert c \<Rightarrow> [N_Pattern (insert_pattern c)]
      | CK_Merge c \<Rightarrow>
          N_PatternPart (mg_pattern c) # concat (map (\<lambda>a. visit_set (ma_set a)) (mg_actions c))
      | CK_Delete c \<Rightarrow> map N_Expr (dc_expressions c)
      | CK_Set c \<Rightarrow> visit_set c
      | CK_Remove c \<Rightarrow> visit_remove c
      | CK_Foreach c \<Rightarrow> N_Expr (fe_list c) # map N_Clause (fe_clauses c)
      | CK_LoadCsv c \<Rightarrow> [N_Expr (csv_source c)]
      | CK_Call c \<Rightarrow> visit_call c
      | CK_With c \<Rightarrow> visit_projection (wi_projection c) @ optional_expr (wi_where c)
      | CK_Return c \<Rightarrow> visit_projection (rt_projection c)
      | CK_Select c \<Rightarrow> visit_projection c
      | CK_Next c \<Rightarrow> visit_projection c
      | CK_Filter c \<Rightarrow> [N_Expr (fc_predicate c)]
      | CK_Finish \<Rightarrow> []
      | CK_Error _ \<Rightarrow> [N_Error (clause_span n)])"

definition visit_map_projection :: "expr map_projection \<Rightarrow> ast_node list" where
  "visit_map_projection m =
     N_Expr (mp_base m) # concat (map (\<lambda>item. case node_kind item of
         MP_Entry entry \<Rightarrow> [N_Expr (me_value entry)]
       | MP_Property _ \<Rightarrow> [] | MP_AllProperties \<Rightarrow> [] | MP_Variable _ \<Rightarrow> []) (mp_items m))"

definition visit_case :: "expr case_expression \<Rightarrow> ast_node list" where
  "visit_case c =
     optional_expr (ce_operand c) @
     concat (map (\<lambda>a. map N_Expr (ca_when a) @ [N_Expr (ca_then a)]) (ce_alternatives c)) @
     optional_expr (ce_else c)"

definition visit_predicate :: "is_predicate \<Rightarrow> ast_node list" where
  "visit_predicate p = (case p of IP_Label labels \<Rightarrow> [N_LabelExpression labels]
     | IP_Null \<Rightarrow> [] | IP_Typed _ \<Rightarrow> [] | IP_Normalized _ \<Rightarrow> [])"

definition walk_expr :: "expr \<Rightarrow> ast_node list" where
  "walk_expr n =
     (case node_kind (expr_node n) of
        EK_Literal _ \<Rightarrow> [] | EK_Variable _ \<Rightarrow> [] | EK_Parameter _ \<Rightarrow> [] | EK_Wildcard \<Rightarrow> []
      | EK_List es \<Rightarrow> map N_Expr es
      | EK_Map entries \<Rightarrow> map (\<lambda>entry. N_Expr (me_value entry)) entries
      | EK_MapProjection m \<Rightarrow> visit_map_projection m
      | EK_Unary _ operand \<Rightarrow> [N_Expr operand]
      | EK_Parenthesized operand \<Rightarrow> [N_Expr operand]
      | EK_Binary left _ right \<Rightarrow> [N_Expr left, N_Expr right]
      | EK_Is e _ predicate \<Rightarrow> N_Expr e # visit_predicate predicate
      | EK_Property e _ \<Rightarrow> [N_Expr e]
      | EK_DynamicProperty e key \<Rightarrow> [N_Expr e, N_Expr key]
      | EK_Index e index \<Rightarrow> [N_Expr e, N_Expr index]
      | EK_Slice e lower upper \<Rightarrow> N_Expr e # optional_expr lower @ optional_expr upper
      | EK_Function call \<Rightarrow> map N_Expr (fi_arguments call)
      | EK_Case c \<Rightarrow> visit_case c
      | EK_ListComprehension c \<Rightarrow>
          N_Expr (lc_list c) # optional_expr (lc_predicate c) @ optional_expr (lc_projection c)
      | EK_PatternComprehension c \<Rightarrow>
          N_Pattern (pc_pattern c) # optional_expr (pc_predicate c) @ [N_Expr (pc_projection c)]
      | EK_Reduce c \<Rightarrow> [N_Expr (re_initial c), N_Expr (re_list c), N_Expr (re_expression c)]
      | EK_QuantifiedPredicate c \<Rightarrow> [N_Expr (qp_list c), N_Expr (qp_predicate c)]
      | EK_Subquery c \<Rightarrow> [N_Query (se_query c)]
      | EK_Pattern p \<Rightarrow> [N_Pattern p]
      | EK_Error _ \<Rightarrow> [N_Error (expr_span n)])"

definition walk_pattern :: "pattern \<Rightarrow> ast_node list" where
  "walk_pattern n = map N_PatternPart (pattern_parts n)"

definition walk_pattern_part :: "path_pattern pattern_part_kind node \<Rightarrow> ast_node list" where
  "walk_pattern_part n = [N_PathPattern (part_path (node_kind n))]"

definition walk_path_pattern :: "path_pattern \<Rightarrow> ast_node list" where
  "walk_path_pattern n = map N_PathFactor (pp_factors (node_kind (path_node n)))"

definition optional_labels :: "label_expression option \<Rightarrow> ast_node list" where
  "optional_labels l = (case l of None \<Rightarrow> [] | Some x \<Rightarrow> [N_LabelExpression x])"

definition visit_node_pattern :: "expr node_pattern \<Rightarrow> ast_node list" where
  "visit_node_pattern p =
     optional_labels (np_labels p) @ optional_expr (np_properties p) @ optional_expr (np_where p)"

definition walk_path_factor :: "(expr, path_pattern) path_factor_kind node \<Rightarrow> ast_node list" where
  "walk_path_factor n =
     (case node_kind n of
        PF_Node p \<Rightarrow> visit_node_pattern p
      | PF_QuantifiedNode p _ \<Rightarrow> visit_node_pattern p
      | PF_Relationship p \<Rightarrow>
          optional_labels (rp_labels p) @ optional_expr (rp_properties p) @ optional_expr (rp_where p)
      | PF_Parenthesized p where_clause _ \<Rightarrow> N_PathPattern p # optional_expr where_clause
      | PF_Subpath _ p where_clause _ \<Rightarrow> N_PathPattern p # optional_expr where_clause
      | PF_LegacyShortest _ p \<Rightarrow> [N_PathPattern p]
      | PF_Error _ \<Rightarrow> [N_Error (node_span n)])"

fun walk_label_expression :: "label_expression \<Rightarrow> ast_node list" where
  "walk_label_expression (LabelExpression n) =
     (case node_kind n of
        LX_Name _ \<Rightarrow> [] | LX_Wildcard \<Rightarrow> []
      | LX_Not child \<Rightarrow> [N_LabelExpression child]
      | LX_Parenthesized child \<Rightarrow> [N_LabelExpression child]
      | LX_And children \<Rightarrow> map N_LabelExpression children
      | LX_Or children \<Rightarrow> map N_LabelExpression children
      | LX_Error _ \<Rightarrow> [N_Error (node_span n)])"

text \<open>The default body of every hook.\<close>

fun walk :: "ast_node \<Rightarrow> ast_node list" where
  "walk (N_Program n) = walk_program n"
| "walk (N_Statement n) = walk_statement n"
| "walk (N_Query n) = walk_query n"
| "walk (N_SingleQuery n) = walk_single_query n"
| "walk (N_Clause n) = walk_clause n"
| "walk (N_Expr n) = walk_expr n"
| "walk (N_Pattern n) = walk_pattern n"
| "walk (N_PatternPart n) = walk_pattern_part n"
| "walk (N_PathPattern n) = walk_path_pattern n"
| "walk (N_PathFactor n) = walk_path_factor n"
| "walk (N_LabelExpression n) = walk_label_expression n"
| "walk (N_Error sp) = []"

section \<open>The walk descends\<close>

text \<open>
  A child is of a lower level, or of the same level and smaller. Labels contain labels only, so they
  have a level of their own; the sizes of the other nodes are those of the datatypes.
\<close>

fun level :: "ast_node \<Rightarrow> nat" where
  "level (N_Program n) = 3"
| "level (N_Statement n) = 2"
| "level (N_LabelExpression n) = 0"
| "level (N_Error sp) = 0"
| "level n = 1"

fun rank :: "ast_node \<Rightarrow> nat" where
  "rank (N_Query n) = size_node (size_query_kind size) n"
| "rank (N_SingleQuery n) = size_node (size_single_query_kind size) n"
| "rank (N_Clause n) = size n"
| "rank (N_Expr n) = size n"
| "rank (N_Pattern n) = size_pattern_of size n"
| "rank (N_PatternPart n) = size_node (size_pattern_part_kind size) n"
| "rank (N_PathPattern n) = size n"
| "rank (N_PathFactor n) = size_node (size_path_factor_kind size size) n"
| "rank (N_LabelExpression n) = size n"
| "rank n = 0"

text \<open>What can stand inside a part of size \<open>k\<close>.\<close>

definition below :: "nat \<Rightarrow> ast_node \<Rightarrow> bool" where
  "below k c = (level c = 0 \<or> level c = 1 \<and> rank c < k)"

lemma below_simps [simp]:
  "below k (N_Query q) \<longleftrightarrow> size_node (size_query_kind size) q < k"
  "below k (N_SingleQuery sq) \<longleftrightarrow> size_node (size_single_query_kind size) sq < k"
  "below k (N_Clause c) \<longleftrightarrow> size c < k"
  "below k (N_Expr e) \<longleftrightarrow> size e < k"
  "below k (N_Pattern p) \<longleftrightarrow> size_pattern_of size p < k"
  "below k (N_PatternPart part) \<longleftrightarrow> size_node (size_pattern_part_kind size) part < k"
  "below k (N_PathPattern path) \<longleftrightarrow> size path < k"
  "below k (N_PathFactor factor) \<longleftrightarrow> size_node (size_path_factor_kind size size) factor < k"
  "below k (N_LabelExpression l)"
  "below k (N_Error sp)"
  by (simp_all add: below_def)

lemma below_mono: "below j c \<Longrightarrow> j \<le> k \<Longrightarrow> below k c"
  by (auto simp: below_def)

lemmas walk_part_defs =
  optional_expr_def visit_items_def visit_projection_def visit_set_def visit_remove_def visit_call_def
  visit_map_projection_def visit_case_def visit_predicate_def optional_labels_def
  visit_node_pattern_def

lemma size_list_member: "x \<in> set xs \<Longrightarrow> f x < size_list f xs"
proof (induction xs)
  case (Cons y ys)
  then show ?case by (cases "x = y") auto
qed simp

lemma below_concat:
  assumes "c \<in> set (concat (map g xs))" and "size_list f xs \<le> k"
    and "\<And>x. c \<in> set (g x) \<Longrightarrow> below (f x) c"
  shows "below k c"
proof -
  from assms(1) obtain x where x: "x \<in> set xs" "c \<in> set (g x)" by auto
  from size_list_member [OF x(1), of f] assms(2) have "f x \<le> k" by linarith
  with assms(3) [OF x(2)] show ?thesis by (rule below_mono)
qed

lemma below_map:
  assumes "c \<in> set (map g xs)" and "size_list f xs \<le> k"
    and "\<And>x. c = g x \<Longrightarrow> below (Suc (f x)) c"
  shows "below k c"
proof -
  from assms(1) obtain x where x: "x \<in> set xs" "c = g x" by auto
  from size_list_member [OF x(1), of f] assms(2) have "Suc (f x) \<le> k" by linarith
  with assms(3) [OF x(2)] show ?thesis by (rule below_mono)
qed

lemma below_optional: "c \<in> set (optional_expr e) \<Longrightarrow> size_option size e \<le> k \<Longrightarrow> below k c"
  by (auto simp: optional_expr_def split: option.splits)

lemma below_labels: "c \<in> set (optional_labels l) \<Longrightarrow> below k c"
  by (auto simp: optional_labels_def split: option.splits)

lemma below_items:
  assumes "c \<in> set (visit_items items)"
    and "size_list (size_node (size_projection_item_kind size)) items \<le> k"
  shows "below k c"
proof (rule below_concat [OF assms(1) [unfolded visit_items_def] assms(2)])
  fix item :: "expr projection_item_kind node"
  assume "c \<in> set (case node_kind item of PI_Wildcard \<Rightarrow> [] | PI_Expression e x \<Rightarrow> [N_Expr e])"
  then show "below (size_node (size_projection_item_kind size) item) c"
    by (cases item; cases "node_kind item") auto
qed

lemma below_projection:
  assumes "c \<in> set (visit_projection p)" and "size_projection_clause size p \<le> k"
  shows "below k c"
proof (cases p)
  case (ProjectionClause quantifier items order offset skip limit sp)
  have "below k c" if "c \<in> set (map (\<lambda>item. N_Expr (so_expression item)) (ob_items ord))" "order = Some ord" for ord
  proof (rule below_map [OF that(1)])
    show "size_list (size_sort_item size) (ob_items ord) \<le> k"
      using assms(2) ProjectionClause that(2) by (cases ord) simp
    show "below (Suc (size_sort_item size item)) c" if "c = N_Expr (so_expression item)" for item :: "expr sort_item"
      using that by (cases item) simp
  qed
  with assms ProjectionClause show ?thesis
    by (auto simp: visit_projection_def intro: below_items below_optional split: option.splits)
qed

lemma below_set:
  assumes "c \<in> set (visit_set s)" and "size_set_clause size s \<le> k"
  shows "below k c"
proof (cases s)
  case (SetClause xs)
  show ?thesis
  proof (rule below_concat [OF assms(1) [unfolded visit_set_def]])
    show "size_list (size_node (size_set_item_kind size)) (set_items s) \<le> k"
      using assms(2) SetClause by simp
    fix item :: "expr set_item_kind node"
    assume "c \<in> set (case node_kind item of SI_Property target new_value \<Rightarrow> [N_Expr target, N_Expr new_value]
      | SI_ReplaceProperties _ new_value \<Rightarrow> [N_Expr new_value]
      | SI_MergeProperties _ new_value \<Rightarrow> [N_Expr new_value]
      | SI_Labels _ labels \<Rightarrow> [N_LabelExpression labels])"
    then show "below (size_node (size_set_item_kind size) item) c"
      by (cases item; cases "node_kind item") auto
  qed
qed

lemma below_remove:
  assumes "c \<in> set (visit_remove r)" and "size_remove_clause size r \<le> k"
  shows "below k c"
proof (cases r)
  case (RemoveClause xs)
  show ?thesis
  proof (rule below_map [OF assms(1) [unfolded visit_remove_def]])
    show "size_list (size_node (size_remove_item_kind size)) (remove_items r) \<le> k"
      using assms(2) RemoveClause by simp
    fix item :: "expr remove_item_kind node"
    assume "c = (case node_kind item of RI_Property e \<Rightarrow> N_Expr e | RI_Labels _ labels \<Rightarrow> N_LabelExpression labels)"
    then show "below (Suc (size_node (size_remove_item_kind size) item)) c"
      by (cases item; cases "node_kind item") auto
  qed
qed

lemma below_exprs: "c \<in> N_Expr ` set es \<Longrightarrow> size_list size es \<le> k \<Longrightarrow> below k c"
  using below_map [of c N_Expr es size k] by simp

lemma below_clauses: "c \<in> N_Clause ` set cs \<Longrightarrow> size_list size cs \<le> k \<Longrightarrow> below k c"
  using below_map [of c N_Clause cs size k] by simp

lemma below_call:
  assumes "c \<in> set (visit_call call)" and "size_call_clause size size call \<le> k"
  shows "below k c"
proof (cases call)
  case (CallClause opt target yield_clause)
  have "below k c" if "size_call_target size size target \<le> k"
    "c \<in> set (case target of CT_Procedure _ arguments \<Rightarrow> (case arguments of None \<Rightarrow> [] | Some es \<Rightarrow> map N_Expr es)
      | CT_Subquery _ q in_transactions \<Rightarrow>
          N_Query q # (case in_transactions of None \<Rightarrow> [] | Some t \<Rightarrow> optional_expr (it_rows t)))"
  proof (cases target)
    case (CT_Procedure f arguments)
    with that show ?thesis by (auto intro: below_exprs split: option.splits)
  next
    case (CT_Subquery scope q tr)
    have "below k c" if "c \<in> set (optional_expr (it_rows t))" "tr = Some t" for t
      using \<open>size_call_target size size target \<le> k\<close> CT_Subquery that
      by (cases t) (auto intro: below_optional)
    with that CT_Subquery show ?thesis by (auto split: option.splits)
  qed
  moreover have "below k c" if "yield_clause = Some y" "c \<in> set (visit_items (yc_items y) @ optional_expr (yc_where y))" for y
    using assms(2) CallClause that by (cases y) (auto intro: below_items below_optional)
  ultimately show ?thesis
    using assms CallClause by (auto simp: visit_call_def split: option.splits)
qed

lemma below_let:
  assumes "c \<in> set (map (\<lambda>b. N_Expr (lb_expression b)) (let_bindings l))" and "size_let_clause size l \<le> k"
  shows "below k c"
proof (rule below_map [OF assms(1)])
  show "size_list (size_let_binding size) (let_bindings l) \<le> k" using assms(2) by (cases l) simp
  show "below (Suc (size_let_binding size b)) c" if "c = N_Expr (lb_expression b)" for b
    using that by (cases b) simp
qed

lemma below_actions:
  assumes "c \<in> set (concat (map (\<lambda>a. visit_set (ma_set a)) xs))" and "size_list (size_merge_action size) xs \<le> k"
  shows "below k c"
proof (rule below_concat [OF assms])
  show "below (size_merge_action size a) c" if "c \<in> set (visit_set (ma_set a))" for a
    using that by (cases a) (auto intro: below_set)
qed

lemma below_map_projection:
  assumes "c \<in> set (visit_map_projection m)" and "size_map_projection size m \<le> k"
  shows "below k c"
proof (cases m)
  case (MapProjection base items)
  have "below k c" if "c \<in> set (concat (map (\<lambda>item. case node_kind item of
         MP_Entry entry \<Rightarrow> [N_Expr (me_value entry)]
       | MP_Property _ \<Rightarrow> [] | MP_AllProperties \<Rightarrow> [] | MP_Variable _ \<Rightarrow> []) items))"
  proof (rule below_concat [OF that])
    show "size_list (size_node (size_map_projection_item_kind size)) items \<le> k"
      using assms(2) MapProjection by simp
    fix item :: "expr map_projection_item_kind node"
    assume c: "c \<in> set (case node_kind item of MP_Entry entry \<Rightarrow> [N_Expr (me_value entry)]
       | MP_Property _ \<Rightarrow> [] | MP_AllProperties \<Rightarrow> [] | MP_Variable _ \<Rightarrow> [])"
    show "below (size_node (size_map_projection_item_kind size) item) c"
    proof (cases item)
      case (Node kind sp)
      show ?thesis
      proof (cases kind)
        case (MP_Entry entry)
        with Node c show ?thesis by (cases entry) simp
      qed (use Node c in auto)
    qed
  qed
  with assms MapProjection show ?thesis by (auto simp: visit_map_projection_def)
qed

lemma below_case:
  assumes "c \<in> set (visit_case x)" and "size_case_expression size x \<le> k"
  shows "below k c"
proof (cases x)
  case (CaseExpression operand alternatives otherwise)
  have "below k c" if "c \<in> set (concat (map (\<lambda>a. map N_Expr (ca_when a) @ [N_Expr (ca_then a)]) alternatives))"
  proof (rule below_concat [OF that])
    show "size_list (size_case_alternative size) alternatives \<le> k"
      using assms(2) CaseExpression by simp
    show "below (size_case_alternative size a) c" if "c \<in> set (map N_Expr (ca_when a) @ [N_Expr (ca_then a)])" for a
      using that by (cases a) (auto intro: below_exprs)
  qed
  moreover have "size_option size operand \<le> k" "size_option size otherwise \<le> k"
    using assms(2) CaseExpression by simp_all
  ultimately show ?thesis using assms(1) CaseExpression
    unfolding visit_case_def by (simp only: set_append Un_iff case_expression.sel) (blast intro: below_optional)
qed

lemma below_node_pattern: "c \<in> set (visit_node_pattern p) \<Longrightarrow> size_node_pattern size p \<le> k \<Longrightarrow> below k c"
  by (cases p) (auto simp: visit_node_pattern_def intro: below_labels below_optional)

lemmas below_parts =
  below_optional below_labels below_items below_projection below_set below_remove below_exprs
  below_clauses below_call below_actions below_map_projection below_case below_node_pattern

lemma walk_expr_below:
  assumes "c \<in> set (walk_expr e)"
  shows "below (size e) c"
proof -
  obtain kind sp where e: "e = Expr (Node kind sp)" by (metis expr.exhaust node.exhaust)
  show ?thesis
  proof (cases kind)
    case (EK_Map entries)
    have "below (size e) c" if "c \<in> set (map (\<lambda>entry. N_Expr (me_value entry)) entries)"
    proof (rule below_map [OF that])
      show "size_list (size_map_entry size) entries \<le> size e" using e EK_Map by simp
      show "below (Suc (size_map_entry size entry)) c" if "c = N_Expr (me_value entry)" for entry
        using that by (cases entry) simp
    qed
    with assms e EK_Map show ?thesis by (simp add: walk_expr_def)
  next
    case (EK_Is x b predicate)
    with assms e show ?thesis
      by (auto simp: walk_expr_def visit_predicate_def split: is_predicate.splits)
  next
    case (EK_Function call)
    with assms e show ?thesis by (cases call) (auto simp: walk_expr_def intro: below_exprs)
  next
    case (EK_ListComprehension x)
    with assms e show ?thesis by (cases x) (auto simp: walk_expr_def intro: below_optional)
  next
    case (EK_PatternComprehension x)
    with assms e show ?thesis by (cases x) (auto simp: walk_expr_def intro: below_optional)
  next
    case (EK_Reduce x)
    with assms e show ?thesis by (cases x) (auto simp: walk_expr_def)
  next
    case (EK_QuantifiedPredicate x)
    with assms e show ?thesis by (cases x) (auto simp: walk_expr_def)
  next
    case (EK_Subquery x)
    with assms e show ?thesis by (cases x) (auto simp: walk_expr_def)
  next
    case (EK_Case x)
    with assms e show ?thesis by (auto simp: walk_expr_def intro: below_case)
  next
    case (EK_MapProjection x)
    with assms e show ?thesis by (auto simp: walk_expr_def intro: below_map_projection)
  qed (use assms e in \<open>auto simp: walk_expr_def intro: below_exprs below_optional\<close>)
qed

lemma walk_clause_below:
  assumes "c \<in> set (walk_clause x)"
  shows "below (size x) c"
proof -
  obtain kind sp where x: "x = Clause (Node kind sp)" by (metis clause.exhaust node.exhaust)
  show ?thesis
  proof (cases kind)
    case (CK_Use u)
    with assms x show ?thesis by (cases u) (auto simp: walk_clause_def)
  next
    case (CK_Match m)
    with assms x show ?thesis by (cases m) (auto simp: walk_clause_def intro: below_optional)
  next
    case (CK_Unwind u)
    with assms x show ?thesis by (cases u) (auto simp: walk_clause_def)
  next
    case (CK_Let l)
    with assms x show ?thesis by (auto simp: walk_clause_def intro!: below_let)
  next
    case (CK_Create u)
    with assms x show ?thesis by (cases u) (auto simp: walk_clause_def)
  next
    case (CK_Insert u)
    with assms x show ?thesis by (cases u) (auto simp: walk_clause_def)
  next
    case (CK_Merge m)
    then obtain part actions where m: "m = MergeClause part actions" by (cases m) auto
    have "below (size x) c" if "c \<in> set (concat (map (\<lambda>a. visit_set (ma_set a)) actions))"
      by (rule below_actions [OF that]) (simp add: x CK_Merge m)
    with assms x CK_Merge m show ?thesis by (auto simp: walk_clause_def)
  next
    case (CK_Delete d)
    with assms x show ?thesis by (cases d) (auto simp: walk_clause_def intro: below_exprs)
  next
    case (CK_Foreach f)
    with assms x show ?thesis by (cases f) (auto simp: walk_clause_def intro: below_clauses)
  next
    case (CK_LoadCsv l)
    with assms x show ?thesis by (cases l) (auto simp: walk_clause_def)
  next
    case (CK_With w)
    with assms x show ?thesis
      by (cases w) (auto simp: walk_clause_def intro: below_projection below_optional)
  next
    case (CK_Return r)
    with assms x show ?thesis by (cases r) (auto simp: walk_clause_def intro: below_projection)
  next
    case (CK_Filter f)
    with assms x show ?thesis by (cases f) (auto simp: walk_clause_def)
  qed (use assms x in \<open>auto simp: walk_clause_def intro: below_parts\<close>)
qed

lemma walk_factor_below:
  assumes "c \<in> set (walk_path_factor n)"
  shows "below (size_node (size_path_factor_kind size size) n) c"
proof (cases n)
  case (Node kind sp)
  show ?thesis
  proof (cases kind)
    case (PF_Relationship r)
    with assms Node show ?thesis
      by (cases r) (auto simp: walk_path_factor_def intro: below_optional below_labels)
  qed (use assms Node in
      \<open>auto simp: walk_path_factor_def intro: below_node_pattern below_optional\<close>)
qed

lemma walk_query_below:
  assumes "c \<in> set (walk_query n)"
  shows "below (size_node (size_query_kind size) n) c"
proof (cases n)
  case (Node kind sp)
  show ?thesis
  proof (cases kind)
    case (QU_Regular q)
    then obtain head unions where q: "q = RegularQuery head unions" by (cases q) auto
    have "below (size_node (size_query_kind size) n) c"
      if "c \<in> set (map (\<lambda>branch. N_SingleQuery (ub_query branch)) unions)"
    proof (rule below_map [OF that])
      show "size_list (size_union_branch size) unions \<le> size_node (size_query_kind size) n"
        using Node QU_Regular q by simp
      show "below (Suc (size_union_branch size branch)) c" if "c = N_SingleQuery (ub_query branch)" for branch
        using that by (cases branch) simp
    qed
    with assms Node QU_Regular q show ?thesis by (auto simp: walk_query_def)
  qed (use assms Node in \<open>simp add: walk_query_def\<close>)
qed

lemma walk_label_smaller:
  assumes "c \<in> set (walk_label_expression l)"
  shows "level c = 0 \<and> rank c < size l"
proof -
  obtain kind sp where l: "l = LabelExpression (Node kind sp)"
    by (metis label_expression.exhaust node.exhaust)
  have "size child < size_list size children" if "child \<in> set children" for child :: label_expression and children
    using size_list_member [OF that] .
  with assms l show ?thesis by (cases kind) (auto simp: less_Suc_eq_le less_imp_le)
qed

lemma walk_descends: "c \<in> set (walk n) \<Longrightarrow> (c, n) \<in> measures [level, rank]"
proof (cases n)
  case (N_Expr e)
  assume "c \<in> set (walk n)"
  with N_Expr walk_expr_below show ?thesis by (auto simp: below_def)
next
  case (N_Clause x)
  assume "c \<in> set (walk n)"
  with N_Clause walk_clause_below show ?thesis by (auto simp: below_def)
next
  case (N_PathFactor x)
  assume "c \<in> set (walk n)"
  with N_PathFactor walk_factor_below show ?thesis by (auto simp: below_def)
next
  case (N_Query x)
  assume "c \<in> set (walk n)"
  with N_Query walk_query_below show ?thesis by (auto simp: below_def)
next
  case (N_LabelExpression l)
  assume "c \<in> set (walk n)"
  with N_LabelExpression walk_label_smaller show ?thesis by auto
next
  case (N_Program p)
  assume "c \<in> set (walk n)"
  with N_Program show ?thesis by (auto simp: walk_program_def)
next
  case (N_Statement x)
  assume "c \<in> set (walk n)"
  with N_Statement show ?thesis by (auto simp: walk_statement_def split: statement_kind.splits)
next
  case (N_SingleQuery x)
  assume "c \<in> set (walk n)"
  moreover obtain cs sp where "x = Node (SingleQueryKind cs) sp"
    by (metis node.exhaust single_query_kind.exhaust)
  ultimately show ?thesis using N_SingleQuery below_clauses [of c cs "size_list size cs"]
    by (auto simp: walk_single_query_def below_def)
next
  case (N_Pattern p)
  assume "c \<in> set (walk n)"
  with N_Pattern size_list_member [of _ "pattern_parts p" "size_node (size_pattern_part_kind size)"]
  show ?thesis by (cases p) (auto simp: walk_pattern_def less_Suc_eq)
next
  case (N_PatternPart x)
  assume "c \<in> set (walk n)"
  moreover obtain b s p sp where "x = Node (PatternPartKind b s p) sp"
    by (metis node.exhaust pattern_part_kind.exhaust)
  ultimately show ?thesis using N_PatternPart by (auto simp: walk_pattern_part_def)
next
  case (N_PathPattern p)
  assume "c \<in> set (walk n)"
  moreover obtain fs sp where "p = PathPattern (Node (PathPatternKind fs) sp)"
    by (metis path_pattern.exhaust node.exhaust path_pattern_kind.exhaust)
  ultimately show ?thesis
    using N_PathPattern size_list_member [of _ fs "size_node (size_path_factor_kind size size)"]
    by (fastforce simp: walk_path_pattern_def)
next
  case (N_Error sp)
  assume "c \<in> set (walk n)"
  with N_Error show ?thesis by simp
qed

section \<open>Traversals\<close>

text \<open>Any tree whose children descend in a well-founded order.\<close>

locale descending =
  fixes children :: "'n \<Rightarrow> 'n list" and order :: "('n \<times> 'n) set"
  assumes well_founded: "wf order"
    and descends: "c \<in> set (children n) \<Longrightarrow> (c, n) \<in> order"
begin

lemma tree_induct: "(\<And>n. (\<And>c. c \<in> set (children n) \<Longrightarrow> P c) \<Longrightarrow> P n) \<Longrightarrow> P n"
  using well_founded descends by (induction n rule: wf_induct_rule) blast

end

interpretation ast: descending walk "measures [level, rank]"
  by unfold_locales (auto dest: walk_descends)

text \<open>
  A visitor: \<open>enter\<close> is the code of a hook before it calls the walk function, with whether it calls
  it, and \<open>leave\<close> the code after. The default hook does nothing and descends.
\<close>

record 's visitor =
  enter :: "ast_node \<Rightarrow> 's \<Rightarrow> 's \<times> bool"
  leave :: "ast_node \<Rightarrow> 's \<Rightarrow> 's"

function visit :: "'s visitor \<Rightarrow> ast_node \<Rightarrow> 's \<Rightarrow> 's" where
  "visit v n s =
     (case enter v n s of
        (s', descend) \<Rightarrow> leave v n (if descend then fold (\<lambda>c t. visit v c t) (walk n) s' else s'))"
  by pat_completeness auto
termination
  by (relation "inv_image (measures [level, rank]) (\<lambda>(v, n, s). n)") (auto dest: walk_descends)

declare visit.simps [simp del]

text \<open>The nodes on which hooks are called, when those with \<open>p\<close> descend, in the order of the calls.\<close>

function preorder :: "(ast_node \<Rightarrow> bool) \<Rightarrow> ast_node \<Rightarrow> ast_node list" where
  "preorder p n = n # (if p n then concat (map (preorder p) (walk n)) else [])"
  by pat_completeness auto
termination
  by (relation "inv_image (measures [level, rank]) snd") (auto dest: walk_descends)

declare preorder.simps [simp del]

lemma preorder_self [simp]: "n \<in> set (preorder p n)"
  by (subst preorder.simps) simp

abbreviation everything :: "ast_node \<Rightarrow> bool" where
  "everything \<equiv> \<lambda>_. True"

definition inside :: "ast_node \<Rightarrow> ast_node set" where
  "inside n = (\<Union>c\<in>set (walk n). set (preorder everything c))"

lemma set_preorder: "set (preorder everything n) = insert n (inside n)"
  by (subst preorder.simps) (auto simp: inside_def)

lemma inside_trans: "m \<in> inside n \<Longrightarrow> inside m \<subseteq> inside n"
proof (induction n rule: ast.tree_induct)
  case (1 n)
  then obtain c where c: "c \<in> set (walk n)" "m = c \<or> m \<in> inside c"
    by (auto simp: inside_def [of n] set_preorder)
  then have "inside m \<subseteq> inside c" using "1.IH" by blast
  with c(1) show ?case by (auto simp: inside_def [of n] set_preorder)
qed


section \<open>Nothing is missed\<close>

text \<open>
  The expressions, paths and clauses that a node contains without another of them in between, by
  the set functions that come with the datatypes, and so without reference to the traversal.
\<close>

fun contents :: "ast_node \<Rightarrow> ast_node set" where
  "contents (N_Expr e) = (let k = node_kind (expr_node e) in
     N_Expr ` set1_expr_kind k \<union> N_PathPattern ` set2_expr_kind k \<union> N_Clause ` set3_expr_kind k)"
| "contents (N_Clause c) = (let k = node_kind (clause_node c) in
     N_Expr ` set1_clause_kind k \<union> N_PathPattern ` set2_clause_kind k \<union> N_Clause ` set3_clause_kind k)"
| "contents (N_PathPattern p) = (let k = node_kind (path_node p) in
     N_Expr ` set1_path_pattern_kind k \<union> N_PathPattern ` set2_path_pattern_kind k)"
| "contents (N_PathFactor f) = (let k = node_kind f in
     N_Expr ` set1_path_factor_kind k \<union> N_PathPattern ` set2_path_factor_kind k)"
| "contents (N_PatternPart part) = N_PathPattern ` set_pattern_part_kind (node_kind part)"
| "contents (N_Pattern p) = N_PathPattern ` set_pattern_of p"
| "contents (N_SingleQuery sq) = N_Clause ` set_single_query_kind (node_kind sq)"
| "contents (N_Query q) = N_Clause ` set_query_kind (node_kind q)"
| "contents (N_Statement st) =
     (case node_kind st of ST_Query s \<Rightarrow> N_Clause ` set_query_kind (node_kind (qs_query s)) | ST_Error _ \<Rightarrow> {})"
| "contents (N_Program p) = (\<Union>st\<in>set (program_statements p). 
     (case node_kind st of ST_Query s \<Rightarrow> N_Clause ` set_query_kind (node_kind (qs_query s)) | ST_Error _ \<Rightarrow> {}))"
| "contents (N_LabelExpression l) = {}"
| "contents (N_Error sp) = {}"

fun is_item :: "ast_node \<Rightarrow> bool" where
  "is_item (N_Expr e) = True"
| "is_item (N_Clause c) = True"
| "is_item (N_PathPattern p) = True"
| "is_item n = False"

definition step_contents :: "ast_node \<Rightarrow> ast_node set" where
  "step_contents c = (if is_item c then {c} else contents c)"

lemma step_contents_simps [simp]:
  "step_contents (N_Expr e) = {N_Expr e}"
  "step_contents (N_Clause x) = {N_Clause x}"
  "step_contents (N_PathPattern p) = {N_PathPattern p}"
  "step_contents (N_PathFactor f) = contents (N_PathFactor f)"
  "step_contents (N_PatternPart part) = contents (N_PatternPart part)"
  "step_contents (N_Pattern pat) = contents (N_Pattern pat)"
  "step_contents (N_SingleQuery sq) = contents (N_SingleQuery sq)"
  "step_contents (N_Query q) = contents (N_Query q)"
  "step_contents (N_Statement st) = contents (N_Statement st)"
  "step_contents (N_LabelExpression l) = {}"
  "step_contents (N_Error sp) = {}"
  by (simp_all add: step_contents_def)

definition found :: "ast_node list \<Rightarrow> ast_node set" where
  "found cs = (\<Union>c\<in>set cs. step_contents c)"

lemma found_simps [simp]:
  "found [] = {}" "found (c # cs) = step_contents c \<union> found cs"
  "found (xs @ ys) = found xs \<union> found ys"
  by (simp_all add: found_def Un_commute)

lemma found_concat_map: "found (concat (map g xs)) = (\<Union>x\<in>set xs. found (g x))"
  by (induction xs) simp_all

lemma found_map: "found (map g xs) = (\<Union>x\<in>set xs. step_contents (g x))"
  by (induction xs) simp_all

lemma found_optional [simp]: "found (optional_expr e) = N_Expr ` set_option e"
  by (cases e) (simp_all add: optional_expr_def)

lemma found_labels [simp]: "found (optional_labels l) = {}"
  by (cases l) (simp_all add: optional_labels_def)

lemma found_exprs [simp]: "found (map N_Expr es) = N_Expr ` set es"
  by (auto simp: found_map)

lemma found_items [simp]: "found (visit_items items) =
    N_Expr ` (\<Union>n\<in>set items. \<Union>k\<in>set_node n. set_projection_item_kind k)"
proof -
  have "found (case node_kind n of PI_Wildcard \<Rightarrow> [] | PI_Expression e x \<Rightarrow> [N_Expr e]) =
      N_Expr ` (\<Union>k\<in>set_node n. set_projection_item_kind k)" for n
    by (cases n; cases "node_kind n") auto
  then show ?thesis by (simp only: visit_items_def found_concat_map image_UN)
qed

lemma found_set [simp]: "found (visit_set s) = N_Expr ` set_set_clause s"
proof (cases s)
  case (SetClause items)
  have "found (case node_kind n of SI_Property target new_value \<Rightarrow> [N_Expr target, N_Expr new_value]
      | SI_ReplaceProperties _ new_value \<Rightarrow> [N_Expr new_value]
      | SI_MergeProperties _ new_value \<Rightarrow> [N_Expr new_value]
      | SI_Labels _ labels \<Rightarrow> [N_LabelExpression labels]) =
      N_Expr ` (\<Union>k\<in>set_node n. set_set_item_kind k)" for n :: "expr set_item_kind node"
    by (cases n; cases "node_kind n") auto
  then show ?thesis
    by (simp only: SetClause visit_set_def found_concat_map set_clause.sel set_clause.set image_UN)
qed

lemma found_projection [simp]: "found (visit_projection p) = N_Expr ` set_projection_clause p"
proof (cases p)
  case (ProjectionClause q items order offset skip limit sp)
  have "found (case order of None \<Rightarrow> [] | Some ord \<Rightarrow> map (\<lambda>item. N_Expr (so_expression item)) (ob_items ord)) =
      N_Expr ` (\<Union>ord\<in>set_option order. set_order_by ord)"
  proof (cases order)
    case (Some ord)
    have "set_sort_item item = {so_expression item}" for item :: "expr sort_item" by (cases item) simp
    with Some show ?thesis by (cases ord) (auto simp: found_map)
  qed simp
  with ProjectionClause show ?thesis
    by (simp add: visit_projection_def image_Un Un_assoc)
qed

lemma found_remove [simp]: "found (visit_remove r) = N_Expr ` set_remove_clause r"
proof (cases r)
  case (RemoveClause items)
  have "step_contents (case node_kind n of RI_Property e \<Rightarrow> N_Expr e
      | RI_Labels _ labels \<Rightarrow> N_LabelExpression labels) =
      N_Expr ` (\<Union>k\<in>set_node n. set_remove_item_kind k)" for n :: "expr remove_item_kind node"
    by (cases n; cases "node_kind n") auto
  then show ?thesis
    by (simp only: RemoveClause visit_remove_def found_map remove_clause.sel remove_clause.set image_UN)
qed

lemma found_map_projection [simp]: "found (visit_map_projection m) = N_Expr ` set_map_projection m"
proof (cases m)
  case (MapProjection base items)
  have "found (case node_kind n of MP_Entry entry \<Rightarrow> [N_Expr (me_value entry)]
       | MP_Property _ \<Rightarrow> [] | MP_AllProperties \<Rightarrow> [] | MP_Variable _ \<Rightarrow> []) =
      N_Expr ` (\<Union>k\<in>set_node n. set_map_projection_item_kind k)" for n :: "expr map_projection_item_kind node"
  proof (cases n)
    case (Node kind sp)
    have "set_map_entry entry = {me_value entry}" for entry :: "expr map_entry" by (cases entry) simp
    with Node show ?thesis by (cases kind) simp_all
  qed
  then show ?thesis
    by (simp only: MapProjection visit_map_projection_def found_simps found_concat_map
        map_projection.sel map_projection.set image_UN image_Un) (simp add: image_UN)
qed

lemma found_case [simp]: "found (visit_case x) = N_Expr ` set_case_expression x"
proof (cases x)
  case (CaseExpression operand alternatives otherwise)
  have "found (map N_Expr (ca_when a) @ [N_Expr (ca_then a)]) = N_Expr ` set_case_alternative a"
    for a :: "expr case_alternative" by (cases a) auto
  then show ?thesis
    by (simp only: CaseExpression visit_case_def found_simps found_concat_map found_optional
        case_expression.sel case_expression.set image_UN image_Un Un_assoc)
qed

lemma found_predicate [simp]: "found (visit_predicate p) = {}"
  by (cases p) (simp_all add: visit_predicate_def)

lemma found_node_pattern [simp]: "found (visit_node_pattern p) = N_Expr ` set_node_pattern p"
  by (cases p) (auto simp: visit_node_pattern_def)

lemma found_call [simp]: "found (visit_call c) = N_Expr ` set1_call_clause c \<union> N_Clause ` set2_call_clause c"
proof (cases c)
  case (CallClause opt target yield_clause)
  have "found (case target of CT_Procedure _ arguments \<Rightarrow> (case arguments of None \<Rightarrow> [] | Some es \<Rightarrow> map N_Expr es)
      | CT_Subquery _ q in_transactions \<Rightarrow>
          N_Query q # (case in_transactions of None \<Rightarrow> [] | Some t \<Rightarrow> optional_expr (it_rows t))) =
      N_Expr ` set1_call_target target \<union> N_Clause ` set2_call_target target"
  proof (cases target)
    case (CT_Procedure f arguments)
    then show ?thesis by (cases arguments) simp_all
  next
    case (CT_Subquery scope q tr)
    have "set_in_transactions t = set_option (it_rows t)" for t :: "expr in_transactions" by (cases t) simp
    with CT_Subquery show ?thesis by (cases tr; cases q) auto
  qed
  moreover have "found (case yield_clause of None \<Rightarrow> []
      | Some y \<Rightarrow> visit_items (yc_items y) @ optional_expr (yc_where y)) =
      N_Expr ` (\<Union>y\<in>set_option yield_clause. set_yield_clause y)"
  proof (cases yield_clause)
    case (Some y)
    then show ?thesis by (cases y) (simp add: image_Un)
  qed simp
  ultimately show ?thesis by (simp add: visit_call_def CallClause image_Un Un_ac)
qed

lemma found_walk_expr: "found (walk_expr e) = contents (N_Expr e)"
proof -
  obtain kind sp where e: "e = Expr (Node kind sp)" by (metis expr.exhaust node.exhaust)
  have entry: "set_map_entry x = {me_value x}" for x :: "expr map_entry" by (cases x) simp
  show ?thesis
  proof (cases kind)
    case (EK_Map entries)
    then show ?thesis by (auto simp: e walk_expr_def found_map entry)
  next
    case (EK_Function call)
    then show ?thesis by (cases call) (simp add: e walk_expr_def)
  next
    case (EK_Slice x lower upper)
    then show ?thesis by (auto simp: e walk_expr_def)
  next
    case (EK_ListComprehension x)
    then show ?thesis by (cases x) (auto simp: e walk_expr_def)
  next
    case (EK_PatternComprehension x)
    then show ?thesis by (cases x) (auto simp: e walk_expr_def)
  next
    case (EK_Reduce x)
    then show ?thesis by (cases x) (auto simp: e walk_expr_def)
  next
    case (EK_QuantifiedPredicate x)
    then show ?thesis by (cases x) (auto simp: e walk_expr_def)
  next
    case (EK_Subquery x)
    then obtain k q sp where "x = SubqueryExpression k (Node q sp)"
      by (metis subquery_expression.exhaust node.exhaust)
    with EK_Subquery show ?thesis by (simp add: e walk_expr_def)
  qed (simp_all add: e walk_expr_def insert_commute)
qed

lemma found_walk_clause: "found (walk_clause c) = contents (N_Clause c)"
proof -
  obtain kind sp where c: "c = Clause (Node kind sp)" by (metis clause.exhaust node.exhaust)
  show ?thesis
  proof (cases kind)
    case (CK_Use x)
    then show ?thesis by (cases x) (simp add: c walk_clause_def)
  next
    case (CK_Match x)
    then show ?thesis by (cases x) (simp add: c walk_clause_def Un_commute)
  next
    case (CK_Unwind x)
    then show ?thesis by (cases x) (simp add: c walk_clause_def)
  next
    case (CK_Let x)
    have "set_let_binding b = {lb_expression b}" for b :: "expr let_binding" by (cases b) simp
    with CK_Let show ?thesis by (cases x) (auto simp: c walk_clause_def found_map)
  next
    case (CK_Create x)
    then show ?thesis by (cases x) (simp add: c walk_clause_def)
  next
    case (CK_Insert x)
    then show ?thesis by (cases x) (simp add: c walk_clause_def)
  next
    case (CK_Merge x)
    then obtain part part_sp actions where x: "x = MergeClause (Node part part_sp) actions"
      by (metis merge_clause.exhaust node.exhaust)
    have "set_merge_action a = set_set_clause (ma_set a)" for a :: "expr merge_action" by (cases a) simp
    with CK_Merge x show ?thesis
      by (simp add: c walk_clause_def found_concat_map image_UN Un_commute)
  next
    case (CK_Delete x)
    then show ?thesis by (cases x) (simp add: c walk_clause_def)
  next
    case (CK_Foreach x)
    then show ?thesis by (cases x) (auto simp: c walk_clause_def found_map)
  next
    case (CK_LoadCsv x)
    then show ?thesis by (cases x) (simp add: c walk_clause_def)
  next
    case (CK_With x)
    then show ?thesis by (cases x) (simp add: c walk_clause_def image_Un)
  next
    case (CK_Return x)
    then show ?thesis by (cases x) (simp add: c walk_clause_def)
  next
    case (CK_Filter x)
    then show ?thesis by (cases x) (simp add: c walk_clause_def)
  qed (simp_all add: c walk_clause_def)
qed

lemma found_walk_factor: "found (walk_path_factor n) = contents (N_PathFactor n)"
proof (cases n)
  case (Node kind sp)
  show ?thesis
  proof (cases kind)
    case (PF_Relationship x)
    then show ?thesis by (cases x) (auto simp: Node walk_path_factor_def)
  qed (auto simp: Node walk_path_factor_def)
qed

lemma found_walk: "found (walk n) = contents n"
proof (cases n)
  case (N_Program p)
  then show ?thesis by (simp add: walk_program_def found_map) 
next
  case (N_Statement x)
  then show ?thesis by (cases "node_kind x") (simp_all add: walk_statement_def)
next
  case (N_Query x)
  then obtain kind sp where x: "x = Node kind sp" by (cases x) auto
  have "set_union_branch b = set_single_query_kind (node_kind (ub_query b))" for b :: "clause union_branch"
    by (cases b; cases "ub_query b") simp
  with N_Query x show ?thesis
  proof (cases kind)
    case (QU_Regular q)
    then obtain head head_sp unions where "q = RegularQuery (Node head head_sp) unions"
      by (metis regular_query.exhaust node.exhaust)
    with N_Query x QU_Regular \<open>\<And>b. set_union_branch b = _ b\<close> show ?thesis
      by (simp add: walk_query_def found_map image_UN image_Un)
  qed (simp add: walk_query_def)
next
  case (N_SingleQuery x)
  then show ?thesis
    by (cases "node_kind x") (auto simp: walk_single_query_def found_map)
next
  case (N_Pattern p)
  have "set_pattern_part_kind (node_kind part) = (\<Union>k\<in>set_node part. set_pattern_part_kind k)"
    for part :: "path_pattern pattern_part_kind node" by (cases part) simp
  with N_Pattern show ?thesis by (cases p) (simp add: walk_pattern_def found_map image_UN)
next
  case (N_PatternPart x)
  then show ?thesis by (cases "node_kind x") (simp add: walk_pattern_part_def)
next
  case (N_PathPattern p)
  then obtain fs sp where p: "p = PathPattern (Node (PathPatternKind fs) sp)"
    by (metis path_pattern.exhaust node.exhaust path_pattern_kind.exhaust)
  have "set1_path_factor_kind (node_kind f) = (\<Union>k\<in>set_node f. set1_path_factor_kind k)"
    "set2_path_factor_kind (node_kind f) = (\<Union>k\<in>set_node f. set2_path_factor_kind k)"
    for f :: "(expr, path_pattern) path_factor_kind node" by (cases f; simp)+
  then show ?thesis
    by (simp add: N_PathPattern p walk_path_pattern_def found_map image_UN UN_Un_distrib)
next
  case (N_LabelExpression l)
  then show ?thesis
    by (cases l rule: walk_label_expression.cases)
      (simp add: found_map split: label_expression_kind.splits)
qed (simp_all add: found_walk_expr found_walk_clause found_walk_factor)

text \<open>Containment through any number of expressions, paths and clauses.\<close>

inductive occurs :: "ast_node \<Rightarrow> ast_node \<Rightarrow> bool" where
  direct: "m \<in> contents n \<Longrightarrow> occurs n m"
| nested: "occurs n m \<Longrightarrow> k \<in> contents m \<Longrightarrow> occurs n k"

lemma occurs_trans: "occurs m k \<Longrightarrow> occurs n m \<Longrightarrow> occurs n k"
  by (induction rule: occurs.induct) (auto intro: occurs.intros)

lemma occurs_mono: "occurs m k \<Longrightarrow> contents m \<subseteq> contents n \<Longrightarrow> occurs n k"
  by (induction rule: occurs.induct) (auto intro: occurs.intros)

lemma contents_inside: "m \<in> contents n \<Longrightarrow> is_item m \<and> m \<in> inside n"
proof (induction n rule: ast.tree_induct)
  case (1 n)
  from "1.prems" obtain c where c: "c \<in> set (walk n)" "m \<in> step_contents c"
    unfolding found_walk [symmetric] found_def by blast
  from c(1) have "c \<in> inside n" unfolding inside_def by (rule UN_I) simp
  with c "1.IH" inside_trans [of c n] show ?case
    by (auto simp: step_contents_def split: if_splits)
qed

lemma inside_occurs: "m \<in> inside n \<Longrightarrow> is_item m \<Longrightarrow> occurs n m"
proof (induction n rule: ast.tree_induct)
  case (1 n)
  from "1.prems"(1) obtain c where c: "c \<in> set (walk n)" "m = c \<or> m \<in> inside c"
    by (auto simp: inside_def [of n] set_preorder)
  from c(1) have sub: "step_contents c \<subseteq> contents n"
    unfolding found_walk [symmetric] found_def by blast
  show ?case
  proof (cases "m = c")
    case True
    with sub "1.prems"(2) show ?thesis by (auto simp: step_contents_def intro: occurs.direct)
  next
    case False
    with c "1.IH" "1.prems"(2) have "occurs c m" by blast
    with sub show ?thesis
      by (cases "is_item c") (auto simp: step_contents_def intro: occurs_trans occurs_mono occurs.direct)
  qed
qed

text \<open>
  C38: the default traversal misses nothing and invents nothing. The expressions, paths and clauses
  on which hooks are called below a node are exactly those that occur in it, however deep and in
  whatever construct, by the set functions of the datatypes.
\<close>

theorem traversal_complete:
  "{m \<in> set (concat (map (preorder everything) (walk n))). is_item m} = {m. occurs n m}"
proof -
  have "m \<in> inside n \<and> is_item m" if "occurs n m" for m
    using that by (induction rule: occurs.induct) (use contents_inside inside_trans in blast)+
  with inside_occurs show ?thesis by (auto simp: inside_def)
qed

text \<open>The error-bearing variants.\<close>

fun error_of :: "ast_node \<Rightarrow> span option" where
  "error_of (N_Statement n) = (case node_kind n of ST_Error _ \<Rightarrow> Some (node_span n) | _ \<Rightarrow> None)"
| "error_of (N_Query n) = (case node_kind n of QU_Error _ \<Rightarrow> Some (node_span n) | _ \<Rightarrow> None)"
| "error_of (N_Clause n) = (case node_kind (clause_node n) of CK_Error _ \<Rightarrow> Some (clause_span n) | _ \<Rightarrow> None)"
| "error_of (N_Expr n) = (case node_kind (expr_node n) of EK_Error _ \<Rightarrow> Some (expr_span n) | _ \<Rightarrow> None)"
| "error_of (N_PathFactor n) = (case node_kind n of PF_Error _ \<Rightarrow> Some (node_span n) | _ \<Rightarrow> None)"
| "error_of (N_LabelExpression (LabelExpression n)) =
     (case node_kind n of LX_Error _ \<Rightarrow> Some (node_span n) | _ \<Rightarrow> None)"
| "error_of n = None"

fun visited_error :: "ast_node \<Rightarrow> span option" where
  "visited_error (N_Error sp) = Some sp"
| "visited_error n = None"

lemma visited_error_Some: "visited_error n = Some sp \<longleftrightarrow> n = N_Error sp"
  by (cases n) auto

lemma no_error_optional: "N_Error sp \<notin> set (optional_expr e)" "N_Error sp \<notin> set (optional_labels l)"
  by (auto simp: optional_expr_def optional_labels_def split: option.splits)

lemma no_error_parts:
  "N_Error sp \<notin> set (visit_items items)" "N_Error sp \<notin> set (visit_projection p)"
  "N_Error sp \<notin> set (visit_set s)" "N_Error sp \<notin> set (visit_remove r)"
  "N_Error sp \<notin> set (visit_call c)" "N_Error sp \<notin> set (visit_map_projection m)"
  "N_Error sp \<notin> set (visit_case x)" "N_Error sp \<notin> set (visit_predicate pr)"
  "N_Error sp \<notin> set (visit_node_pattern np)"
  by (auto simp: walk_part_defs split: option.splits projection_item_kind.splits set_item_kind.splits
      remove_item_kind.splits call_target.splits map_projection_item_kind.splits is_predicate.splits)

lemma walk_error: "error_of n = Some sp \<Longrightarrow> walk n = [N_Error sp]"
proof (cases n)
  case (N_LabelExpression l)
  assume "error_of n = Some sp"
  with N_LabelExpression show ?thesis
    by (cases l rule: walk_label_expression.cases) (simp split: label_expression_kind.splits)
qed (simp_all add: walk_statement_def walk_query_def walk_clause_def walk_expr_def walk_path_factor_def
    split: statement_kind.splits query_kind.splits clause_kind.splits expr_kind.splits
      path_factor_kind.splits)

lemma walk_no_error: "error_of n = None \<Longrightarrow> N_Error sp \<notin> set (walk n)"
proof (cases n)
  case (N_LabelExpression l)
  assume "error_of n = None"
  with N_LabelExpression show ?thesis
    by (cases l rule: walk_label_expression.cases) (auto split: label_expression_kind.splits)
next
  case (N_Clause c)
  assume "error_of n = None"
  with N_Clause show ?thesis
    by (auto simp: walk_clause_def no_error_parts no_error_optional split: clause_kind.splits)
next
  case (N_Expr e)
  assume "error_of n = None"
  with N_Expr show ?thesis
    by (auto simp: walk_expr_def no_error_parts no_error_optional split: expr_kind.splits)
next
  case (N_PathFactor f)
  assume "error_of n = None"
  with N_PathFactor show ?thesis
    by (auto simp: walk_path_factor_def no_error_parts no_error_optional split: path_factor_kind.splits)
qed (auto simp: walk_program_def walk_statement_def walk_query_def walk_single_query_def
    walk_pattern_def walk_pattern_part_def walk_path_pattern_def
    split: statement_kind.splits query_kind.splits)

lemma map_filter_concat: "List.map_filter f (concat (map g xs)) = concat (map (\<lambda>x. List.map_filter f (g x)) xs)"
  by (induction xs) (simp_all add: List.map_filter_def)

lemma map_filter_preorder: "List.map_filter f (preorder everything n) =
    (case f n of Some x \<Rightarrow> [x] | None \<Rightarrow> []) @ concat (map (\<lambda>c. List.map_filter f (preorder everything c)) (walk n))"
  by (subst preorder.simps) (simp add: map_filter_concat map_filter_simps split: option.splits)


section \<open>The documented example\<close>

text \<open>The visitor of the module documentation, which collects the spans of errors.\<close>

definition error_collector :: "span list visitor" where
  "error_collector =
     \<lparr>enter = (\<lambda>n s. (case visited_error n of Some sp \<Rightarrow> s @ [sp] | None \<Rightarrow> s, True)),
      leave = (\<lambda>n s. s)\<rparr>"


end
