(* ===== verification/Checked.thy ===== *)
theory Checked
  imports Rust_Str
begin

text \<open>
  Vocabulary of the build automation under \<open>src/xtask/src\<close>: computations that return a
  \<open>Result\<close> and may also panic, the loops and guards that thread such results with \<open>?\<close>, ordered
  maps (\<open>BTreeMap\<close>), and the string operations that the checkers use.
\<close>

named_theorems run_simps "when a checked computation passes, fails or panics"
named_theorems returns_intros "computations that do not panic"

section \<open>Results that may panic\<close>

text \<open>\<open>None\<close> is a panic, \<open>Some (Inl e)\<close> an error, \<open>Some (Inr x)\<close> a value.\<close>

type_synonym ('e, 'a) run = "('e + 'a) panics"

definition pass :: "'a \<Rightarrow> ('e, 'a) run" where
  "pass x = Some (Inr x)"

definition fail :: "'e \<Rightarrow> ('e, 'a) run" where
  "fail e = Some (Inl e)"

text \<open>The \<open>?\<close> operator.\<close>

definition run_then :: "('e, 'a) run \<Rightarrow> ('a \<Rightarrow> ('e, 'b) run) \<Rightarrow> ('e, 'b) run" where
  "run_then m f = Option.bind m (\<lambda>r. case r of Inl e \<Rightarrow> Some (Inl e) | Inr x \<Rightarrow> f x)"

text \<open>\<open>if bad { return Err(e) }\<close>, and \<open>Option::ok_or_else\<close>.\<close>

definition reject_if :: "bool \<Rightarrow> 'e \<Rightarrow> ('e, unit) run" where
  "reject_if bad e = (if bad then fail e else pass ())"

definition ok_or :: "'e \<Rightarrow> 'a option \<Rightarrow> ('e, 'a) run" where
  "ok_or e v = (case v of None \<Rightarrow> fail e | Some x \<Rightarrow> pass x)"

text \<open>Statements in sequence, each followed by \<open>?\<close>.\<close>

fun run_all :: "('e, unit) run list \<Rightarrow> ('e, unit) run" where
  "run_all [] = pass ()"
| "run_all (c # cs) = run_then c (\<lambda>_. run_all cs)"

text \<open>A \<open>for\<close> loop with a loop state, and one without.\<close>

fun fold_run :: "('a \<Rightarrow> 's \<Rightarrow> ('e, 's) run) \<Rightarrow> 'a list \<Rightarrow> 's \<Rightarrow> ('e, 's) run" where
  "fold_run f [] s = pass s"
| "fold_run f (x # xs) s = run_then (f x s) (fold_run f xs)"

definition for_each :: "('a \<Rightarrow> ('e, unit) run) \<Rightarrow> 'a list \<Rightarrow> ('e, unit) run" where
  "for_each f xs = fold_run (\<lambda>x _. f x) xs ()"

text \<open>\<open>iter().map(f).collect::<Result<Vec<_>, _>>()\<close>.\<close>

fun map_run :: "('a \<Rightarrow> ('e, 'b) run) \<Rightarrow> 'a list \<Rightarrow> ('e, 'b list) run" where
  "map_run f [] = pass []"
| "map_run f (x # xs) = run_then (f x) (\<lambda>y. run_then (map_run f xs) (\<lambda>ys. pass (y # ys)))"

lemma run_then_simps [simp]:
  "run_then None f = None"
  "run_then (Some (Inl e)) f = Some (Inl e)"
  "run_then (Some (Inr x)) f = f x"
  "run_then (pass x) f = f x"
  "run_then (fail e) f = fail e"
  by (simp_all add: run_then_def pass_def fail_def)

lemma pass_fail_simps [simp]:
  "pass x = Some (Inr y) \<longleftrightarrow> x = y"
  "pass x = pass y \<longleftrightarrow> x = y"
  "fail e \<noteq> Some (Inr y)"
  "pass x \<noteq> Some (Inl e)"
  "fail e = Some (Inl d) \<longleftrightarrow> e = d"
  "fail e = fail d \<longleftrightarrow> e = d"
  "pass x \<noteq> fail e"
  "fail e \<noteq> pass x"
  "pass x \<noteq> None"
  "fail e \<noteq> None"
  "\<exists>y. pass x = Some y"
  "\<exists>y. fail e = Some y"
  by (simp_all add: pass_def fail_def)

lemma run_then_pass [run_simps]:
  "run_then m f = Some (Inr y) \<longleftrightarrow> (\<exists>x. m = Some (Inr x) \<and> f x = Some (Inr y))"
  by (simp add: run_then_def split: sum.splits Option.bind_splits)

lemma run_then_panic [run_simps]:
  "run_then m f = None \<longleftrightarrow> m = None \<or> (\<exists>x. m = Some (Inr x) \<and> f x = None)"
  by (auto simp add: run_then_def split: sum.splits Option.bind_splits)

lemma reject_if_iff [run_simps, simp]:
  "reject_if bad e = Some (Inr u) \<longleftrightarrow> \<not> bad"
  "reject_if bad e = Some (Inl d) \<longleftrightarrow> bad \<and> d = e"
  "reject_if bad e \<noteq> None"
  by (auto simp: reject_if_def)

lemma reject_if_simps [simp]: "reject_if True e = fail e" "reject_if False e = pass ()"
  by (simp_all add: reject_if_def)

lemma ok_or_simps [simp]: "ok_or e (Some x) = pass x" "ok_or e None = fail e"
  by (simp_all add: ok_or_def)

lemma ok_or_iff [run_simps, simp]:
  "ok_or e v = Some (Inr x) \<longleftrightarrow> v = Some x"
  "ok_or e v = Some (Inl d) \<longleftrightarrow> v = None \<and> d = e"
  "ok_or e v \<noteq> None"
  by (auto simp: ok_or_def split: option.splits)

lemma run_all_pass [run_simps]:
  "run_all cs = Some (Inr u) \<longleftrightarrow> (\<forall>c\<in>set cs. c = Some (Inr ()))"
  by (induction cs) (auto simp: run_simps)

lemma run_all_total: "\<forall>c\<in>set cs. c \<noteq> None \<Longrightarrow> run_all cs \<noteq> None"
  by (induction cs) (auto simp: run_simps)

lemma for_each_pass [run_simps]:
  "for_each f xs = Some (Inr u) \<longleftrightarrow> (\<forall>x\<in>set xs. f x = Some (Inr ()))"
  unfolding for_each_def by (induction xs) (auto simp: run_simps)

lemma for_each_total: "(\<And>x. x \<in> set xs \<Longrightarrow> f x \<noteq> None) \<Longrightarrow> for_each f xs \<noteq> None"
  unfolding for_each_def by (induction xs) (auto simp: run_then_panic)

lemma for_each_simps [simp]:
  "for_each f [] = pass ()"
  "for_each f (x # xs) = run_then (f x) (\<lambda>_. for_each f xs)"
  by (simp_all add: for_each_def)

text \<open>Invariants of a loop with a state.\<close>

lemma fold_run_invariant:
  assumes "fold_run f xs s = Some (Inr t)" and "I s"
    and "\<And>x s t. x \<in> set xs \<Longrightarrow> I s \<Longrightarrow> f x s = Some (Inr t) \<Longrightarrow> I t"
  shows "I t"
  using assms
proof (induction xs arbitrary: s)
  case (Cons x xs)
  then obtain s' where "f x s = Some (Inr s')" "fold_run f xs s' = Some (Inr t)"
    by (auto simp: run_then_pass)
  then show ?case
    using Cons.prems(2,3) by (intro Cons.IH [of s']) (auto intro: Cons.prems(3) [of x])
qed simp

lemma fold_run_total:
  assumes "I s" and "\<And>x s. x \<in> set xs \<Longrightarrow> I s \<Longrightarrow> f x s \<noteq> None"
    and "\<And>x s t. x \<in> set xs \<Longrightarrow> I s \<Longrightarrow> f x s = Some (Inr t) \<Longrightarrow> I t"
  shows "fold_run f xs s \<noteq> None"
  using assms
proof (induction xs arbitrary: s)
  case (Cons x xs)
  have "fold_run f xs t \<noteq> None" if "f x s = Some (Inr t)" for t
  proof (rule Cons.IH)
    show "I t" by (rule Cons.prems(3) [OF _ Cons.prems(1) that]) simp
  next
    fix y u assume "y \<in> set xs" "I u"
    then show "f y u \<noteq> None" by (intro Cons.prems(2)) simp_all
  next
    fix y u v assume "y \<in> set xs" "I u" "f y u = Some (Inr v)"
    then show "I v" by (intro Cons.prems(3) [of y u v]) simp_all
  qed
  moreover have "f x s \<noteq> None" by (rule Cons.prems(2)) (simp_all add: Cons.prems(1))
  ultimately show ?case by (simp add: run_then_panic)
qed simp

lemma map_run_pass [run_simps]:
  "map_run f xs = Some (Inr ys) \<longleftrightarrow> list_all2 (\<lambda>x y. f x = Some (Inr y)) xs ys"
  by (induction xs arbitrary: ys) (auto simp: run_then_pass list_all2_Cons1)

lemma map_run_total: "(\<And>x. x \<in> set xs \<Longrightarrow> f x \<noteq> None) \<Longrightarrow> map_run f xs \<noteq> None"
  by (induction xs) (auto simp: run_then_panic)

text \<open>Freedom from panics, with a rule for each construct.\<close>

definition returns :: "('e, 'a) run \<Rightarrow> bool" where
  "returns m = (m \<noteq> None)"

lemma returns_basic [simp, returns_intros]:
  "returns (pass x)" "returns (fail e)" "returns (reject_if b e)" "returns (ok_or e v)"
  "returns (Some r)"
  by (simp_all add: returns_def)

lemma returns_run_then [returns_intros]:
  "returns m \<Longrightarrow> (\<And>x. m = Some (Inr x) \<Longrightarrow> returns (f x)) \<Longrightarrow> returns (run_then m f)"
  by (auto simp: returns_def run_then_panic)

lemma returns_run_all [returns_intros]: "list_all returns cs \<Longrightarrow> returns (run_all cs)"
  using run_all_total [of cs] by (simp add: returns_def list_all_iff)

lemma returns_for_each [returns_intros]:
  "(\<And>x. x \<in> set xs \<Longrightarrow> returns (f x)) \<Longrightarrow> returns (for_each f xs)"
  unfolding returns_def by (rule for_each_total)

lemma returns_map_run [returns_intros]:
  "(\<And>x. x \<in> set xs \<Longrightarrow> returns (f x)) \<Longrightarrow> returns (map_run f xs)"
  unfolding returns_def by (rule map_run_total)

lemma returns_fold_run [returns_intros]:
  "(\<And>x s. x \<in> set xs \<Longrightarrow> returns (f x s)) \<Longrightarrow> returns (fold_run f xs s)"
  unfolding returns_def by (rule fold_run_total [where I = "\<lambda>_. True"]) simp_all

section \<open>Ordered maps\<close>

text \<open>
  A \<open>BTreeMap\<close> is the list of its entries in ascending order of the keys; strings compare as Rust
  compares them (the byte order of UTF-8 is the order of the scalars). \<open>bt_insert\<close> is
  \<open>BTreeMap::insert\<close>; \<open>map_of\<close> is \<open>get\<close>.
\<close>

type_synonym ('k, 'v) btree = "('k \<times> 'v) list"

fun bt_insert :: "'k::linorder \<Rightarrow> 'v \<Rightarrow> ('k, 'v) btree \<Rightarrow> ('k, 'v) btree" where
  "bt_insert k v [] = [(k, v)]"
| "bt_insert k v ((l, w) # m) =
     (if k < l then (k, v) # (l, w) # m
      else if k = l then (k, v) # m
      else (l, w) # bt_insert k v m)"

definition bt_ok :: "('k::linorder, 'v) btree \<Rightarrow> bool" where
  "bt_ok m = sorted_wrt (<) (map fst m)"

definition bt_values :: "('k, 'v) btree \<Rightarrow> 'v list" where
  "bt_values m = map snd m"

definition bt_keys :: "('k, 'v) btree \<Rightarrow> 'k list" where
  "bt_keys m = map fst m"

text \<open>\<open>collect::<BTreeMap<_, _>>()\<close>: a later entry replaces an earlier one with its key.\<close>

definition bt_collect :: "('k::linorder \<times> 'v) list \<Rightarrow> ('k, 'v) btree" where
  "bt_collect xs = fold (\<lambda>(k, v). bt_insert k v) xs []"

lemma bt_insert_keys [simp]: "fst ` set (bt_insert k v m) = insert k (fst ` set m)"
  by (induction k v m rule: bt_insert.induct) auto

lemma bt_get_insert [simp]: "map_of (bt_insert k v m) = (map_of m)(k \<mapsto> v)"
  by (induction k v m rule: bt_insert.induct) auto

lemma bt_ok_Nil [simp]: "bt_ok []"
  by (simp add: bt_ok_def)

lemma bt_ok_Cons: "bt_ok ((k, v) # m) \<longleftrightarrow> bt_ok m \<and> (\<forall>l\<in>fst ` set m. k < l)"
  by (auto simp: bt_ok_def)

lemma bt_ok_insert [simp]: "bt_ok m \<Longrightarrow> bt_ok (bt_insert k v m)"
  by (induction k v m rule: bt_insert.induct) (auto simp: bt_ok_Cons)

lemma bt_ok_distinct: "bt_ok m \<Longrightarrow> distinct (map fst m)"
  unfolding bt_ok_def by (simp add: strict_sorted_iff)

lemma bt_get_iff: "bt_ok m \<Longrightarrow> map_of m k = Some v \<longleftrightarrow> (k, v) \<in> set m"
  by (simp add: bt_ok_distinct)

lemma bt_values_iff: "bt_ok m \<Longrightarrow> v \<in> set (bt_values m) \<longleftrightarrow> (\<exists>k. map_of m k = Some v)"
proof -
  assume "bt_ok m"
  moreover have "v \<in> set (bt_values m) \<longleftrightarrow> (\<exists>k. (k, v) \<in> set m)"
    by (auto simp: bt_values_def) (metis snd_conv image_eqI)
  ultimately show ?thesis by (simp add: bt_get_iff)
qed

lemma bt_keys_iff: "k \<in> set (bt_keys m) \<longleftrightarrow> (\<exists>v. map_of m k = Some v)"
proof -
  have "k \<in> set (bt_keys m) \<longleftrightarrow> k \<in> dom (map_of m)"
    by (simp add: bt_keys_def dom_map_of_conv_image_fst)
  then show ?thesis by (auto simp: dom_def)
qed

lemma map_of_rev_eq: "distinct (map fst xs) \<Longrightarrow> map_of (rev xs) = map_of xs"
proof -
  assume d: "distinct (map fst xs)"
  then have "distinct (map fst (rev xs))" by (simp flip: rev_map)
  from map_of_inject_set [OF this d] show ?thesis by simp
qed

lemma fold_insert_ok: "bt_ok m \<Longrightarrow> bt_ok (fold (\<lambda>(k, v). bt_insert k v) xs m)"
  by (induction xs arbitrary: m) auto

lemma bt_ok_collect [simp]: "bt_ok (bt_collect xs)"
  by (simp add: bt_collect_def fold_insert_ok)

lemma fold_insert_get:
  "map_of (fold (\<lambda>(k, v). bt_insert k v) xs m) = map_of m ++ map_of (rev xs)"
  by (induction xs arbitrary: m) (auto simp: map_add_assoc)

lemma bt_get_collect [simp]: "map_of (bt_collect xs) = map_of (rev xs)"
  by (simp add: bt_collect_def fold_insert_get)

lemma length_bt_ok: "bt_ok m \<Longrightarrow> length m = card (fst ` set m)"
proof -
  assume "bt_ok m"
  then have "card (set (map fst m)) = length (map fst m)"
    by (rule distinct_card [OF bt_ok_distinct])
  then show ?thesis by simp
qed

lemma bt_collect_length: "length (bt_collect xs) = card (fst ` set xs)"
proof -
  have "fst ` set (bt_collect xs) = dom (map_of (bt_collect xs))"
    by (simp only: dom_map_of_conv_image_fst)
  also have "\<dots> = dom (map_of (rev xs))" by simp
  also have "\<dots> = fst ` set xs" by (simp only: dom_map_of_conv_image_fst set_rev)
  finally show ?thesis by (simp add: length_bt_ok)
qed

text \<open>The map has as many entries as the list exactly when no key occurs twice.\<close>

lemma bt_collect_length_iff:
  "length (bt_collect xs) = length xs \<longleftrightarrow> distinct (map fst xs)"
proof -
  have "length (bt_collect xs) = card (set (map fst xs))" by (simp add: bt_collect_length)
  then show ?thesis using card_distinct [of "map fst xs"] distinct_card [of "map fst xs"] by auto
qed

section \<open>Strings of the checkers\<close>

fun strip_prefix :: "'a list \<Rightarrow> 'a list \<Rightarrow> 'a list option" where
  "strip_prefix [] s = Some s"
| "strip_prefix (c # p) [] = None"
| "strip_prefix (c # p) (d # s) = (if c = d then strip_prefix p s else None)"

definition starts_with :: "'a list \<Rightarrow> 'a list \<Rightarrow> bool" where
  "starts_with p s = (strip_prefix p s \<noteq> None)"

definition strip_suffix :: "'a list \<Rightarrow> 'a list \<Rightarrow> 'a list option" where
  "strip_suffix p s = map_option rev (strip_prefix (rev p) (rev s))"

lemma strip_prefix_Some_iff: "strip_prefix p s = Some r \<longleftrightarrow> s = p @ r"
  by (induction p s rule: strip_prefix.induct) auto

lemma strip_prefix_append [simp]: "strip_prefix p (p @ r) = Some r"
  by (simp add: strip_prefix_Some_iff)

lemma starts_with_iff: "starts_with p s \<longleftrightarrow> (\<exists>r. s = p @ r)"
  unfolding starts_with_def using strip_prefix_Some_iff [of p s] by (cases "strip_prefix p s") auto

lemma strip_suffix_Some_iff: "strip_suffix p s = Some r \<longleftrightarrow> s = r @ p"
  by (force simp: strip_suffix_def strip_prefix_Some_iff rev_swap)

text \<open>
  \<open>str::trim_start_matches(prefix)\<close> removes the prefix as often as it occurs. The empty prefix,
  which the source never uses, removes nothing.
\<close>

function trim_start_matches :: "'a list \<Rightarrow> 'a list \<Rightarrow> 'a list" where
  "trim_start_matches p s =
     (case strip_prefix p s of
        None \<Rightarrow> s
      | Some r \<Rightarrow> if p = [] then s else trim_start_matches p r)"
  by pat_completeness auto
termination
  by (relation "measure (\<lambda>(p, s). length s)") (auto simp: strip_prefix_Some_iff)

declare trim_start_matches.simps [simp del]

text \<open>\<open>str::split_once\<close>: around the first occurrence of a separator.\<close>

fun split_once :: "'a list \<Rightarrow> 'a list \<Rightarrow> ('a list \<times> 'a list) option" where
  "split_once d [] = (if d = [] then Some ([], []) else None)"
| "split_once d (c # s) =
     (case strip_prefix d (c # s) of
        Some r \<Rightarrow> Some ([], r)
      | None \<Rightarrow> map_option (\<lambda>(a, b). (c # a, b)) (split_once d s))"

lemma split_once_Some: "split_once d s = Some (a, b) \<Longrightarrow> s = a @ d @ b"
  by (induction d s arbitrary: a rule: split_once.induct)
     (auto simp: strip_prefix_Some_iff split: option.splits if_splits)

text \<open>\<open>str::contains\<close>.\<close>

definition str_contains :: "ustr \<Rightarrow> ustr \<Rightarrow> bool" where
  "str_contains needle s = (split_once needle s \<noteq> None)"

text \<open>ASCII classes of bytes and characters.\<close>

definition is_ascii_alphabetic :: "nat \<Rightarrow> bool" where
  "is_ascii_alphabetic c = (65 \<le> c \<and> c \<le> 90 \<or> 97 \<le> c \<and> c \<le> 122)"

definition is_ascii_alphanumeric :: "nat \<Rightarrow> bool" where
  "is_ascii_alphanumeric c = (is_ascii_alphabetic c \<or> is_ascii_digit c)"

definition is_word_char :: "nat \<Rightarrow> bool" where
  "is_word_char c = (is_ascii_alphanumeric c \<or> c = cp CHR ''_'')"

text \<open>
  \<open>char::is_whitespace\<close>: the characters with the Unicode property White_Space.
\<close>

definition char_is_whitespace :: "uchar \<Rightarrow> bool" where
  "char_is_whitespace c =
     (9 \<le> c \<and> c \<le> 13 \<or> c = 32 \<or> c = 133 \<or> c = 160 \<or> c = 5760 \<or> 8192 \<le> c \<and> c \<le> 8202 \<or>
      c = 8232 \<or> c = 8233 \<or> c = 8239 \<or> c = 8287 \<or> c = 12288)"

definition trim_start :: "ustr \<Rightarrow> ustr" where
  "trim_start s = dropWhile char_is_whitespace s"

definition trim_end :: "ustr \<Rightarrow> ustr" where
  "trim_end s = rev (dropWhile char_is_whitespace (rev s))"

definition trim :: "ustr \<Rightarrow> ustr" where
  "trim s = trim_end (trim_start s)"

text \<open>
  \<open>str::lines\<close>: the lines without their terminator, a line feed or a carriage return and a line
  feed; nothing after a final terminator.
\<close>

definition drop_cr :: "ustr \<Rightarrow> ustr" where
  "drop_cr line = (if line \<noteq> [] \<and> last line = 13 then butlast line else line)"

fun lines_from :: "ustr \<Rightarrow> ustr \<Rightarrow> ustr list" where
  "lines_from acc [] = (if acc = [] then [] else [rev acc])"
| "lines_from acc (c # s) =
     (if c = 10 then drop_cr (rev acc) # lines_from [] s else lines_from (c # acc) s)"

definition str_lines :: "ustr \<Rightarrow> ustr list" where
  "str_lines s = lines_from [] s"

end
