(* ===== verification/Cypher_Script.thy ===== *)
theory Cypher_Script
  imports Checked Lexer
begin

text \<open>
  \<open>split_cypher_script\<close> of \<open>xtask/src/tck.rs\<close>, which cuts a script into its statements: the loop over
  the bytes with its six states, and the same on the characters of the text (\<open>loop_scan\<close>): every
  mark is ASCII, and every other byte of a character outside ASCII is skipped.
\<close>

section \<open>The splitter\<close>

datatype (plugins only: code size) script_state =
  SS_Normal | SS_SingleQuote | SS_DoubleQuote | SS_Backtick | SS_LineComment | SS_BlockComment nat

datatype (plugins only: code size) script_error =
  SE_SingleQuote | SE_DoubleQuote | SE_Backtick | SE_BlockComment

text \<open>\<open>replace("\r\n", "\n").replace('\r', "\n")\<close>.\<close>

fun replace_crlf :: "ustr \<Rightarrow> ustr" where
  "replace_crlf (c # d # s) = (if c = 13 \<and> d = 10 then 10 # replace_crlf s else c # replace_crlf (d # s))"
| "replace_crlf s = s"

definition normalize_newlines :: "ustr \<Rightarrow> ustr" where
  "normalize_newlines s = map (\<lambda>c. if c = 13 then 10 else c) (replace_crlf s)"

definition trimmed_statement :: "ustr \<Rightarrow> ustr option" where
  "trimmed_statement source = (let trimmed = trim source in if trimmed = [] then None else Some trimmed)"

text \<open>The variables of the loop.\<close>

record splitter =
  ss_state :: script_state
  ss_start :: nat
  ss_start_line :: nat
  ss_line :: nat
  ss_index :: nat
  ss_statements :: "(nat \<times> ustr) list"

text \<open>A semicolon ends the statement \<open>normalized[start..index]\<close>.\<close>

definition end_statement :: "ustr \<Rightarrow> splitter \<Rightarrow> splitter panics" where
  "end_statement normalized st =
     map_option (\<lambda>piece.
       st\<lparr>ss_statements := ss_statements st @
            (case trimmed_statement piece of None \<Rightarrow> [] | Some s \<Rightarrow> [(ss_start_line st, s)]),
          ss_start := ss_index st + 1, ss_start_line := ss_line st\<rparr>)
       (str_get normalized (ss_start st) (ss_index st))"

text \<open>The end of the loop body: the line count, and the next index.\<close>

definition next_byte :: "nat \<Rightarrow> splitter \<Rightarrow> splitter" where
  "next_byte byte st =
     (let st = (if byte = 10
                then (let st = st\<lparr>ss_line := ss_line st + 1\<rparr>
                      in if ss_start st = ss_index st + 1 then st\<lparr>ss_start_line := ss_line st\<rparr> else st)
                else st)
      in st\<lparr>ss_index := ss_index st + 1\<rparr>)"

text \<open>\<open>continue\<close> after two bytes.\<close>

definition skip_two :: "script_state \<Rightarrow> splitter \<Rightarrow> splitter" where
  "skip_two state st = st\<lparr>ss_state := state, ss_index := ss_index st + 2\<rparr>"

definition quote_step :: "nat \<Rightarrow> nat \<Rightarrow> nat option \<Rightarrow> splitter \<Rightarrow> splitter" where
  "quote_step quote byte nxt st =
     (if byte = 92 then st\<lparr>ss_index := ss_index st + (if nxt = None then 0 else 1)\<rparr>
      else if byte = quote then st\<lparr>ss_state := SS_Normal\<rparr>
      else st)"

definition split_step :: "ustr \<Rightarrow> nat \<Rightarrow> nat option \<Rightarrow> splitter \<Rightarrow> splitter panics" where
  "split_step normalized byte nxt st =
     (case ss_state st of
        SS_Normal \<Rightarrow>
          (if byte = 47 \<and> nxt = Some 47 then Some (skip_two SS_LineComment st)
           else if byte = 47 \<and> nxt = Some 42 then Some (skip_two (SS_BlockComment 1) st)
           else if byte = 39 then Some (next_byte byte (st\<lparr>ss_state := SS_SingleQuote\<rparr>))
           else if byte = 34 then Some (next_byte byte (st\<lparr>ss_state := SS_DoubleQuote\<rparr>))
           else if byte = 96 then Some (next_byte byte (st\<lparr>ss_state := SS_Backtick\<rparr>))
           else if byte = 59 then map_option (next_byte byte) (end_statement normalized st)
           else Some (next_byte byte st))
      | SS_SingleQuote \<Rightarrow> Some (next_byte byte (quote_step 39 byte nxt st))
      | SS_DoubleQuote \<Rightarrow> Some (next_byte byte (quote_step 34 byte nxt st))
      | SS_Backtick \<Rightarrow>
          Some (next_byte byte
            (if byte = 96 \<and> nxt = Some 96 then st\<lparr>ss_index := ss_index st + 1\<rparr>
             else if byte = 96 then st\<lparr>ss_state := SS_Normal\<rparr>
             else st))
      | SS_LineComment \<Rightarrow> Some (next_byte byte (if byte = 10 then st\<lparr>ss_state := SS_Normal\<rparr> else st))
      | SS_BlockComment depth \<Rightarrow>
          (if byte = 47 \<and> nxt = Some 42 then Some (skip_two (SS_BlockComment (depth + 1)) st)
           else if byte = 42 \<and> nxt = Some 47
           then Some (skip_two (if depth = 1 then SS_Normal else SS_BlockComment (depth - 1)) st)
           else Some (next_byte byte st)))"

lemma next_byte_simps [simp]:
  "ss_index (next_byte b st) = ss_index st + 1" "ss_state (next_byte b st) = ss_state st"
  "ss_start (next_byte b st) = ss_start st" "ss_statements (next_byte b st) = ss_statements st"
  by (simp_all add: next_byte_def Let_def)

lemma split_step_progress: "split_step t b nxt st = Some st' \<Longrightarrow> ss_index st < ss_index st'"
  by (auto simp: split_step_def skip_two_def quote_step_def end_statement_def
      split: script_state.splits if_splits)

definition byte_at :: "nat list \<Rightarrow> nat \<Rightarrow> nat option" where
  "byte_at bytes i = (if i < length bytes then Some (bytes ! i) else None)"

function split_loop :: "ustr \<Rightarrow> nat list \<Rightarrow> splitter \<Rightarrow> splitter panics" where
  "split_loop normalized bytes st =
     (case byte_at bytes (ss_index st) of
        None \<Rightarrow> Some st
      | Some byte \<Rightarrow>
          Option.bind (split_step normalized byte (byte_at bytes (ss_index st + 1)) st)
            (split_loop normalized bytes))"
  by pat_completeness auto
termination
  by (relation "measure (\<lambda>(_, bytes, st). length bytes - ss_index st)")
     (auto simp: byte_at_def dest!: split_step_progress split: if_splits)

declare split_loop.simps [simp del]

definition unterminated :: "script_state \<Rightarrow> script_error option" where
  "unterminated state =
     (case state of
        SS_SingleQuote \<Rightarrow> Some SE_SingleQuote
      | SS_DoubleQuote \<Rightarrow> Some SE_DoubleQuote
      | SS_Backtick \<Rightarrow> Some SE_Backtick
      | SS_BlockComment _ \<Rightarrow> Some SE_BlockComment
      | _ \<Rightarrow> None)"

definition split_cypher_script :: "ustr \<Rightarrow> (script_error, (nat \<times> ustr) list) run" where
  "split_cypher_script source =
     (let normalized = normalize_newlines source;
          start = \<lparr>ss_state = SS_Normal, ss_start = 0, ss_start_line = 1, ss_line = 1, ss_index = 0,
                   ss_statements = []\<rparr>
      in Option.bind (split_loop normalized (as_bytes normalized) start) (\<lambda>st.
         case unterminated (ss_state st) of
           Some e \<Rightarrow> fail e
         | None \<Rightarrow>
             map_option (\<lambda>piece. Inr (ss_statements st @
                 (case trimmed_statement piece of None \<Rightarrow> [] | Some s \<Rightarrow> [(ss_start_line st, s)])))
               (str_get normalized (ss_start st) (byte_len normalized))))"

section \<open>The splitter on characters\<close>

text \<open>
  What the loop does with the rest of the t, from a state and a line: the state it ends in, the
  rest of the current piece, and the pieces after it with their lines.
\<close>

type_synonym pieces = "script_state \<times> ustr \<times> (nat \<times> ustr) list"

definition extend :: "ustr \<Rightarrow> pieces \<Rightarrow> pieces" where
  "extend r x = (case x of (f, p, rest) \<Rightarrow> (f, r @ p, rest))"

definition quote_state :: "nat \<Rightarrow> script_state" where
  "quote_state d = (if d = 39 then SS_SingleQuote else SS_DoubleQuote)"

definition opened :: "uchar \<Rightarrow> script_state" where
  "opened c = (if c = 39 then SS_SingleQuote else if c = 34 then SS_DoubleQuote
     else if c = 96 then SS_Backtick else SS_Normal)"

function scan :: "script_state \<Rightarrow> nat \<Rightarrow> ustr \<Rightarrow> pieces" where
  "scan st n [] = (st, [], [])"
| "scan SS_Normal n (c # s) =
     (if c = 47 \<and> s \<noteq> [] \<and> hd s = 47 then extend [c, hd s] (scan SS_LineComment n (tl s))
      else if c = 47 \<and> s \<noteq> [] \<and> hd s = 42 then extend [c, hd s] (scan (SS_BlockComment 1) n (tl s))
      else if c = 59 then (case scan SS_Normal n s of (f, p, rest) \<Rightarrow> (f, [], (n, p) # rest))
      else extend [c] (scan (opened c) (n + of_bool (c = 10)) s))"
| "scan SS_SingleQuote n (c # s) =
     (if c = 92 \<and> s \<noteq> [] then extend [c, hd s] (scan SS_SingleQuote n (tl s))
      else extend [c] (scan (if c = 39 then SS_Normal else SS_SingleQuote) (n + of_bool (c = 10)) s))"
| "scan SS_DoubleQuote n (c # s) =
     (if c = 92 \<and> s \<noteq> [] then extend [c, hd s] (scan SS_DoubleQuote n (tl s))
      else extend [c] (scan (if c = 34 then SS_Normal else SS_DoubleQuote) (n + of_bool (c = 10)) s))"
| "scan SS_Backtick n (c # s) =
     (if c = 96 \<and> s \<noteq> [] \<and> hd s = 96 then extend [c, hd s] (scan SS_Backtick n (tl s))
      else extend [c] (scan (if c = 96 then SS_Normal else SS_Backtick) (n + of_bool (c = 10)) s))"
| "scan SS_LineComment n (c # s) =
     extend [c] (scan (if c = 10 then SS_Normal else SS_LineComment) (n + of_bool (c = 10)) s)"
| "scan (SS_BlockComment depth) n (c # s) =
     (if c = 47 \<and> s \<noteq> [] \<and> hd s = 42 then extend [c, hd s] (scan (SS_BlockComment (depth + 1)) n (tl s))
      else if c = 42 \<and> s \<noteq> [] \<and> hd s = 47
      then extend [c, hd s] (scan (if depth = 1 then SS_Normal else SS_BlockComment (depth - 1)) n (tl s))
      else extend [c] (scan (SS_BlockComment depth) (n + of_bool (c = 10)) s))"
  by pat_completeness auto
termination by (relation "measure (\<lambda>(_, _, s). length s)") auto

section \<open>The loop is the scan\<close>

definition first_byte :: "ustr \<Rightarrow> nat option" where
  "first_byte s = (case as_bytes s of [] \<Rightarrow> None | b # _ \<Rightarrow> Some b)"

lemma first_byte_None [simp]: "first_byte s = None \<longleftrightarrow> s = []"
proof (cases s)
  case (Cons c s')
  have "encode_utf8 c \<noteq> []" by (metis length_encode_utf8 len_utf8_neq_0 list.size(3))
  with Cons show ?thesis by (auto simp: first_byte_def split: list.splits)
qed (simp add: first_byte_def)

lemma first_byte_ascii [simp]: "x < 128 \<Longrightarrow> first_byte s = Some x \<longleftrightarrow> s \<noteq> [] \<and> hd s = x"
proof (cases s)
  case (Cons c s')
  assume "x < 128"
  with Cons show ?thesis by (cases rule: encode_utf8_cases [of c]) (auto simp: first_byte_def)
qed (simp add: first_byte_def)

lemma split_loop_end: "byte_len t \<le> ss_index st \<Longrightarrow> split_loop t (as_bytes t) st = Some st"
  by (subst split_loop.simps) (simp add: byte_at_def)

lemma split_loop_byte:
  assumes "bytes = xs @ b # ys" and "ss_index st = length xs"
  shows "split_loop t bytes st =
    Option.bind (split_step t b (case ys of [] \<Rightarrow> None | y # _ \<Rightarrow> Some y) st) (split_loop t bytes)"
  using assms by (subst split_loop.simps) (simp add: byte_at_def nth_append split: list.split)

lemma split_step_high: "128 \<le> b \<Longrightarrow> split_step t b nxt st = Some (st\<lparr>ss_index := ss_index st + 1\<rparr>)"
  by (simp add: split_step_def next_byte_def quote_step_def split: script_state.split)

lemma split_loop_high:
  assumes "bytes = xs @ hs @ ys" and "\<forall>b\<in>set hs. 128 \<le> b" and "ss_index st = length xs"
  shows "split_loop t bytes st = split_loop t bytes (st\<lparr>ss_index := ss_index st + length hs\<rparr>)"
  using assms
proof (induction hs arbitrary: xs st)
  case (Cons h hs)
  have "split_loop t bytes st = split_loop t bytes (st\<lparr>ss_index := ss_index st + 1\<rparr>)"
    using Cons.prems split_loop_byte [of bytes xs h "hs @ ys" st t] by (simp add: split_step_high)
  also have "\<dots> = split_loop t bytes (st\<lparr>ss_index := ss_index st + length (h # hs)\<rparr>)"
    using Cons.prems Cons.IH [of "xs @ [h]" "st\<lparr>ss_index := ss_index st + 1\<rparr>"] by simp
  finally show ?case .
next
  case Nil
  have "st\<lparr>ss_index := ss_index st + length []\<rparr> = st" by simp
  then show ?case by simp
qed

lemma split_loop_high_char:
  assumes "t = pre @ c # s" and "128 \<le> c" and "ss_index st = byte_len pre"
  shows "split_loop t (as_bytes t) st =
    split_loop t (as_bytes t) (st\<lparr>ss_index := ss_index st + len_utf8 c\<rparr>)"
  using split_loop_high [of "as_bytes t" "as_bytes pre" "encode_utf8 c" "as_bytes s" st t]
    assms encode_utf8_high [of c] by (simp add: as_bytes_append)

text \<open>After the first byte of a character, which a backslash may have skipped.\<close>

lemma split_loop_inside:
  assumes "t = pre @ d # s" and "ss_index st = byte_len pre + 1"
  shows "split_loop t (as_bytes t) st =
    split_loop t (as_bytes t) (st\<lparr>ss_index := byte_len pre + len_utf8 d\<rparr>)"
proof (cases rule: encode_utf8_cases [of d])
  case 1
  then have "st\<lparr>ss_index := byte_len pre + len_utf8 d\<rparr> = st" using assms(2) by simp
  then show ?thesis by simp
next
  case (2 x bs)
  have "len_utf8 d = Suc (length bs)" using length_encode_utf8 [of d] 2 by simp
  with 2 assms show ?thesis
    using split_loop_high [of "as_bytes t" "as_bytes pre @ [x]" bs "as_bytes s" st t]
    by (simp add: as_bytes_append)
qed

lemma split_loop_ascii:
  assumes "t = pre @ c # s" and "c < 128" and "ss_index st = byte_len pre"
  shows "split_loop t (as_bytes t) st =
    Option.bind (split_step t c (first_byte s) st) (split_loop t (as_bytes t))"
  using split_loop_byte [of "as_bytes t" "as_bytes pre" c "as_bytes s" st t] assms
  by (simp add: as_bytes_append encode_utf8_def first_byte_def)

text \<open>The loop at a character boundary: \<open>pre\<close> is before the current piece, \<open>q\<close> what was read of it.\<close>

definition splitter_at ::
  "script_state \<Rightarrow> nat \<Rightarrow> nat \<Rightarrow> (nat \<times> ustr) list \<Rightarrow> ustr \<Rightarrow> ustr \<Rightarrow> splitter" where
  "splitter_at state line fl acc pre q =
     \<lparr>ss_state = state, ss_start = byte_len pre, ss_start_line = fl, ss_line = line,
      ss_index = byte_len pre + byte_len q, ss_statements = acc\<rparr>"

definition numbered :: "(nat \<times> ustr) list \<Rightarrow> (nat \<times> ustr) list" where
  "numbered ps = concat (map (\<lambda>(l, p).
     case trimmed_statement p of None \<Rightarrow> [] | Some s \<Rightarrow> [(l, s)]) ps)"

lemma numbered_simps [simp]:
  "numbered [] = []"
  "numbered ((l, p) # ps) = (case trimmed_statement p of None \<Rightarrow> [] | Some s \<Rightarrow> [(l, s)]) @ numbered ps"
  by (simp_all add: numbered_def)

definition ends_in :: "ustr \<Rightarrow> splitter \<Rightarrow> script_state \<Rightarrow> (nat \<times> ustr) list \<Rightarrow> bool" where
  "ends_in t st f ps = is_some_and (split_loop t (as_bytes t) st) (\<lambda>st'.
     ss_state st' = f \<and>
     is_some_and (str_get t (ss_start st') (byte_len t)) (\<lambda>p.
       ss_statements st' @ numbered [(ss_start_line st', p)] = ps))"

lemma extend_eq: "extend r x = (f, p, rest) \<longleftrightarrow> (\<exists>p'. x = (f, p', rest) \<and> p = r @ p')"
  by (auto simp: extend_def split: prod.splits)

text \<open>One step over the text \<open>r\<close>.\<close>

lemma ends_in_over:
  assumes "\<And>f p rest acc fl. scan st' n' s = (f, p, rest) \<Longrightarrow>
      ends_in t (splitter_at st' n' fl acc pre (q @ r)) f (acc @ numbered ((fl, (q @ r) @ p) # rest))"
    and "extend r (scan st' n' s) = (f, p, rest)"
    and "split_loop t (as_bytes t) (splitter_at st n fl acc pre q) =
         split_loop t (as_bytes t) (splitter_at st' n' fl acc pre (q @ r))"
  shows "ends_in t (splitter_at st n fl acc pre q) f (acc @ numbered ((fl, q @ p) # rest))"
  using assms(1) [of f _ rest fl acc] assms(2,3) by (auto simp: extend_eq ends_in_def)

lemma splitter_step:
  assumes "t = pre @ q @ c # s" and "c < 128"
    and "split_step t c (first_byte s) (splitter_at st n fl acc pre q) =
      Some (splitter_at st' n' fl acc pre (q @ r))"
  shows "split_loop t (as_bytes t) (splitter_at st n fl acc pre q) =
         split_loop t (as_bytes t) (splitter_at st' n' fl acc pre (q @ r))"
  using split_loop_ascii [of t "pre @ q" c s "splitter_at st n fl acc pre q"] assms
  by (simp add: splitter_at_def)

lemma next_byte_at:
  "c < 128 \<Longrightarrow> next_byte c (splitter_at st n fl acc pre q) =
     splitter_at st (n + of_bool (c = 10)) fl acc pre (q @ [c])"
  by (simp add: next_byte_def splitter_at_def)

lemma next_byte_state:
  "c < 128 \<Longrightarrow> next_byte c ((splitter_at st n fl acc pre q)\<lparr>ss_state := st'\<rparr>) =
     splitter_at st' (n + of_bool (c = 10)) fl acc pre (q @ [c])"
  by (simp add: next_byte_def splitter_at_def)

lemma skip_two_at:
  "c < 128 \<Longrightarrow> d < 128 \<Longrightarrow> skip_two st' (splitter_at st n fl acc pre q) =
     splitter_at st' n fl acc pre (q @ [c, d])"
  by (simp add: skip_two_def splitter_at_def)

lemma splitter_at_state [simp]: "ss_state (splitter_at st n fl acc pre q) = st"
  by (simp add: splitter_at_def)

lemma splitter_high:
  assumes "t = pre @ q @ c # s" and "128 \<le> c"
  shows "split_loop t (as_bytes t) (splitter_at st n fl acc pre q) =
         split_loop t (as_bytes t) (splitter_at st n fl acc pre (q @ [c]))"
  using split_loop_high_char [of t "pre @ q" c s "splitter_at st n fl acc pre q"] assms
  by (simp add: splitter_at_def add.assoc)

text \<open>A backslash in quoted t.\<close>

lemma splitter_escape:
  assumes t: "t = pre @ q @ 92 # d # s" and st: "st = quote_state quote" "quote = 39 \<or> quote = 34"
  shows "split_loop t (as_bytes t) (splitter_at st n fl acc pre q) =
         split_loop t (as_bytes t) (splitter_at st n fl acc pre (q @ [92, d]))"
proof -
  let ?st = "(splitter_at st n fl acc pre q)\<lparr>ss_index := byte_len (pre @ q @ [92]) + 1\<rparr>"
  have "split_step t 92 (first_byte (d # s)) (splitter_at st n fl acc pre q) = Some ?st"
    using st by (auto simp: split_step_def quote_step_def quote_state_def next_byte_def splitter_at_def)
  then have "split_loop t (as_bytes t) (splitter_at st n fl acc pre q) =
      split_loop t (as_bytes t) ?st"
    using split_loop_ascii [of t "pre @ q" 92 "d # s" "splitter_at st n fl acc pre q"] t
    by (simp add: splitter_at_def)
  also have "\<dots> = split_loop t (as_bytes t) (splitter_at st n fl acc pre (q @ [92, d]))"
    using split_loop_inside [of t "pre @ q @ [92]" d s ?st] t
    by (simp add: splitter_at_def add.assoc)
  finally show ?thesis .
qed

lemma ends_in_Nil:
  assumes "t = pre @ q" and "ps = acc @ numbered [(fl, q)]"
  shows "ends_in t (splitter_at st n fl acc pre q) st ps"
proof -
  have "split_loop t (as_bytes t) (splitter_at st n fl acc pre q) = Some (splitter_at st n fl acc pre q)"
    by (rule split_loop_end) (simp add: assms(1) splitter_at_def)
  moreover have "str_get t (byte_len pre) (byte_len t) = Some q"
    using str_get_middle [of pre q "[]"] assms(1) by simp
  ultimately show ?thesis
    using assms(2) by (auto simp: ends_in_def splitter_at_def split: option.split)
qed

text \<open>A semicolon between statements starts a new piece.\<close>

lemma splitter_semicolon:
  assumes "t = pre @ q @ 59 # s"
  shows "split_loop t (as_bytes t) (splitter_at SS_Normal n fl acc pre q) =
         split_loop t (as_bytes t) (splitter_at SS_Normal n n (acc @ numbered [(fl, q)]) (pre @ q @ [59]) [])"
proof -
  have "str_get t (byte_len pre) (byte_len pre + byte_len q) = Some q"
    using str_get_middle [of pre q "59 # s"] assms by simp
  then have "split_step t 59 (first_byte s) (splitter_at SS_Normal n fl acc pre q) =
      Some (splitter_at SS_Normal n n (acc @ numbered [(fl, q)]) (pre @ q @ [59]) [])"
    by (simp add: split_step_def end_statement_def next_byte_def splitter_at_def split: option.split)
  then show ?thesis
    using split_loop_ascii [of t "pre @ q" 59 s "splitter_at SS_Normal n fl acc pre q"] assms
    by (simp add: splitter_at_def)
qed

text \<open>One character, or a mark of two, in any state.\<close>

lemma splitter_char:
  assumes "t = pre @ q @ c # s"
    and "c < 128 \<Longrightarrow> split_step t c (first_byte s) (splitter_at st n fl acc pre q) =
      Some (next_byte c ((splitter_at st n fl acc pre q)\<lparr>ss_state := st'\<rparr>))"
    and "128 \<le> c \<Longrightarrow> st' = st"
  shows "split_loop t (as_bytes t) (splitter_at st n fl acc pre q) =
         split_loop t (as_bytes t) (splitter_at st' (n + of_bool (c = 10)) fl acc pre (q @ [c]))"
proof (cases "c < 128")
  case True
  with assms(2) show ?thesis by (intro splitter_step [OF assms(1)]) (simp_all add: next_byte_state)
next
  case False
  with assms(1,3) show ?thesis using splitter_high [of t pre q c s st n fl acc] by simp
qed

lemma splitter_mark:
  assumes "t = pre @ q @ c # s" and "s \<noteq> []" and "c < 128" and "hd s < 128"
    and "split_step t c (first_byte s) (splitter_at st n fl acc pre q) =
      Some (skip_two st' (splitter_at st n fl acc pre q))"
  shows "split_loop t (as_bytes t) (splitter_at st n fl acc pre q) =
         split_loop t (as_bytes t) (splitter_at st' n fl acc pre (q @ [c, hd s]))"
  using assms(2-5) by (intro splitter_step [OF assms(1), where r = "[c, hd s]"]) (simp_all add: skip_two_at [of c "hd s"])

lemma splitter_at_same [simp]: "(splitter_at st n fl acc pre q)\<lparr>ss_state := st\<rparr> = splitter_at st n fl acc pre q"
  by (simp add: splitter_at_def)

lemma loop_scan:
  assumes "scan st n s = (f, p, rest)" and "t = pre @ q @ s"
  shows "ends_in t (splitter_at st n fl acc pre q) f (acc @ numbered ((fl, q @ p) # rest))"
  using assms
proof (induction st n s arbitrary: f p rest pre q fl acc rule: scan.induct)
  case (1 st n)
  then show ?case by (auto intro: ends_in_Nil)
next
  case (2 n c s)
  consider (line) "c = 47" "s \<noteq> []" "hd s = 47" | (block) "c = 47" "s \<noteq> []" "hd s = 42"
    | (semi) "c = 59" | (other) "c \<noteq> 59" "\<not> (c = 47 \<and> s \<noteq> [] \<and> (hd s = 47 \<or> hd s = 42))" by blast
  then show ?case
  proof cases
    case line
    show ?thesis
    proof (rule ends_in_over [where r = "[c, hd s]"])
      show "extend [c, hd s] (scan SS_LineComment n (tl s)) = (f, p, rest)" using 2(5) line by simp
      show "split_loop t (as_bytes t) (splitter_at SS_Normal n fl acc pre q) =
          split_loop t (as_bytes t) (splitter_at SS_LineComment n fl acc pre (q @ [c, hd s]))"
        by (rule splitter_mark [OF 2(6)]) (simp_all add: line split_step_def)
    qed (rule 2(1); use 2(6) line in \<open>cases s; simp\<close>)
  next
    case block
    show ?thesis
    proof (rule ends_in_over [where r = "[c, hd s]"])
      show "extend [c, hd s] (scan (SS_BlockComment 1) n (tl s)) = (f, p, rest)" using 2(5) block by simp
      show "split_loop t (as_bytes t) (splitter_at SS_Normal n fl acc pre q) =
          split_loop t (as_bytes t) (splitter_at (SS_BlockComment 1) n fl acc pre (q @ [c, hd s]))"
        by (rule splitter_mark [OF 2(6)]) (simp_all add: block split_step_def)
    qed (rule 2(2); use 2(6) block in \<open>cases s; simp\<close>)
  next
    case semi
    obtain p' rest' where scanned: "scan SS_Normal n s = (f, p', rest')" "p = []" "rest = (n, p') # rest'"
      using 2(5) semi by (auto split: prod.splits)
    have "ends_in t (splitter_at SS_Normal n n (acc @ numbered [(fl, q)]) (pre @ q @ [59]) []) f
        ((acc @ numbered [(fl, q)]) @ numbered ((n, [] @ p') # rest'))"
      by (rule 2(3)) (use scanned(1) semi 2(6) in simp_all)
    moreover have "t = pre @ q @ 59 # s" using 2(6) semi by simp
    ultimately show ?thesis
      using scanned(2,3) splitter_semicolon [of t pre q s n fl acc] by (simp add: ends_in_def)
  next
    case other
    show ?thesis
    proof (rule ends_in_over [where r = "[c]"])
      show "extend [c] (scan (opened c) (n + of_bool (c = 10)) s) = (f, p, rest)"
        using 2(5) other by (auto split: if_splits)
      show "split_loop t (as_bytes t) (splitter_at SS_Normal n fl acc pre q) =
          split_loop t (as_bytes t) (splitter_at (opened c) (n + of_bool (c = 10)) fl acc pre (q @ [c]))"
        by (rule splitter_char [OF 2(6)]) (use other in \<open>auto simp: split_step_def opened_def\<close>)
    qed (rule 2(4); use 2(6) other in auto)
  qed
next
  case (3 n c s)
  show ?case
  proof (cases "c = 92 \<and> s \<noteq> []")
    case True
    show ?thesis
    proof (rule ends_in_over [where r = "[c, hd s]"])
      show "extend [c, hd s] (scan SS_SingleQuote n (tl s)) = (f, p, rest)" using 3(3) True by simp
      show "split_loop t (as_bytes t) (splitter_at SS_SingleQuote n fl acc pre q) =
          split_loop t (as_bytes t) (splitter_at SS_SingleQuote n fl acc pre (q @ [c, hd s]))"
        using splitter_escape [of t pre q "hd s" "tl s" SS_SingleQuote 39] 3(4) True
        by (simp add: quote_state_def)
    qed (rule 3(1); use 3(4) True in \<open>cases s; simp\<close>)
  next
    case False
    show ?thesis
    proof (rule ends_in_over [where r = "[c]"])
      show "extend [c] (scan (if c = 39 then SS_Normal else SS_SingleQuote) (n + of_bool (c = 10)) s) =
          (f, p, rest)" using 3(3) False by auto
      show "split_loop t (as_bytes t) (splitter_at SS_SingleQuote n fl acc pre q) =
          split_loop t (as_bytes t) (splitter_at (if c = 39 then SS_Normal else SS_SingleQuote)
            (n + of_bool (c = 10)) fl acc pre (q @ [c]))"
        by (rule splitter_char [OF 3(4)])
           (use False in \<open>auto simp: split_step_def quote_step_def splitter_at_def\<close>)
    qed (rule 3(2); use 3(4) False in auto)
  qed
next
  case (4 n c s)
  show ?case
  proof (cases "c = 92 \<and> s \<noteq> []")
    case True
    show ?thesis
    proof (rule ends_in_over [where r = "[c, hd s]"])
      show "extend [c, hd s] (scan SS_DoubleQuote n (tl s)) = (f, p, rest)" using 4(3) True by simp
      show "split_loop t (as_bytes t) (splitter_at SS_DoubleQuote n fl acc pre q) =
          split_loop t (as_bytes t) (splitter_at SS_DoubleQuote n fl acc pre (q @ [c, hd s]))"
        using splitter_escape [of t pre q "hd s" "tl s" SS_DoubleQuote 34] 4(4) True
        by (simp add: quote_state_def)
    qed (rule 4(1); use 4(4) True in \<open>cases s; simp\<close>)
  next
    case False
    show ?thesis
    proof (rule ends_in_over [where r = "[c]"])
      show "extend [c] (scan (if c = 34 then SS_Normal else SS_DoubleQuote) (n + of_bool (c = 10)) s) =
          (f, p, rest)" using 4(3) False by auto
      show "split_loop t (as_bytes t) (splitter_at SS_DoubleQuote n fl acc pre q) =
          split_loop t (as_bytes t) (splitter_at (if c = 34 then SS_Normal else SS_DoubleQuote)
            (n + of_bool (c = 10)) fl acc pre (q @ [c]))"
        by (rule splitter_char [OF 4(4)])
           (use False in \<open>auto simp: split_step_def quote_step_def splitter_at_def\<close>)
    qed (rule 4(2); use 4(4) False in auto)
  qed
next
  case (5 n c s)
  show ?case
  proof (cases "c = 96 \<and> s \<noteq> [] \<and> hd s = 96")
    case True
    show ?thesis
    proof (rule ends_in_over [where r = "[c, hd s]"])
      show "extend [c, hd s] (scan SS_Backtick n (tl s)) = (f, p, rest)" using 5(3) True by simp
      show "split_loop t (as_bytes t) (splitter_at SS_Backtick n fl acc pre q) =
          split_loop t (as_bytes t) (splitter_at SS_Backtick n fl acc pre (q @ [c, hd s]))"
        by (rule splitter_step [OF 5(4)])
           (use True in \<open>simp_all add: split_step_def next_byte_def splitter_at_def\<close>)
    qed (rule 5(1); use 5(4) True in \<open>cases s; simp\<close>)
  next
    case False
    show ?thesis
    proof (rule ends_in_over [where r = "[c]"])
      show "extend [c] (scan (if c = 96 then SS_Normal else SS_Backtick) (n + of_bool (c = 10)) s) =
          (f, p, rest)" using 5(3) False by auto
      show "split_loop t (as_bytes t) (splitter_at SS_Backtick n fl acc pre q) =
          split_loop t (as_bytes t) (splitter_at (if c = 96 then SS_Normal else SS_Backtick)
            (n + of_bool (c = 10)) fl acc pre (q @ [c]))"
        by (rule splitter_char [OF 5(4)]) (use False in \<open>auto simp: split_step_def\<close>)
    qed (rule 5(2); use 5(4) False in auto)
  qed
next
  case (6 n c s)
  show ?case
  proof (rule ends_in_over [where r = "[c]"])
    show "extend [c] (scan (if c = 10 then SS_Normal else SS_LineComment) (n + of_bool (c = 10)) s) =
        (f, p, rest)" using 6(2) by simp
    show "split_loop t (as_bytes t) (splitter_at SS_LineComment n fl acc pre q) =
        split_loop t (as_bytes t) (splitter_at (if c = 10 then SS_Normal else SS_LineComment)
          (n + of_bool (c = 10)) fl acc pre (q @ [c]))"
      by (rule splitter_char [OF 6(3)]) (auto simp: split_step_def)
  qed (rule 6(1); use 6(3) in auto)
next
  case (7 depth n c s)
  consider (opens) "c = 47" "s \<noteq> []" "hd s = 42" | (closes) "c = 42" "s \<noteq> []" "hd s = 47"
    | (other) "\<not> (c = 47 \<and> s \<noteq> [] \<and> hd s = 42)" "\<not> (c = 42 \<and> s \<noteq> [] \<and> hd s = 47)" by blast
  then show ?case
  proof cases
    case opens
    show ?thesis
    proof (rule ends_in_over [where r = "[c, hd s]"])
      show "extend [c, hd s] (scan (SS_BlockComment (depth + 1)) n (tl s)) = (f, p, rest)"
        using 7(4) opens by simp
      show "split_loop t (as_bytes t) (splitter_at (SS_BlockComment depth) n fl acc pre q) =
          split_loop t (as_bytes t) (splitter_at (SS_BlockComment (depth + 1)) n fl acc pre (q @ [c, hd s]))"
        by (rule splitter_mark [OF 7(5)]) (simp_all add: opens split_step_def)
    qed (rule 7(1); use 7(5) opens in \<open>cases s; simp\<close>)
  next
    case closes
    show ?thesis
    proof (rule ends_in_over [where r = "[c, hd s]"])
      show "extend [c, hd s] (scan (if depth = 1 then SS_Normal else SS_BlockComment (depth - 1)) n (tl s)) =
          (f, p, rest)" using 7(4) closes by simp
      show "split_loop t (as_bytes t) (splitter_at (SS_BlockComment depth) n fl acc pre q) =
          split_loop t (as_bytes t) (splitter_at (if depth = 1 then SS_Normal else SS_BlockComment (depth - 1))
            n fl acc pre (q @ [c, hd s]))"
        by (rule splitter_mark [OF 7(5)]) (simp_all add: closes split_step_def)
    qed (rule 7(2); use 7(5) closes in \<open>cases s; simp\<close>)
  next
    case other
    show ?thesis
    proof (rule ends_in_over [where r = "[c]"])
      show "extend [c] (scan (SS_BlockComment depth) (n + of_bool (c = 10)) s) = (f, p, rest)"
        using 7(4) other by (auto split: if_splits)
      show "split_loop t (as_bytes t) (splitter_at (SS_BlockComment depth) n fl acc pre q) =
          split_loop t (as_bytes t) (splitter_at (SS_BlockComment depth)
            (n + of_bool (c = 10)) fl acc pre (q @ [c]))"
        by (rule splitter_char [OF 7(5)]) (use other in \<open>auto simp: split_step_def\<close>)
    qed (rule 7(3); use 7(5) other in auto)
  qed
qed

lemma split_cypher_script_scan:
  assumes "scan SS_Normal 1 (normalize_newlines source) = (f, p, rest)"
  shows "split_cypher_script source =
    (case unterminated f of
       Some e \<Rightarrow> Some (Inl e)
     | None \<Rightarrow> Some (Inr (numbered ((1, p) # rest))))"
proof -
  let ?t = "normalize_newlines source" and ?st = "splitter_at SS_Normal 1 1 [] [] []"
  have start: "\<lparr>ss_state = SS_Normal, ss_start = 0, ss_start_line = 1, ss_line = 1, ss_index = 0,
      ss_statements = []\<rparr> = ?st" by (simp add: splitter_at_def)
  have "ends_in ?t ?st f (numbered ((1, p) # rest))"
    using loop_scan [OF assms, of ?t "[]" "[]" 1 "[]"] by simp
  then obtain st' piece where "split_loop ?t (as_bytes ?t) ?st = Some st'" "ss_state st' = f"
    "str_get ?t (ss_start st') (byte_len ?t) = Some piece"
    "ss_statements st' @ numbered [(ss_start_line st', piece)] = numbered ((1, p) # rest)"
    by (auto simp: ends_in_def is_some_and_iff)
  then show ?thesis
    unfolding split_cypher_script_def Let_def start by (simp add: fail_def split: option.split)
qed

end
