(* ===== verification/Tck_Text.thy ===== *)
theory Tck_Text
  imports Cypher_Script
begin

text \<open>
  Texts of the TCK projection (\<open>xtask/src/tck.rs\<close>): placeholders of scenario outlines, tags, the
  normal form of a query, error steps, and the escaping of table rows for the Gherkin reader.
\<close>

section \<open>Placeholders\<close>

text \<open>The values of an example: a \<open>BTreeMap\<close> from the headers of the table to the cells of a row.\<close>

type_synonym example_values = "(ustr, ustr) btree"

definition is_placeholder_name :: "ustr \<Rightarrow> bool" where
  "is_placeholder_name name =
     (case as_bytes name of
        [] \<Rightarrow> False
      | b # bytes \<Rightarrow> (is_ascii_alphabetic b \<or> b = 95) \<and>
          list_all (\<lambda>b. is_ascii_alphanumeric b \<or> b = 95) bytes)"

text \<open>
  \<open>find_map\<close> over the values: the first whose placeholder starts the remaining text, with its value
  and the text after it.
\<close>

fun placeholder_at :: "example_values \<Rightarrow> ustr \<Rightarrow> (ustr \<times> ustr) option" where
  "placeholder_at [] remaining = None"
| "placeholder_at ((name, val) # vals) remaining =
     (case strip_prefix (60 # name @ [62]) remaining of
        Some rest \<Rightarrow> Some (val, rest)
      | None \<Rightarrow> placeholder_at vals remaining)"

definition unresolved_at :: "ustr \<Rightarrow> ustr option" where
  "unresolved_at remaining =
     Option.bind (strip_prefix [60] remaining) (\<lambda>rest.
     Option.bind (split_once [62] rest) (\<lambda>(name, _).
     if is_placeholder_name name then Some name else None))"

lemma placeholder_at_shorter: "placeholder_at vals remaining = Some (v, rest) \<Longrightarrow> length rest < length remaining"
  by (induction vals remaining rule: placeholder_at.induct)
     (auto simp: strip_prefix_Some_iff split: option.splits)

text \<open>
  The loop of \<open>substitute\<close>: \<open>remaining\<close> is \<open>&template[cursor..]\<close>; the error is the name of the
  unresolved placeholder.
\<close>

function substitute_from :: "example_values \<Rightarrow> ustr \<Rightarrow> ustr \<Rightarrow> (ustr, ustr) run" where
  "substitute_from vals out [] = pass out"
| "substitute_from vals out (c # cs) =
     (case placeholder_at vals (c # cs) of
        Some (val, rest) \<Rightarrow> substitute_from vals (out @ val) rest
      | None \<Rightarrow>
          (case unresolved_at (c # cs) of
             Some name \<Rightarrow> fail name
           | None \<Rightarrow> substitute_from vals (out @ [c]) cs))"
  by pat_completeness auto
termination
  by (relation "measure (\<lambda>(_, _, remaining). length remaining)") (auto dest: placeholder_at_shorter)

definition substitute :: "ustr \<Rightarrow> example_values \<Rightarrow> (ustr, ustr) run" where
  "substitute template vals = substitute_from vals [] template"

text \<open>
  A template as it is meant: literal text and references to columns. It is printed with the
  references between angle brackets, and means the values in their place.
\<close>

datatype (plugins only: code size) segment = Literal_Text ustr | Column ustr

primrec print_segment :: "segment \<Rightarrow> ustr" where
  "print_segment (Literal_Text s) = s"
| "print_segment (Column name) = 60 # name @ [62]"

primrec segment_ok :: "segment \<Rightarrow> bool" where
  "segment_ok (Literal_Text s) = (60 \<notin> set s)"
| "segment_ok (Column name) = is_placeholder_name name"

fun fill :: "example_values \<Rightarrow> segment list \<Rightarrow> (ustr, ustr) run" where
  "fill vals [] = pass []"
| "fill vals (Literal_Text s # segments) = run_then (fill vals segments) (\<lambda>t. pass (s @ t))"
| "fill vals (Column name # segments) =
     (case map_of vals name of
        None \<Rightarrow> fail name
      | Some v \<Rightarrow> run_then (fill vals segments) (\<lambda>t. pass (v @ t)))"

lemma placeholder_name_plain: "is_placeholder_name name \<Longrightarrow> 60 \<notin> set name \<and> 62 \<notin> set name \<and> name \<noteq> []"
proof -
  assume "is_placeholder_name name"
  then have *: "as_bytes name \<noteq> [] \<and> (\<forall>b\<in>set (as_bytes name). is_ascii_alphanumeric b \<or> b = 95)"
    by (auto simp: is_placeholder_name_def list_all_iff is_ascii_alphanumeric_def split: list.splits)
  have "c \<in> set (as_bytes name)" if "c \<in> set name" "c < 128" for c
    using that by (auto simp: as_bytes_def encode_utf8_def)
  moreover have "60 \<notin> set (as_bytes name)" "62 \<notin> set (as_bytes name)"
    using * by (auto simp: is_ascii_alphanumeric_def is_ascii_alphabetic_def is_ascii_digit_def)
  ultimately have "60 \<notin> set name \<and> 62 \<notin> set name" by force
  with * show ?thesis by auto
qed

lemma split_at_bracket:
  "62 \<notin> set name \<Longrightarrow> 62 \<notin> set name' \<Longrightarrow> name @ 62 # r = name' @ 62 # r' \<longleftrightarrow> name = name' \<and> r = (r' :: ustr)"
proof (induction name arbitrary: name')
  case Nil
  then show ?case by (cases name') auto
next
  case (Cons a name)
  then show ?case by (cases name') auto
qed

lemma placeholder_at_column:
  assumes "62 \<notin> set name" and "\<forall>k\<in>fst ` set vals. 62 \<notin> set k"
  shows "placeholder_at vals (60 # name @ 62 # rest) = map_option (\<lambda>v. (v, rest)) (map_of vals name)"
  using assms(2)
proof (induction vals)
  case (Cons kv vals)
  obtain k v where kv: "kv = (k, v)" by (cases kv)
  have "strip_prefix (60 # k @ [62]) (60 # name @ 62 # rest) = (if k = name then Some rest else None)"
  proof (cases "strip_prefix (60 # k @ [62]) (60 # name @ 62 # rest)")
    case None
    then show ?thesis
      using strip_prefix_append [of "60 # k @ [62]" rest] by (auto simp del: strip_prefix_append)
  next
    case (Some r)
    then have "name @ 62 # rest = k @ 62 # r" by (simp add: strip_prefix_Some_iff del: strip_prefix.simps)
    with split_at_bracket [of name k rest r] assms(1) Cons.prems kv have "k = name" "r = rest" by auto
    with Some show ?thesis by simp
  qed
  with Cons kv show ?case by (simp del: strip_prefix.simps)
qed simp

lemma placeholder_at_other: "c \<noteq> 60 \<Longrightarrow> placeholder_at vals (c # cs) = None"
  by (induction vals) auto

lemma unresolved_at_other: "c \<noteq> 60 \<Longrightarrow> unresolved_at (c # cs) = None"
  by (simp add: unresolved_at_def)

lemma split_once_bracket: "62 \<notin> set name \<Longrightarrow> split_once [62] (name @ 62 # rest) = Some (name, rest)"
  by (induction name) auto

lemma substitute_literal:
  "60 \<notin> set s \<Longrightarrow> substitute_from vals out (s @ rest) = substitute_from vals (out @ s) rest"
  by (induction s arbitrary: out) (auto simp: placeholder_at_other unresolved_at_other)

lemma substitute_segments:
  assumes "\<forall>k\<in>fst ` set vals. 62 \<notin> set k" and "\<forall>s\<in>set segments. segment_ok s"
  shows "substitute_from vals out (concat (map print_segment segments)) =
    run_then (fill vals segments) (\<lambda>t. pass (out @ t))"
  using assms
proof (induction vals segments arbitrary: out rule: fill.induct)
  case (2 vals s segments)
  then show ?case
    by (cases "fill vals segments" rule: option.exhaust [case_product sum.exhaust])
       (auto simp: substitute_literal run_then_def pass_def split: option.splits sum.splits Option.bind_splits)
next
  case (3 vals name segments)
  then have name: "62 \<notin> set name" "is_placeholder_name name" using placeholder_name_plain [of name] by auto
  show ?case
  proof (cases "map_of vals name")
    case None
    with name have "unresolved_at (60 # name @ 62 # concat (map print_segment segments)) = Some name"
      by (simp add: unresolved_at_def split_once_bracket)
    with None show ?thesis by (simp add: placeholder_at_column [OF name(1) 3(2)])
  next
    case (Some v)
    with 3 name show ?thesis
      by (cases "fill vals segments")
         (auto simp: placeholder_at_column run_then_def pass_def split: sum.splits Option.bind_splits)
  qed
qed simp


text \<open>
  Substitution is what its templates mean. On literal text with references to columns, it
  succeeds exactly when every referenced column exists, with the values of the columns in place of
  the references, and otherwise reports the first reference without a column.
\<close>

theorem substitute_template:
  assumes "\<forall>k\<in>fst ` set vals. 62 \<notin> set k" and "\<forall>s\<in>set segments. segment_ok s"
  shows "substitute (concat (map print_segment segments)) vals = fill vals segments"
  unfolding substitute_def substitute_segments [OF assms]
  by (cases "fill vals segments") (auto simp: run_then_def pass_def split: sum.splits)

text \<open>\<open>MATCH (n {a: <v>})\<close> with a table of the column \<open>v\<close>, and with one that lacks it.\<close>

lemma substitute_template_witness:
  "substitute (ascii ''a: <v>.'') [(ascii ''v'', ascii ''7'')] = pass (ascii ''a: 7.'') \<and>
   substitute (ascii ''a: <v>.'') [(ascii ''w'', ascii ''7'')] = fail (ascii ''v'')"
proof -
  let ?segments = "[Literal_Text (ascii ''a: ''), Column (ascii ''v''), Literal_Text (ascii ''.'')]"
  have ok: "\<forall>s\<in>set ?segments. segment_ok s"
    by (simp add: is_placeholder_name_def encode_utf8_def is_ascii_alphabetic_def)
  have printed: "ascii ''a: <v>.'' = concat (map print_segment ?segments)" by simp
  have "substitute (concat (map print_segment ?segments)) [(ascii ''v'', ascii ''7'')] =
      fill [(ascii ''v'', ascii ''7'')] ?segments"
    by (rule substitute_template [OF _ ok]) simp
  moreover have "substitute (concat (map print_segment ?segments)) [(ascii ''w'', ascii ''7'')] =
      fill [(ascii ''w'', ascii ''7'')] ?segments"
    by (rule substitute_template [OF _ ok]) simp
  ultimately show ?thesis unfolding printed by simp
qed

section \<open>Tags and queries\<close>

definition normalize_tag :: "ustr \<Rightarrow> ustr" where
  "normalize_tag tag = dropWhile (\<lambda>c. c = 64) (trim tag)"

text \<open>\<open>sort\<close> and \<open>dedup\<close>.\<close>

definition sort_dedup :: "ustr list \<Rightarrow> ustr list" where
  "sort_dedup tags = remdups_adj (sort tags)"

definition combined_tags :: "ustr list \<Rightarrow> ustr list \<Rightarrow> ustr list \<Rightarrow> ustr list" where
  "combined_tags feature rul scenario = sort_dedup (map normalize_tag (feature @ rul @ scenario))"

definition normalize_source :: "ustr \<Rightarrow> ustr" where
  "normalize_source source = trim (normalize_newlines source)"

text \<open>An error step and its three parts.\<close>

record upstream_error =
  ue_error_type :: ustr
  ue_phase :: ustr
  ue_detail :: ustr

definition s_compile_time :: ustr where "s_compile_time = ascii ''compile time''"
definition s_syntax_error :: ustr where "s_syntax_error = ascii ''SyntaxError''"

definition parse_error_step :: "ustr \<Rightarrow> upstream_error option" where
  "parse_error_step val =
     Option.bind (strip_prefix (ascii ''a '') val) (\<lambda>rest.
     Option.bind (split_once (ascii '' should be raised at '') rest) (\<lambda>(error_type, rest).
     Option.bind (split_once (ascii '': '') rest) (\<lambda>(phase, detail).
     if error_type = [] \<or> detail = [] \<or>
        phase \<notin> {s_compile_time, ascii ''runtime'', ascii ''any time''}
     then None
     else Some \<lparr>ue_error_type = error_type, ue_phase = phase, ue_detail = detail\<rparr>)))"

section \<open>Table rows\<close>

text \<open>\<open>split_inclusive('\n')\<close>: the lines with their line feeds.\<close>

fun split_inclusive :: "ustr \<Rightarrow> ustr \<Rightarrow> ustr list" where
  "split_inclusive line [] = (if line = [] then [] else [line])"
| "split_inclusive line (c # s) =
     (if c = 10 then (line @ [c]) # split_inclusive [] s else split_inclusive (line @ [c]) s)"

text \<open>Only \<open>\n\<close>, \<open>\|\<close> and \<open>\\\<close> are escapes for the Gherkin reader; every other backslash is doubled.\<close>

fun escape_row :: "ustr \<Rightarrow> ustr" where
  "escape_row [] = []"
| "escape_row (c # s) =
     (if c = 92
      then (case s of
              [] \<Rightarrow> [92, 92]
            | d # rest \<Rightarrow>
                if d = 110 \<or> d = 124 \<or> d = 92 then 92 # d # escape_row rest else 92 # 92 # escape_row s)
      else c # escape_row s)"

definition is_table_row :: "ustr \<Rightarrow> bool" where
  "is_table_row line = starts_with [124] (trim_start line)"

definition gherkin_compatible_source :: "ustr \<Rightarrow> ustr" where
  "gherkin_compatible_source source =
     concat (map (\<lambda>line. if is_table_row line then escape_row line else line) (split_inclusive [] source))"

text \<open>Every backslash of an escaped row starts an escape; a row without other backslashes stays.\<close>

fun escapes_ok :: "ustr \<Rightarrow> bool" where
  "escapes_ok [] = True"
| "escapes_ok (c # s) =
     (if c = 92 then (case s of [] \<Rightarrow> False | d # rest \<Rightarrow> (d = 110 \<or> d = 124 \<or> d = 92) \<and> escapes_ok rest)
      else escapes_ok s)"

lemma escape_row_ok: "escapes_ok (escape_row s)"
  by (induction s rule: escape_row.induct) (auto split: list.split)

lemma escape_row_id: "escapes_ok s \<Longrightarrow> escape_row s = s"
  by (induction s rule: escapes_ok.induct) (auto split: list.splits)

lemma split_inclusive_concat: "concat (split_inclusive line s) = line @ s"
  by (induction line s rule: split_inclusive.induct) auto

lemma escape_row_lines: "count_list (escape_row s) 10 = count_list s 10"
proof (induction s rule: escape_row.induct)
  case (2 c s)
  then show ?case
    by (cases s) (auto simp: escape_row.simps(2) [of c] simp del: escape_row.simps(2))
qed simp

lemma gherkin_source_lines: "count_list (gherkin_compatible_source s) 10 = count_list s 10"
proof -
  have "count_list (concat (map (\<lambda>l. if is_table_row l then escape_row l else l) ls)) 10 =
      count_list (concat ls) 10" for ls
    by (induction ls) (simp_all add: count_list_append escape_row_lines)
  then show ?thesis by (simp add: gherkin_compatible_source_def split_inclusive_concat)
qed

text \<open>The lines of the rows of a table, from its first line on; lines count from 1.\<close>

fun row_lines_from :: "nat \<Rightarrow> nat \<Rightarrow> nat list \<Rightarrow> ustr list \<Rightarrow> nat list option" where
  "row_lines_from expected offset lines [] = None"
| "row_lines_from expected offset lines (source # rest) =
     (if is_table_row source
      then (let lines = lines @ [offset + 1]
            in if length lines = expected then Some lines
               else row_lines_from expected (offset + 1) lines rest)
      else row_lines_from expected (offset + 1) lines rest)"

definition table_row_lines :: "nat \<Rightarrow> nat \<Rightarrow> ustr list \<Rightarrow> nat list option" where
  "table_row_lines first_line expected feature_lines =
     (let start = first_line - 1 in row_lines_from expected start [] (drop start feature_lines))"

lemma row_lines_from_length:
  "row_lines_from expected offset ls rest = Some r \<Longrightarrow> length r = expected"
  by (induction expected offset ls rest rule: row_lines_from.induct) (auto simp: Let_def split: if_splits)

lemma table_row_lines_length: "table_row_lines first expected feature_lines = Some r \<Longrightarrow> length r = expected"
  by (auto simp: table_row_lines_def Let_def dest: row_lines_from_length)

definition validate_example_headers :: "ustr list \<Rightarrow> bool" where
  "validate_example_headers headers = (length (bt_collect (map (\<lambda>h. (h, ())) headers)) = length headers)"

lemma validate_example_headers_iff: "validate_example_headers headers \<longleftrightarrow> distinct headers"
  using bt_collect_length_iff [of "map (\<lambda>h. (h, ())) headers"]
  by (simp add: validate_example_headers_def o_def)

end
