(* ===== verification/Tck_Data.thy ===== *)
theory Tck_Data
  imports Tck_Text
begin

text \<open>
  The data of the TCK projection (\<open>xtask/src/tck.rs\<close>): what it reads of a Gherkin feature, its
  ledgers, its occurrences and records, and its errors.
\<close>

section \<open>Features\<close>

text \<open>The fields of the \<open>gherkin\<close> crate's types that the projection reads.\<close>

record gherkin_table =
  gt_rows :: "ustr list list"
  gt_line :: nat

record gherkin_examples =
  ge_table :: "gherkin_table option"
  ge_tags :: "ustr list"
  ge_line :: nat

datatype (plugins only: code size) step_type = ST_Given | ST_When | ST_Then

record gherkin_step =
  gs_type :: step_type
  gs_value :: ustr
  gs_docstring :: "ustr option"
  gs_table :: "gherkin_table option"
  gs_line :: nat

record gherkin_scenario =
  sc_keyword :: ustr
  sc_name :: ustr
  sc_steps :: "gherkin_step list"
  sc_examples :: "gherkin_examples list"
  sc_tags :: "ustr list"
  sc_line :: nat

record gherkin_rule =
  gr_name :: ustr
  gr_background :: "gherkin_step list option"
  gr_scenarios :: "gherkin_scenario list"
  gr_tags :: "ustr list"

record gherkin_feature =
  gf_name :: ustr
  gf_background :: "gherkin_step list option"
  gf_scenarios :: "gherkin_scenario list"
  gf_rules :: "gherkin_rule list"
  gf_tags :: "ustr list"

section \<open>Expectations and occurrences\<close>

datatype expectation = EX_Accept | EX_Reject

datatype query_role = QR_Background | QR_NamedGraph | QR_Setup | QR_Primary | QR_Control

datatype query_form = QF_Docstring | QF_Inline | QF_GraphScript

record expectation_review =
  rv_feature :: ustr
  rv_scenario_line :: nat
  rv_scenario :: ustr
  rv_error_type :: ustr
  rv_phase :: ustr
  rv_detail :: ustr
  rv_expect :: expectation
  rv_reason :: ustr

record expectations_ledger =
  el_schema_version :: nat
  el_release :: ustr
  el_commit :: ustr
  el_entry_count :: nat
  el_expectation :: "expectation_review list"

text \<open>\<open>ReviewKey\<close>, with its fields in the order by which it is compared.\<close>

type_synonym review_key = "ustr \<times> nat \<times> ustr \<times> ustr \<times> ustr"

type_synonym reviews = "(review_key, expectation_review) btree"

record exclusion =
  xc_occurrence_id :: ustr
  xc_direction :: ustr
  xc_issue :: ustr
  xc_rationale :: ustr

record exclusions_ledger =
  xl_schema_version :: nat
  xl_release :: ustr
  xl_commit :: ustr
  xl_exclusion_count :: nat
  xl_exclusion :: "exclusion list"

record graph_metadata =
  gm_name :: ustr
  gm_scripts :: "ustr list"

record graph_statement =
  gst_source_path :: ustr
  gst_source_line :: nat
  gst_source :: ustr

text \<open>A fixture is the statements of its scripts.\<close>

type_synonym graph_fixture = "graph_statement list"

record example_instance =
  ei_index :: "nat option"
  ei_line :: "nat option"
  ei_values :: example_values
  ei_tags :: "ustr list"

record scenario_expect =
  se_expectation :: expectation
  se_upstream_error :: "upstream_error option"

record query_step =
  qs_role :: query_role
  qs_form :: query_form
  qs_source_path :: ustr
  qs_source_line :: nat
  qs_source :: ustr

record pending_occurrence =
  po_id :: ustr
  po_feature_path :: ustr
  po_feature :: ustr
  po_rule :: "ustr option"
  po_scenario_template :: ustr
  po_scenario :: ustr
  po_scenario_line :: nat
  po_example_index :: "nat option"
  po_example_line :: "nat option"
  po_sequence :: nat
  po_role :: query_role
  po_form :: query_form
  po_source_path :: ustr
  po_source_line :: nat
  po_tags :: "ustr list"
  po_expectation :: expectation
  po_upstream_error :: "upstream_error option"
  po_source :: ustr

record projection_builder =
  pb_occurrences :: "pending_occurrence list"
  pb_feature_files :: nat
  pb_scenario_templates :: nat
  pb_scenario_outlines :: nat
  pb_scenarios :: nat
  pb_seen_reviews :: "(review_key, unit) btree"

definition new_builder :: projection_builder where
  "new_builder = \<lparr>pb_occurrences = [], pb_feature_files = 0, pb_scenario_templates = 0,
     pb_scenario_outlines = 0, pb_scenarios = 0, pb_seen_reviews = []\<rparr>"

section \<open>Records of the projection\<close>

text \<open>
  Without the fields that hold the same constant in every record: the kind of the record, and in the
  header the schema version, the licence, the release and the commit.
\<close>

record query_record =
  qr_id :: ustr
  qr_sha256 :: ustr
  qr_source :: ustr
  qr_expectation :: expectation

record occurrence_record =
  oc_id :: ustr
  oc_query_id :: ustr
  oc_feature_path :: ustr
  oc_feature :: ustr
  oc_rule :: "ustr option"
  oc_scenario_template :: ustr
  oc_scenario :: ustr
  oc_scenario_line :: nat
  oc_example_index :: "nat option"
  oc_example_line :: "nat option"
  oc_sequence :: nat
  oc_role :: query_role
  oc_form :: query_form
  oc_source_path :: ustr
  oc_source_line :: nat
  oc_tags :: "ustr list"
  oc_supplemental :: bool
  oc_expectation :: expectation
  oc_upstream_error :: "upstream_error option"

record header_record =
  hd_corpus_sha256 :: ustr
  hd_feature_files :: nat
  hd_scenario_templates :: nat
  hd_scenario_outlines :: nat
  hd_scenarios :: nat
  hd_unique_queries :: nat
  hd_occurrences :: nat
  hd_active_occurrences :: nat
  hd_supplemental_occurrences :: nat
  hd_accept_occurrences :: nat
  hd_reject_occurrences :: nat

record projection =
  pj_header :: header_record
  pj_queries :: "query_record list"
  pj_occurrences :: "occurrence_record list"

section \<open>Errors\<close>

datatype (plugins only: code size) step_fault =
  SF_Unexpected_Table | SF_Inline_And_Docstring | SF_No_Query | SF_Body ustr | SF_Docstring
| SF_Graph | SF_Table_Required | SF_Unrecognized

datatype (plugins only: code size) examples_fault =
  EF_No_Table | EF_Empty_Table | EF_No_Columns | EF_Duplicate_Headers | EF_No_Rows
| EF_Row_Lines nat nat

text \<open>
  One constructor per message, with the values that the message shows: first the path and the line
  where it has them.
\<close>

datatype (plugins only: code size) tck_error =
  TE_Step_Text ustr nat ustr
| TE_Step ustr nat ustr step_fault
| TE_Unknown_Graph ustr nat ustr
| TE_Scenario_Name ustr nat ustr
| TE_Primary_Count ustr nat ustr nat
| TE_Many_Errors ustr nat ustr
| TE_Unreviewed ustr nat ustr ustr
| TE_Review_Name ustr nat ustr ustr
| TE_Accepted_Review ustr nat
| TE_Rejected_Review ustr nat
| TE_Skip_Grammar ustr nat
| TE_No_Examples ustr nat ustr
| TE_Examples ustr nat ustr examples_fault
| TE_Unreadable ustr
| TE_Schema ustr nat
| TE_Release ustr ustr
| TE_Commit ustr ustr
| TE_Entry_Count ustr nat nat
| TE_Review_Total nat
| TE_Spec_Path ustr
| TE_Empty_Review ustr nat
| TE_Not_Syntax_Error ustr nat
| TE_Duplicate_Review
| TE_Coverage "review_key list" "review_key list"
| TE_Graph_Metadata ustr
| TE_Script_Name ustr
| TE_Script ustr script_error
| TE_Empty_Script ustr
| TE_Duplicate_Graph ustr
| TE_Graph_Inventory "ustr list" "ustr list"
| TE_Count ustr nat nat
| TE_Collision ustr
| TE_Mixed_Expectations ustr
| TE_Json
| TE_Stale
| TE_Unknown_Exclusion ustr
| TE_Exclusion_Direction ustr ustr ustr
| TE_Invalid_Direction ustr ustr
| TE_Empty_Exclusion ustr
| TE_Duplicate_Exclusion ustr
| TE_Exclusions nat
| TE_Unexpected nat nat

end
