(* ===== verification/Tck_Scenario.thy ===== *)
theory Tck_Scenario
  imports Tck_Data
begin

text \<open>
  From scenarios to occurrences of queries (\<open>xtask/src/tck.rs\<close>): what a step is, what a scenario
  expects, the rows of an outline, and the queries of a scenario in order.
\<close>

section \<open>Steps\<close>

datatype step_context = SX_Background | SX_Scenario

datatype (plugins only: code size) classified_step =
  CS_None | CS_Query query_step | CS_NamedGraph ustr

definition having_role :: "step_context \<Rightarrow> query_role" where
  "having_role context = (case context of SX_Background \<Rightarrow> QR_Background | SX_Scenario \<Rightarrow> QR_Setup)"

text \<open>The role of a query step and the query it has on its line.\<close>

definition step_query_kind :: "step_context \<Rightarrow> ustr \<Rightarrow> (query_role \<times> ustr option) option" where
  "step_query_kind context val =
     (if val = ascii ''having executed:'' then Some (having_role context, None)
      else if val = ascii ''executing query:'' then Some (QR_Primary, None)
      else if val = ascii ''executing control query:'' then Some (QR_Control, None)
      else case strip_prefix (ascii ''having executed: '') val of
        Some source \<Rightarrow> Some (having_role context, Some source)
      | None \<Rightarrow>
          (case strip_prefix (ascii ''executing query: '') val of
             Some source \<Rightarrow> Some (QR_Primary, Some source)
           | None \<Rightarrow>
               map_option (\<lambda>source. (QR_Control, Some source))
                 (strip_prefix (ascii ''executing control query: '') val)))"

definition query_body ::
  "(step_fault \<Rightarrow> tck_error) \<Rightarrow> ustr option \<Rightarrow> ustr option \<Rightarrow> (tck_error, query_form \<times> ustr) run" where
  "query_body fault docstring inline =
     (case docstring of
        Some text \<Rightarrow>
          (if inline = None then pass (QF_Docstring, text) else fail (fault SF_Inline_And_Docstring))
      | None \<Rightarrow>
          (case inline of
             Some text \<Rightarrow> if trim text \<noteq> [] then pass (QF_Inline, text) else fail (fault SF_No_Query)
           | None \<Rightarrow> fail (fault SF_No_Query)))"

definition map_err :: "('d \<Rightarrow> 'e) \<Rightarrow> ('d, 'a) run \<Rightarrow> ('e, 'a) run" where
  "map_err f m = map_option (map_sum f (\<lambda>x. x)) m"

definition query_step_of ::
  "gherkin_step \<Rightarrow> ustr \<Rightarrow> example_values \<Rightarrow> ustr \<Rightarrow> query_role \<Rightarrow> ustr option \<Rightarrow>
     (tck_error, classified_step) run" where
  "query_step_of st path vals val role inline =
     (let fault = TE_Step path (gs_line st) val in
      run_then (reject_if (gs_table st \<noteq> None) (fault SF_Unexpected_Table)) (\<lambda>_.
      run_then (query_body fault (gs_docstring st) inline) (\<lambda>(form, body).
      run_then (map_err (\<lambda>name. fault (SF_Body name)) (substitute body vals)) (\<lambda>source.
      pass (CS_Query \<lparr>qs_role = role, qs_form = form, qs_source_path = path,
        qs_source_line = gs_line st, qs_source = source\<rparr>)))))"

definition named_graph :: "gherkin_step \<Rightarrow> ustr \<Rightarrow> ustr option" where
  "named_graph st val =
     (if gs_type st = ST_Given
      then Option.bind (strip_prefix (ascii ''the '') val) (strip_suffix (ascii '' graph''))
      else None)"

definition table_expected :: "ustr \<Rightarrow> bool" where
  "table_expected val =
     (val = ascii ''parameters are:'' \<or>
      val = ascii ''the result should be, in any order:'' \<or>
      val = ascii ''the result should be, in order:'' \<or>
      val = ascii ''the result should be (ignoring element order for lists):'' \<or>
      val = ascii ''the result should be, in order (ignoring element order for lists):'' \<or>
      val = ascii ''the side effects should be:'' \<or>
      starts_with (ascii ''there exists a procedure '') val \<and> strip_suffix (ascii '':'') val \<noteq> None)"

definition no_argument :: "ustr \<Rightarrow> bool" where
  "no_argument val =
     (val = ascii ''an empty graph'' \<or> val = ascii ''any graph'' \<or>
      val = ascii ''the result should be empty'' \<or> val = ascii ''no side effects'' \<or>
      parse_error_step val \<noteq> None)"

definition classify_step ::
  "gherkin_step \<Rightarrow> step_context \<Rightarrow> ustr \<Rightarrow> example_values \<Rightarrow> (tck_error, classified_step) run" where
  "classify_step st context path vals =
     run_then (map_err (TE_Step_Text path (gs_line st)) (substitute (gs_value st) vals)) (\<lambda>val.
     let fault = TE_Step path (gs_line st) val in
     case step_query_kind context val of
       Some (role, inline) \<Rightarrow> query_step_of st path vals val role inline
     | None \<Rightarrow>
         if gs_docstring st \<noteq> None then fail (fault SF_Docstring)
         else case named_graph st val of
           Some name \<Rightarrow>
             if name = [] \<or> gs_table st \<noteq> None then fail (fault SF_Graph) else pass (CS_NamedGraph name)
         | None \<Rightarrow>
             if table_expected val
             then (if gs_table st = None then fail (fault SF_Table_Required) else pass CS_None)
             else if no_argument val
             then (if gs_table st \<noteq> None then fail (fault SF_Unexpected_Table) else pass CS_None)
             else fail (fault SF_Unrecognized))"

section \<open>Occurrences\<close>

record scenario_context =
  cx_feature_path :: ustr
  cx_feature_name :: ustr
  cx_rule_name :: "ustr option"
  cx_scenario :: gherkin_scenario
  cx_scenario_name :: ustr
  cx_example_index :: "nat option"
  cx_example_line :: "nat option"
  cx_values :: example_values
  cx_tags :: "ustr list"
  cx_expectation :: scenario_expect

definition unwrap_or_0 :: "nat option \<Rightarrow> nat" where
  "unwrap_or_0 n = (case n of None \<Rightarrow> 0 | Some k \<Rightarrow> k)"

definition occurrence_id :: "ustr \<Rightarrow> nat \<Rightarrow> nat option \<Rightarrow> nat option \<Rightarrow> nat \<Rightarrow> ustr" where
  "occurrence_id path scenario_line example_line example_index sequence =
     ascii ''occ:'' @ path @ ascii '':'' @ decimal scenario_line @ ascii '':'' @
     decimal (unwrap_or_0 example_line) @ ascii '':'' @ decimal (unwrap_or_0 example_index) @ ascii '':'' @
     decimal sequence"

text \<open>The state of \<open>extract_steps\<close>: the builder, and the number of queries of this instance so far.\<close>

type_synonym extraction = "projection_builder \<times> nat"

definition new_occurrence :: "scenario_context \<Rightarrow> query_step \<Rightarrow> nat \<Rightarrow> pending_occurrence" where
  "new_occurrence cx q sequence =
     \<lparr>po_id = occurrence_id (cx_feature_path cx) (sc_line (cx_scenario cx)) (cx_example_line cx)
        (cx_example_index cx) sequence,
      po_feature_path = cx_feature_path cx, po_feature = cx_feature_name cx, po_rule = cx_rule_name cx,
      po_scenario_template = sc_name (cx_scenario cx), po_scenario = cx_scenario_name cx,
      po_scenario_line = sc_line (cx_scenario cx), po_example_index = cx_example_index cx,
      po_example_line = cx_example_line cx, po_sequence = sequence, po_role = qs_role q,
      po_form = qs_form q, po_source_path = qs_source_path q, po_source_line = qs_source_line q,
      po_tags = cx_tags cx,
      po_expectation = (if qs_role q = QR_Primary then se_expectation (cx_expectation cx) else EX_Accept),
      po_upstream_error = (if qs_role q = QR_Primary then se_upstream_error (cx_expectation cx) else None),
      po_source = normalize_source (qs_source q)\<rparr>"

definition push_occurrence :: "scenario_context \<Rightarrow> query_step \<Rightarrow> extraction \<Rightarrow> extraction" where
  "push_occurrence cx q x =
     (case x of (b, sequence) \<Rightarrow>
        let sequence = sequence + 1 in
        (b\<lparr>pb_occurrences := pb_occurrences b @ [new_occurrence cx q sequence]\<rparr>, sequence))"

definition graph_query :: "graph_statement \<Rightarrow> query_step" where
  "graph_query statement =
     \<lparr>qs_role = QR_NamedGraph, qs_form = QF_GraphScript, qs_source_path = gst_source_path statement,
      qs_source_line = gst_source_line statement, qs_source = gst_source statement\<rparr>"

definition extract_step ::
  "scenario_context \<Rightarrow> step_context \<Rightarrow> (ustr, graph_fixture) btree \<Rightarrow> gherkin_step \<Rightarrow> extraction \<Rightarrow>
     (tck_error, extraction) run" where
  "extract_step cx context graphs st x =
     run_then (classify_step st context (cx_feature_path cx) (cx_values cx)) (\<lambda>c.
     case c of
       CS_None \<Rightarrow> pass x
     | CS_Query q \<Rightarrow> pass (push_occurrence cx q x)
     | CS_NamedGraph name \<Rightarrow>
         run_then (ok_or (TE_Unknown_Graph (cx_feature_path cx) (gs_line st) name) (map_of graphs name))
           (\<lambda>fixture. pass (fold (\<lambda>s. push_occurrence cx (graph_query s)) fixture x)))"

definition extract_steps ::
  "scenario_context \<Rightarrow> gherkin_step list \<Rightarrow> step_context \<Rightarrow> (ustr, graph_fixture) btree \<Rightarrow> extraction \<Rightarrow>
     (tck_error, extraction) run" where
  "extract_steps cx steps context graphs = fold_run (extract_step cx context graphs) steps"

section \<open>What a scenario expects\<close>

definition s_skip_grammar :: ustr where "s_skip_grammar = ascii ''skipGrammarCheck''"

definition skips_grammar :: "gherkin_scenario \<Rightarrow> bool" where
  "skips_grammar sc = list_ex (\<lambda>tag. normalize_tag tag = s_skip_grammar) (sc_tags sc)"

text \<open>A compile-time syntax error needs a review.\<close>

definition reviewed_expectation ::
  "ustr \<Rightarrow> gherkin_scenario \<Rightarrow> reviews \<Rightarrow> upstream_error \<Rightarrow> (review_key, unit) btree \<Rightarrow>
     (tck_error, expectation \<times> (review_key, unit) btree) run" where
  "reviewed_expectation path sc reviews err seen =
     (let key = (path, sc_line sc, ue_error_type err, ue_phase err, ue_detail err) in
      run_then (ok_or (TE_Unreviewed path (sc_line sc) (sc_name sc) (ue_detail err)) (map_of reviews key))
        (\<lambda>review.
      run_then (reject_if (rv_scenario review \<noteq> sc_name sc)
        (TE_Review_Name path (sc_line sc) (rv_scenario review) (sc_name sc))) (\<lambda>_.
      run_then
        (case rv_expect review of
           EX_Accept \<Rightarrow>
             reject_if (\<not> (rv_reason review = ascii ''static_semantic'' \<and> \<not> skips_grammar sc))
               (TE_Accepted_Review path (sc_line sc))
         | EX_Reject \<Rightarrow>
             reject_if (\<not> (rv_reason review = ascii ''grammar_negative'' \<and> skips_grammar sc))
               (TE_Rejected_Review path (sc_line sc))) (\<lambda>_.
      pass (rv_expect review, bt_insert key () seen)))))"

definition scenario_expectation ::
  "ustr \<Rightarrow> gherkin_scenario \<Rightarrow> reviews \<Rightarrow> (review_key, unit) btree \<Rightarrow>
     (tck_error, scenario_expect \<times> (review_key, unit) btree) run" where
  "scenario_expectation path sc reviews seen =
     (let errors = List.map_filter (\<lambda>st. parse_error_step (gs_value st)) (sc_steps sc) in
      run_then (reject_if (length errors > 1) (TE_Many_Errors path (sc_line sc) (sc_name sc))) (\<lambda>_.
      let upstream = (case errors of [] \<Rightarrow> None | err # _ \<Rightarrow> Some err) in
      run_then
        (case upstream of
           None \<Rightarrow> pass (EX_Accept, seen)
         | Some err \<Rightarrow>
             if ue_error_type err = s_syntax_error \<and> ue_phase err = s_compile_time
             then reviewed_expectation path sc reviews err seen
             else pass (EX_Accept, seen)) (\<lambda>(expectation, seen).
      run_then (reject_if (skips_grammar sc \<and> expectation \<noteq> EX_Reject) (TE_Skip_Grammar path (sc_line sc)))
        (\<lambda>_. pass (\<lparr>se_expectation = expectation, se_upstream_error = upstream\<rparr>, seen)))))"

section \<open>The rows of an outline\<close>

text \<open>The instances of one table; \<open>index\<close> counts the rows of all tables.\<close>

fun row_instances ::
  "ustr list \<Rightarrow> ustr list \<Rightarrow> (ustr list \<times> nat) list \<Rightarrow> nat \<Rightarrow> example_instance list" where
  "row_instances tags headers [] index = []"
| "row_instances tags headers ((row, line) # rows) index =
     \<lparr>ei_index = Some (index + 1), ei_line = Some line, ei_values = bt_collect (zip headers row),
      ei_tags = tags\<rparr> # row_instances tags headers rows (index + 1)"

definition expand_table ::
  "gherkin_scenario \<Rightarrow> ustr \<Rightarrow> ustr list \<Rightarrow> gherkin_examples \<Rightarrow> example_instance list \<times> nat \<Rightarrow>
     (tck_error, example_instance list \<times> nat) run" where
  "expand_table sc path feature_lines ex x =
     (case x of (expanded, index) \<Rightarrow>
      let fault = TE_Examples path (ge_line ex) (sc_name sc) in
      run_then (ok_or (fault EF_No_Table) (ge_table ex)) (\<lambda>table.
      case gt_rows table of
        [] \<Rightarrow> fail (fault EF_Empty_Table)
      | headers # rows \<Rightarrow>
          run_then (reject_if (headers = []) (fault EF_No_Columns)) (\<lambda>_.
          run_then (reject_if (\<not> validate_example_headers headers) (fault EF_Duplicate_Headers)) (\<lambda>_.
          run_then (reject_if (rows = []) (fault EF_No_Rows)) (\<lambda>_.
          run_then (ok_or (fault (EF_Row_Lines (length (gt_rows table)) (gt_line table)))
            (table_row_lines (gt_line table) (length (gt_rows table)) feature_lines)) (\<lambda>row_lines.
          let pairs = zip rows (drop 1 row_lines) in
          pass (expanded @ row_instances (ge_tags ex) headers pairs index, index + length pairs)))))))"

definition expand_examples ::
  "gherkin_scenario \<Rightarrow> ustr \<Rightarrow> ustr list \<Rightarrow> (tck_error, example_instance list) run" where
  "expand_examples sc path feature_lines =
     (if sc_examples sc = []
      then (if str_contains (ascii ''Outline'') (sc_keyword sc) \<or> str_contains (ascii ''Template'') (sc_keyword sc)
            then fail (TE_No_Examples path (sc_line sc) (sc_name sc))
            else pass [\<lparr>ei_index = None, ei_line = None, ei_values = [], ei_tags = []\<rparr>])
      else run_then (fold_run (expand_table sc path feature_lines) (sc_examples sc) ([], 0))
        (\<lambda>(expanded, _). pass expanded))"

section \<open>Scenarios and features\<close>

definition optional_steps ::
  "scenario_context \<Rightarrow> gherkin_step list option \<Rightarrow> (ustr, graph_fixture) btree \<Rightarrow> extraction \<Rightarrow>
     (tck_error, extraction) run" where
  "optional_steps cx background graphs x =
     (case background of
        None \<Rightarrow> pass x
      | Some steps \<Rightarrow> extract_steps cx steps SX_Background graphs x)"

text \<open>How many of the last \<open>sequence\<close> occurrences are primary queries.\<close>

definition primary_count :: "extraction \<Rightarrow> nat" where
  "primary_count x =
     (case x of (b, sequence) \<Rightarrow>
        length (filter (\<lambda>oc. po_role oc = QR_Primary) (take sequence (rev (pb_occurrences b)))))"

text \<open>The parts of the feature around a scenario, and what was read before.\<close>

record surroundings =
  su_feature :: gherkin_feature
  su_rule :: "gherkin_rule option"
  su_path :: ustr
  su_reviews :: reviews
  su_graphs :: "(ustr, graph_fixture) btree"
  su_lines :: "ustr list"

definition instance_tags :: "surroundings \<Rightarrow> gherkin_scenario \<Rightarrow> example_instance \<Rightarrow> ustr list" where
  "instance_tags su sc inst =
     (let base_tags = combined_tags (gf_tags (su_feature su))
            (case su_rule su of None \<Rightarrow> [] | Some r \<Rightarrow> gr_tags r) (sc_tags sc)
      in sort_dedup (base_tags @ map normalize_tag (ei_tags inst)))"

definition instance_context ::
  "surroundings \<Rightarrow> gherkin_scenario \<Rightarrow> scenario_expect \<Rightarrow> example_instance \<Rightarrow> ustr \<Rightarrow> scenario_context" where
  "instance_context su sc expect inst name =
     \<lparr>cx_feature_path = su_path su, cx_feature_name = gf_name (su_feature su),
      cx_rule_name = map_option gr_name (su_rule su), cx_scenario = sc, cx_scenario_name = name,
      cx_example_index = ei_index inst, cx_example_line = ei_line inst, cx_values = ei_values inst,
      cx_tags = instance_tags su sc inst, cx_expectation = expect\<rparr>"

definition process_instance ::
  "surroundings \<Rightarrow> gherkin_scenario \<Rightarrow> scenario_expect \<Rightarrow> example_instance \<Rightarrow> projection_builder \<Rightarrow>
     (tck_error, projection_builder) run" where
  "process_instance su sc expect inst b =
     (let path = su_path su; b = b\<lparr>pb_scenarios := pb_scenarios b + 1\<rparr> in
      run_then (map_err (TE_Scenario_Name path (sc_line sc)) (substitute (sc_name sc) (ei_values inst)))
        (\<lambda>name.
      let cx = instance_context su sc expect inst name in
      run_then (optional_steps cx (gf_background (su_feature su)) (su_graphs su) (b, 0)) (\<lambda>x.
      run_then (optional_steps cx (Option.bind (su_rule su) gr_background) (su_graphs su) x) (\<lambda>x.
      run_then (extract_steps cx (sc_steps sc) SX_Scenario (su_graphs su) x) (\<lambda>x.
      run_then (reject_if (primary_count x \<noteq> 1)
        (TE_Primary_Count path (sc_line sc) name (primary_count x))) (\<lambda>_. pass (fst x)))))))"

definition process_scenario ::
  "surroundings \<Rightarrow> gherkin_scenario \<Rightarrow> projection_builder \<Rightarrow> (tck_error, projection_builder) run" where
  "process_scenario su sc b =
     (let b = b\<lparr>pb_scenario_templates := pb_scenario_templates b + 1\<rparr>;
          b = (if sc_examples sc \<noteq> [] then b\<lparr>pb_scenario_outlines := pb_scenario_outlines b + 1\<rparr> else b) in
      run_then (scenario_expectation (su_path su) sc (su_reviews su) (pb_seen_reviews b)) (\<lambda>(expect, seen).
      run_then (expand_examples sc (su_path su) (su_lines su)) (\<lambda>instances.
      fold_run (process_instance su sc expect) instances (b\<lparr>pb_seen_reviews := seen\<rparr>))))"

definition process_feature ::
  "projection_builder \<Rightarrow> gherkin_feature \<Rightarrow> ustr \<Rightarrow> reviews \<Rightarrow> (ustr, graph_fixture) btree \<Rightarrow> ustr list \<Rightarrow>
     (tck_error, projection_builder) run" where
  "process_feature b feature path reviews graphs feature_lines =
     (let around = (\<lambda>rul. \<lparr>su_feature = feature, su_rule = rul, su_path = path, su_reviews = reviews,
            su_graphs = graphs, su_lines = feature_lines\<rparr>) in
      run_then (fold_run (process_scenario (around None)) (gf_scenarios feature) b)
        (fold_run (\<lambda>rul. fold_run (process_scenario (around (Some rul))) (gr_scenarios rul))
          (gf_rules feature)))"

end
