(* ===== verification/Tck_Blocks.thy ===== *)
theory Tck_Blocks
  imports Tck_Scenario
begin

text \<open>
  What the extraction of occurrences keeps: every example of a scenario adds one block of
  occurrences, numbered from 1, with exactly one primary query, and only a reviewed primary query is
  expected to be rejected.
\<close>

section \<open>No step panics\<close>

lemma map_err_pass [run_simps]: "map_err f m = Some (Inr x) \<longleftrightarrow> m = Some (Inr x)"
  by (cases m rule: option.exhaust [case_product sum.exhaust]) (auto simp: map_err_def map_sum_def split: sum.splits)

lemma returns_map_err [returns_intros]: "returns m \<Longrightarrow> returns (map_err f m)"
  by (auto simp: returns_def map_err_def)

lemma substitute_returns [returns_intros]: "returns (substitute template vals)"
proof -
  have "returns (substitute_from vals out s)" for out s
    by (induction vals out s rule: substitute_from.induct) (auto split: option.splits)
  then show ?thesis by (simp add: substitute_def)
qed

lemma classify_step_returns [returns_intros]: "returns (classify_step st context path vals)"
  unfolding classify_step_def query_step_of_def query_body_def Let_def
  by (intro returns_intros) (auto intro!: returns_intros split: option.split)

lemma extract_step_returns [returns_intros]: "returns (extract_step cx context graphs st x)"
  unfolding extract_step_def
  by (intro returns_intros) (auto intro!: returns_intros split: classified_step.split)

lemma extract_steps_returns [returns_intros]: "returns (extract_steps cx steps context graphs x)"
  unfolding extract_steps_def by (intro returns_intros)

lemma optional_steps_returns [returns_intros]: "returns (optional_steps cx background graphs x)"
  unfolding optional_steps_def by (auto intro!: returns_intros split: option.split)

lemma scenario_expectation_returns [returns_intros]: "returns (scenario_expectation path sc reviews seen)"
  unfolding scenario_expectation_def reviewed_expectation_def Let_def
  by (intro returns_intros)
     (auto intro!: returns_intros split: option.split list.split expectation.split)

lemma expand_examples_returns [returns_intros]: "returns (expand_examples sc path feature_lines)"
  unfolding expand_examples_def expand_table_def Let_def
  by (auto intro!: returns_intros split: list.split)

lemma process_scenario_returns [returns_intros]: "returns (process_scenario su sc b)"
  unfolding process_scenario_def process_instance_def Let_def
  by (auto intro!: returns_intros)

lemma process_feature_returns [returns_intros]:
  "returns (process_feature b feature path reviews graphs feature_lines)"
  unfolding process_feature_def Let_def by (auto intro!: returns_intros)

section \<open>The occurrences of one instance\<close>

text \<open>
  \<open>extends b cx x\<close>: from \<open>b\<close>, the extraction has only added the occurrences of the context \<open>cx\<close>,
  numbered in order.
\<close>

definition occurrences_of :: "scenario_context \<Rightarrow> pending_occurrence list \<Rightarrow> bool" where
  "occurrences_of cx new =
     (\<exists>queries. new = map (\<lambda>(i, q). new_occurrence cx q i) (enumerate 1 queries))"

definition extends :: "projection_builder \<Rightarrow> scenario_context \<Rightarrow> extraction \<Rightarrow> bool" where
  "extends b cx x =
     (\<exists>new. occurrences_of cx new \<and> length new = snd x \<and>
        fst x = b\<lparr>pb_occurrences := pb_occurrences b @ new\<rparr>)"

lemma extends_start: "extends b cx (b, 0)"
  by (auto simp: extends_def occurrences_of_def intro: exI [of _ "[]"])

lemma new_occurrence_sequence [simp]: "po_sequence (new_occurrence cx q i) = i"
  by (simp add: new_occurrence_def)

lemma occurrences_of_snoc:
  "occurrences_of cx new \<Longrightarrow> occurrences_of cx (new @ [new_occurrence cx q (length new + 1)])"
proof -
  assume "occurrences_of cx new"
  then obtain queries where
    "new = map (\<lambda>(i, q). new_occurrence cx q i) (enumerate 1 queries)"
    by (auto simp: occurrences_of_def)
  moreover have "enumerate 1 (queries @ [q]) = enumerate 1 queries @ [(length queries + 1, q)]"
    by (simp add: enumerate_append_eq)
  ultimately show ?thesis
    unfolding occurrences_of_def by (intro exI [of _ "queries @ [q]"]) simp
qed

lemma extends_push: "extends b cx x \<Longrightarrow> extends b cx (push_occurrence cx q x)"
proof -
  assume "extends b cx x"
  then obtain new where new: "occurrences_of cx new" "length new = snd x"
    "fst x = b\<lparr>pb_occurrences := pb_occurrences b @ new\<rparr>" by (auto simp: extends_def)
  let ?new = "new @ [new_occurrence cx q (length new + 1)]"
  have "occurrences_of cx ?new" by (rule occurrences_of_snoc [OF new(1)])
  moreover have "length ?new = snd (push_occurrence cx q x) \<and>
      fst (push_occurrence cx q x) = b\<lparr>pb_occurrences := pb_occurrences b @ ?new\<rparr>"
    using new(2,3) by (cases x) (simp add: push_occurrence_def)
  ultimately show ?thesis unfolding extends_def by blast
qed

lemma extends_fold: "extends b cx x \<Longrightarrow> extends b cx (fold (\<lambda>s. push_occurrence cx (f s)) xs x)"
  by (induction xs arbitrary: x) (simp_all add: extends_push)

lemma extends_step:
  "extract_step cx context graphs st x = Some (Inr y) \<Longrightarrow> extends b cx x \<Longrightarrow> extends b cx y"
proof -
  assume "extract_step cx context graphs st x = Some (Inr y)" and ext: "extends b cx x"
  then obtain c where "(case c of CS_None \<Rightarrow> pass x | CS_Query q \<Rightarrow> pass (push_occurrence cx q x)
      | CS_NamedGraph name \<Rightarrow>
          run_then (ok_or (TE_Unknown_Graph (cx_feature_path cx) (gs_line st) name) (map_of graphs name))
            (\<lambda>fixture. pass (fold (\<lambda>s. push_occurrence cx (graph_query s)) fixture x))) = Some (Inr y)"
    by (auto simp: extract_step_def run_then_pass)
  with ext show ?thesis by (cases c) (auto simp: run_then_pass extends_push extends_fold)
qed

lemma extends_steps:
  "extract_steps cx steps context graphs x = Some (Inr y) \<Longrightarrow> extends b cx x \<Longrightarrow> extends b cx y"
  unfolding extract_steps_def
  by (elim fold_run_invariant [where I = "extends b cx"]) (auto intro: extends_step)

lemma extends_optional:
  "optional_steps cx background graphs x = Some (Inr y) \<Longrightarrow> extends b cx x \<Longrightarrow> extends b cx y"
  by (auto simp: optional_steps_def extends_steps split: option.splits)

section \<open>Blocks\<close>

definition primaries :: "pending_occurrence list \<Rightarrow> pending_occurrence list" where
  "primaries ocs = filter (\<lambda>oc. po_role oc = QR_Primary) ocs"

text \<open>A rejected query has a review that says so, for its scenario.\<close>

definition rejection_reviewed :: "reviews \<Rightarrow> pending_occurrence \<Rightarrow> bool" where
  "rejection_reviewed reviews oc =
     (\<exists>err review. po_upstream_error oc = Some err \<and> ue_error_type err = s_syntax_error \<and>
        ue_phase err = s_compile_time \<and>
        map_of reviews (po_feature_path oc, po_scenario_line oc, ue_error_type err, ue_phase err,
          ue_detail err) = Some review \<and>
        rv_expect review = EX_Reject \<and> rv_scenario review = po_scenario_template oc \<and>
        s_skip_grammar \<in> set (po_tags oc))"

definition block_ok :: "reviews \<Rightarrow> ustr \<Rightarrow> pending_occurrence list \<Rightarrow> bool" where
  "block_ok reviews path block =
     (map po_sequence block = [1..<length block + 1] \<and> length (primaries block) = 1 \<and>
      (\<forall>oc\<in>set block. po_feature_path oc = path \<and>
         po_id oc = occurrence_id path (po_scenario_line oc) (po_example_line oc) (po_example_index oc)
           (po_sequence oc) \<and>
         (po_expectation oc = EX_Reject \<longrightarrow> po_role oc = QR_Primary \<and> rejection_reviewed reviews oc)))"

text \<open>What the expectation of a scenario guarantees.\<close>

definition expect_ok :: "reviews \<Rightarrow> ustr \<Rightarrow> gherkin_scenario \<Rightarrow> scenario_expect \<Rightarrow> bool" where
  "expect_ok reviews path sc expect =
     (se_expectation expect = EX_Reject \<longrightarrow> skips_grammar sc \<and>
        (\<exists>err review. se_upstream_error expect = Some err \<and> ue_error_type err = s_syntax_error \<and>
           ue_phase err = s_compile_time \<and>
           map_of reviews (path, sc_line sc, ue_error_type err, ue_phase err, ue_detail err) = Some review \<and>
           rv_expect review = EX_Reject \<and> rv_scenario review = sc_name sc))"

lemma reviewed_expectation_ok:
  assumes "reviewed_expectation path sc reviews err seen = Some (Inr (EX_Reject, seen'))"
  shows "skips_grammar sc \<and> (\<exists>review.
    map_of reviews (path, sc_line sc, ue_error_type err, ue_phase err, ue_detail err) = Some review \<and>
    rv_expect review = EX_Reject \<and> rv_scenario review = sc_name sc)"
proof -
  obtain review where "map_of reviews (path, sc_line sc, ue_error_type err, ue_phase err, ue_detail err) =
      Some review" "rv_scenario review = sc_name sc" "rv_expect review = EX_Reject"
    "(case rv_expect review of
       EX_Accept \<Rightarrow> reject_if (\<not> (rv_reason review = ascii ''static_semantic'' \<and> \<not> skips_grammar sc))
         (TE_Accepted_Review path (sc_line sc))
     | EX_Reject \<Rightarrow> reject_if (\<not> (rv_reason review = ascii ''grammar_negative'' \<and> skips_grammar sc))
         (TE_Rejected_Review path (sc_line sc))) = Some (Inr ())"
    using assms unfolding reviewed_expectation_def Let_def run_then_pass by auto
  then show ?thesis by simp
qed

lemma scenario_expectation_ok:
  assumes "scenario_expectation path sc reviews seen = Some (Inr (expect, seen'))"
  shows "expect_ok reviews path sc expect"
proof -
  define errors where "errors = List.map_filter (\<lambda>st. parse_error_step (gs_value st)) (sc_steps sc)"
  define upstream where "upstream = (case errors of [] \<Rightarrow> None | err # _ \<Rightarrow> Some err)"
  obtain e s where run: "(case upstream of None \<Rightarrow> pass (EX_Accept, seen)
       | Some err \<Rightarrow>
           if ue_error_type err = s_syntax_error \<and> ue_phase err = s_compile_time
           then reviewed_expectation path sc reviews err seen else pass (EX_Accept, seen)) = Some (Inr (e, s))"
    "expect = \<lparr>se_expectation = e, se_upstream_error = upstream\<rparr>"
    using assms unfolding scenario_expectation_def Let_def upstream_def errors_def
    by (auto simp: run_then_pass)
  show ?thesis
  proof (cases "e = EX_Reject")
    case True
    with run(1) obtain err where "upstream = Some err" "ue_error_type err = s_syntax_error"
      "ue_phase err = s_compile_time"
      "reviewed_expectation path sc reviews err seen = Some (Inr (EX_Reject, s))"
      by (auto split: option.splits if_splits)
    with reviewed_expectation_ok [OF this(4)] run(2) show ?thesis by (auto simp: expect_ok_def)
  qed (simp add: expect_ok_def run(2))
qed

lemma sort_dedup_set [simp]: "set (sort_dedup tags) = set tags"
  by (simp add: sort_dedup_def)

lemma skip_tag_kept: "skips_grammar sc \<Longrightarrow> s_skip_grammar \<in> set (instance_tags su sc inst)"
  by (simp add: instance_tags_def Let_def skips_grammar_def combined_tags_def list_ex_iff) (metis image_eqI)

lemma occurrences_block:
  assumes "occurrences_of cx new" and "length (primaries new) = 1"
    and "expect_ok reviews (cx_feature_path cx) (cx_scenario cx) (cx_expectation cx)"
    and "skips_grammar (cx_scenario cx) \<Longrightarrow> s_skip_grammar \<in> set (cx_tags cx)"
  shows "block_ok reviews (cx_feature_path cx) new"
proof -
  obtain queries where new: "new = map (\<lambda>(i, q). new_occurrence cx q i) (enumerate 1 queries)"
    using assms(1) by (auto simp: occurrences_of_def)
  have "map po_sequence new = map fst (enumerate 1 queries)"
    by (simp add: new o_def case_prod_unfold)
  then have "map po_sequence new = [1..<length new + 1]"
    by (simp only: map_fst_enumerate new length_map length_enumerate add.commute)
  moreover have "po_feature_path oc = cx_feature_path cx \<and>
      po_id oc = occurrence_id (cx_feature_path cx) (po_scenario_line oc) (po_example_line oc)
        (po_example_index oc) (po_sequence oc) \<and>
      (po_expectation oc = EX_Reject \<longrightarrow> po_role oc = QR_Primary \<and> rejection_reviewed reviews oc)"
    if "oc \<in> set new" for oc
  proof -
    from that obtain q i where "oc = new_occurrence cx q i" by (auto simp: new)
    then show ?thesis
      using assms(3,4) by (auto simp: new_occurrence_def rejection_reviewed_def expect_ok_def)
  qed
  ultimately show ?thesis using assms(2) by (simp add: block_ok_def)
qed

text \<open>One instance adds one block and counts one scenario.\<close>

lemma process_instance_block:
  assumes "process_instance su sc expect inst b = Some (Inr b')"
    and "expect_ok (su_reviews su) (su_path su) sc expect"
  shows "\<exists>block. block_ok (su_reviews su) (su_path su) block \<and>
    b' = b\<lparr>pb_scenarios := pb_scenarios b + 1, pb_occurrences := pb_occurrences b @ block\<rparr>"
proof -
  let ?b = "b\<lparr>pb_scenarios := pb_scenarios b + 1\<rparr>"
  obtain name x y z where run:
    "optional_steps (instance_context su sc expect inst name) (gf_background (su_feature su)) (su_graphs su)
      (?b, 0) = Some (Inr x)"
    "optional_steps (instance_context su sc expect inst name) (Option.bind (su_rule su) gr_background)
      (su_graphs su) x = Some (Inr y)"
    "extract_steps (instance_context su sc expect inst name) (sc_steps sc) SX_Scenario (su_graphs su) y =
      Some (Inr z)"
    "primary_count z = 1" "b' = fst z"
    using assms(1) unfolding process_instance_def Let_def run_then_pass by auto
  define cx where "cx = instance_context su sc expect inst name"
  note steps = run [folded cx_def]
  have "extends ?b cx z"
    by (rule extends_steps [OF steps(3)], rule extends_optional [OF steps(2)],
        rule extends_optional [OF steps(1)], rule extends_start)
  then obtain new where new: "occurrences_of cx new" "length new = snd z"
    "fst z = ?b\<lparr>pb_occurrences := pb_occurrences ?b @ new\<rparr>" by (auto simp: extends_def)
  have "length (primaries new) = length (filter (\<lambda>oc. po_role oc = QR_Primary) (rev new))"
    by (simp add: primaries_def flip: rev_filter)
  also have "\<dots> = primary_count z" using new(2,3) by (cases z) (simp add: primary_count_def)
  finally have "block_ok (su_reviews su) (cx_feature_path cx) new"
    using assms(2) steps(4) skip_tag_kept [of sc su inst]
    by (intro occurrences_block [OF new(1)]) (simp_all add: cx_def instance_context_def)
  then have "block_ok (su_reviews su) (su_path su) new" by (simp add: cx_def instance_context_def)
  with new(3) steps(5) show ?thesis by (intro exI [of _ new]) simp
qed

text \<open>What a run over any number of instances has added.\<close>

definition added_blocks :: "reviews \<Rightarrow> ustr \<Rightarrow> projection_builder \<Rightarrow> projection_builder \<Rightarrow> bool" where
  "added_blocks reviews path b b' =
     (\<exists>blocks. pb_occurrences b' = pb_occurrences b @ concat blocks \<and>
        pb_scenarios b' = pb_scenarios b + length blocks \<and>
        (\<forall>block\<in>set blocks. block_ok reviews path block))"

lemma added_blocks_refl [simp]: "added_blocks reviews path b b"
  unfolding added_blocks_def by (intro exI [of _ "[]"]) simp

lemma added_blocks_trans:
  "added_blocks reviews path a b \<Longrightarrow> added_blocks reviews path b c \<Longrightarrow> added_blocks reviews path a c"
  unfolding added_blocks_def
proof (elim exE conjE)
  fix xs ys assume "pb_occurrences b = pb_occurrences a @ concat xs" "pb_scenarios b = pb_scenarios a + length xs"
    "\<forall>block\<in>set xs. block_ok reviews path block"
    "pb_occurrences c = pb_occurrences b @ concat ys" "pb_scenarios c = pb_scenarios b + length ys"
    "\<forall>block\<in>set ys. block_ok reviews path block"
  then show "\<exists>blocks. pb_occurrences c = pb_occurrences a @ concat blocks \<and>
      pb_scenarios c = pb_scenarios a + length blocks \<and> (\<forall>block\<in>set blocks. block_ok reviews path block)"
    by (intro exI [of _ "xs @ ys"]) auto
qed

lemma added_blocks_instance:
  "process_instance su sc expect inst b = Some (Inr b') \<Longrightarrow>
     expect_ok (su_reviews su) (su_path su) sc expect \<Longrightarrow>
     added_blocks (su_reviews su) (su_path su) b b'"
proof -
  assume "process_instance su sc expect inst b = Some (Inr b')" "expect_ok (su_reviews su) (su_path su) sc expect"
  then obtain block where "block_ok (su_reviews su) (su_path su) block"
    "b' = b\<lparr>pb_scenarios := pb_scenarios b + 1, pb_occurrences := pb_occurrences b @ block\<rparr>"
    using process_instance_block by blast
  then show ?thesis unfolding added_blocks_def by (intro exI [of _ "[block]"]) simp
qed

lemma fold_run_trans:
  assumes "fold_run f xs s = Some (Inr t)" and "\<And>x s t. x \<in> set xs \<Longrightarrow> f x s = Some (Inr t) \<Longrightarrow> R s t"
    and "\<And>s. R s s" and "\<And>s t u. R s t \<Longrightarrow> R t u \<Longrightarrow> R s u"
  shows "R s t"
  using assms(1)
proof (rule fold_run_invariant [where I = "R s"])
  show "R s s" by (rule assms(3))
qed (auto intro: assms(2,4))

lemma added_blocks_scenario:
  assumes "process_scenario su sc b = Some (Inr b')"
  shows "added_blocks (su_reviews su) (su_path su) b b'"
proof -
  let ?b = "b\<lparr>pb_scenario_templates := pb_scenario_templates b + 1\<rparr>"
  let ?b' = "if sc_examples sc \<noteq> [] then ?b\<lparr>pb_scenario_outlines := pb_scenario_outlines ?b + 1\<rparr> else ?b"
  from assms obtain expect seen instances where run:
    "scenario_expectation (su_path su) sc (su_reviews su) (pb_seen_reviews ?b') = Some (Inr (expect, seen))"
    "fold_run (process_instance su sc expect) instances (?b'\<lparr>pb_seen_reviews := seen\<rparr>) = Some (Inr b')"
    unfolding process_scenario_def Let_def by (auto simp: run_then_pass)
  have "added_blocks (su_reviews su) (su_path su) (?b'\<lparr>pb_seen_reviews := seen\<rparr>) b'"
    using run(2)
    by (rule fold_run_trans)
       (auto intro: added_blocks_trans added_blocks_instance scenario_expectation_ok [OF run(1)])
  then show ?thesis unfolding added_blocks_def by (simp split: if_splits)
qed

lemma process_feature_added:
  assumes "process_feature b feature path reviews graphs feature_lines = Some (Inr b')"
  shows "added_blocks reviews path b b'"
proof -
  let ?around = "\<lambda>rul. \<lparr>su_feature = feature, su_rule = rul, su_path = path, su_reviews = reviews,
      su_graphs = graphs, su_lines = feature_lines\<rparr>"
  from assms obtain m where run: "fold_run (process_scenario (?around None)) (gf_scenarios feature) b = Some (Inr m)"
    "fold_run (\<lambda>rul. fold_run (process_scenario (?around (Some rul))) (gr_scenarios rul)) (gf_rules feature) m =
      Some (Inr b')"
    unfolding process_feature_def Let_def by (auto simp: run_then_pass)
  have scenarios: "added_blocks reviews path s t"
    if "fold_run (process_scenario (?around rul)) scs s = Some (Inr t)" for rul scs s t
    using that
    by (rule fold_run_trans) (auto intro: added_blocks_trans dest: added_blocks_scenario)
  have "added_blocks reviews path m b'"
    using run(2) by (rule fold_run_trans) (auto intro: added_blocks_trans scenarios)
  with scenarios [OF run(1)] show ?thesis by (rule added_blocks_trans)
qed

end
