(* ===== verification/Trace_Data.thy ===== *)
theory Trace_Data
  imports Checked
begin

text \<open>
  The records of \<open>xtask/src/spec.rs\<close> that tie the openCypher grammar to the implementation: the
  production map, the executable witnesses and the deviations, and how they are read from their
  TOML files. The \<open>toml\<close> crate is the parameter \<open>T\<close>: the accessors of its value type.
\<close>

section \<open>Vocabulary\<close>

definition s_full :: ustr where "s_full = ascii ''full''"
definition s_partial :: ustr where "s_partial = ascii ''partial''"
definition s_unsupported :: ustr where "s_unsupported = ascii ''unsupported''"
definition s_unassessed :: ustr where "s_unassessed = ascii ''unassessed''"
definition s_direct :: ustr where "s_direct = ascii ''direct''"
definition s_alias :: ustr where "s_alias = ascii ''alias''"
definition s_none :: ustr where "s_none = ascii ''none''"
definition s_accept :: ustr where "s_accept = ascii ''accept''"
definition s_reject :: ustr where "s_reject = ascii ''reject''"
definition s_parser :: ustr where "s_parser = ascii ''parser''"
definition s_lexer :: ustr where "s_lexer = ascii ''lexer''"
definition s_tokens :: ustr where "s_tokens = ascii ''tokens''"
definition s_open :: ustr where "s_open = ascii ''open''"
definition s_production :: ustr where "s_production = ascii ''production:''"

lemmas word_defs = s_full_def s_partial_def s_unsupported_def s_unassessed_def s_direct_def
  s_alias_def s_none_def s_accept_def s_reject_def s_parser_def s_lexer_def s_tokens_def s_open_def
  s_production_def

lemma support_words [simp]:
  "s_full \<noteq> s_partial" "s_full \<noteq> s_unsupported" "s_full \<noteq> s_unassessed"
  "s_partial \<noteq> s_full" "s_partial \<noteq> s_unsupported" "s_partial \<noteq> s_unassessed"
  "s_unsupported \<noteq> s_full" "s_unsupported \<noteq> s_partial" "s_unsupported \<noteq> s_unassessed"
  "s_unassessed \<noteq> s_full" "s_unassessed \<noteq> s_partial" "s_unassessed \<noteq> s_unsupported"
  by (simp_all add: word_defs)

lemma mapping_words [simp]:
  "s_direct \<noteq> s_alias" "s_direct \<noteq> s_none" "s_alias \<noteq> s_direct" "s_alias \<noteq> s_none"
  "s_none \<noteq> s_direct" "s_none \<noteq> s_alias"
  by (simp_all add: word_defs)

lemma witness_words [simp]:
  "s_accept \<noteq> s_reject" "s_reject \<noteq> s_accept" "s_accept \<noteq> s_tokens" "s_tokens \<noteq> s_accept"
  "s_reject \<noteq> s_tokens" "s_tokens \<noteq> s_reject" "s_parser \<noteq> s_lexer" "s_lexer \<noteq> s_parser"
  by (simp_all add: word_defs)

text \<open>The files, as the messages name them.\<close>

datatype (plugins only: code size) ledger_file =
  F_Manifest | F_Production_Map | F_Witnesses | F_Deviations

section \<open>Records\<close>

record production =
  pn_name :: ustr
  pn_support :: ustr
  pn_mapping :: ustr
  pn_targets :: "ustr list"
  pn_positive :: "ustr list"
  pn_negative :: "ustr list"
  pn_deviations :: "ustr list"
  pn_note :: ustr

record 'v production_map =
  pm_values :: 'v
  pm_productions :: "production list"

record witness =
  wt_id :: ustr
  wt_description :: ustr
  wt_baseline :: ustr
  wt_entrypoint :: ustr
  wt_source :: ustr
  wt_expect :: ustr
  wt_tokens :: "ustr list"
  wt_diagnostics :: "ustr list"

type_synonym witness_catalog = "(ustr, witness) btree"

record deviation =
  dv_id :: ustr
  dv_status :: ustr
  dv_productions :: "ustr list"
  dv_positive :: ustr
  dv_negative :: ustr

type_synonym deviation_ledger = "(ustr, deviation) btree"

record 'v traceability =
  tr_map :: "'v production_map"
  tr_witnesses :: witness_catalog
  tr_deviations :: deviation_ledger

record 'v manifest =
  mf_values :: 'v
  mf_files :: "(ustr, ustr) btree"

text \<open>Which of a production's lists holds a duplicate.\<close>

datatype (plugins only: code size) list_kind = LK_Target | LK_Positive | LK_Negative | LK_Deviation

text \<open>
  The errors of the checks, one constructor per message with the values that the message shows;
  the errors about one production, one witness or one deviation also carry its name or id. The flag
  of the errors about a case of a production says that the case is a positive one.
\<close>

datatype (plugins only: code size) production_fault =
    PF_Duplicate list_kind | PF_Invalid_Support ustr | PF_Invalid_Mapping ustr
  | PF_Unassessed_Carries | PF_Unsupported_Mapping | PF_Partial_Mapping | PF_Full_Mapping
  | PF_Needs_Cases | PF_Needs_Note | PF_Needs_Open_Deviation | PF_Direct_Without_Target
  | PF_Alias_Targets | PF_Alias_Target ustr | PF_None_With_Targets
  | PF_Unknown_Case bool ustr | PF_Baseline bool ustr | PF_Parser_Case bool ustr
  | PF_Lexer_Case bool ustr | PF_Unknown_Deviation ustr | PF_No_Back_Reference ustr
  | PF_No_Endpoint | PF_Alias_Support ustr

datatype (plugins only: code size) witness_fault =
    WF_No_Description | WF_Baseline ustr | WF_Parser_Expect | WF_Parser_Tokens | WF_Lexer_Expect
  | WF_Entrypoint ustr | WF_Divergence | WF_Unexpectedly_Failed | WF_Unexpectedly_Parsed
  | WF_Internal | WF_Needs_Diagnostic ustr | WF_Tokens | WF_Diagnostics

datatype (plugins only: code size) deviation_fault =
    DF_No_Production | DF_Unknown_Production ustr | DF_No_Back_Reference ustr | DF_Unknown_Case ustr
  | DF_Positive ustr | DF_Negative ustr | DF_Evidence

datatype (plugins only: code size) spec_error =
    SE_Production production_fault ustr | SE_Witness witness_fault ustr
  | SE_Deviation deviation_fault ustr
  | SE_Unreadable ledger_file | SE_Source ustr | SE_Unsafe_Path ustr | SE_Missing ledger_file ustr | SE_Not_Strings ledger_file ustr
  | SE_Schema_Version ledger_file int int | SE_No_Records ledger_file
  | SE_Empty_Id ledger_file | SE_Duplicate_Id ledger_file | SE_Duplicate_Production
  | SE_Target_Namespace ustr | SE_Target_Unresolved ustr
  | SE_Alias_Cycle ustr | SE_Unknown_Alias ustr
  | SE_Unreferenced "ustr list" | SE_Assessment_Incomplete
  | SE_Invalid_Hash ustr | SE_Must_Be ledger_file ustr ustr ustr
  | SE_Count ledger_file ustr int nat | SE_Snapshot | SE_Inventory "ustr list" "ustr list"
  | SE_Manifest_File ustr | SE_Checksum ustr ustr ustr | SE_Missing_Grammar ustr | SE_Map_Order

section \<open>Reading the files\<close>

record 'v toml =
  toml_get :: "'v \<Rightarrow> ustr \<Rightarrow> 'v option"
  as_str :: "'v \<Rightarrow> ustr option"
  as_array :: "'v \<Rightarrow> 'v list option"
  as_bool :: "'v \<Rightarrow> bool option"
  as_integer :: "'v \<Rightarrow> int option"

definition table_string ::
  "'v toml \<Rightarrow> 'v \<Rightarrow> string \<Rightarrow> ledger_file \<Rightarrow> (spec_error, ustr) run" where
  "table_string T value key path =
     ok_or (SE_Missing path (ascii key)) (Option.bind (toml_get T value (ascii key)) (as_str T))"

definition table_bool :: "'v toml \<Rightarrow> 'v \<Rightarrow> string \<Rightarrow> (spec_error, bool) run" where
  "table_bool T value key =
     ok_or (SE_Missing F_Production_Map (ascii key))
       (Option.bind (toml_get T value (ascii key)) (as_bool T))"

definition table_string_array ::
  "'v toml \<Rightarrow> 'v \<Rightarrow> string \<Rightarrow> ledger_file \<Rightarrow> (spec_error, ustr list) run" where
  "table_string_array T value key path =
     run_then
       (ok_or (SE_Missing path (ascii key))
          (Option.bind (toml_get T value (ascii key)) (as_array T)))
       (map_run (\<lambda>item. ok_or (SE_Not_Strings path (ascii key)) (as_str T item)))"

definition optional_string_array ::
  "'v toml \<Rightarrow> 'v \<Rightarrow> string \<Rightarrow> ledger_file \<Rightarrow> (spec_error, ustr list) run" where
  "optional_string_array T value key path =
     (case toml_get T value (ascii key) of
        Some _ \<Rightarrow> table_string_array T value key path
      | None \<Rightarrow> pass [])"

definition require_schema_version ::
  "'v toml \<Rightarrow> 'v \<Rightarrow> ledger_file \<Rightarrow> int \<Rightarrow> (spec_error, unit) run" where
  "require_schema_version T values path expected =
     run_then
       (ok_or (SE_Missing path (ascii ''schema_version''))
          (Option.bind (toml_get T values (ascii ''schema_version'')) (as_integer T)))
       (\<lambda>found. reject_if (found \<noteq> expected) (SE_Schema_Version path expected found))"

definition table_records ::
  "'v toml \<Rightarrow> 'v \<Rightarrow> string \<Rightarrow> ledger_file \<Rightarrow> (spec_error, 'v list) run" where
  "table_records T values key path =
     ok_or (SE_No_Records path) (Option.bind (toml_get T values (ascii key)) (as_array T))"

definition read_production :: "'v toml \<Rightarrow> 'v \<Rightarrow> (spec_error, production) run" where
  "read_production T r =
     run_then (table_string T r ''name'' F_Production_Map) (\<lambda>name.
     run_then (table_string T r ''support'' F_Production_Map) (\<lambda>support.
     run_then (table_string T r ''mapping'' F_Production_Map) (\<lambda>mapping.
     run_then (table_string_array T r ''targets'' F_Production_Map) (\<lambda>targets.
     run_then (table_string_array T r ''positive_cases'' F_Production_Map) (\<lambda>positive_cases.
     run_then (table_string_array T r ''negative_cases'' F_Production_Map) (\<lambda>negative_cases.
     run_then (table_string_array T r ''deviations'' F_Production_Map) (\<lambda>deviations.
     run_then (table_string T r ''note'' F_Production_Map) (\<lambda>note.
     pass \<lparr>pn_name = name, pn_support = support, pn_mapping = mapping, pn_targets = targets,
       pn_positive = positive_cases, pn_negative = negative_cases, pn_deviations = deviations,
       pn_note = note\<rparr>))))))))"

definition read_production_map :: "'v toml \<Rightarrow> 'v \<Rightarrow> (spec_error, 'v production_map) run" where
  "read_production_map T values =
     run_then (require_schema_version T values F_Production_Map 2) (\<lambda>_.
     run_then (table_records T values ''production'' F_Production_Map) (\<lambda>records.
     run_then (map_run (read_production T) records) (\<lambda>productions.
     pass \<lparr>pm_values = values, pm_productions = productions\<rparr>)))"

definition read_witness :: "'v toml \<Rightarrow> 'v \<Rightarrow> (spec_error, witness) run" where
  "read_witness T r =
     run_then (table_string T r ''id'' F_Witnesses) (\<lambda>id.
     run_then (table_string T r ''description'' F_Witnesses) (\<lambda>description.
     run_then (table_string T r ''baseline'' F_Witnesses) (\<lambda>baseline.
     run_then (table_string T r ''entrypoint'' F_Witnesses) (\<lambda>entrypoint.
     run_then (table_string T r ''source'' F_Witnesses) (\<lambda>source.
     run_then (table_string T r ''expect'' F_Witnesses) (\<lambda>expect.
     run_then (optional_string_array T r ''tokens'' F_Witnesses) (\<lambda>tokens.
     run_then (optional_string_array T r ''diagnostics'' F_Witnesses) (\<lambda>diagnostics.
     pass \<lparr>wt_id = id, wt_description = description, wt_baseline = baseline,
       wt_entrypoint = entrypoint, wt_source = source, wt_expect = expect, wt_tokens = tokens,
       wt_diagnostics = diagnostics\<rparr>))))))))"

text \<open>
  One turn of the loops that fill a map from the records of a file: read the record, refuse an empty
  key, insert, and refuse a key that was present.
\<close>

definition insert_new ::
  "ledger_file \<Rightarrow> ('r \<Rightarrow> ustr) \<Rightarrow> 'r \<Rightarrow> (ustr, 'r) btree \<Rightarrow> (spec_error, (ustr, 'r) btree) run" where
  "insert_new path key r m =
     (if key r = [] then fail (SE_Empty_Id path)
      else if map_of m (key r) \<noteq> None then fail (SE_Duplicate_Id path)
      else pass (bt_insert (key r) r m))"

definition read_witnesses :: "'v toml \<Rightarrow> 'v \<Rightarrow> (spec_error, witness_catalog) run" where
  "read_witnesses T values =
     run_then (require_schema_version T values F_Witnesses 1) (\<lambda>_.
     run_then (table_records T values ''case'' F_Witnesses) (\<lambda>records.
     fold_run (\<lambda>r m. run_then (read_witness T r) (\<lambda>w. insert_new F_Witnesses wt_id w m))
       records []))"

definition read_deviation :: "'v toml \<Rightarrow> 'v \<Rightarrow> (spec_error, deviation) run" where
  "read_deviation T r =
     run_then (table_string T r ''id'' F_Deviations) (\<lambda>id.
     run_then (table_string T r ''status'' F_Deviations) (\<lambda>status.
     run_then (table_string_array T r ''productions'' F_Deviations) (\<lambda>productions.
     run_then (table_string T r ''positive_case'' F_Deviations) (\<lambda>positive_case.
     run_then (table_string T r ''negative_case'' F_Deviations) (\<lambda>negative_case.
     pass \<lparr>dv_id = id, dv_status = status, dv_productions = productions,
       dv_positive = positive_case, dv_negative = negative_case\<rparr>)))))"

definition read_deviations :: "'v toml \<Rightarrow> 'v \<Rightarrow> (spec_error, deviation_ledger) run" where
  "read_deviations T values =
     run_then (require_schema_version T values F_Deviations 2) (\<lambda>_.
     run_then (table_records T values ''deviation'' F_Deviations) (\<lambda>records.
     fold_run (\<lambda>r m. run_then (read_deviation T r) (\<lambda>d. insert_new F_Deviations dv_id d m))
       records []))"

text \<open>\<open>files\<close> is \<open>read_toml\<close>: the parsed value of each file, or nothing where reading it fails.\<close>

definition read_toml ::
  "(ledger_file \<Rightarrow> 'v option) \<Rightarrow> ledger_file \<Rightarrow> (spec_error, 'v) run" where
  "read_toml files path = ok_or (SE_Unreadable path) (files path)"

definition read_traceability ::
  "'v toml \<Rightarrow> (ledger_file \<Rightarrow> 'v option) \<Rightarrow> (spec_error, 'v traceability) run" where
  "read_traceability T files =
     run_then (run_then (read_toml files F_Production_Map) (read_production_map T)) (\<lambda>production_map.
     run_then (run_then (read_toml files F_Witnesses) (read_witnesses T)) (\<lambda>witnesses.
     run_then (run_then (read_toml files F_Deviations) (read_deviations T)) (\<lambda>deviations.
     pass \<lparr>tr_map = production_map, tr_witnesses = witnesses, tr_deviations = deviations\<rparr>)))"

section \<open>Keyed catalogues\<close>

text \<open>
  What the two loops keep: the map is ordered, and every entry stands under its own, non-empty key.
\<close>

definition keyed :: "('r \<Rightarrow> ustr) \<Rightarrow> (ustr, 'r) btree \<Rightarrow> bool" where
  "keyed key m = (bt_ok m \<and> (\<forall>(k, r)\<in>set m. key r = k \<and> k \<noteq> []))"

lemma keyed_Nil [simp]: "keyed key []"
  by (simp add: keyed_def)

lemma set_bt_insert: "set (bt_insert k v m) \<subseteq> insert (k, v) (set m)"
  by (induction k v m rule: bt_insert.induct) auto

lemma keyed_insert_new: "insert_new path key r m = Some (Inr m') \<Longrightarrow> keyed key m \<Longrightarrow> keyed key m'"
  using set_bt_insert [of "key r" r m]
  by (auto simp: insert_new_def keyed_def split: if_splits)

lemma keyed_value: "keyed key m \<Longrightarrow> r \<in> set (bt_values m) \<Longrightarrow> map_of m (key r) = Some r"
  by (auto simp: keyed_def bt_values_def bt_get_iff)

lemma keyed_get: "keyed key m \<Longrightarrow> map_of m k = Some r \<Longrightarrow> key r = k \<and> r \<in> set (bt_values m)"
  by (force simp: keyed_def bt_values_def dest: map_of_SomeD)

lemma readers_return [returns_intros]:
  "returns (read_production_map T values)" "returns (read_witnesses T values)"
  "returns (read_deviations T values)"
proof -
  have string: "returns (table_string T r k f)" "returns (table_records T r k f)"
      "returns (require_schema_version T r f n)" for r k f n
    by (auto simp: table_string_def table_records_def require_schema_version_def
        intro!: returns_intros)
  have array: "returns (table_string_array T r k f)" "returns (optional_string_array T r k f)" for r k f
    by (auto simp: table_string_array_def optional_string_array_def
        intro!: returns_intros split: option.splits)
  have "returns (insert_new f key r m)" for f m and key :: "'r \<Rightarrow> ustr" and r :: 'r
    by (simp add: insert_new_def)
  then show "returns (read_witnesses T values)" "returns (read_deviations T values)"
    unfolding read_witnesses_def read_witness_def read_deviations_def read_deviation_def insert_new_def
    by (intro returns_intros string array; simp)+
  show "returns (read_production_map T values)"
    unfolding read_production_map_def read_production_def
    by (intro returns_intros string array)
qed

lemma read_traceability_returns [returns_intros]: "returns (read_traceability T files)"
  unfolding read_traceability_def read_toml_def by (intro returns_intros)

lemma read_witnesses_keyed: "read_witnesses T values = Some (Inr m) \<Longrightarrow> keyed wt_id m"
  unfolding read_witnesses_def
  by (auto simp: run_then_pass keyed_insert_new elim!: fold_run_invariant [where I = "keyed wt_id"])

lemma read_deviations_keyed: "read_deviations T values = Some (Inr m) \<Longrightarrow> keyed dv_id m"
  unfolding read_deviations_def
  by (auto simp: run_then_pass keyed_insert_new elim!: fold_run_invariant [where I = "keyed dv_id"])

lemma read_traceability_keyed:
  "read_traceability T files = Some (Inr tr) \<Longrightarrow>
     keyed wt_id (tr_witnesses tr) \<and> keyed dv_id (tr_deviations tr)"
  by (auto simp: read_traceability_def run_then_pass read_witnesses_keyed read_deviations_keyed)

end
