(* ===== verification/Trace_Aliases.thy ===== *)
theory Trace_Aliases
  imports Trace_Data
begin

text \<open>
  The aliases of the production map (\<open>validate_aliases\<close> and \<open>alias_reaches_direct\<close> of
  \<open>xtask/src/spec.rs\<close>): a depth-first search with a set of open productions and a memo table, and
  its specification on the graph of aliases.
\<close>

section \<open>The search\<close>

lemma run_then_mono [partial_function_mono]:
  assumes "mono_option B" and "\<And>y. mono_option (\<lambda>f. C y f)"
  shows "mono_option (\<lambda>f. run_then (B f) (\<lambda>y. C y f))"
proof -
  have "mono_option (\<lambda>f. case r of Inl e \<Rightarrow> Some (Inl e) | Inr x \<Rightarrow> C x f)" for r :: "'c + 'd"
    using assms(2) by (cases r) (simp_all add: monotone_on_def option.leq_refl)
  with assms(1) show ?thesis unfolding run_then_def by (rule bind_mono)
qed

lemma fold_run_mono [partial_function_mono]:
  assumes "\<And>x s. mono_option (\<lambda>f. F f x s)"
  shows "mono_option (\<lambda>f. fold_run (F f) xs s)"
proof (induction xs arbitrary: s)
  case Nil
  show ?case by (simp add: monotone_on_def option.leq_refl)
next
  case (Cons x xs)
  show ?case unfolding fold_run.simps by (intro run_then_mono assms Cons.IH)
qed

definition target_name :: "ustr \<Rightarrow> ustr" where
  "target_name target = trim_start_matches s_production target"

type_synonym alias_state = "bool \<times> ustr set \<times> (ustr, bool) btree"

partial_function (option) alias_reaches_direct ::
  "ustr \<Rightarrow> (ustr, production) btree \<Rightarrow> ustr set \<Rightarrow> (ustr, bool) btree \<Rightarrow>
     (spec_error, alias_state) run" where
  "alias_reaches_direct name productions visiting resolved =
     (case map_of resolved name of
        Some result \<Rightarrow> pass (result, visiting, resolved)
      | None \<Rightarrow>
          if name \<in> visiting then fail (SE_Alias_Cycle name)
          else
            (case map_of productions name of
               None \<Rightarrow> fail (SE_Unknown_Alias name)
             | Some production \<Rightarrow>
                 run_then
                   (if pn_mapping production = s_direct then pass (True, insert name visiting, resolved)
                    else if pn_mapping production = s_none
                    then pass (False, insert name visiting, resolved)
                    else if pn_mapping production = s_alias
                    then fold_run
                      (\<lambda>target state. run_then
                         (alias_reaches_direct (target_name target) productions
                            (fst (snd state)) (snd (snd state)))
                         (\<lambda>reached. pass (fst state \<or> fst reached, snd reached)))
                      (pn_targets production) (False, insert name visiting, resolved)
                    else pass (False, insert name visiting, resolved))
                   (\<lambda>state. pass (fst state, fst (snd state) - {name},
                      bt_insert name (fst state) (snd (snd state))))))"

definition expected_support :: "ustr list \<Rightarrow> ustr" where
  "expected_support child_support =
     (if s_unassessed \<in> set child_support then s_unassessed
      else if list_all (\<lambda>status. status = s_full) child_support then s_full
      else if list_all (\<lambda>status. status = s_unsupported) child_support then s_unsupported
      else s_partial)"

text \<open>\<open>None\<close> is the panic of \<open>expect("alias target was validated")\<close>.\<close>

definition child_support :: "(ustr, production) btree \<Rightarrow> production \<Rightarrow> ustr list panics" where
  "child_support productions production =
     those (map (\<lambda>target. map_option pn_support (map_of productions (target_name target)))
       (pn_targets production))"

definition validate_alias ::
  "(ustr, production) btree \<Rightarrow> production \<Rightarrow> (ustr, bool) btree \<Rightarrow>
     (spec_error, (ustr, bool) btree) run" where
  "validate_alias productions production resolved =
     (if pn_mapping production \<noteq> s_alias then pass resolved
      else run_then (alias_reaches_direct (pn_name production) productions {} resolved)
        (\<lambda>(reached, _, resolved).
           if \<not> reached then fail (SE_Production PF_No_Endpoint (pn_name production))
           else Option.bind (child_support productions production) (\<lambda>statuses.
             if pn_support production \<noteq> expected_support statuses
             then fail (SE_Production (PF_Alias_Support (expected_support statuses))
               (pn_name production))
             else pass resolved)))"

definition validate_aliases :: "(ustr, production) btree \<Rightarrow> (spec_error, unit) run" where
  "validate_aliases productions =
     run_then (fold_run (validate_alias productions) (bt_values productions) []) (\<lambda>_. pass ())"

section \<open>The graph of aliases\<close>

definition alias_edge :: "(ustr, production) btree \<Rightarrow> ustr \<Rightarrow> ustr \<Rightarrow> bool" where
  "alias_edge P n m =
     (\<exists>p. map_of P n = Some p \<and> pn_mapping p = s_alias \<and> m \<in> target_name ` set (pn_targets p))"

definition is_direct :: "(ustr, production) btree \<Rightarrow> ustr \<Rightarrow> bool" where
  "is_direct P n = (\<exists>p. map_of P n = Some p \<and> pn_mapping p = s_direct)"

text \<open>Every chain of aliases from \<open>n\<close> stays in the map and never closes.\<close>

definition aliases_end :: "(ustr, production) btree \<Rightarrow> ustr \<Rightarrow> bool" where
  "aliases_end P n =
     (\<forall>m. (alias_edge P)\<^sup>*\<^sup>* n m \<longrightarrow> map_of P m \<noteq> None \<and> \<not> (alias_edge P)\<^sup>+\<^sup>+ m m)"

definition reaches_direct :: "(ustr, production) btree \<Rightarrow> ustr \<Rightarrow> bool" where
  "reaches_direct P n = (\<exists>m. (alias_edge P)\<^sup>*\<^sup>* n m \<and> is_direct P m)"

text \<open>The search as a derivation: what it answers when it answers at all.\<close>

inductive resolves :: "(ustr, production) btree \<Rightarrow> ustr \<Rightarrow> bool \<Rightarrow> bool" for P where
  direct: "map_of P n = Some p \<Longrightarrow> pn_mapping p = s_direct \<Longrightarrow> resolves P n True"
| other_mapping: "map_of P n = Some p \<Longrightarrow> pn_mapping p \<noteq> s_direct \<Longrightarrow> pn_mapping p \<noteq> s_alias \<Longrightarrow>
    resolves P n False"
| via: "map_of P n = Some p \<Longrightarrow> pn_mapping p = s_alias \<Longrightarrow>
    list_all2 (\<lambda>t b. resolves P (target_name t) b) (pn_targets p) bs \<Longrightarrow>
    resolves P n (True \<in> set bs)"

inductive_cases resolvesE: "resolves P n b"

lemma list_all2_unique:
  "list_all2 Q xs bs \<Longrightarrow> list_all2 R xs cs \<Longrightarrow> (\<And>x b c. x \<in> set xs \<Longrightarrow> Q x b \<Longrightarrow> R x c \<Longrightarrow> b = c) \<Longrightarrow>
     bs = cs"
  by (simp add: list_all2_conv_all_nth list_eq_iff_nth_eq) (metis nth_mem)

lemma resolves_unique: "resolves P n b \<Longrightarrow> resolves P n c \<Longrightarrow> b = c"
proof (induction arbitrary: c rule: resolves.induct)
  case (via n p bs)
  from via.prems via.hyps(1,2) obtain cs where
    cs: "list_all2 (\<lambda>t b. resolves P (target_name t) b) (pn_targets p) cs" "c = (True \<in> set cs)"
    by (auto elim: resolvesE)
  have "bs = cs"
    using via.IH cs(1) by (rule list_all2_unique) blast
  with cs(2) show ?case by simp
qed (auto elim: resolvesE)

lemma resolves_edge: "resolves P n b \<Longrightarrow> alias_edge P n m \<Longrightarrow> \<exists>c. resolves P m c"
proof -
  assume r: "resolves P n b" and "alias_edge P n m"
  then obtain p t where p: "map_of P n = Some p" "pn_mapping p = s_alias"
      "t \<in> set (pn_targets p)" "m = target_name t"
    by (auto simp: alias_edge_def)
  from r p(1,2) obtain bs where
    "list_all2 (\<lambda>t b. resolves P (target_name t) b) (pn_targets p) bs"
    by (auto elim: resolvesE)
  with p(3,4) show ?thesis by (auto simp: list_all2_conv_all_nth in_set_conv_nth)
qed

lemma resolves_reachable: "(alias_edge P)\<^sup>*\<^sup>* n m \<Longrightarrow> resolves P n b \<Longrightarrow> \<exists>c. resolves P m c"
  by (induction rule: rtranclp_induct) (auto dest: resolves_edge)

lemma resolves_acyclic: "resolves P n b \<Longrightarrow> \<not> (alias_edge P)\<^sup>+\<^sup>+ n n"
proof (induction rule: resolves.induct)
  case (via n p bs)
  show ?case
  proof
    assume "(alias_edge P)\<^sup>+\<^sup>+ n n"
    then obtain m where e: "alias_edge P n m" and cycle: "(alias_edge P)\<^sup>*\<^sup>* m n"
      by (meson tranclpD)
    from e via.hyps obtain t where t: "t \<in> set (pn_targets p)" "m = target_name t"
      by (auto simp: alias_edge_def)
    with via.IH have "\<not> (alias_edge P)\<^sup>+\<^sup>+ m m"
      by (auto simp: list_all2_conv_all_nth in_set_conv_nth)
    moreover from cycle e have "(alias_edge P)\<^sup>+\<^sup>+ m m" by (rule rtranclp_into_tranclp1)
    ultimately show False by contradiction
  qed
qed (auto simp: alias_edge_def dest: tranclpD)

lemma resolves_reaches: "resolves P n b \<Longrightarrow> b \<longleftrightarrow> reaches_direct P n"
proof (induction rule: resolves.induct)
  case (direct n p)
  then show ?case by (auto simp: reaches_direct_def is_direct_def)
next
  case (other_mapping n p)
  have "m = n" if "(alias_edge P)\<^sup>*\<^sup>* n m" for m
    using that other_mapping by (auto simp: alias_edge_def elim: converse_rtranclpE)
  with other_mapping have "\<not> reaches_direct P n"
    unfolding reaches_direct_def is_direct_def by (metis option.inject)
  then show ?case by simp
next
  case (via n p bs)
  have "reaches_direct P n \<longleftrightarrow> (\<exists>t\<in>set (pn_targets p). reaches_direct P (target_name t))"
  proof
    assume "reaches_direct P n"
    then obtain m where m: "(alias_edge P)\<^sup>*\<^sup>* n m" "is_direct P m"
      by (auto simp: reaches_direct_def)
    have "\<not> is_direct P n" using via.hyps by (simp add: is_direct_def)
    with m have "n \<noteq> m" by auto
    with m(1) obtain k where "alias_edge P n k" "(alias_edge P)\<^sup>*\<^sup>* k m"
      by (auto elim: converse_rtranclpE)
    with m(2) via.hyps show "\<exists>t\<in>set (pn_targets p). reaches_direct P (target_name t)"
      by (auto simp: alias_edge_def reaches_direct_def)
  next
    assume "\<exists>t\<in>set (pn_targets p). reaches_direct P (target_name t)"
    then obtain t m where "t \<in> set (pn_targets p)" "(alias_edge P)\<^sup>*\<^sup>* (target_name t) m" "is_direct P m"
      by (auto simp: reaches_direct_def)
    moreover from this(1) via.hyps have "alias_edge P n (target_name t)"
      by (auto simp: alias_edge_def)
    ultimately show "reaches_direct P n"
      unfolding reaches_direct_def by (meson converse_rtranclp_into_rtranclp)
  qed
  also have "\<dots> \<longleftrightarrow> True \<in> set bs"
  proof -
    have "list_all2 (\<lambda>t b. b = reaches_direct P (target_name t)) (pn_targets p) bs"
      using via.IH by (rule list_all2_mono) simp
    then have "bs = map (\<lambda>t. reaches_direct P (target_name t)) (pn_targets p)"
      by (simp add: list_all2_conv_all_nth list_eq_iff_nth_eq)
    then show ?thesis by auto
  qed
  finally show ?case by simp
qed

text \<open>A production resolves exactly when the chains of aliases from it end.\<close>

lemma resolves_step:
  assumes "map_of P n = Some p" and "\<And>m. alias_edge P n m \<Longrightarrow> \<exists>b. resolves P m b"
  shows "\<exists>b. resolves P n b"
proof (cases "pn_mapping p = s_alias")
  case True
  have "\<forall>t\<in>set (pn_targets p). \<exists>b. resolves P (target_name t) b"
    using assms True by (auto simp: alias_edge_def)
  then obtain f where "\<forall>t\<in>set (pn_targets p). resolves P (target_name t) (f t)" by metis
  then have "list_all2 (\<lambda>t b. resolves P (target_name t) b) (pn_targets p) (map f (pn_targets p))"
    by (auto simp: list_all2_conv_all_nth)
  with assms(1) True show ?thesis by (blast intro: resolves.via)
next
  case False
  with assms(1) show ?thesis by (cases "pn_mapping p = s_direct") (auto intro: resolves.intros)
qed

lemma resolves_iff_end: "(\<exists>b. resolves P n b) \<longleftrightarrow> aliases_end P n"
proof
  assume "\<exists>b. resolves P n b"
  then obtain b where "resolves P n b" ..
  then show "aliases_end P n"
    unfolding aliases_end_def
    by (metis resolves_reachable resolves_acyclic resolvesE option.distinct(1))
next
  assume e: "aliases_end P n"
  define r where "r = {(m', m). (alias_edge P)\<^sup>*\<^sup>* n m \<and> alias_edge P m m'}"
  have "r \<subseteq> (\<Union>p\<in>ran (map_of P). target_name ` set (pn_targets p)) \<times> dom (map_of P)"
    by (auto simp: r_def alias_edge_def ran_def)
  moreover have "finite (ran (map_of P))" by (intro finite_ran finite_dom_map_of)
  ultimately have "finite r"
    by (auto intro: finite_subset simp: finite_dom_map_of)
  moreover have "acyclic r"
  proof (rule acyclicI, rule allI, rule notI)
    fix m assume m: "(m, m) \<in> r\<^sup>+"
    have step: "(alias_edge P)\<^sup>*\<^sup>* n b" "alias_edge P b a" if "(a, b) \<in> r" for a b
      using that by (simp_all add: r_def)
    have sub: "(alias_edge P)\<^sup>*\<^sup>* n b \<and> (alias_edge P)\<^sup>+\<^sup>+ b a" if "(a, b) \<in> r\<^sup>+" for a b
      using that
    proof (induction rule: trancl_induct)
      case (base b)
      with step show ?case by blast
    next
      case (step b c)
      with \<open>\<And>a b. (a, b) \<in> r \<Longrightarrow> alias_edge P b a\<close> \<open>\<And>a b. (a, b) \<in> r \<Longrightarrow> (alias_edge P)\<^sup>*\<^sup>* n b\<close>
      show ?case by (blast intro: tranclp_into_tranclp2)
    qed
    from sub [OF m] e show False by (auto simp: aliases_end_def)
  qed
  ultimately have wf: "wf r" by (rule finite_acyclic_wf)
  have "(alias_edge P)\<^sup>*\<^sup>* n m \<longrightarrow> (\<exists>b. resolves P m b)" for m
  proof (induction m rule: wf_induct_rule [OF wf])
    case (1 m)
    show ?case
    proof
      assume m: "(alias_edge P)\<^sup>*\<^sup>* n m"
      with e obtain p where "map_of P m = Some p" by (auto simp: aliases_end_def)
      moreover have "\<exists>b. resolves P k b" if "alias_edge P m k" for k
        using "1" that m rtranclp.rtrancl_into_rtrancl [OF m that] by (auto simp: r_def)
      ultimately show "\<exists>b. resolves P m b" by (rule resolves_step)
    qed
  qed
  then show "\<exists>b. resolves P n b" by blast
qed

section \<open>The search meets its specification\<close>

definition memo_sound :: "(ustr, production) btree \<Rightarrow> (ustr, bool) btree \<Rightarrow> bool" where
  "memo_sound P R = (\<forall>n b. map_of R n = Some b \<longrightarrow> resolves P n b)"

text \<open>
  What one call does: it never panics; a result is that of the derivation, the set of open
  productions is restored and the memo table stays sound; and it does return a result when there is
  a derivation and every open production leads to this one.
\<close>

definition search_ok ::
  "(ustr, production) btree \<Rightarrow> ustr \<Rightarrow> ustr set \<Rightarrow> (spec_error, alias_state) run \<Rightarrow> bool" where
  "search_ok P n V r =
     (r \<noteq> None \<and>
      (\<forall>b V' R'. r = Some (Inr (b, V', R')) \<longrightarrow> resolves P n b \<and> V' = V \<and> memo_sound P R') \<and>
      ((\<exists>b. resolves P n b) \<and> (\<forall>v\<in>V. (alias_edge P)\<^sup>+\<^sup>+ v n) \<longrightarrow> (\<exists>x. r = Some (Inr x))))"

lemma memo_sound_insert: "memo_sound P R \<Longrightarrow> resolves P n b \<Longrightarrow> memo_sound P (bt_insert n b R)"
  by (simp add: memo_sound_def)

text \<open>The loop over the targets of an alias.\<close>

definition targets_ok ::
  "(ustr, production) btree \<Rightarrow> ustr list \<Rightarrow> bool \<Rightarrow> ustr set \<Rightarrow> (spec_error, alias_state) run \<Rightarrow> bool" where
  "targets_ok P ts any V r =
     (r \<noteq> None \<and>
      (\<forall>b V' R'. r = Some (Inr (b, V', R')) \<longrightarrow>
        (\<exists>bs. list_all2 (\<lambda>t b. resolves P (target_name t) b) ts bs \<and> b = (any \<or> True \<in> set bs)) \<and>
        V' = V \<and> memo_sound P R') \<and>
      ((\<forall>t\<in>set ts. \<exists>b. resolves P (target_name t) b) \<and>
       (\<forall>t\<in>set ts. \<forall>v\<in>V. (alias_edge P)\<^sup>+\<^sup>+ v (target_name t)) \<longrightarrow> (\<exists>x. r = Some (Inr x))))"

lemma targets_ok_Cons:
  assumes b: "resolves P (target_name t) b" and ok: "targets_ok P ts (any \<or> b) V r"
  shows "targets_ok P (t # ts) any V r"
  unfolding targets_ok_def
proof (intro conjI allI impI)
  show "r \<noteq> None" using ok by (simp add: targets_ok_def)
next
  fix c V' R' assume r: "r = Some (Inr (c, V', R'))"
  with ok obtain bs where bs: "list_all2 (\<lambda>t b. resolves P (target_name t) b) ts bs"
      "c = ((any \<or> b) \<or> True \<in> set bs)"
    by (auto simp: targets_ok_def)
  have "list_all2 (\<lambda>t b. resolves P (target_name t) b) (t # ts) (b # bs)" using b bs(1) by simp
  moreover have "c = (any \<or> True \<in> set (b # bs))" using bs(2) by auto
  ultimately show "\<exists>bs. list_all2 (\<lambda>t b. resolves P (target_name t) b) (t # ts) bs \<and>
      c = (any \<or> True \<in> set bs)" by blast
  show "V' = V" "memo_sound P R'" using ok r by (simp_all add: targets_ok_def)
next
  assume "(\<forall>t\<in>set (t # ts). \<exists>b. resolves P (target_name t) b) \<and>
    (\<forall>t\<in>set (t # ts). \<forall>v\<in>V. (alias_edge P)\<^sup>+\<^sup>+ v (target_name t))"
  with ok show "\<exists>x. r = Some (Inr x)" by (simp add: targets_ok_def)
qed

lemma targets_loop:
  assumes "\<And>t R. t \<in> set ts \<Longrightarrow> memo_sound P R \<Longrightarrow> search_ok P (target_name t) V (search (target_name t) V R)"
    and "memo_sound P R"
  shows "targets_ok P ts any V
    (fold_run (\<lambda>t state. run_then (search (target_name t) (fst (snd state)) (snd (snd state)))
       (\<lambda>reached. pass (fst state \<or> fst reached, snd reached))) ts (any, V, R))"
  using assms
proof (induction ts arbitrary: any R)
  case Nil
  then show ?case by (simp add: targets_ok_def)
next
  case (Cons t ts)
  have ok: "search_ok P (target_name t) V (search (target_name t) V R)"
    using Cons.prems by simp
  show ?case
  proof (cases "search (target_name t) V R")
    case None
    with ok show ?thesis by (simp add: search_ok_def)
  next
    case (Some r)
    show ?thesis
    proof (cases r)
      case (Inl e)
      with Some ok show ?thesis by (simp add: targets_ok_def search_ok_def) blast
    next
      case (Inr x)
      obtain b V' R' where x: "x = (b, V', R')" by (cases x)
      with Some Inr ok have b: "resolves P (target_name t) b" "V' = V" "memo_sound P R'"
        by (auto simp: search_ok_def)
      have "targets_ok P ts (any \<or> b) V
        (fold_run (\<lambda>t state. run_then (search (target_name t) (fst (snd state)) (snd (snd state)))
           (\<lambda>reached. pass (fst state \<or> fst reached, snd reached))) ts (any \<or> b, V, R'))"
        using Cons.prems b(3) by (intro Cons.IH) auto
      with b(1) have "targets_ok P (t # ts) any V
        (fold_run (\<lambda>t state. run_then (search (target_name t) (fst (snd state)) (snd (snd state)))
           (\<lambda>reached. pass (fst state \<or> fst reached, snd reached))) ts (any \<or> b, V, R'))"
        by (rule targets_ok_Cons)
      then show ?thesis using Some Inr x b(2) by simp
    qed
  qed
qed

lemma search_correct:
  "memo_sound P R \<Longrightarrow> search_ok P n V (alias_reaches_direct n P V R)"
proof (induction "card (dom (map_of P) - V)" arbitrary: n V R rule: less_induct)
  case less
  note unfold = alias_reaches_direct.simps [of n P V R]
  show ?case
  proof (cases "map_of R n")
    case (Some b)
    with less.prems show ?thesis
      by (auto simp: unfold search_ok_def memo_sound_def)
  next
    case unknown: None
    show ?thesis
    proof (cases "n \<in> V")
      case True
      then have "\<not> ((\<exists>b. resolves P n b) \<and> (\<forall>v\<in>V. (alias_edge P)\<^sup>+\<^sup>+ v n))"
        using resolves_acyclic by blast
      with True unknown show ?thesis by (simp add: unfold search_ok_def)
    next
      case fresh: False
      show ?thesis
      proof (cases "map_of P n")
        case None
        then have "\<not> (\<exists>b. resolves P n b)" by (auto elim: resolvesE)
        with None fresh unknown show ?thesis by (simp add: unfold search_ok_def)
      next
        case (Some p)
        show ?thesis
        proof (cases "pn_mapping p = s_alias")
          case False
          with Some fresh unknown less.prems show ?thesis
            by (auto simp: unfold search_ok_def intro!: memo_sound_insert intro: resolves.intros)
        next
          case True
          have "card (dom (map_of P) - insert n V) < card (dom (map_of P) - V)"
            using Some fresh by (intro psubset_card_mono) (auto simp: finite_dom_map_of)
          then have loop: "targets_ok P (pn_targets p) False (insert n V)
            (fold_run (\<lambda>t state. run_then
                (alias_reaches_direct (target_name t) P (fst (snd state)) (snd (snd state)))
              (\<lambda>reached. pass (fst state \<or> fst reached, snd reached))) (pn_targets p)
              (False, insert n V, R))" (is "targets_ok P _ _ _ ?loop")
            using less.hyps less.prems
            by (intro targets_loop [where search = "\<lambda>n V R. alias_reaches_direct n P V R"]) auto
          have unfolded: "alias_reaches_direct n P V R =
            run_then ?loop (\<lambda>state. pass (fst state, fst (snd state) - {n},
                      bt_insert n (fst state) (snd (snd state))))"
            using Some True fresh unknown by (simp add: unfold)
          have edges: "alias_edge P n (target_name t)" if "t \<in> set (pn_targets p)" for t
            using Some True that by (auto simp: alias_edge_def)
          show ?thesis
          proof (cases ?loop)
            case None
            with loop show ?thesis by (simp add: targets_ok_def)
          next
            case result: (Some r)
            show ?thesis
            proof (cases r)
              case (Inl e)
              have "\<not> ((\<exists>b. resolves P n b) \<and> (\<forall>v\<in>V. (alias_edge P)\<^sup>+\<^sup>+ v n))"
              proof
                assume a: "(\<exists>b. resolves P n b) \<and> (\<forall>v\<in>V. (alias_edge P)\<^sup>+\<^sup>+ v n)"
                then have "\<forall>t\<in>set (pn_targets p). \<exists>b. resolves P (target_name t) b"
                  using edges resolves_edge by blast
                moreover have "\<forall>t\<in>set (pn_targets p). \<forall>v\<in>insert n V.
                    (alias_edge P)\<^sup>+\<^sup>+ v (target_name t)"
                  using a edges by (auto intro: tranclp.trancl_into_trancl)
                ultimately show False using loop result Inl by (auto simp: targets_ok_def)
              qed
              with result Inl show ?thesis by (simp add: unfolded search_ok_def)
            next
              case (Inr x)
              obtain b V' R' where x: "x = (b, V', R')" by (cases x)
              with loop result Inr obtain bs where
                "list_all2 (\<lambda>t b. resolves P (target_name t) b) (pn_targets p) bs"
                "b = (True \<in> set bs)" "V' = insert n V" "memo_sound P R'"
                by (auto simp: targets_ok_def)
              moreover from this Some True have "resolves P n b" by (auto intro: resolves.via)
              ultimately show ?thesis
                using result Inr x fresh by (simp add: unfolded search_ok_def memo_sound_insert)
            qed
          qed
        qed
      qed
    qed
  qed
qed

section \<open>The check of all aliases\<close>

text \<open>\<open>by_name\<close>, as \<open>validate_traceability\<close> builds it: every production under its own name.\<close>

definition by_name_ok :: "(ustr, production) btree \<Rightarrow> bool" where
  "by_name_ok P = list_all (\<lambda>p. map_of P (pn_name p) = Some p) (bt_values P)"

lemma search_top:
  assumes "memo_sound P R"
  shows "alias_reaches_direct n P {} R \<noteq> None"
    and "alias_reaches_direct n P {} R = Some (Inr (b, V, R')) \<Longrightarrow>
      resolves P n b \<and> V = {} \<and> memo_sound P R'"
    and "resolves P n b \<Longrightarrow> \<exists>R'. alias_reaches_direct n P {} R = Some (Inr (b, {}, R'))"
proof -
  have ok: "search_ok P n {} (alias_reaches_direct n P {} R)" using assms by (rule search_correct)
  then show "alias_reaches_direct n P {} R \<noteq> None" by (simp add: search_ok_def)
  show res: "resolves P n b \<and> V = {} \<and> memo_sound P R'"
    if "alias_reaches_direct n P {} R = Some (Inr (b, V, R'))" for b V R'
    using ok that by (auto simp: search_ok_def)
  show "\<exists>R'. alias_reaches_direct n P {} R = Some (Inr (b, {}, R'))" if r: "resolves P n b"
  proof -
    from ok r obtain x where x: "alias_reaches_direct n P {} R = Some (Inr x)"
      by (auto simp: search_ok_def)
    moreover obtain c V R' where "x = (c, V, R')" by (cases x)
    moreover from this x have "resolves P n c" "V = {}" using res by simp_all
    ultimately show ?thesis using resolves_unique [OF r] by auto
  qed
qed

lemma child_support_Some:
  assumes "map_of P (pn_name p) = Some p" and "pn_mapping p = s_alias" and "resolves P (pn_name p) b"
  shows "\<exists>statuses. child_support P p = Some statuses"
proof -
  have "\<exists>q. map_of P (target_name t) = Some q" if "t \<in> set (pn_targets p)" for t
  proof -
    have "alias_edge P (pn_name p) (target_name t)"
      using assms(1,2) that by (auto simp: alias_edge_def)
    from resolves_edge [OF assms(3) this] show ?thesis by (auto elim: resolvesE)
  qed
  then have "\<forall>t\<in>set ts. \<exists>q. map_of P (target_name t) = Some q \<Longrightarrow>
      \<exists>ss. those (map (\<lambda>t. map_option pn_support (map_of P (target_name t))) ts) = Some ss" for ts
    by (induction ts) auto
  then show ?thesis
    unfolding child_support_def
    using \<open>\<And>t. t \<in> set (pn_targets p) \<Longrightarrow> \<exists>q. map_of P (target_name t) = Some q\<close> by blast
qed

definition alias_ok :: "(ustr, production) btree \<Rightarrow> production \<Rightarrow> bool" where
  "alias_ok P p =
     (aliases_end P (pn_name p) \<and> reaches_direct P (pn_name p) \<and>
      is_some_and (child_support P p) (\<lambda>statuses. pn_support p = expected_support statuses))"

lemma alias_ok_iff:
  "alias_ok P p \<longleftrightarrow> resolves P (pn_name p) True \<and>
     is_some_and (child_support P p) (\<lambda>statuses. pn_support p = expected_support statuses)"
proof -
  have "aliases_end P (pn_name p) \<and> reaches_direct P (pn_name p) \<longleftrightarrow> resolves P (pn_name p) True"
    using resolves_iff_end [of P "pn_name p"] resolves_reaches [of P "pn_name p"] by metis
  then show ?thesis by (auto simp: alias_ok_def)
qed

lemma validate_alias_step:
  assumes "memo_sound P R" and p: "map_of P (pn_name p) = Some p"
  shows "validate_alias P p R \<noteq> None"
    and "validate_alias P p R = Some (Inr R') \<Longrightarrow>
      memo_sound P R' \<and> (pn_mapping p = s_alias \<longrightarrow> alias_ok P p)"
    and "pn_mapping p \<noteq> s_alias \<or> alias_ok P p \<Longrightarrow> \<exists>R'. validate_alias P p R = Some (Inr R')"
proof -
  note top = search_top [OF assms(1), of "pn_name p"]
  have support: "\<exists>ss. child_support P p = Some ss"
    if "resolves P (pn_name p) b" "pn_mapping p = s_alias" for b
    using child_support_Some [OF p that(2,1)] .
  show "validate_alias P p R \<noteq> None"
  proof (cases "alias_reaches_direct (pn_name p) P {} R")
    case None
    with top(1) show ?thesis by simp
  next
    case (Some r)
    show ?thesis
    proof (cases r)
      case (Inr x)
      obtain b V R' where "x = (b, V, R')" by (cases x)
      with Some Inr top(2) support show ?thesis
        by (cases "pn_mapping p = s_alias") (fastforce simp: validate_alias_def)+
    qed (simp add: validate_alias_def Some)
  qed
  show "memo_sound P R' \<and> (pn_mapping p = s_alias \<longrightarrow> alias_ok P p)"
    if "validate_alias P p R = Some (Inr R')"
    using that top(2) assms(1)
    by (auto simp: validate_alias_def run_then_pass alias_ok_iff bind_eq_Some_conv
        split: if_splits)
  show "\<exists>R'. validate_alias P p R = Some (Inr R')" if "pn_mapping p \<noteq> s_alias \<or> alias_ok P p"
  proof (cases "pn_mapping p = s_alias")
    case True
    with that have "resolves P (pn_name p) True"
      "is_some_and (child_support P p) (\<lambda>statuses. pn_support p = expected_support statuses)"
      by (simp_all add: alias_ok_iff)
    moreover from this top(3) obtain R' where
      "alias_reaches_direct (pn_name p) P {} R = Some (Inr (True, {}, R'))" by blast
    ultimately show ?thesis by (auto simp: validate_alias_def is_some_and_iff)
  qed (simp add: validate_alias_def)
qed

lemma validate_alias_loop:
  assumes "memo_sound P R" and "\<forall>p\<in>set ps. map_of P (pn_name p) = Some p"
  shows "fold_run (validate_alias P) ps R \<noteq> None"
    and "(\<exists>R'. fold_run (validate_alias P) ps R = Some (Inr R')) \<longleftrightarrow>
      (\<forall>p\<in>set ps. pn_mapping p = s_alias \<longrightarrow> alias_ok P p)"
  using assms
proof (induction ps arbitrary: R)
  case (Cons p ps)
  {
    case 1
    then show ?case
      using validate_alias_step [of P R p] Cons.IH(1) by (auto simp: run_then_panic)
  next
    case 2
    note step = validate_alias_step [of P R p]
    show ?case
    proof
      assume "\<exists>R'. fold_run (validate_alias P) (p # ps) R = Some (Inr R')"
      then obtain R1 R' where "validate_alias P p R = Some (Inr R1)"
          "fold_run (validate_alias P) ps R1 = Some (Inr R')"
        by (auto simp: run_then_pass)
      with step(2) Cons.IH(2) [of R1] 2
      show "\<forall>p\<in>set (p # ps). pn_mapping p = s_alias \<longrightarrow> alias_ok P p" by auto
    next
      assume all: "\<forall>p\<in>set (p # ps). pn_mapping p = s_alias \<longrightarrow> alias_ok P p"
      with step(3) 2 obtain R1 where R1: "validate_alias P p R = Some (Inr R1)" by auto
      with step(2) 2 have "memo_sound P R1" by auto
      with Cons.IH(2) [of R1] all 2 obtain R' where
        "fold_run (validate_alias P) ps R1 = Some (Inr R')" by auto
      with R1 show "\<exists>R'. fold_run (validate_alias P) (p # ps) R = Some (Inr R')" by simp
    qed
  }
qed simp_all

lemma validate_aliases_returns: "by_name_ok P \<Longrightarrow> validate_aliases P \<noteq> None"
  using validate_alias_loop(1) [of P "[]" "bt_values P"]
  by (auto simp: validate_aliases_def run_then_panic memo_sound_def by_name_ok_def list_all_iff)

lemma validate_aliases_pass:
  "by_name_ok P \<Longrightarrow> validate_aliases P = Some (Inr ()) \<longleftrightarrow>
     (\<forall>p\<in>set (bt_values P). pn_mapping p = s_alias \<longrightarrow> alias_ok P p)"
  using validate_alias_loop(2) [of P "[]" "bt_values P"]
  by (simp add: validate_aliases_def run_then_pass memo_sound_def by_name_ok_def list_all_iff)

text \<open>
  C22: the check of the aliases never panics, and it succeeds exactly when, for every production that
  is an alias, the chains of aliases from it stay in the map and never close, some chain ends in a
  directly implemented production, and the declared support is the one its targets determine. So the
  memo table and the set of open productions of the search lose and invent nothing.
\<close>

theorem validate_aliases_iff:
  assumes "by_name_ok P"
  shows "validate_aliases P \<noteq> None \<and>
    (validate_aliases P = Some (Inr ()) \<longleftrightarrow>
      (\<forall>p\<in>set (bt_values P). pn_mapping p = s_alias \<longrightarrow>
         aliases_end P (pn_name p) \<and> reaches_direct P (pn_name p) \<and>
         is_some_and (child_support P p) (\<lambda>statuses. pn_support p = expected_support statuses)))"
  using validate_aliases_returns [OF assms] validate_aliases_pass [OF assms]
  by (simp add: alias_ok_def)

text \<open>A map with a direct production \<open>b\<close>, its alias \<open>a\<close> and, added, an alias of itself \<open>c\<close>.\<close>

definition sample_production :: "string \<Rightarrow> ustr \<Rightarrow> string list \<Rightarrow> production" where
  "sample_production name mapping targets =
     \<lparr>pn_name = ascii name, pn_support = s_full, pn_mapping = mapping,
      pn_targets = map ascii targets, pn_positive = [], pn_negative = [], pn_deviations = [],
      pn_note = []\<rparr>"

definition sample_aliases :: "(ustr, production) btree" where
  "sample_aliases =
     [(ascii ''a'', sample_production ''a'' s_alias [''production:b'']),
      (ascii ''b'', sample_production ''b'' s_direct [''rust:parser::parse''])]"

definition closed_aliases :: "(ustr, production) btree" where
  "closed_aliases = sample_aliases @ [(ascii ''c'', sample_production ''c'' s_alias [''production:c''])]"

lemma sample_targets:
  "target_name (ascii ''production:b'') = ascii ''b''" "target_name (ascii ''production:c'') = ascii ''c''"
  by (simp_all add: target_name_def s_production_def trim_start_matches.simps)

lemma validate_aliases_iff_witness:
  "by_name_ok sample_aliases \<and> validate_aliases sample_aliases = Some (Inr ()) \<and>
   by_name_ok closed_aliases \<and> validate_aliases closed_aliases \<noteq> Some (Inr ())"
proof (intro conjI)
  note defs = sample_aliases_def closed_aliases_def sample_production_def by_name_ok_def bt_values_def
  show ok: "by_name_ok sample_aliases" "by_name_ok closed_aliases" by (simp_all add: defs)
  have b: "resolves sample_aliases (ascii ''b'') True"
    by (rule resolves.direct [where p = "sample_production ''b'' s_direct [''rust:parser::parse'']"])
       (simp_all add: defs)
  have "map_of sample_aliases (ascii ''a'') = Some (sample_production ''a'' s_alias [''production:b''])"
    by (simp add: sample_aliases_def)
  then have "resolves sample_aliases (ascii ''a'') (True \<in> set [True])"
    by (rule resolves.via)
       (simp_all add: sample_production_def sample_targets b del: ascii_simps)
  then have "resolves sample_aliases (ascii ''a'') True" by simp
  then have "aliases_end sample_aliases (ascii ''a'') \<and> reaches_direct sample_aliases (ascii ''a'')"
    using resolves_iff_end resolves_reaches by blast
  moreover have "child_support sample_aliases (sample_production ''a'' s_alias [''production:b'']) =
      Some [s_full]"
    by (simp add: child_support_def defs sample_targets del: ascii_simps)
  ultimately show "validate_aliases sample_aliases = Some (Inr ())"
    using validate_aliases_iff [OF ok(1)]
    by (simp add: bt_values_def sample_aliases_def sample_production_def expected_support_def
        del: ascii_simps)
  have "alias_edge closed_aliases (ascii ''c'') (ascii ''c'')"
    by (simp add: alias_edge_def defs sample_targets del: ascii_simps) simp
  then have "\<not> aliases_end closed_aliases (ascii ''c'')"
    unfolding aliases_end_def by blast
  then show "validate_aliases closed_aliases \<noteq> Some (Inr ())"
    using validate_aliases_iff [OF ok(2)] by (simp add: defs)
qed

end
