(* ===== verification/Trace_Sources.thy ===== *)
theory Trace_Sources
  imports Trace_Data
begin

text \<open>
  What the traceability check reads from the sources and from the evidence files of the deviations:
  the names that the grammar, the lexer, the parser and the tokens declare, the fragments of a
  document, and the paths that may be opened (\<open>xtask/src/spec.rs\<close>). The file system is a parameter,
  and so are the Unicode tables behind \<open>char::to_lowercase\<close> and \<open>char::is_alphanumeric\<close>.
\<close>

section \<open>Declared names\<close>

record source_symbols =
  sy_lalrpop :: "ustr set"
  sy_raw_tokens :: "ustr set"
  sy_token_kinds :: "ustr set"
  sy_keywords :: "ustr set"
  sy_parser_functions :: "ustr set"
  sy_lexer_functions :: "ustr set"

definition lalrpop_rule :: "ustr \<Rightarrow> ustr option" where
  "lalrpop_rule line =
     (if line \<noteq> [] \<and> char_is_whitespace (hd line) then None
      else
        let stripped = (case strip_prefix (ascii ''pub '') line of Some rest \<Rightarrow> rest | None \<Rightarrow> line)
        in (case split_once (ascii '':'') stripped of
              None \<Rightarrow> None
            | Some (candidate, _) \<Rightarrow>
                if candidate \<noteq> [] \<and> list_all is_word_char (as_bytes candidate)
                then Some candidate else None))"

definition lalrpop_rules :: "ustr \<Rightarrow> ustr set" where
  "lalrpop_rules source = set (List.map_filter lalrpop_rule (str_lines source))"

text \<open>\<open>Option::or_else\<close>.\<close>

definition or_else :: "'a option \<Rightarrow> 'a option \<Rightarrow> 'a option" where
  "or_else a b = (case a of Some x \<Rightarrow> Some x | None \<Rightarrow> b)"

definition leading_name :: "ustr \<Rightarrow> ustr option" where
  "leading_name rest = (let name = takeWhile is_word_char rest in if name \<noteq> [] then Some name else None)"

definition rust_function :: "ustr \<Rightarrow> ustr option" where
  "rust_function line =
     Option.bind
       (or_else (strip_prefix (ascii ''pub(crate) fn '') (trim_start line))
         (or_else (strip_prefix (ascii ''pub fn '') (trim_start line))
           (strip_prefix (ascii ''fn '') (trim_start line))))
       leading_name"

definition rust_functions :: "ustr \<Rightarrow> ustr set" where
  "rust_functions source = set (List.map_filter rust_function (str_lines source))"

fun enum_scan :: "ustr list \<Rightarrow> bool \<Rightarrow> ustr list \<Rightarrow> ustr set" where
  "enum_scan declarations inside [] = {}"
| "enum_scan declarations False (l # ls) =
     enum_scan declarations (list_ex (\<lambda>d. trim l = d) declarations) ls"
| "enum_scan declarations True (l # ls) =
     (let line = trim l in
      if line = ascii ''}'' then {}
      else if line = [] \<or> starts_with (ascii ''///'') line \<or> starts_with (ascii ''#['') line
      then enum_scan declarations True ls
      else (case leading_name line of
              Some name \<Rightarrow> insert name (enum_scan declarations True ls)
            | None \<Rightarrow> enum_scan declarations True ls))"

definition enum_variants :: "ustr \<Rightarrow> ustr \<Rightarrow> ustr set" where
  "enum_variants source enum_name =
     enum_scan
       [ascii ''enum '' @ enum_name @ ascii '' {'', ascii ''pub enum '' @ enum_name @ ascii '' {'']
       False (str_lines source)"

text \<open>\<open>source\<close> is \<open>fs::read_to_string\<close> below the repository root.\<close>

definition read_source :: "(ustr \<Rightarrow> ustr option) \<Rightarrow> string \<Rightarrow> (spec_error, ustr) run" where
  "read_source source path = ok_or (SE_Source (ascii path)) (source (ascii path))"

definition read_symbols :: "(ustr \<Rightarrow> ustr option) \<Rightarrow> (spec_error, source_symbols) run" where
  "read_symbols source =
     run_then (read_source source ''grammar/cypher.lalrpop'') (\<lambda>grammar.
     run_then (read_source source ''src/lexer.rs'') (\<lambda>lexer.
     run_then (read_source source ''src/parser.rs'') (\<lambda>parser.
     run_then (read_source source ''src/token.rs'') (\<lambda>tokens.
     pass \<lparr>sy_lalrpop = lalrpop_rules grammar,
       sy_raw_tokens = enum_variants lexer (ascii ''RawToken''),
       sy_token_kinds = enum_variants tokens (ascii ''TokenKind''),
       sy_keywords = enum_variants tokens (ascii ''Keyword''),
       sy_parser_functions = rust_functions parser,
       sy_lexer_functions = rust_functions lexer\<rparr>))))"

text \<open>The chain of \<open>else if let Some(symbol) = target.strip_prefix(..)\<close>.\<close>

definition target_spaces :: "source_symbols \<Rightarrow> (ustr \<times> ustr set) list" where
  "target_spaces symbols =
     [(ascii ''lalrpop:'', sy_lalrpop symbols),
      (ascii ''logos:RawToken::'', sy_raw_tokens symbols),
      (ascii ''token:TokenKind::'', sy_token_kinds symbols),
      (ascii ''token:Keyword::'', sy_keywords symbols),
      (ascii ''rust:parser::'', sy_parser_functions symbols),
      (ascii ''rust:lexer::'', sy_lexer_functions symbols)]"

fun target_exists :: "(ustr \<times> ustr set) list \<Rightarrow> ustr \<Rightarrow> bool option" where
  "target_exists [] target = None"
| "target_exists ((prefix, names) # spaces) target =
     (case strip_prefix prefix target of
        Some symbol \<Rightarrow> Some (symbol \<in> names)
      | None \<Rightarrow> target_exists spaces target)"

definition validate_target :: "source_symbols \<Rightarrow> ustr \<Rightarrow> (spec_error, unit) run" where
  "validate_target symbols target =
     run_then (ok_or (SE_Target_Namespace target) (target_exists (target_spaces symbols) target))
       (\<lambda>found. reject_if (\<not> found) (SE_Target_Unresolved target))"

text \<open>A target names a declaration: it is a prefix of the list and a name declared for it.\<close>

definition declared_target :: "source_symbols \<Rightarrow> ustr \<Rightarrow> bool" where
  "declared_target symbols target =
     list_ex (\<lambda>(prefix, names). \<exists>symbol\<in>names. target = prefix @ symbol) (target_spaces symbols)"

lemma target_exists_declared:
  "target_exists spaces target = Some True \<Longrightarrow>
     list_ex (\<lambda>(prefix, names). \<exists>symbol\<in>names. target = prefix @ symbol) spaces"
  by (induction spaces target rule: target_exists.induct)
     (auto simp: strip_prefix_Some_iff split: option.splits)

lemma validate_target_pass: "validate_target symbols target = Some (Inr u) \<Longrightarrow> declared_target symbols target"
  by (auto simp: validate_target_def run_simps declared_target_def intro: target_exists_declared)

section \<open>Paths\<close>

text \<open>\<open>Path::components\<close> on a Unix path.\<close>

datatype (plugins only: code size) path_component = PC_Root | PC_Current | PC_Parent | PC_Normal ustr

fun split_slash :: "ustr \<Rightarrow> ustr \<Rightarrow> ustr list" where
  "split_slash acc [] = [rev acc]"
| "split_slash acc (c # s) = (if c = 47 then rev acc # split_slash [] s else split_slash (c # acc) s)"

definition piece_component :: "ustr \<Rightarrow> path_component option" where
  "piece_component piece =
     (if piece = [] \<or> piece = ascii ''.'' then None
      else if piece = ascii ''..'' then Some PC_Parent
      else Some (PC_Normal piece))"

definition path_components :: "ustr \<Rightarrow> path_component list" where
  "path_components path =
     (let pieces = split_slash [] path in
      (if path \<noteq> [] \<and> hd pieces = [] then [PC_Root]
       else if hd pieces = ascii ''.'' then [PC_Current] else []) @
      List.map_filter piece_component pieces)"

definition is_normal :: "path_component \<Rightarrow> bool" where
  "is_normal c = (case c of PC_Normal _ \<Rightarrow> True | _ \<Rightarrow> False)"

definition validate_relative_path :: "ustr \<Rightarrow> (spec_error, unit) run" where
  "validate_relative_path path =
     reject_if (path = [] \<or> list_ex (\<lambda>part. \<not> is_normal part) (path_components path))
       (SE_Unsafe_Path path)"

text \<open>
  A path that is accepted does not start at the root, and none of its pieces climbs: read piece by
  piece it never leaves the directory it is joined to.
\<close>

lemma validate_relative_path_stays:
  assumes "validate_relative_path path = Some (Inr u)"
  shows "path \<noteq> []" "hd path \<noteq> 47" "ascii ''..'' \<notin> set (split_slash [] path)"
proof -
  have parts: "\<forall>c\<in>set (path_components path). is_normal c" and ne: "path \<noteq> []"
    using assms by (simp_all add: validate_relative_path_def list_ex_iff)
  show "path \<noteq> []" by (rule ne)
  show "hd path \<noteq> 47"
  proof
    assume "hd path = 47"
    then have "hd (split_slash [] path) = []" using ne by (cases path) simp_all
    then have "PC_Root \<in> set (path_components path)" using ne by (simp add: path_components_def)
    with parts show False by (auto simp: is_normal_def)
  qed
  show "ascii ''..'' \<notin> set (split_slash [] path)"
  proof
    assume "ascii ''..'' \<in> set (split_slash [] path)"
    moreover have "piece_component (ascii ''..'') = Some PC_Parent" by (simp add: piece_component_def)
    ultimately have "PC_Parent \<in> set (List.map_filter piece_component (split_slash [] path))"
      by (force simp: List.map_filter_def image_iff)
    then have "PC_Parent \<in> set (path_components path)" by (simp add: path_components_def Let_def)
    with parts show False by (auto simp: is_normal_def)
  qed
qed

section \<open>Evidence of a deviation\<close>

record unicode =
  u_lowercase :: "uchar \<Rightarrow> ustr"
  u_alphanumeric :: "uchar \<Rightarrow> bool"

fun markdown_scan :: "unicode \<Rightarrow> ustr \<Rightarrow> bool \<Rightarrow> ustr \<Rightarrow> ustr" where
  "markdown_scan U fragment pending [] = fragment"
| "markdown_scan U fragment pending (c # cs) =
     (if u_alphanumeric U c
      then markdown_scan U
        ((if pending \<and> fragment \<noteq> [] then fragment @ ascii ''-'' else fragment) @ [c]) False cs
      else if char_is_whitespace c \<or> c = cp CHR ''-'' then markdown_scan U fragment True cs
      else markdown_scan U fragment pending cs)"

definition markdown_fragment :: "unicode \<Rightarrow> ustr \<Rightarrow> ustr" where
  "markdown_fragment U heading = markdown_scan U [] False (concat (map (u_lowercase U) heading))"

definition heading_matches :: "unicode \<Rightarrow> ustr \<Rightarrow> ustr \<Rightarrow> bool" where
  "heading_matches U fragment line =
     (case strip_prefix (ascii ''#'') (trim line) of
        None \<Rightarrow> False
      | Some heading \<Rightarrow>
          markdown_fragment U (trim (trim_start_matches (ascii ''#'') heading)) = fragment)"

definition evidence_fragment_exists :: "unicode \<Rightarrow> ustr \<Rightarrow> ustr \<Rightarrow> bool" where
  "evidence_fragment_exists U contents fragment =
     (let production =
        ascii ''<'' @ map (\<lambda>c. if c = cp CHR ''-'' then 32 else c) fragment @ ascii ''> ::=''
      in if list_ex (\<lambda>line. trim_end line = production) (str_lines contents) then True
         else list_ex (heading_matches U fragment) (str_lines contents))"

text \<open>
  The files below \<open>spec\<close>: \<open>None\<close> where there is no file, \<open>Some None\<close> where it cannot be read.
\<close>

type_synonym spec_files = "ustr \<Rightarrow> ustr option option"

definition split_evidence :: "ustr \<Rightarrow> ustr \<times> ustr option" where
  "split_evidence evidence =
     (case split_once (ascii ''#'') evidence of
        None \<Rightarrow> (evidence, None)
      | Some (path, fragment) \<Rightarrow> (path, Some fragment))"

definition validate_evidence ::
  "unicode \<Rightarrow> 'v toml \<Rightarrow> spec_files \<Rightarrow> 'v \<Rightarrow> (spec_error, unit) run" where
  "validate_evidence U T files d =
     run_then (table_string T d ''id'' F_Deviations) (\<lambda>id.
     run_then (table_string T d ''status'' F_Deviations) (\<lambda>status.
     run_then (reject_if (status \<notin> {ascii ''accepted'', s_open}) (SE_Deviation DF_Evidence id)) (\<lambda>_.
     run_then (table_string T d ''evidence'' F_Deviations) (\<lambda>evidence.
     let (path, fragment) = split_evidence evidence in
     run_then (validate_relative_path path) (\<lambda>_.
     run_then (ok_or (SE_Deviation DF_Evidence id) (Option.bind (files path) (\<lambda>contents. contents)))
       (\<lambda>contents.
     run_all
       [case fragment of
          None \<Rightarrow> pass ()
        | Some f \<Rightarrow>
            reject_if (f = [] \<or> \<not> evidence_fragment_exists U contents f) (SE_Deviation DF_Evidence id),
        if strip_suffix (ascii ''.feature'') path \<noteq> None
        then run_then (table_string T d ''evidence_scenario'' F_Deviations) (\<lambda>scenario.
          reject_if (\<not> list_ex (\<lambda>line. trim line = scenario) (str_lines contents))
            (SE_Deviation DF_Evidence id))
        else pass (),
        for_each (\<lambda>key. run_then (table_string T d key F_Deviations) (\<lambda>text.
            reject_if (text = []) (SE_Deviation DF_Evidence id)))
          [''kind'', ''summary'', ''baseline'', ''rationale'', ''positive_case'', ''negative_case'']]))))))"

definition validate_deviation_evidence ::
  "unicode \<Rightarrow> 'v toml \<Rightarrow> spec_files \<Rightarrow> (ledger_file \<Rightarrow> 'v option) \<Rightarrow> deviation_ledger \<Rightarrow>
     (spec_error, unit) run" where
  "validate_deviation_evidence U T files tables ledger =
     run_then (read_toml tables F_Deviations) (\<lambda>values.
     run_then (table_records T values ''deviation'' F_Deviations) (\<lambda>deviations.
     run_all
       [for_each (validate_evidence U T files) deviations,
        reject_if (length ledger \<noteq> length deviations) (SE_Duplicate_Id F_Deviations)]))"

text \<open>None of these readers panics.\<close>

lemma table_returns [returns_intros, simp]:
  "returns (table_string T v k f)" "returns (table_bool T v k)" "returns (table_records T v k f)"
  "returns (read_toml tables f)" "returns (validate_relative_path path)"
  "returns (validate_target symbols target)"
  by (simp_all add: table_string_def table_bool_def table_records_def read_toml_def
      validate_relative_path_def validate_target_def returns_run_then)

lemma validate_evidence_returns: "returns (validate_evidence U T files d)"
  unfolding validate_evidence_def Let_def case_prod_unfold
  by (intro returns_intros) (auto intro!: returns_intros split: option.splits)

lemma validate_deviation_evidence_returns:
  "returns (validate_deviation_evidence U T files tables ledger)"
  unfolding validate_deviation_evidence_def
  by (intro returns_intros) (auto intro!: returns_intros validate_evidence_returns)

lemma read_symbols_returns: "returns (read_symbols source)"
  unfolding read_symbols_def read_source_def by (intro returns_intros)

end
