(* ===== verification/Traceability.thy ===== *)
theory Traceability
  imports Trace_Aliases Trace_Sources
begin

text \<open>
  \<open>validate_traceability\<close> of \<open>xtask/src/spec.rs\<close>: the production map, the witnesses and the
  deviations are checked against each other and against the names the sources declare.
\<close>

section \<open>The checks\<close>

definition validate_witness :: "witness \<Rightarrow> (spec_error, unit) run" where
  "validate_witness w =
     run_all
       [reject_if (wt_description w = []) (SE_Witness WF_No_Description (wt_id w)),
        reject_if (wt_baseline w \<notin> {s_accept, s_reject})
          (SE_Witness (WF_Baseline (wt_baseline w)) (wt_id w)),
        if wt_entrypoint w = s_parser
        then run_all
          [reject_if (wt_expect w \<notin> {s_accept, s_reject}) (SE_Witness WF_Parser_Expect (wt_id w)),
           reject_if (wt_tokens w \<noteq> []) (SE_Witness WF_Parser_Tokens (wt_id w))]
        else if wt_entrypoint w = s_lexer
        then reject_if (wt_expect w \<noteq> s_tokens) (SE_Witness WF_Lexer_Expect (wt_id w))
        else fail (SE_Witness (WF_Entrypoint (wt_entrypoint w)) (wt_id w))]"

definition validate_witnesses :: "witness_catalog \<Rightarrow> (spec_error, unit) run" where
  "validate_witnesses catalog = for_each validate_witness (bt_values catalog)"

definition validate_unique_strings ::
  "ustr list \<Rightarrow> ustr \<Rightarrow> list_kind \<Rightarrow> (spec_error, unit) run" where
  "validate_unique_strings values production kind =
     reject_if (card (set values) \<noteq> length values) (SE_Production (PF_Duplicate kind) production)"

definition require_assessed_evidence :: "production \<Rightarrow> (spec_error, unit) run" where
  "require_assessed_evidence p =
     run_all
       [reject_if (pn_positive p = [] \<or> pn_negative p = []) (SE_Production PF_Needs_Cases (pn_name p)),
        reject_if (pn_support p \<in> {s_partial, s_unsupported} \<and> pn_note p = [])
          (SE_Production PF_Needs_Note (pn_name p))]"

definition require_open_deviation :: "production \<Rightarrow> deviation_ledger \<Rightarrow> (spec_error, unit) run" where
  "require_open_deviation p deviations =
     reject_if
       (\<not> list_ex (\<lambda>id. is_some_and (map_of deviations id) (\<lambda>d. dv_status d = s_open)) (pn_deviations p))
       (SE_Production PF_Needs_Open_Deviation (pn_name p))"

text \<open>\<open>None\<close> is the panic of \<open>unreachable!\<close>.\<close>

definition validate_production_witness ::
  "production \<Rightarrow> witness \<Rightarrow> bool \<Rightarrow> (spec_error, unit) run" where
  "validate_production_witness p w positive =
     (if positive \<and> wt_entrypoint w = s_parser \<and> wt_expect w \<noteq> s_accept
      then fail (SE_Production (PF_Parser_Case True (wt_id w)) (pn_name p))
      else if \<not> positive \<and> wt_entrypoint w = s_parser \<and> wt_expect w \<noteq> s_reject
      then fail (SE_Production (PF_Parser_Case False (wt_id w)) (pn_name p))
      else if positive \<and> wt_entrypoint w = s_lexer \<and>
        (wt_expect w \<noteq> s_tokens \<or> wt_tokens w = [] \<or> wt_diagnostics w \<noteq> [] \<or>
         list_ex (\<lambda>token. token = ascii ''Invalid'') (wt_tokens w))
      then fail (SE_Production (PF_Lexer_Case True (wt_id w)) (pn_name p))
      else if \<not> positive \<and> wt_entrypoint w = s_lexer \<and>
        (wt_expect w \<noteq> s_tokens \<or> wt_tokens w = [] \<and> wt_diagnostics w = [])
      then fail (SE_Production (PF_Lexer_Case False (wt_id w)) (pn_name p))
      else if wt_entrypoint w = s_parser \<or> wt_entrypoint w = s_lexer then pass ()
      else None)"

text \<open>The first \<open>match\<close> of the loop over the productions, on the support.\<close>

definition validate_support :: "deviation_ledger \<Rightarrow> production \<Rightarrow> (spec_error, unit) run" where
  "validate_support deviations p =
     (if pn_support p = s_unassessed
      then reject_if
        (pn_mapping p \<noteq> s_none \<or> pn_targets p \<noteq> [] \<or> pn_positive p \<noteq> [] \<or> pn_negative p \<noteq> [] \<or>
         pn_note p \<noteq> [])
        (SE_Production PF_Unassessed_Carries (pn_name p))
      else if pn_support p = s_unsupported
      then run_all
        [reject_if (pn_mapping p \<noteq> s_none \<or> pn_targets p \<noteq> [])
           (SE_Production PF_Unsupported_Mapping (pn_name p)),
         require_assessed_evidence p, require_open_deviation p deviations]
      else if pn_support p = s_partial
      then run_all
        [reject_if (pn_mapping p = s_none) (SE_Production PF_Partial_Mapping (pn_name p)),
         require_assessed_evidence p, require_open_deviation p deviations]
      else if pn_support p = s_full
      then run_all
        [reject_if (pn_mapping p = s_none) (SE_Production PF_Full_Mapping (pn_name p)),
         require_assessed_evidence p]
      else None)"

text \<open>The second \<open>match\<close>, on the mapping.\<close>

definition validate_mapping ::
  "ustr set \<Rightarrow> source_symbols \<Rightarrow> production \<Rightarrow> (spec_error, unit) run" where
  "validate_mapping production_names symbols p =
     (if pn_mapping p = s_direct
      then run_all
        [reject_if (pn_targets p = []) (SE_Production PF_Direct_Without_Target (pn_name p)),
         for_each (validate_target symbols) (pn_targets p)]
      else if pn_mapping p = s_alias
      then run_all
        [reject_if
           (pn_targets p = [] \<or> list_ex (\<lambda>target. \<not> starts_with s_production target) (pn_targets p))
           (SE_Production PF_Alias_Targets (pn_name p)),
         for_each (\<lambda>target.
             reject_if (target_name target = pn_name p \<or> target_name target \<notin> production_names)
               (SE_Production (PF_Alias_Target (target_name target)) (pn_name p)))
           (pn_targets p)]
      else if pn_mapping p = s_none
      then reject_if (pn_targets p \<noteq> []) (SE_Production PF_None_With_Targets (pn_name p))
      else None)"

text \<open>One turn of the loops over the cases of a production; \<open>used\<close> is \<open>used_cases\<close>.\<close>

definition validate_case ::
  "witness_catalog \<Rightarrow> production \<Rightarrow> bool \<Rightarrow> ustr \<Rightarrow> ustr set \<Rightarrow> (spec_error, ustr set) run" where
  "validate_case witnesses p positive case_id used =
     run_then
       (ok_or (SE_Production (PF_Unknown_Case positive case_id) (pn_name p)) (map_of witnesses case_id))
       (\<lambda>w.
     run_then
       (reject_if (wt_baseline w \<noteq> (if positive then s_accept else s_reject))
          (SE_Production (PF_Baseline positive case_id) (pn_name p))) (\<lambda>_.
     run_then (validate_production_witness p w positive) (\<lambda>_.
     pass (insert case_id used))))"

definition validate_deviation_reference ::
  "deviation_ledger \<Rightarrow> production \<Rightarrow> ustr \<Rightarrow> (spec_error, unit) run" where
  "validate_deviation_reference deviations p deviation_id =
     run_then
       (ok_or (SE_Production (PF_Unknown_Deviation deviation_id) (pn_name p))
         (map_of deviations deviation_id))
       (\<lambda>d. reject_if (pn_name p \<notin> set (dv_productions d))
          (SE_Production (PF_No_Back_Reference deviation_id) (pn_name p)))"

text \<open>The body of the loop over the productions.\<close>

definition validate_production ::
  "ustr set \<Rightarrow> source_symbols \<Rightarrow> witness_catalog \<Rightarrow> deviation_ledger \<Rightarrow> production \<Rightarrow> ustr set \<Rightarrow>
     (spec_error, ustr set) run" where
  "validate_production production_names symbols witnesses deviations p used =
     run_then
       (run_all
         [validate_unique_strings (pn_targets p) (pn_name p) LK_Target,
          validate_unique_strings (pn_positive p) (pn_name p) LK_Positive,
          validate_unique_strings (pn_negative p) (pn_name p) LK_Negative,
          validate_unique_strings (pn_deviations p) (pn_name p) LK_Deviation,
          reject_if (pn_support p \<notin> {s_full, s_partial, s_unsupported, s_unassessed})
            (SE_Production (PF_Invalid_Support (pn_support p)) (pn_name p)),
          reject_if (pn_mapping p \<notin> {s_direct, s_alias, s_none})
            (SE_Production (PF_Invalid_Mapping (pn_mapping p)) (pn_name p)),
          validate_support deviations p,
          validate_mapping production_names symbols p]) (\<lambda>_.
     run_then (fold_run (validate_case witnesses p True) (pn_positive p) used) (\<lambda>used.
     run_then (fold_run (validate_case witnesses p False) (pn_negative p) used) (\<lambda>used.
     run_then (for_each (validate_deviation_reference deviations p) (pn_deviations p)) (\<lambda>_.
     pass used))))"

text \<open>The loop over the deviations.\<close>

definition validate_deviation_production ::
  "(ustr, production) btree \<Rightarrow> deviation \<Rightarrow> ustr \<Rightarrow> (spec_error, unit) run" where
  "validate_deviation_production by_name d name =
     run_then (ok_or (SE_Deviation (DF_Unknown_Production name) (dv_id d)) (map_of by_name name))
       (\<lambda>p. reject_if (dv_id d \<notin> set (pn_deviations p))
          (SE_Deviation (DF_No_Back_Reference name) (dv_id d)))"

text \<open>The loop state is the pair of \<open>used_cases\<close> and \<open>deviation_cases\<close>.\<close>

definition validate_deviation ::
  "(ustr, production) btree \<Rightarrow> witness_catalog \<Rightarrow> deviation \<Rightarrow> ustr set \<times> ustr set \<Rightarrow>
     (spec_error, ustr set \<times> ustr set) run" where
  "validate_deviation by_name witnesses d state =
     run_then (reject_if (dv_productions d = []) (SE_Deviation DF_No_Production (dv_id d))) (\<lambda>_.
     run_then (for_each (validate_deviation_production by_name d) (dv_productions d)) (\<lambda>_.
     run_then (ok_or (SE_Deviation (DF_Unknown_Case (dv_positive d)) (dv_id d))
       (map_of witnesses (dv_positive d))) (\<lambda>positive.
     run_then (reject_if (wt_entrypoint positive \<noteq> s_parser \<or> wt_baseline positive = wt_expect positive)
       (SE_Deviation (DF_Positive (dv_positive d)) (dv_id d))) (\<lambda>_.
     run_then (ok_or (SE_Deviation (DF_Unknown_Case (dv_negative d)) (dv_id d))
       (map_of witnesses (dv_negative d))) (\<lambda>negative.
     run_then (reject_if (wt_entrypoint negative \<noteq> s_parser \<or> wt_baseline negative \<noteq> wt_expect negative)
       (SE_Deviation (DF_Negative (dv_negative d)) (dv_id d))) (\<lambda>_.
     pass (insert (dv_negative d) (insert (dv_positive d) (fst state)),
       insert (dv_negative d) (insert (dv_positive d) (snd state)))))))))"

definition diverges :: "witness \<Rightarrow> bool" where
  "diverges w =
     (wt_entrypoint w = s_parser \<and>
      (wt_baseline w = s_accept \<and> wt_expect w = s_reject \<or>
       wt_baseline w = s_reject \<and> wt_expect w = s_accept))"

definition validate_traceability ::
  "unicode \<Rightarrow> 'v toml \<Rightarrow> spec_files \<Rightarrow> (ledger_file \<Rightarrow> 'v option) \<Rightarrow> (ustr \<Rightarrow> ustr option) \<Rightarrow>
     ustr list \<Rightarrow> 'v traceability \<Rightarrow> (spec_error, unit) run" where
  "validate_traceability U T files tables source bnf_productions tr =
     run_then (validate_witnesses (tr_witnesses tr)) (\<lambda>_.
     run_then (validate_deviation_evidence U T files tables (tr_deviations tr)) (\<lambda>_.
     let productions = pm_productions (tr_map tr);
       production_names = set bnf_productions;
       by_name = bt_collect (map (\<lambda>p. (pn_name p, p)) productions)
     in
     run_then (reject_if (length by_name \<noteq> length productions) SE_Duplicate_Production) (\<lambda>_.
     run_then (read_symbols source) (\<lambda>symbols.
     run_then (fold_run (validate_production production_names symbols (tr_witnesses tr)
       (tr_deviations tr)) productions {}) (\<lambda>used_cases.
     run_then (validate_aliases by_name) (\<lambda>_.
     run_then (fold_run (validate_deviation by_name (tr_witnesses tr)) (bt_values (tr_deviations tr))
       (used_cases, {})) (\<lambda>(used_cases, deviation_cases).
     run_all
       [for_each (\<lambda>w. reject_if (diverges w \<and> wt_id w \<notin> deviation_cases)
            (SE_Witness WF_Divergence (wt_id w))) (bt_values (tr_witnesses tr)),
        let orphaned = filter (\<lambda>id. id \<notin> used_cases) (bt_keys (tr_witnesses tr))
        in reject_if (orphaned \<noteq> []) (SE_Unreferenced orphaned),
        run_then (table_bool T (pm_values (tr_map tr)) ''assessment_complete'') (\<lambda>complete.
          reject_if (complete \<and> list_ex (\<lambda>p. pn_support p = s_unassessed) productions)
            SE_Assessment_Incomplete)])))))))"

section \<open>The checks do not panic\<close>

lemma validate_witness_returns [returns_intros]: "returns (validate_witness w)"
  unfolding validate_witness_def by (intro returns_intros) (auto intro!: returns_intros)

lemma validate_witness_entrypoint:
  "validate_witness w = Some (Inr ()) \<Longrightarrow> wt_entrypoint w = s_parser \<or> wt_entrypoint w = s_lexer"
  by (auto simp: validate_witness_def run_simps split: if_splits)

lemma validate_production_witness_returns:
  "wt_entrypoint w = s_parser \<or> wt_entrypoint w = s_lexer \<Longrightarrow>
     returns (validate_production_witness p w positive)"
  by (auto simp: validate_production_witness_def)

lemma validate_case_returns:
  assumes "\<forall>w\<in>set (bt_values witnesses). wt_entrypoint w = s_parser \<or> wt_entrypoint w = s_lexer"
  shows "returns (validate_case witnesses p positive case_id used)"
  unfolding validate_case_def
proof (intro returns_intros)
  fix w assume "ok_or (SE_Production (PF_Unknown_Case positive case_id) (pn_name p))
      (map_of witnesses case_id) = Some (Inr w)"
  then have "w \<in> set (bt_values witnesses)"
    by (auto simp: bt_values_def dest!: map_of_SomeD) (metis imageI snd_conv)
  with assms show "returns (validate_production_witness p w positive)"
    by (intro validate_production_witness_returns) blast
qed

lemma validate_support_returns:
  "pn_support p \<in> {s_full, s_partial, s_unsupported, s_unassessed} \<Longrightarrow>
     returns (validate_support deviations p)"
  by (auto simp: validate_support_def require_assessed_evidence_def require_open_deviation_def
      intro!: returns_intros)

lemma validate_mapping_returns:
  "pn_mapping p \<in> {s_direct, s_alias, s_none} \<Longrightarrow> returns (validate_mapping names symbols p)"
  by (auto simp: validate_mapping_def intro!: returns_intros)

lemma validate_production_returns:
  assumes "\<forall>w\<in>set (bt_values witnesses). wt_entrypoint w = s_parser \<or> wt_entrypoint w = s_lexer"
  shows "returns (validate_production names symbols witnesses deviations p used)"
  unfolding validate_production_def validate_unique_strings_def validate_deviation_reference_def
    run_all.simps
  by (intro returns_intros validate_support_returns validate_mapping_returns
      validate_case_returns [OF assms]) simp_all

lemma validate_deviation_returns: "returns (validate_deviation by_name witnesses d state)"
  unfolding validate_deviation_def validate_deviation_production_def by (intro returns_intros)

lemma bt_values_collect: "set (bt_values (bt_collect xs)) \<subseteq> snd ` set xs"
proof
  fix v assume "v \<in> set (bt_values (bt_collect xs))"
  then obtain k where "map_of (rev xs) k = Some v" by (auto simp: bt_values_iff)
  then have "(k, v) \<in> set xs" by (auto dest: map_of_SomeD)
  then show "v \<in> snd ` set xs" by force
qed

text \<open>When the names are distinct, every production stands under its name.\<close>

lemma by_name_lookup:
  assumes "distinct (map pn_name ps)"
  shows "map_of (bt_collect (map (\<lambda>p. (pn_name p, p)) ps)) n = Some p \<longleftrightarrow> p \<in> set ps \<and> pn_name p = n"
proof -
  have "distinct (map fst (map (\<lambda>p. (pn_name p, p)) ps))" using assms by (simp add: o_def)
  then have "map_of (rev (map (\<lambda>p. (pn_name p, p)) ps)) = map_of (map (\<lambda>p. (pn_name p, p)) ps)"
    by (rule map_of_rev_eq)
  then show ?thesis using assms by (force simp: o_def)
qed

lemma unique_names:
  "length (bt_collect (map (\<lambda>p. (pn_name p, p)) ps)) = length ps \<longleftrightarrow> distinct (map pn_name ps)"
  using bt_collect_length_iff [of "map (\<lambda>p. (pn_name p, p)) ps"] by (simp add: o_def)

lemma by_name_ok_collect:
  assumes "distinct (map pn_name ps)"
  shows "by_name_ok (bt_collect (map (\<lambda>p. (pn_name p, p)) ps))"
  using bt_values_collect [of "map (\<lambda>p. (pn_name p, p)) ps"]
  by (auto simp: by_name_ok_def list_all_iff by_name_lookup [OF assms] simp del: bt_get_collect)

lemma by_name_values:
  assumes "distinct (map pn_name ps)"
  shows "set (bt_values (bt_collect (map (\<lambda>p. (pn_name p, p)) ps))) = set ps"
  by (auto simp: bt_values_iff by_name_lookup [OF assms] simp del: bt_get_collect)

lemma validate_traceability_returns [returns_intros]:
  "returns (validate_traceability U T files tables source bnf_productions tr)"
  unfolding validate_traceability_def Let_def case_prod_unfold
proof (intro returns_intros, goal_cases)
  case 1
  show ?case unfolding validate_witnesses_def by (intro returns_intros)
next
  case 2
  show ?case by (rule validate_deviation_evidence_returns)
next
  case 3
  show ?case by (rule read_symbols_returns)
next
  case 4
  then show ?case
    by (intro validate_production_returns)
       (auto simp: validate_witnesses_def for_each_pass dest: validate_witness_entrypoint)
next
  case 5
  then have "distinct (map pn_name (pm_productions (tr_map tr)))"
    by (simp add: unique_names)
  then show ?case
    unfolding returns_def by (intro validate_aliases_returns by_name_ok_collect)
next
  case 6
  show ?case by (rule validate_deviation_returns)
next
  case 7
  show ?case by (auto intro!: returns_intros)
qed

text \<open>
  none of the \<open>unreachable!\<close> and \<open>expect\<close> calls of the check can be reached, whatever the
  files hold: each is guarded by a check made before.
\<close>

theorem validate_traceability_never_panics:
  "validate_traceability U T files tables source bnf_productions tr \<noteq> None"
  using validate_traceability_returns by (simp add: returns_def)

section \<open>What a passing check has established\<close>

text \<open>A witness shows what it is listed for: the parser accepts or rejects it, or the lexer yields its tokens.\<close>

definition case_shows :: "bool \<Rightarrow> witness \<Rightarrow> bool" where
  "case_shows positive w =
     (wt_baseline w = (if positive then s_accept else s_reject) \<and>
      (wt_entrypoint w = s_parser \<longrightarrow> wt_expect w = (if positive then s_accept else s_reject)) \<and>
      (wt_entrypoint w \<noteq> s_parser \<longrightarrow> wt_entrypoint w = s_lexer \<and> wt_expect w = s_tokens \<and>
        (if positive then wt_tokens w \<noteq> [] \<and> ascii ''Invalid'' \<notin> set (wt_tokens w) \<and> wt_diagnostics w = []
         else wt_tokens w \<noteq> [] \<or> wt_diagnostics w \<noteq> [])))"

lemma validate_case_pass:
  "validate_case witnesses p positive case_id used = Some (Inr used') \<longleftrightarrow>
     used' = insert case_id used \<and> is_some_and (map_of witnesses case_id) (case_shows positive)"
  by (auto simp: validate_case_def validate_production_witness_def case_shows_def run_simps
      is_some_and_iff list_ex_iff split: if_splits)

lemma validate_cases_pass:
  "fold_run (validate_case witnesses p positive) ids used = Some (Inr used') \<longleftrightarrow>
     used' = used \<union> set ids \<and>
     list_all (\<lambda>i. is_some_and (map_of witnesses i) (case_shows positive)) ids"
  by (induction ids arbitrary: used) (auto simp: run_then_pass validate_case_pass)

definition support_ok :: "deviation_ledger \<Rightarrow> production \<Rightarrow> bool" where
  "support_ok deviations p =
     (pn_support p \<in> {s_full, s_partial, s_unsupported, s_unassessed} \<and>
      (pn_support p = s_unassessed \<longrightarrow> pn_mapping p = s_none \<and> pn_targets p = [] \<and>
         pn_positive p = [] \<and> pn_negative p = [] \<and> pn_note p = []) \<and>
      (pn_support p \<noteq> s_unassessed \<longrightarrow> pn_positive p \<noteq> [] \<and> pn_negative p \<noteq> []) \<and>
      (pn_support p \<in> {s_full, s_partial} \<longrightarrow> pn_mapping p \<noteq> s_none) \<and>
      (pn_support p = s_unsupported \<longrightarrow> pn_mapping p = s_none \<and> pn_targets p = []) \<and>
      (pn_support p \<in> {s_partial, s_unsupported} \<longrightarrow> pn_note p \<noteq> [] \<and>
         list_ex (\<lambda>i. is_some_and (map_of deviations i) (\<lambda>d. dv_status d = s_open)) (pn_deviations p)))"

lemma validate_support_pass:
  "validate_support deviations p = Some (Inr u) \<longleftrightarrow> support_ok deviations p"
  by (auto simp: validate_support_def support_ok_def require_assessed_evidence_def
      require_open_deviation_def run_simps)

definition mapping_ok :: "ustr set \<Rightarrow> source_symbols \<Rightarrow> production \<Rightarrow> bool" where
  "mapping_ok production_names symbols p =
     (if pn_mapping p = s_direct
      then pn_targets p \<noteq> [] \<and> list_all (declared_target symbols) (pn_targets p)
      else if pn_mapping p = s_alias
      then pn_targets p \<noteq> [] \<and>
        list_all (\<lambda>t. starts_with s_production t \<and> target_name t \<noteq> pn_name p \<and>
          target_name t \<in> production_names) (pn_targets p)
      else pn_mapping p = s_none \<and> pn_targets p = [])"

lemma validate_mapping_pass:
  "validate_mapping production_names symbols p = Some (Inr u) \<Longrightarrow>
     mapping_ok production_names symbols p"
  by (auto simp: validate_mapping_def mapping_ok_def run_simps list_all_iff list_ex_iff
      split: if_splits dest: validate_target_pass)

definition production_ok ::
  "ustr set \<Rightarrow> source_symbols \<Rightarrow> witness_catalog \<Rightarrow> deviation_ledger \<Rightarrow> production \<Rightarrow> bool" where
  "production_ok production_names symbols witnesses deviations p =
     (support_ok deviations p \<and> mapping_ok production_names symbols p \<and>
      distinct (pn_targets p) \<and> distinct (pn_positive p) \<and> distinct (pn_negative p) \<and>
      distinct (pn_deviations p) \<and>
      list_all (\<lambda>i. is_some_and (map_of witnesses i) (case_shows True)) (pn_positive p) \<and>
      list_all (\<lambda>i. is_some_and (map_of witnesses i) (case_shows False)) (pn_negative p) \<and>
      list_all (\<lambda>i. is_some_and (map_of deviations i) (\<lambda>d. pn_name p \<in> set (dv_productions d)))
        (pn_deviations p))"

lemma validate_production_pass:
  assumes "validate_production names symbols witnesses deviations p used = Some (Inr used')"
  shows "production_ok names symbols witnesses deviations p"
    and "used' = used \<union> set (pn_positive p) \<union> set (pn_negative p)"
proof -
  from assms have
    checks: "validate_support deviations p = Some (Inr ())"
      "validate_mapping names symbols p = Some (Inr ())"
      "distinct (pn_targets p)" "distinct (pn_positive p)" "distinct (pn_negative p)"
      "distinct (pn_deviations p)"
      "for_each (validate_deviation_reference deviations p) (pn_deviations p) = Some (Inr ())"
    by (auto simp: validate_production_def run_simps validate_unique_strings_def card_distinct)
  from checks(7) have "list_all (\<lambda>i. is_some_and (map_of deviations i)
      (\<lambda>d. pn_name p \<in> set (dv_productions d))) (pn_deviations p)"
    by (auto simp: for_each_pass validate_deviation_reference_def run_then_pass list_all_iff
        is_some_and_iff)
  moreover from assms have
    "list_all (\<lambda>i. is_some_and (map_of witnesses i) (case_shows True)) (pn_positive p)"
    "list_all (\<lambda>i. is_some_and (map_of witnesses i) (case_shows False)) (pn_negative p)"
    and used: "used' = used \<union> set (pn_positive p) \<union> set (pn_negative p)"
    by (auto simp: validate_production_def run_then_pass validate_cases_pass)
  ultimately show "production_ok names symbols witnesses deviations p"
    using checks(1-6) validate_mapping_pass
    by (simp add: production_ok_def validate_support_pass)
  show "used' = used \<union> set (pn_positive p) \<union> set (pn_negative p)" by (rule used)
qed

lemma validate_productions_pass:
  assumes "fold_run (validate_production names symbols witnesses deviations) ps used = Some (Inr used')"
  shows "\<forall>p\<in>set ps. production_ok names symbols witnesses deviations p"
    and "used' = used \<union> (\<Union>p\<in>set ps. set (pn_positive p) \<union> set (pn_negative p))"
  using assms
proof (induction ps arbitrary: used)
  case (Cons p ps)
  {
    case 1
    with Cons.IH(1) validate_production_pass(1) show ?case by (fastforce simp: run_then_pass)
  next
    case 2
    then obtain u where "validate_production names symbols witnesses deviations p used = Some (Inr u)"
        "fold_run (validate_production names symbols witnesses deviations) ps u = Some (Inr used')"
      by (auto simp: run_then_pass)
    with Cons.IH(2) validate_production_pass(2) show ?case by fastforce
  }
qed simp_all

definition deviation_ok :: "(ustr, production) btree \<Rightarrow> witness_catalog \<Rightarrow> deviation \<Rightarrow> bool" where
  "deviation_ok by_name witnesses d =
     (dv_productions d \<noteq> [] \<and>
      list_all (\<lambda>n. is_some_and (map_of by_name n) (\<lambda>p. dv_id d \<in> set (pn_deviations p)))
        (dv_productions d) \<and>
      is_some_and (map_of witnesses (dv_positive d))
        (\<lambda>w. wt_entrypoint w = s_parser \<and> wt_baseline w \<noteq> wt_expect w) \<and>
      is_some_and (map_of witnesses (dv_negative d))
        (\<lambda>w. wt_entrypoint w = s_parser \<and> wt_baseline w = wt_expect w))"

lemma validate_deviation_pass:
  "validate_deviation by_name witnesses d state = Some (Inr state') \<longleftrightarrow>
     deviation_ok by_name witnesses d \<and>
     state' = (fst state \<union> {dv_positive d, dv_negative d}, snd state \<union> {dv_positive d, dv_negative d})"
  by (auto simp: validate_deviation_def validate_deviation_production_def deviation_ok_def run_simps
      is_some_and_iff list_all_iff)

lemma validate_deviations_pass:
  "fold_run (validate_deviation by_name witnesses) ds state = Some (Inr state') \<longleftrightarrow>
     (\<forall>d\<in>set ds. deviation_ok by_name witnesses d) \<and>
     state' = (fst state \<union> (\<Union>d\<in>set ds. {dv_positive d, dv_negative d}),
       snd state \<union> (\<Union>d\<in>set ds. {dv_positive d, dv_negative d}))"
  by (induction ds arbitrary: state) (auto simp: run_then_pass validate_deviation_pass)

lemma validate_traceability_parts:
  fixes tr :: "'v traceability"
  defines "ps \<equiv> pm_productions (tr_map tr)"
  defines "by_name \<equiv> bt_collect (map (\<lambda>p. (pn_name p, p)) ps)"
  assumes "validate_traceability U T files tables source bnf_productions tr = Some (Inr ())"
  obtains symbols used cases where
    "distinct (map pn_name ps)"
    "read_symbols source = Some (Inr symbols)"
    "\<forall>p\<in>set ps. production_ok (set bnf_productions) symbols (tr_witnesses tr) (tr_deviations tr) p"
    "validate_aliases by_name = Some (Inr ())"
    "\<forall>d\<in>set (bt_values (tr_deviations tr)). deviation_ok by_name (tr_witnesses tr) d"
    "cases = (\<Union>d\<in>set (bt_values (tr_deviations tr)). {dv_positive d, dv_negative d})"
    "used = (\<Union>p\<in>set ps. set (pn_positive p) \<union> set (pn_negative p)) \<union> cases"
    "\<forall>w\<in>set (bt_values (tr_witnesses tr)). diverges w \<longrightarrow> wt_id w \<in> cases"
    "\<forall>i\<in>set (bt_keys (tr_witnesses tr)). i \<in> used"
    "\<forall>w\<in>set (bt_values (tr_witnesses tr)). validate_witness w = Some (Inr ())"
proof -
  from assms(3) obtain symbols u state where
    a: "validate_witnesses (tr_witnesses tr) = Some (Inr ())"
      "length by_name = length ps" "read_symbols source = Some (Inr symbols)"
      "fold_run (validate_production (set bnf_productions) symbols (tr_witnesses tr)
         (tr_deviations tr)) ps {} = Some (Inr u)"
      "validate_aliases by_name = Some (Inr ())"
      "fold_run (validate_deviation by_name (tr_witnesses tr)) (bt_values (tr_deviations tr)) (u, {}) =
        Some (Inr state)"
      "for_each (\<lambda>w. reject_if (diverges w \<and> wt_id w \<notin> snd state) (SE_Witness WF_Divergence (wt_id w)))
        (bt_values (tr_witnesses tr)) = Some (Inr ())"
      "filter (\<lambda>i. i \<notin> fst state) (bt_keys (tr_witnesses tr)) = []"
    unfolding validate_traceability_def Let_def case_prod_unfold ps_def [symmetric]
      by_name_def [symmetric]
    by (auto simp only: run_then_pass run_all_pass reject_if_iff list.set ball_simps not_not)
  from a(6) have state: "state = (u \<union> (\<Union>d\<in>set (bt_values (tr_deviations tr)).
        {dv_positive d, dv_negative d}), \<Union>d\<in>set (bt_values (tr_deviations tr)).
        {dv_positive d, dv_negative d})"
    and dev: "\<forall>d\<in>set (bt_values (tr_deviations tr)). deviation_ok by_name (tr_witnesses tr) d"
    by (simp_all add: validate_deviations_pass)
  have "u = (\<Union>p\<in>set ps. set (pn_positive p) \<union> set (pn_negative p))"
    using validate_productions_pass(2) [OF a(4)] by simp
  with state show ?thesis
    using a validate_productions_pass(1) [OF a(4)] dev
    by (intro that [of symbols "snd state" "fst state"])
       (simp_all add: unique_names by_name_def for_each_pass filter_empty_conv validate_witnesses_def)
qed


text \<open>
  A small repository: the production \<open>query\<close> is implemented by \<open>parse\<close>, with a query that the
  parser must accept and a text that the lexer must refuse. The table of the production map is a parameter.
\<close>

definition sample_yes :: witness where
  "sample_yes =
     \<lparr>wt_id = ascii ''yes'', wt_description = ascii ''sample'', wt_baseline = s_accept,
      wt_entrypoint = s_parser, wt_source = ascii ''RETURN *'', wt_expect = s_accept,
      wt_tokens = [], wt_diagnostics = []\<rparr>"

definition sample_no :: witness where
  "sample_no =
     \<lparr>wt_id = ascii ''no'', wt_description = ascii ''sample'', wt_baseline = s_reject,
      wt_entrypoint = s_lexer, wt_source = ascii ''?'', wt_expect = s_tokens,
      wt_tokens = [ascii ''Invalid''], wt_diagnostics = [ascii ''OCY-L001'']\<rparr>"

definition sample_query :: production where
  "sample_query =
     \<lparr>pn_name = ascii ''query'', pn_support = s_full, pn_mapping = s_direct,
      pn_targets = [ascii ''rust:parser::parse''], pn_positive = [ascii ''yes''],
      pn_negative = [ascii ''no''], pn_deviations = [], pn_note = []\<rparr>"

definition sample_catalog :: witness_catalog where
  "sample_catalog =
     [(ascii ''no'', sample_no), (ascii ''yes'', sample_yes)]"

definition sample_traceability :: "'v \<Rightarrow> 'v traceability" where
  "sample_traceability values =
     \<lparr>tr_map = \<lparr>pm_values = values, pm_productions = [sample_query]\<rparr>,
      tr_witnesses = sample_catalog, tr_deviations = []\<rparr>"

text \<open>A table in which every key holds an empty array, and \<open>assessment_complete\<close> is true.\<close>

definition sample_toml :: "bool toml" where
  "sample_toml =
     \<lparr>toml_get = (\<lambda>_ _. Some True), as_str = (\<lambda>_. None), as_array = (\<lambda>_. Some []),
      as_bool = Some, as_integer = (\<lambda>_. None)\<rparr>"

definition sample_source :: "ustr \<Rightarrow> ustr option" where
  "sample_source path = Some (ascii ''pub fn parse('')"

definition sample_unicode :: unicode where
  "sample_unicode = \<lparr>u_lowercase = (\<lambda>c. [c]), u_alphanumeric = is_ascii_alphanumeric\<rparr>"

definition sample_symbols :: source_symbols where
  "sample_symbols =
     \<lparr>sy_lalrpop = {}, sy_raw_tokens = {}, sy_token_kinds = {}, sy_keywords = {},
      sy_parser_functions = {ascii ''parse''}, sy_lexer_functions = {ascii ''parse''}\<rparr>"

lemma sample_read_symbols: "read_symbols sample_source = Some (Inr sample_symbols)"
  by (simp add: read_symbols_def read_source_def sample_source_def ok_or_def lalrpop_rules_def
      rust_functions_def enum_variants_def str_lines_def map_filter_simps rust_function_def
      or_else_def trim_start_def char_is_whitespace_def leading_name_def is_word_char_def
      is_ascii_alphanumeric_def is_ascii_alphabetic_def is_ascii_digit_def trim_def trim_end_def
      lalrpop_rule_def pass_def sample_symbols_def)

lemma sample_production_valid:
  "validate_production {ascii ''query''} sample_symbols sample_catalog [] sample_query {} =
     Some (Inr {ascii ''no'', ascii ''yes''})"
proof -
  have "validate_target sample_symbols (ascii ''rust:parser::parse'') = Some (Inr ())"
    by (simp add: validate_target_def target_spaces_def ok_or_def reject_if_def sample_symbols_def
        pass_def)
  moreover have "map_of sample_catalog (ascii ''yes'') = Some sample_yes"
    "map_of sample_catalog (ascii ''no'') = Some sample_no"
    by (simp_all add: sample_catalog_def)
  ultimately show ?thesis
    by (simp add: validate_production_def sample_query_def validate_unique_strings_def
        validate_support_def validate_mapping_def require_assessed_evidence_def validate_case_def
        validate_production_witness_def sample_yes_def sample_no_def run_then_def reject_if_def pass_def
        ok_or_def insert_commute del: ascii_simps)
qed

lemma sample_traceability_valid:
  assumes "validate_deviation_evidence U T files tables [] = Some (Inr ())"
    and "table_bool T values ''assessment_complete'' = Some (Inr complete)"
  shows "validate_traceability U T files tables sample_source [ascii ''query'']
    (sample_traceability values) = Some (Inr ())"
proof -
  have "validate_witnesses sample_catalog = Some (Inr ())"
    by (simp add: validate_witnesses_def sample_catalog_def bt_values_def for_each_pass
        validate_witness_def run_all_pass sample_yes_def sample_no_def)
  moreover have "validate_aliases [(ascii ''query'', sample_query)] = Some (Inr ())"
    by (simp add: validate_aliases_def bt_values_def validate_alias_def sample_query_def)
  moreover have "pm_productions (tr_map (sample_traceability values)) = [sample_query]"
    "tr_witnesses (sample_traceability values) = sample_catalog"
    "tr_deviations (sample_traceability values) = []"
    "pm_values (tr_map (sample_traceability values)) = values"
    "bt_keys sample_catalog = [ascii ''no'', ascii ''yes'']"
    "\<forall>w\<in>set (bt_values sample_catalog). \<not> diverges w"
    by (simp_all add: sample_traceability_def sample_catalog_def bt_keys_def bt_values_def
        diverges_def sample_yes_def sample_no_def)
  moreover have "pn_name sample_query = ascii ''query''" "pn_support sample_query = s_full"
    by (simp_all add: sample_query_def)
  ultimately show ?thesis
    using sample_production_valid sample_read_symbols assms
    unfolding validate_traceability_def
    by (simp add: bt_collect_def run_all_pass for_each_pass run_then_pass Let_def bt_values_def
        del: ascii_simps)
qed


end
