(* ===== verification/Spec_Gate.thy ===== *)
theory Spec_Gate
  imports Entry Traceability
begin

text \<open>
  The commands of \<open>xtask/src/spec.rs\<close>: \<open>verify\<close> checks the vendored openCypher snapshot, the
  production map and its traceability, and runs every witness through the lexer or the parser;
  \<open>release_blockers\<close> says what still stands against a release.
\<close>

section \<open>Token kinds as text\<close>

text \<open>The derived \<open>Debug\<close> of \<open>Keyword\<close> and \<open>TokenKind\<close>: the name of the variant.\<close>

primrec keyword_debug :: "keyword \<Rightarrow> ustr" where
  "keyword_debug Kw_Acyclic = ascii ''Acyclic''"
| "keyword_debug Kw_All = ascii ''All''"
| "keyword_debug Kw_AllShortestPaths = ascii ''AllShortestPaths''"
| "keyword_debug Kw_And = ascii ''And''"
| "keyword_debug Kw_Any = ascii ''Any''"
| "keyword_debug Kw_As = ascii ''As''"
| "keyword_debug Kw_Asc = ascii ''Asc''"
| "keyword_debug Kw_Ascending = ascii ''Ascending''"
| "keyword_debug Kw_By = ascii ''By''"
| "keyword_debug Kw_Call = ascii ''Call''"
| "keyword_debug Kw_Case = ascii ''Case''"
| "keyword_debug Kw_Collect = ascii ''Collect''"
| "keyword_debug Kw_Contains = ascii ''Contains''"
| "keyword_debug Kw_Count = ascii ''Count''"
| "keyword_debug Kw_Create = ascii ''Create''"
| "keyword_debug Kw_Delete = ascii ''Delete''"
| "keyword_debug Kw_Desc = ascii ''Desc''"
| "keyword_debug Kw_Descending = ascii ''Descending''"
| "keyword_debug Kw_Detach = ascii ''Detach''"
| "keyword_debug Kw_Distinct = ascii ''Distinct''"
| "keyword_debug Kw_Else = ascii ''Else''"
| "keyword_debug Kw_End = ascii ''End''"
| "keyword_debug Kw_Ends = ascii ''Ends''"
| "keyword_debug Kw_Exists = ascii ''Exists''"
| "keyword_debug Kw_False = ascii ''False''"
| "keyword_debug Kw_Group = ascii ''Group''"
| "keyword_debug Kw_Groups = ascii ''Groups''"
| "keyword_debug Kw_In = ascii ''In''"
| "keyword_debug Kw_Inf = ascii ''Inf''"
| "keyword_debug Kw_Infinity = ascii ''Infinity''"
| "keyword_debug Kw_Is = ascii ''Is''"
| "keyword_debug Kw_Limit = ascii ''Limit''"
| "keyword_debug Kw_Match = ascii ''Match''"
| "keyword_debug Kw_Merge = ascii ''Merge''"
| "keyword_debug Kw_Nan = ascii ''Nan''"
| "keyword_debug Kw_None = ascii ''None''"
| "keyword_debug Kw_Not = ascii ''Not''"
| "keyword_debug Kw_Null = ascii ''Null''"
| "keyword_debug Kw_Offset = ascii ''Offset''"
| "keyword_debug Kw_On = ascii ''On''"
| "keyword_debug Kw_Optional = ascii ''Optional''"
| "keyword_debug Kw_Or = ascii ''Or''"
| "keyword_debug Kw_Order = ascii ''Order''"
| "keyword_debug Kw_Path = ascii ''Path''"
| "keyword_debug Kw_Paths = ascii ''Paths''"
| "keyword_debug Kw_Reduce = ascii ''Reduce''"
| "keyword_debug Kw_Remove = ascii ''Remove''"
| "keyword_debug Kw_Return = ascii ''Return''"
| "keyword_debug Kw_Set = ascii ''Set''"
| "keyword_debug Kw_Shortest = ascii ''Shortest''"
| "keyword_debug Kw_ShortestPath = ascii ''ShortestPath''"
| "keyword_debug Kw_Simple = ascii ''Simple''"
| "keyword_debug Kw_Single = ascii ''Single''"
| "keyword_debug Kw_Skip = ascii ''Skip''"
| "keyword_debug Kw_Starts = ascii ''Starts''"
| "keyword_debug Kw_Then = ascii ''Then''"
| "keyword_debug Kw_Trail = ascii ''Trail''"
| "keyword_debug Kw_Trim = ascii ''Trim''"
| "keyword_debug Kw_True = ascii ''True''"
| "keyword_debug Kw_Union = ascii ''Union''"
| "keyword_debug Kw_Unwind = ascii ''Unwind''"
| "keyword_debug Kw_Walk = ascii ''Walk''"
| "keyword_debug Kw_When = ascii ''When''"
| "keyword_debug Kw_Where = ascii ''Where''"
| "keyword_debug Kw_With = ascii ''With''"
| "keyword_debug Kw_Xor = ascii ''Xor''"
| "keyword_debug Kw_Yield = ascii ''Yield''"

primrec kind_debug :: "token_kind \<Rightarrow> ustr" where
  "kind_debug (T_Keyword word) = ascii ''Keyword('' @ keyword_debug word @ ascii '')''"
| "kind_debug T_Identifier = ascii ''Identifier''"
| "kind_debug T_EscapedIdentifier = ascii ''EscapedIdentifier''"
| "kind_debug T_Parameter = ascii ''Parameter''"
| "kind_debug T_Integer = ascii ''Integer''"
| "kind_debug T_HexInteger = ascii ''HexInteger''"
| "kind_debug T_OctalInteger = ascii ''OctalInteger''"
| "kind_debug T_Float = ascii ''Float''"
| "kind_debug T_String = ascii ''String''"
| "kind_debug T_LeftParen = ascii ''LeftParen''"
| "kind_debug T_RightParen = ascii ''RightParen''"
| "kind_debug T_LeftBracket = ascii ''LeftBracket''"
| "kind_debug T_RightBracket = ascii ''RightBracket''"
| "kind_debug T_LeftBrace = ascii ''LeftBrace''"
| "kind_debug T_RightBrace = ascii ''RightBrace''"
| "kind_debug T_Comma = ascii ''Comma''"
| "kind_debug T_Dot = ascii ''Dot''"
| "kind_debug T_DotDot = ascii ''DotDot''"
| "kind_debug T_Colon = ascii ''Colon''"
| "kind_debug T_DoubleColon = ascii ''DoubleColon''"
| "kind_debug T_Semicolon = ascii ''Semicolon''"
| "kind_debug T_Pipe = ascii ''Pipe''"
| "kind_debug T_DoublePipe = ascii ''DoublePipe''"
| "kind_debug T_Ampersand = ascii ''Ampersand''"
| "kind_debug T_Question = ascii ''Question''"
| "kind_debug T_Dollar = ascii ''Dollar''"
| "kind_debug T_Plus = ascii ''Plus''"
| "kind_debug T_Minus = ascii ''Minus''"
| "kind_debug T_Star = ascii ''Star''"
| "kind_debug T_Slash = ascii ''Slash''"
| "kind_debug T_Percent = ascii ''Percent''"
| "kind_debug T_Caret = ascii ''Caret''"
| "kind_debug T_Bang = ascii ''Bang''"
| "kind_debug T_Equal = ascii ''Equal''"
| "kind_debug T_NotEqual = ascii ''NotEqual''"
| "kind_debug T_Less = ascii ''Less''"
| "kind_debug T_LessEqual = ascii ''LessEqual''"
| "kind_debug T_Greater = ascii ''Greater''"
| "kind_debug T_GreaterEqual = ascii ''GreaterEqual''"
| "kind_debug T_PlusEqual = ascii ''PlusEqual''"
| "kind_debug T_FatArrow = ascii ''FatArrow''"
| "kind_debug T_RegexMatch = ascii ''RegexMatch''"
| "kind_debug T_LeftArrow = ascii ''LeftArrow''"
| "kind_debug T_RightArrow = ascii ''RightArrow''"
| "kind_debug T_Whitespace = ascii ''Whitespace''"
| "kind_debug T_LineComment = ascii ''LineComment''"
| "kind_debug T_BlockComment = ascii ''BlockComment''"
| "kind_debug T_Invalid = ascii ''Invalid''"

section \<open>Running the witnesses\<close>

text \<open>
  \<open>None\<close> is a panic, here also of the parser or of the lexer. \<open>engine\<close> and \<open>g\<close> are the parameters
  of the parser.
\<close>

definition execute_parser_witness :: "engine \<Rightarrow> grammar \<Rightarrow> witness \<Rightarrow> (spec_error, unit) run" where
  "execute_parser_witness engine g w =
     Option.bind (parse engine g (wt_source w)) (\<lambda>parsed.
       if wt_expect w = s_accept
       then (case parsed of
               Inr _ \<Rightarrow> pass ()
             | Inl _ \<Rightarrow> fail (SE_Witness WF_Unexpectedly_Failed (wt_id w)))
       else if wt_expect w = s_reject
       then (case parsed of
               Inr _ \<Rightarrow> fail (SE_Witness WF_Unexpectedly_Parsed (wt_id w))
             | Inl errors \<Rightarrow>
                 let actual = map (\<lambda>d. code_as_str (diag_code d)) (pe_diagnostics errors) in
                 run_all
                   [reject_if (ascii ''OCY-P999'' \<in> set actual) (SE_Witness WF_Internal (wt_id w)),
                    for_each (\<lambda>required.
                        reject_if (required \<notin> set actual)
                          (SE_Witness (WF_Needs_Diagnostic required) (wt_id w)))
                      (wt_diagnostics w)])
       else None)"

definition execute_lexer_witness :: "engine \<Rightarrow> witness \<Rightarrow> (spec_error, unit) run" where
  "execute_lexer_witness engine w =
     Option.bind (lex engine (wt_source w)) (\<lambda>outcome.
       let tokens = map (\<lambda>t. kind_debug (token_kind t)) (lex_tokens outcome);
         diagnostics = map (\<lambda>d. code_as_str (diag_code d)) (lex_diagnostics outcome)
       in run_all
         [reject_if (tokens \<noteq> wt_tokens w) (SE_Witness WF_Tokens (wt_id w)),
          reject_if (diagnostics \<noteq> wt_diagnostics w) (SE_Witness WF_Diagnostics (wt_id w)),
          reject_if (ascii ''OCY-P999'' \<in> set diagnostics) (SE_Witness WF_Internal (wt_id w))])"

definition execute_witness :: "engine \<Rightarrow> grammar \<Rightarrow> witness \<Rightarrow> (spec_error, unit) run" where
  "execute_witness engine g w =
     (if wt_entrypoint w = s_parser then execute_parser_witness engine g w
      else if wt_entrypoint w = s_lexer then execute_lexer_witness engine w
      else None)"

definition execute_witnesses :: "engine \<Rightarrow> grammar \<Rightarrow> witness_catalog \<Rightarrow> (spec_error, unit) run" where
  "execute_witnesses engine g catalog = for_each (execute_witness engine g) (bt_values catalog)"

section \<open>The vendored snapshot\<close>

definition validate_hash :: "ustr \<Rightarrow> (spec_error, unit) run" where
  "validate_hash hash =
     reject_if (\<not> (byte_len hash = 64 \<and> list_all is_ascii_hexdigit (as_bytes hash)))
       (SE_Invalid_Hash hash)"

record 'v manifest =
  mf_values :: 'v
  mf_files :: "(ustr, ustr) btree"

definition read_manifest_file ::
  "'v toml \<Rightarrow> 'v \<Rightarrow> (ustr, ustr) btree \<Rightarrow> (spec_error, (ustr, ustr) btree) run" where
  "read_manifest_file T r files =
     run_then (table_string T r ''path'' F_Manifest) (\<lambda>path.
     run_then (table_string T r ''sha256'' F_Manifest) (\<lambda>hash.
     run_then (validate_relative_path path) (\<lambda>_.
     run_then (validate_hash hash) (\<lambda>_.
     if map_of files path \<noteq> None then fail (SE_Duplicate_Id F_Manifest)
     else pass (bt_insert path hash files)))))"

definition read_manifest ::
  "'v toml \<Rightarrow> (ledger_file \<Rightarrow> 'v option) \<Rightarrow> (spec_error, 'v manifest) run" where
  "read_manifest T tables =
     run_then (read_toml tables F_Manifest) (\<lambda>values.
     run_then (run_then (table_string T values ''archive_sha256'' F_Manifest) validate_hash) (\<lambda>_.
     run_then (run_then (table_string T values ''grammar_sha256'' F_Manifest) validate_hash) (\<lambda>_.
     run_then (table_records T values ''file'' F_Manifest) (\<lambda>records.
     run_then (fold_run (read_manifest_file T) records []) (\<lambda>files.
     pass \<lparr>mf_values = values, mf_files = files\<rparr>)))))"

definition manifest_string :: "'v toml \<Rightarrow> 'v manifest \<Rightarrow> string \<Rightarrow> (spec_error, ustr) run" where
  "manifest_string T m key = table_string T (mf_values m) key F_Manifest"

definition require_table_value ::
  "'v toml \<Rightarrow> 'v \<Rightarrow> ledger_file \<Rightarrow> string \<Rightarrow> ustr \<Rightarrow> (spec_error, unit) run" where
  "require_table_value T values path key expected =
     run_then (table_string T values key path) (\<lambda>found.
       reject_if (found \<noteq> expected) (SE_Must_Be path (ascii key) expected found))"

definition require_value ::
  "'v toml \<Rightarrow> 'v manifest \<Rightarrow> string \<Rightarrow> ustr \<Rightarrow> (spec_error, unit) run" where
  "require_value T m key expected =
     run_then (manifest_string T m key) (\<lambda>found.
       reject_if (found \<noteq> expected) (SE_Must_Be F_Manifest (ascii key) expected found))"

definition verify_table_count ::
  "'v toml \<Rightarrow> 'v \<Rightarrow> ledger_file \<Rightarrow> string \<Rightarrow> nat \<Rightarrow> (spec_error, unit) run" where
  "verify_table_count T values path key found =
     run_then
       (ok_or (SE_Missing path (ascii key))
          (Option.bind (toml_get T values (ascii key)) (as_integer T)))
       (\<lambda>expected. reject_if (\<not> (0 \<le> expected \<and> nat expected = found))
          (SE_Count path (ascii key) expected found))"

definition verify_count :: "'v toml \<Rightarrow> 'v manifest \<Rightarrow> string \<Rightarrow> nat \<Rightarrow> (spec_error, unit) run" where
  "verify_count T m key found = verify_table_count T (mf_values m) F_Manifest key found"

text \<open>The differences of the two sets of paths, in order, and the checksums in the order of the manifest.\<close>

definition compare_inventory ::
  "(ustr, ustr) btree \<Rightarrow> (ustr, ustr) btree \<Rightarrow> (spec_error, unit) run" where
  "compare_inventory expected actual =
     (let missing = filter (\<lambda>p. map_of actual p = None) (bt_keys expected);
        extra = filter (\<lambda>p. map_of expected p = None) (bt_keys actual)
      in
      run_then (reject_if (missing \<noteq> [] \<or> extra \<noteq> []) (SE_Inventory missing extra)) (\<lambda>_.
      for_each (\<lambda>(path, expected_hash).
          run_then (ok_or (SE_Manifest_File path) (map_of actual path)) (\<lambda>found.
            reject_if (found \<noteq> expected_hash) (SE_Checksum path expected_hash found)))
        expected))"

definition production_name :: "ustr \<Rightarrow> ustr option" where
  "production_name line =
     Option.bind (strip_suffix (ascii '' ::='') (trim_end line)) (\<lambda>line.
     Option.bind (strip_prefix (ascii ''<'') line) (strip_suffix (ascii ''>'')))"

definition production_names :: "ustr \<Rightarrow> ustr list" where
  "production_names bnf = List.map_filter production_name (str_lines bnf)"

section \<open>The commands\<close>

text \<open>
  The repository, as the commands read it: the parsed tables, the source files, the files below
  \<open>spec\<close>, and the inventory of a directory below \<open>spec\<close> with the SHA-256 digest of each file
  (\<open>inventory\<close>, \<open>walk\<close> and \<open>sha256_file\<close>), \<open>None\<close> where it cannot be made.
\<close>

record 'v repository =
  rp_toml :: "'v toml"
  rp_tables :: "ledger_file \<Rightarrow> 'v option"
  rp_source :: "ustr \<Rightarrow> ustr option"
  rp_spec :: spec_files
  rp_inventory :: "ustr \<Rightarrow> (ustr, ustr) btree option"
  rp_unicode :: unicode

definition pinned_release :: ustr where
  "pinned_release = ascii ''2024.3''"

definition pinned_commit :: ustr where
  "pinned_commit = ascii ''677cbafabb8c3c5eed458fd3b1ec0daec8d67d23''"

text \<open>The first half of \<open>verify\<close>, on the snapshot; it returns the path, the digest and the text of the grammar.\<close>

definition verify_snapshot :: "'v repository \<Rightarrow> (spec_error, ustr \<times> ustr \<times> ustr) run" where
  "verify_snapshot R =
     (let T = rp_toml R in
      run_then (read_manifest T (rp_tables R)) (\<lambda>m.
      run_then (require_value T m ''release'' pinned_release) (\<lambda>_.
      run_then (require_value T m ''tag'' pinned_release) (\<lambda>_.
      run_then (require_value T m ''commit'' pinned_commit) (\<lambda>_.
      run_then (manifest_string T m ''vendor_root'') (\<lambda>vendor_root.
      run_then (validate_relative_path vendor_root) (\<lambda>_.
      run_then (ok_or SE_Snapshot (rp_inventory R vendor_root)) (\<lambda>actual.
      run_then (compare_inventory (mf_files m) actual) (\<lambda>_.
      run_then (verify_count T m ''file_count'' (length actual)) (\<lambda>_.
      run_then (verify_count T m ''feature_file_count''
        (length (filter (\<lambda>p. strip_suffix (ascii ''.feature'') p \<noteq> None) (bt_keys actual)))) (\<lambda>_.
      run_then (verify_count T m ''graph_file_count''
        (length (filter (str_contains (ascii ''/tck/graphs/'')) (bt_keys actual)))) (\<lambda>_.
      let grammar_path = vendor_root @ ascii ''/grammar/openCypher.bnf'' in
      run_then (ok_or (SE_Missing_Grammar grammar_path) (map_of actual grammar_path)) (\<lambda>grammar_hash.
      run_then (require_value T m ''grammar_sha256'' grammar_hash) (\<lambda>_.
      run_then (ok_or (SE_Source grammar_path)
        (Option.bind (rp_spec R grammar_path) (\<lambda>contents. contents))) (\<lambda>bnf.
      run_then (verify_count T m ''production_count'' (length (production_names bnf))) (\<lambda>_.
      pass (grammar_path, grammar_hash, bnf)))))))))))))))))"

definition spec_verify :: "engine \<Rightarrow> grammar \<Rightarrow> 'v repository \<Rightarrow> (spec_error, unit) run" where
  "spec_verify engine g R =
     (let T = rp_toml R in
      run_then (verify_snapshot R) (\<lambda>(grammar_path, grammar_hash, bnf).
      run_then (read_traceability T (rp_tables R)) (\<lambda>tr.
      let values = pm_values (tr_map tr) in
      run_then (require_table_value T values F_Production_Map ''grammar'' grammar_path) (\<lambda>_.
      run_then (require_table_value T values F_Production_Map ''grammar_sha256'' grammar_hash) (\<lambda>_.
      run_then (verify_table_count T values F_Production_Map ''production_count''
        (length (production_names bnf))) (\<lambda>_.
      run_then (reject_if (map pn_name (pm_productions (tr_map tr)) \<noteq> production_names bnf)
        SE_Map_Order) (\<lambda>_.
      run_then (validate_traceability (rp_unicode R) T (rp_spec R) (rp_tables R) (rp_source R)
        (production_names bnf) tr) (\<lambda>_.
      execute_witnesses engine g (tr_witnesses tr)))))))))"

text \<open>What stands against a release; the messages are joined by \<open>"; "\<close>.\<close>

datatype (plugins only: code size) blocker = RB_Productions nat | RB_Assessment | RB_Open nat

definition release_blockers :: "'v toml \<Rightarrow> 'v traceability \<Rightarrow> blocker list option" where
  "release_blockers T tr =
     (let productions = pm_productions (tr_map tr);
        total = length productions;
        full = length (filter (\<lambda>p. pn_support p = s_full) productions);
        complete = (case table_bool T (pm_values (tr_map tr)) ''assessment_complete'' of
            Some (Inr b) \<Rightarrow> b | _ \<Rightarrow> False);
        opened = length (filter (\<lambda>d. dv_status d = s_open) (bt_values (tr_deviations tr)));
        blockers = (if total \<noteq> 377 \<or> full \<noteq> 377 then [RB_Productions full] else []) @
          (if \<not> complete then [RB_Assessment] else []) @ (if opened \<noteq> 0 then [RB_Open opened] else [])
      in if blockers = [] then None else Some blockers)"

section \<open>What verification establishes\<close>

lemma spec_verify_parts:
  assumes "spec_verify engine g R = Some (Inr ())"
    and "read_traceability (rp_toml R) (rp_tables R) = Some (Inr tr)"
  obtains grammar_path grammar_hash grammar where
    "verify_snapshot R = Some (Inr (grammar_path, grammar_hash, grammar))"
    "map pn_name (pm_productions (tr_map tr)) = production_names grammar"
    "validate_traceability (rp_unicode R) (rp_toml R) (rp_spec R) (rp_tables R) (rp_source R)
      (production_names grammar) tr = Some (Inr ())"
    "execute_witnesses engine g (tr_witnesses tr) = Some (Inr ())"
  using assms unfolding spec_verify_def Let_def case_prod_unfold
  by (auto simp: run_then_pass)

text \<open>What a witness of a production shows once it has been run.\<close>

definition demonstrated :: "engine \<Rightarrow> grammar \<Rightarrow> bool \<Rightarrow> witness \<Rightarrow> bool" where
  "demonstrated engine g positive w =
     (if wt_entrypoint w = s_parser
      then (if positive then (\<exists>v. parse engine g (wt_source w) = Some (Inr v))
            else (\<exists>errors. parse engine g (wt_source w) = Some (Inl errors)))
      else (\<exists>out. lex engine (wt_source w) = Some out \<and>
        map (\<lambda>t. kind_debug (token_kind t)) (lex_tokens out) = wt_tokens w \<and>
        (positive \<longrightarrow> lex_diagnostics out = [] \<and> T_Invalid \<notin> token_kind ` set (lex_tokens out))))"

lemma execute_parser_witness_pass:
  assumes "execute_parser_witness engine g w = Some (Inr ())"
  shows "(wt_expect w = s_accept \<longrightarrow> (\<exists>v. parse engine g (wt_source w) = Some (Inr v))) \<and>
    (wt_expect w = s_reject \<longrightarrow> (\<exists>e. parse engine g (wt_source w) = Some (Inl e)))"
proof (cases "parse engine g (wt_source w)")
  case None
  with assms show ?thesis by (simp add: execute_parser_witness_def)
next
  case (Some r)
  with assms show ?thesis by (cases r) (auto simp: execute_parser_witness_def)
qed

lemma execute_lexer_witness_pass:
  assumes "execute_lexer_witness engine w = Some (Inr ())"
  obtains out where "lex engine (wt_source w) = Some out"
    "map (\<lambda>t. kind_debug (token_kind t)) (lex_tokens out) = wt_tokens w"
    "map (\<lambda>d. code_as_str (diag_code d)) (lex_diagnostics out) = wt_diagnostics w"
  using assms
  by (auto simp: execute_lexer_witness_def bind_eq_Some_conv Let_def run_all_pass simp del: run_all.simps)

lemma execute_witness_demonstrates:
  assumes run: "execute_witness engine g w = Some (Inr ())" and shown: "case_shows positive w"
  shows "demonstrated engine g positive w"
proof (cases "wt_entrypoint w = s_parser")
  case True
  with run have "execute_parser_witness engine g w = Some (Inr ())" by (simp add: execute_witness_def)
  from execute_parser_witness_pass [OF this] True shown show ?thesis
    by (cases positive) (simp_all add: demonstrated_def case_shows_def)
next
  case False
  with shown have lexer: "wt_entrypoint w = s_lexer" by (simp add: case_shows_def)
  with run have "execute_lexer_witness engine w = Some (Inr ())" by (simp add: execute_witness_def)
  then obtain out where out: "lex engine (wt_source w) = Some out"
    "map (\<lambda>t. kind_debug (token_kind t)) (lex_tokens out) = wt_tokens w"
    "map (\<lambda>d. code_as_str (diag_code d)) (lex_diagnostics out) = wt_diagnostics w"
    by (rule execute_lexer_witness_pass)
  have "lex_diagnostics out = [] \<and> T_Invalid \<notin> token_kind ` set (lex_tokens out)" if positive
  proof -
    from shown False that have "ascii ''Invalid'' \<notin> set (wt_tokens w)" "wt_diagnostics w = []"
      by (simp_all add: case_shows_def)
    with out(2,3) show ?thesis by (auto simp flip: out(2) simp: image_iff)
  qed
  with out(1,2) False show ?thesis by (simp add: demonstrated_def)
qed

text \<open>
  A production is implemented: it is directly implemented, or a chain of aliases leads to one that
  is, whose targets are all declared in the sources.
\<close>

definition implemented :: "source_symbols \<Rightarrow> production list \<Rightarrow> production \<Rightarrow> bool" where
  "implemented symbols ps p =
     (\<exists>q\<in>set ps. (alias_edge (bt_collect (map (\<lambda>p. (pn_name p, p)) ps)))\<^sup>*\<^sup>* (pn_name p) (pn_name q) \<and>
        pn_mapping q = s_direct \<and> pn_targets q \<noteq> [] \<and> list_all (declared_target symbols) (pn_targets q))"

lemma implementedI:
  assumes names: "distinct (map pn_name ps)" and p: "p \<in> set ps" "pn_mapping p \<noteq> s_none"
    and ok: "\<forall>q\<in>set ps. production_ok names symbols W D q"
    and al: "pn_mapping p = s_alias \<Longrightarrow> alias_ok (bt_collect (map (\<lambda>p. (pn_name p, p)) ps)) p"
  shows "implemented symbols ps p"
proof -
  let ?P = "bt_collect (map (\<lambda>p. (pn_name p, p)) ps)"
  have direct: "pn_targets q \<noteq> [] \<and> list_all (declared_target symbols) (pn_targets q)"
    if "q \<in> set ps" "pn_mapping q = s_direct" for q
    using ok that by (auto simp: production_ok_def mapping_ok_def)
  have "pn_mapping p = s_direct \<or> pn_mapping p = s_alias"
    using ok p by (auto simp: production_ok_def mapping_ok_def split: if_splits)
  then show ?thesis
  proof
    assume "pn_mapping p = s_direct"
    with p(1) direct show ?thesis unfolding implemented_def by blast
  next
    assume "pn_mapping p = s_alias"
    then have "reaches_direct ?P (pn_name p)" using al by (simp add: alias_ok_def)
    then obtain m q where m: "(alias_edge ?P)\<^sup>*\<^sup>* (pn_name p) m" "map_of ?P m = Some q"
        "pn_mapping q = s_direct"
      by (auto simp: reaches_direct_def is_direct_def simp del: bt_get_collect)
    from m(2) have q: "q \<in> set ps" "pn_name q = m"
      by (simp_all add: by_name_lookup [OF names] del: bt_get_collect)
    with m direct show ?thesis unfolding implemented_def by blast
  qed
qed


text \<open>
  Nothing blocks a release exactly when all 377 productions of the pinned grammar are mapped and
  fully supported, the assessment is declared complete, and no deviation is open.
\<close>

lemma release_blockers_none:
  "release_blockers T tr = None \<longleftrightarrow>
     length (pm_productions (tr_map tr)) = 377 \<and>
     list_all (\<lambda>p. pn_support p = s_full) (pm_productions (tr_map tr)) \<and>
     table_bool T (pm_values (tr_map tr)) ''assessment_complete'' = Some (Inr True) \<and>
     list_all (\<lambda>d. dv_status d \<noteq> s_open) (bt_values (tr_deviations tr))"
proof -
  let ?ps = "pm_productions (tr_map tr)"
  have full: "length ?ps = 377 \<and> length (filter (\<lambda>p. pn_support p = s_full) ?ps) = 377 \<longleftrightarrow>
      length ?ps = 377 \<and> list_all (\<lambda>p. pn_support p = s_full) ?ps"
    by (metis filter_True list_all_iff length_filter_less less_irrefl)
  have opened: "length (filter (\<lambda>d. dv_status d = s_open) (bt_values (tr_deviations tr))) = 0 \<longleftrightarrow>
      list_all (\<lambda>d. dv_status d \<noteq> s_open) (bt_values (tr_deviations tr))"
    by (simp add: filter_empty_conv list_all_iff)
  have complete: "(case table_bool T (pm_values (tr_map tr)) ''assessment_complete'' of
      Some (Inr b) \<Rightarrow> b | _ \<Rightarrow> False) \<longleftrightarrow>
      table_bool T (pm_values (tr_map tr)) ''assessment_complete'' = Some (Inr True)"
    by (auto split: option.splits sum.splits)
  show ?thesis
    unfolding release_blockers_def Let_def using full opened complete
    by auto
qed

end
