(* ===== verification/Tck_Projection.thy ===== *)
theory Tck_Projection
  imports Tck_Blocks Spec_Gate
begin

text \<open>
  The projection of the TCK corpus (\<open>xtask/src/tck.rs\<close>): the ledger of reviews, the named graphs, the
  features in order, and the records of the queries and of their occurrences.
\<close>

section \<open>The corpus\<close>

text \<open>
  A file as the commands see it: its path, the path below \<open>spec\<close> with its components joined by \<open>/\<close>
  where it lies there, and its contents where they can be read.
\<close>

record corpus_file =
  cf_path :: ustr
  cf_relative :: "ustr option"
  cf_contents :: "ustr option"

text \<open>
  What is not under \<open>src\<close>, and the file system: the two ledgers as \<open>toml\<close> reads them, the files of a
  directory with an extension in the order of their paths, a file beside another, the \<open>gherkin\<close>
  parser, the JSON reader and the JSON writers of \<open>serde\<close>, SHA-256 of a text and the digest of the
  corpus.
\<close>

record corpus =
  cp_expectations :: "expectations_ledger option"
  cp_exclusions :: "exclusions_ledger option"
  cp_features :: "corpus_file list option"
  cp_metadata :: "corpus_file list option"
  cp_scripts :: "corpus_file list option"
  cp_sibling :: "ustr \<Rightarrow> ustr \<Rightarrow> corpus_file option"
  cp_gherkin :: "ustr \<Rightarrow> gherkin_feature option"
  cp_graph_json :: "ustr \<Rightarrow> graph_metadata option"
  cp_sha256 :: "nat list \<Rightarrow> ustr"
  cp_corpus_sha256 :: "ustr option"
  cp_header_json :: "header_record \<Rightarrow> ustr option"
  cp_query_json :: "query_record \<Rightarrow> ustr option"
  cp_occurrence_json :: "occurrence_record \<Rightarrow> ustr option"
  cp_generated :: "ustr option"

definition validate_spec_relative :: "ustr \<Rightarrow> (tck_error, unit) run" where
  "validate_spec_relative path =
     reject_if (path = [] \<or> starts_with [47] path \<or>
         list_ex (\<lambda>part. \<not> is_normal part) (path_components path) \<or>
         \<not> starts_with (ascii ''vendor/openCypher-2024.3/'') path)
       (TE_Spec_Path path)"

definition spec_relative :: "corpus_file \<Rightarrow> (tck_error, ustr) run" where
  "spec_relative f =
     run_then (ok_or (TE_Spec_Path (cf_path f)) (cf_relative f)) (\<lambda>path.
     run_then (validate_spec_relative path) (\<lambda>_. pass path))"

section \<open>Reviews\<close>

definition f_expectations :: ustr where "f_expectations = ascii ''spec/TCK_EXPECTATIONS.toml''"
definition f_exclusions :: ustr where "f_exclusions = ascii ''spec/TCK_EXCLUSIONS.toml''"

definition validate_ledger_header :: "ustr \<Rightarrow> nat \<Rightarrow> ustr \<Rightarrow> ustr \<Rightarrow> (tck_error, unit) run" where
  "validate_ledger_header ledger schema_version release commit =
     run_all
       [reject_if (schema_version \<noteq> 1) (TE_Schema ledger schema_version),
        reject_if (release \<noteq> pinned_release) (TE_Release ledger release),
        reject_if (commit \<noteq> pinned_commit) (TE_Commit ledger commit)]"

definition review_key_of :: "expectation_review \<Rightarrow> review_key" where
  "review_key_of r = (rv_feature r, rv_scenario_line r, rv_error_type r, rv_phase r, rv_detail r)"

definition read_review :: "expectation_review \<Rightarrow> reviews \<Rightarrow> (tck_error, reviews) run" where
  "read_review r m =
     run_then (validate_spec_relative (rv_feature r)) (\<lambda>_.
     run_then (reject_if (trim (rv_scenario r) = [] \<or> trim (rv_detail r) = [])
       (TE_Empty_Review (rv_feature r) (rv_scenario_line r))) (\<lambda>_.
     run_then (reject_if (rv_error_type r \<noteq> s_syntax_error \<or> rv_phase r \<noteq> s_compile_time)
       (TE_Not_Syntax_Error (rv_feature r) (rv_scenario_line r))) (\<lambda>_.
     if map_of m (review_key_of r) \<noteq> None then fail TE_Duplicate_Review
     else pass (bt_insert (review_key_of r) r m))))"

definition read_expectations :: "corpus \<Rightarrow> (tck_error, reviews) run" where
  "read_expectations C =
     run_then (ok_or (TE_Unreadable f_expectations) (cp_expectations C)) (\<lambda>ledger.
     run_then (validate_ledger_header f_expectations (el_schema_version ledger) (el_release ledger)
       (el_commit ledger)) (\<lambda>_.
     run_then (reject_if (el_entry_count ledger \<noteq> length (el_expectation ledger))
       (TE_Entry_Count f_expectations (el_entry_count ledger) (length (el_expectation ledger)))) (\<lambda>_.
     run_then (reject_if (el_entry_count ledger \<noteq> 156) (TE_Review_Total (el_entry_count ledger))) (\<lambda>_.
     fold_run read_review (el_expectation ledger) []))))"

definition validate_seen_reviews :: "reviews \<Rightarrow> (review_key, unit) btree \<Rightarrow> (tck_error, unit) run" where
  "validate_seen_reviews reviews seen =
     reject_if (bt_keys reviews \<noteq> bt_keys seen)
       (TE_Coverage (filter (\<lambda>k. k \<notin> set (bt_keys seen)) (bt_keys reviews))
         (filter (\<lambda>k. k \<notin> set (bt_keys reviews)) (bt_keys seen)))"

section \<open>Named graphs\<close>

definition validate_graph_script_name :: "ustr \<Rightarrow> (tck_error, unit) run" where
  "validate_graph_script_name name =
     reject_if (name = [] \<or> starts_with [47] name \<or>
         list_ex (\<lambda>part. \<not> is_normal part) (path_components name))
       (TE_Script_Name name)"

text \<open>One script of a graph: its statements, and its path among the scripts that are referred to.\<close>

type_synonym graph_state = "graph_statement list \<times> (ustr, unit) btree"

definition read_script ::
  "corpus \<Rightarrow> ustr \<Rightarrow> ustr \<Rightarrow> graph_state \<Rightarrow> (tck_error, graph_state) run" where
  "read_script C metadata_path script st =
     (case st of (statements, referenced) \<Rightarrow>
      run_then (validate_graph_script_name script) (\<lambda>_.
      let filename = (if strip_suffix (ascii ''.cypher'') script \<noteq> None then script
            else script @ ascii ''.cypher'') in
      run_then (ok_or (TE_Unreadable metadata_path) (cp_sibling C metadata_path filename)) (\<lambda>file.
      run_then (spec_relative file) (\<lambda>relative.
      run_then (ok_or (TE_Unreadable (cf_path file)) (cf_contents file)) (\<lambda>source.
      run_then (map_err (TE_Script (cf_path file)) (split_cypher_script source)) (\<lambda>split.
      run_then (reject_if (split = []) (TE_Empty_Script (cf_path file))) (\<lambda>_.
      pass (statements @ map (\<lambda>(line, s). \<lparr>gst_source_path = relative, gst_source_line = line,
              gst_source = s\<rparr>) split,
            bt_insert (cf_path file) () referenced))))))))"

type_synonym graphs = "(ustr, graph_fixture) btree"

definition read_graph ::
  "corpus \<Rightarrow> corpus_file \<Rightarrow> graphs \<times> (ustr, unit) btree \<Rightarrow> (tck_error, graphs \<times> (ustr, unit) btree) run" where
  "read_graph C file st =
     (case st of (graphs, referenced) \<Rightarrow>
      run_then (ok_or (TE_Unreadable (cf_path file)) (cf_contents file)) (\<lambda>source.
      run_then (ok_or (TE_Unreadable (cf_path file)) (cp_graph_json C source)) (\<lambda>metadata.
      run_then (reject_if (trim (gm_name metadata) = [] \<or> gm_scripts metadata = [])
        (TE_Graph_Metadata (cf_path file))) (\<lambda>_.
      run_then (fold_run (read_script C (cf_path file)) (gm_scripts metadata) ([], referenced))
        (\<lambda>(statements, referenced).
      if map_of graphs (gm_name metadata) \<noteq> None then fail (TE_Duplicate_Graph (gm_name metadata))
      else pass (bt_insert (gm_name metadata) statements graphs, referenced))))))"

definition read_graphs :: "corpus \<Rightarrow> (tck_error, graphs) run" where
  "read_graphs C =
     run_then (ok_or (TE_Unreadable (ascii ''graphs'')) (cp_metadata C)) (\<lambda>metadata_files.
     run_then (fold_run (read_graph C) metadata_files ([], [])) (\<lambda>(graphs, referenced).
     run_then (ok_or (TE_Unreadable (ascii ''graphs'')) (cp_scripts C)) (\<lambda>scripts.
     let actual = bt_collect (map (\<lambda>f. (cf_path f, ())) scripts) in
     run_then (reject_if (bt_keys actual \<noteq> bt_keys referenced)
       (TE_Graph_Inventory (filter (\<lambda>p. p \<notin> set (bt_keys referenced)) (bt_keys actual))
         (filter (\<lambda>p. p \<notin> set (bt_keys actual)) (bt_keys referenced)))) (\<lambda>_.
     pass graphs))))"

section \<open>Records\<close>

definition sort_pending_occurrences :: "pending_occurrence list \<Rightarrow> pending_occurrence list" where
  "sort_pending_occurrences ocs =
     sort_key (\<lambda>oc. (po_feature_path oc, po_scenario_line oc, unwrap_or_0 (po_example_index oc),
       unwrap_or_0 (po_example_line oc), po_sequence oc)) ocs"

text \<open>The map of the unique queries: the digest, with the text and the expectation.\<close>

type_synonym unique_queries = "(ustr, ustr \<times> expectation) btree"

definition add_query ::
  "(nat list \<Rightarrow> ustr) \<Rightarrow> pending_occurrence \<Rightarrow> unique_queries \<Rightarrow> (tck_error, unique_queries) run" where
  "add_query H oc unique =
     (let sha256 = H (as_bytes (po_source oc));
          new = pass (bt_insert sha256 (po_source oc, po_expectation oc) unique) in
      case map_of unique sha256 of
        Some (source, expectation) \<Rightarrow>
          if source \<noteq> po_source oc then fail (TE_Collision sha256)
          else if expectation \<noteq> po_expectation oc then fail (TE_Mixed_Expectations sha256)
          else new
      | None \<Rightarrow> new)"

definition query_id_of :: "ustr \<Rightarrow> ustr" where
  "query_id_of sha256 = ascii ''query:'' @ sha256"

definition make_query_record :: "ustr \<times> ustr \<times> expectation \<Rightarrow> query_record" where
  "make_query_record entry =
     (case entry of (sha256, source, expectation) \<Rightarrow>
        \<lparr>qr_id = query_id_of sha256, qr_sha256 = sha256, qr_source = source,
         qr_expectation = expectation\<rparr>)"

definition query_records ::
  "(nat list \<Rightarrow> ustr) \<Rightarrow> pending_occurrence list \<Rightarrow> (tck_error, query_record list) run" where
  "query_records H ocs =
     run_then (fold_run (add_query H) ocs []) (\<lambda>unique. pass (map make_query_record unique))"

definition make_occurrence_record :: "pending_occurrence \<Rightarrow> ustr \<Rightarrow> occurrence_record" where
  "make_occurrence_record oc query_id =
     \<lparr>oc_id = po_id oc, oc_query_id = query_id, oc_feature_path = po_feature_path oc,
      oc_feature = po_feature oc, oc_rule = po_rule oc, oc_scenario_template = po_scenario_template oc,
      oc_scenario = po_scenario oc, oc_scenario_line = po_scenario_line oc,
      oc_example_index = po_example_index oc, oc_example_line = po_example_line oc,
      oc_sequence = po_sequence oc, oc_role = po_role oc, oc_form = po_form oc,
      oc_source_path = po_source_path oc, oc_source_line = po_source_line oc, oc_tags = po_tags oc,
      oc_supplemental = list_ex (\<lambda>tag. tag = ascii ''ignore'') (po_tags oc),
      oc_expectation = po_expectation oc, oc_upstream_error = po_upstream_error oc\<rparr>"

text \<open>The record of an occurrence; a query that was not indexed is a panic.\<close>

definition occurrence_record_of ::
  "(nat list \<Rightarrow> ustr) \<Rightarrow> (ustr, ustr) btree \<Rightarrow> pending_occurrence \<Rightarrow> (tck_error, occurrence_record) run" where
  "occurrence_record_of H query_ids oc =
     Option.bind (map_of query_ids (H (as_bytes (po_source oc))))
       (\<lambda>query_id. pass (make_occurrence_record oc query_id))"

definition require_count :: "string \<Rightarrow> nat \<Rightarrow> nat \<Rightarrow> (tck_error, unit) run" where
  "require_count label expected actual =
     reject_if (expected \<noteq> actual) (TE_Count (ascii label) expected actual)"

definition validate_final_counts :: "header_record \<Rightarrow> (tck_error, unit) run" where
  "validate_final_counts h =
     run_all
       [require_count ''query occurrences'' 4882 (hd_occurrences h),
        require_count ''active query occurrences'' 4880 (hd_active_occurrences h),
        require_count ''@ignore supplemental query occurrences'' 2 (hd_supplemental_occurrences h),
        require_count ''accepted occurrences'' 4860 (hd_accept_occurrences h),
        require_count ''rejected occurrences'' 22 (hd_reject_occurrences h)]"

definition validate_projection_counts :: "projection_builder \<Rightarrow> (tck_error, unit) run" where
  "validate_projection_counts b =
     run_all
       [require_count ''feature files'' 220 (pb_feature_files b),
        require_count ''scenario templates'' 1615 (pb_scenario_templates b),
        require_count ''scenario outlines'' 276 (pb_scenario_outlines b),
        require_count ''expanded scenarios'' 3897 (pb_scenarios b)]"

definition make_header ::
  "projection_builder \<Rightarrow> ustr \<Rightarrow> query_record list \<Rightarrow> occurrence_record list \<Rightarrow> header_record" where
  "make_header b corpus_sha256 queries occurrences =
     (let accept = length (filter (\<lambda>oc. oc_expectation oc = EX_Accept) occurrences);
          supplemental = length (filter oc_supplemental occurrences) in
      \<lparr>hd_corpus_sha256 = corpus_sha256, hd_feature_files = pb_feature_files b,
       hd_scenario_templates = pb_scenario_templates b, hd_scenario_outlines = pb_scenario_outlines b,
       hd_scenarios = pb_scenarios b, hd_unique_queries = length queries,
       hd_occurrences = length occurrences, hd_active_occurrences = length occurrences - supplemental,
       hd_supplemental_occurrences = supplemental, hd_accept_occurrences = accept,
       hd_reject_occurrences = length occurrences - accept\<rparr>)"

definition finish_projection ::
  "(nat list \<Rightarrow> ustr) \<Rightarrow> projection_builder \<Rightarrow> ustr \<Rightarrow> (tck_error, projection) run" where
  "finish_projection H b corpus_sha256 =
     (let pending = sort_pending_occurrences (pb_occurrences b) in
      run_then (query_records H pending) (\<lambda>queries.
      let query_ids = bt_collect (map (\<lambda>q. (qr_sha256 q, qr_id q)) queries) in
      run_then (map_run (occurrence_record_of H query_ids) pending) (\<lambda>occurrences.
      let header = make_header b corpus_sha256 queries occurrences in
      run_then (validate_final_counts header) (\<lambda>_.
      pass \<lparr>pj_header = header, pj_queries = queries, pj_occurrences = occurrences\<rparr>))))"

section \<open>The whole projection\<close>

definition add_feature ::
  "corpus \<Rightarrow> reviews \<Rightarrow> graphs \<Rightarrow> corpus_file \<Rightarrow> projection_builder \<Rightarrow> (tck_error, projection_builder) run" where
  "add_feature C reviews graphs file b =
     run_then (ok_or (TE_Unreadable (cf_path file)) (cf_contents file)) (\<lambda>feature_source.
     run_then (ok_or (TE_Unreadable (cf_path file))
       (cp_gherkin C (gherkin_compatible_source feature_source))) (\<lambda>feature.
     run_then (spec_relative file) (\<lambda>feature_path.
     process_feature (b\<lparr>pb_feature_files := pb_feature_files b + 1\<rparr>) feature feature_path reviews graphs
       (str_lines feature_source))))"

definition build_projection :: "corpus \<Rightarrow> (tck_error, projection) run" where
  "build_projection C =
     run_then (read_expectations C) (\<lambda>reviews.
     run_then (read_graphs C) (\<lambda>graphs.
     run_then (ok_or (TE_Unreadable (ascii ''features'')) (cp_features C)) (\<lambda>files.
     run_then (ok_or (TE_Unreadable (ascii ''corpus'')) (cp_corpus_sha256 C)) (\<lambda>corpus_sha256.
     run_then (fold_run (add_feature C reviews graphs) files new_builder) (\<lambda>b.
     run_then (validate_seen_reviews reviews (pb_seen_reviews b)) (\<lambda>_.
     run_then (validate_projection_counts b) (\<lambda>_.
     finish_projection (cp_sha256 C) b corpus_sha256)))))))"

text \<open>One JSON record on each line.\<close>

definition json_line :: "ustr option \<Rightarrow> (tck_error, ustr) run" where
  "json_line json = run_then (ok_or TE_Json json) (\<lambda>text. pass (text @ [10]))"

definition render_projection :: "corpus \<Rightarrow> projection \<Rightarrow> (tck_error, ustr) run" where
  "render_projection C p =
     run_then (json_line (cp_header_json C (pj_header p))) (\<lambda>header.
     run_then (map_run (\<lambda>q. json_line (cp_query_json C q)) (pj_queries p)) (\<lambda>queries.
     run_then (map_run (\<lambda>oc. json_line (cp_occurrence_json C oc)) (pj_occurrences p)) (\<lambda>occurrences.
     pass (header @ concat queries @ concat occurrences))))"

definition verify_rendered :: "corpus \<Rightarrow> projection \<Rightarrow> (tck_error, unit) run" where
  "verify_rendered C p =
     run_then (render_projection C p) (\<lambda>expected.
     run_then (ok_or (TE_Unreadable (ascii ''spec/generated/TCK_SYNTAX.jsonl'')) (cp_generated C))
       (\<lambda>actual. reject_if (actual \<noteq> expected) TE_Stale))"

end
