(* ===== verification/Script_Grammar.thy ===== *)
theory Script_Grammar
  imports Cypher_Script
begin

text \<open>
  Which semicolons end the statements of a script: a grammar of quoted text, comments and pieces, and
  the proof that \<open>split_cypher_script\<close> follows it.
\<close>

section \<open>A grammar of scripts\<close>

text \<open>
  The rest of quoted text after its quote \<open>d\<close>, with the number of line feeds in it that no backslash
  precedes; and the rest of a quoted identifier, where a backtick is written twice.
\<close>

inductive quoted_rest :: "uchar \<Rightarrow> ustr \<Rightarrow> nat \<Rightarrow> bool" where
  close: "d \<noteq> 92 \<Longrightarrow> quoted_rest d [d] 0"
| escape: "quoted_rest d s k \<Longrightarrow> quoted_rest d (92 # c # s) k"
| plain: "quoted_rest d s k \<Longrightarrow> c \<noteq> 92 \<Longrightarrow> c \<noteq> d \<Longrightarrow> quoted_rest d (c # s) (k + of_bool (c = 10))"

inductive backtick_rest :: "ustr \<Rightarrow> bool" where
  close: "backtick_rest [96]"
| doubled: "backtick_rest s \<Longrightarrow> backtick_rest (96 # 96 # s)"
| plain: "backtick_rest s \<Longrightarrow> c \<noteq> 96 \<Longrightarrow> backtick_rest (c # s)"

text \<open>A stretch of a script that a statement cannot end in, with its line feeds.\<close>

inductive region :: "ustr \<Rightarrow> nat \<Rightarrow> bool" where
  plain: "c \<notin> {34, 39, 59, 96} \<Longrightarrow> region [c] (of_bool (c = 10))"
| quoted: "d \<in> {34, 39} \<Longrightarrow> quoted_rest d s k \<Longrightarrow> region (d # s) k"
| backtick: "backtick_rest s \<Longrightarrow> region (96 # s) (count_list s 10)"
| line_comment: "10 \<notin> set s \<Longrightarrow> region (47 # 47 # s @ [10]) 1"
| block_comment: "comment_tail 1 s \<Longrightarrow> region (47 # 42 # s) (count_list s 10)"

text \<open>The marks of comments and doubled backticks are not taken apart.\<close>

definition follows :: "ustr \<Rightarrow> ustr \<Rightarrow> bool" where
  "follows r s = (s = [] \<or> (r = [47] \<longrightarrow> hd s \<notin> {42, 47}) \<and> (hd r = 96 \<longrightarrow> hd s \<noteq> 96))"

text \<open>
  \<open>script n s p rest\<close>: the text \<open>s\<close>, whose first line has the number \<open>n\<close>, is the piece \<open>p\<close> and then,
  each after a semicolon with its line number, the pieces \<open>rest\<close>.
\<close>

inductive script :: "nat \<Rightarrow> ustr \<Rightarrow> ustr \<Rightarrow> (nat \<times> ustr) list \<Rightarrow> bool" where
  finish: "script n [] [] []"
| last_comment: "10 \<notin> set s \<Longrightarrow> script n (47 # 47 # s) (47 # 47 # s) []"
| semicolon: "script n s p rest \<Longrightarrow> script n (59 # s) [] ((n, p) # rest)"
| region: "region r k \<Longrightarrow> follows r s \<Longrightarrow> script (n + k) s p rest \<Longrightarrow> script n (r @ s) (r @ p) rest"

lemma extend_extend [simp]: "extend r (extend q x) = extend (r @ q) x"
  by (simp add: extend_def split: prod.split)

lemma extend_Nil [simp]: "extend [] x = x"
  by (simp add: extend_def split: prod.split)

lemma scan_quoted:
  "quoted_rest d r k \<Longrightarrow> d = 34 \<or> d = 39 \<Longrightarrow>
     scan (quote_state d) n (r @ s) = extend r (scan SS_Normal (n + k) s)"
proof (induction arbitrary: n rule: quoted_rest.induct)
  case (plain d r k c)
  then show ?case by (auto simp: quote_state_def add.assoc add.commute [of k])
qed (auto simp: quote_state_def)

lemma scan_backtick:
  "backtick_rest r \<Longrightarrow> s = [] \<or> hd s \<noteq> 96 \<Longrightarrow>
     scan SS_Backtick n (r @ s) = extend r (scan SS_Normal (n + count_list r 10) s)"
proof (induction arbitrary: n rule: backtick_rest.induct)
  case (plain r c)
  then show ?case by (cases "c = 10") simp_all
qed auto

lemma scan_line_comment:
  "10 \<notin> set r \<Longrightarrow> scan SS_LineComment n (r @ 10 # s) = extend (r @ [10]) (scan SS_Normal (n + 1) s)"
  "10 \<notin> set r \<Longrightarrow> scan SS_LineComment n r = (SS_LineComment, r, [])"
  by (induction r) (auto simp: extend_def split: prod.split)

definition comment_state :: "nat \<Rightarrow> script_state" where
  "comment_state depth = (if depth = 0 then SS_Normal else SS_BlockComment depth)"

lemma scan_block_comment:
  "comment_tail depth r \<Longrightarrow>
     scan (comment_state depth) n (r @ s) = extend r (scan SS_Normal (n + count_list r 10) s)"
proof (induction arbitrary: n rule: comment_tail.induct)
  case (other m d p c)
  then show ?case by (cases "c = 10") (auto simp: comment_state_def simp del: scan.simps(1))
qed (auto simp: comment_state_def)

lemma scan_region:
  assumes "region r k" and "follows r s"
  shows "scan SS_Normal n (r @ s) = extend r (scan SS_Normal (n + k) s)"
  using assms
proof (induction rule: region.induct)
  case (plain c)
  then show ?case by (auto simp: follows_def opened_def)
next
  case (quoted d r k)
  then show ?case using scan_quoted [of d r k n s] by (auto simp: opened_def quote_state_def)
next
  case (backtick r)
  then show ?case using scan_backtick [of r s n] by (auto simp: opened_def follows_def)
next
  case (line_comment r)
  then show ?case by (simp add: scan_line_comment)
next
  case (block_comment r)
  then show ?case using scan_block_comment [of 1 r n s] by (simp add: comment_state_def)
qed

lemma script_scan: "script n s p rest \<Longrightarrow> \<exists>f. scan SS_Normal n s = (f, p, rest) \<and> unterminated f = None"
proof (induction rule: script.induct)
  case (last_comment s n)
  then show ?case by (simp add: scan_line_comment extend_def unterminated_def)
next
  case (region r k s n p rest)
  then show ?case by (auto simp: scan_region extend_def)
qed (auto simp: unterminated_def)

text \<open>Conversely, a scan that ends between statements has left every region it entered.\<close>

definition left_by :: "(ustr \<Rightarrow> nat \<Rightarrow> ustr \<Rightarrow> bool) \<Rightarrow> nat \<Rightarrow> ustr \<Rightarrow> pieces \<Rightarrow> bool" where
  "left_by R n s x = (\<exists>r k s'. R r k s' \<and> s = r @ s' \<and> x = extend r (scan SS_Normal (n + k) s'))"

lemma left_by_extend:
  assumes "left_by R (n + j) s x" and "\<And>r k s'. R r k s' \<Longrightarrow> R' (q @ r) (j + k) s'"
  shows "left_by R' n (q @ s) (extend q x)"
proof -
  obtain r k s' where r: "R r k s'" "s = r @ s'" "x = extend r (scan SS_Normal (n + j + k) s')"
    using assms(1) by (auto simp: left_by_def)
  then have "R' (q @ r) (j + k) s' \<and> q @ s = (q @ r) @ s' \<and>
      extend q x = extend (q @ r) (scan SS_Normal (n + (j + k)) s')"
    using assms(2) by (simp add: add.assoc)
  then show ?thesis unfolding left_by_def by blast
qed

lemma left_byI: "R r k s' \<Longrightarrow> left_by R n (r @ s') (extend r (scan SS_Normal (n + k) s'))"
  unfolding left_by_def by blast

lemma unterminated_extend [simp]: "fst (extend r x) = fst x"
  by (simp add: extend_def split: prod.split)

lemma unterminated_simps [simp]:
  "unterminated SS_SingleQuote = Some SE_SingleQuote" "unterminated SS_DoubleQuote = Some SE_DoubleQuote"
  "unterminated SS_Backtick = Some SE_Backtick" "unterminated (SS_BlockComment n) = Some SE_BlockComment"
  "unterminated SS_Normal = None" "unterminated SS_LineComment = None"
  by (simp_all add: unterminated_def)

lemma leave_quote:
  "unterminated (fst (scan (quote_state d) n s)) = None \<Longrightarrow> d = 34 \<or> d = 39 \<Longrightarrow>
     left_by (\<lambda>r k _. quoted_rest d r k) n s (scan (quote_state d) n s)"
proof (induction "length s" arbitrary: n s rule: less_induct)
  case less
  show ?case
  proof (cases s)
    case Nil
    with less.prems show ?thesis by (auto simp: quote_state_def split: if_splits)
  next
    case (Cons c s0)
    consider (last) "c = 92" "s0 = []" | (escape) e s1 where "c = 92" "s0 = e # s1"
      | (close) "c = d" | (plain) "c \<noteq> 92" "c \<noteq> d"
      by (cases "c = 92"; cases s0; auto)
    then show ?thesis
    proof cases
      case last
      with less.prems Cons show ?thesis by (auto simp: quote_state_def split: if_splits)
    next
      case escape
      have scanned: "scan (quote_state d) n s = extend [92, e] (scan (quote_state d) n s1)"
        using escape Cons by (simp add: quote_state_def)
      with less.prems have "left_by (\<lambda>r k _. quoted_rest d r k) (n + 0) s1 (scan (quote_state d) n s1)"
        by (simp add: less.hyps escape Cons)
      from left_by_extend [OF this, where R' = "\<lambda>r k _. quoted_rest d r k" and q = "[92, e]"]
      show ?thesis unfolding scanned by (simp add: Cons escape quoted_rest.escape)
    next
      case close
      with less.prems(2) have "scan (quote_state d) n s = extend [d] (scan SS_Normal (n + 0) s0)"
        by (auto simp: quote_state_def Cons)
      then show ?thesis
        using left_byI [of "\<lambda>r k _. quoted_rest d r k" "[d]" 0 s0 n] close Cons less.prems(2)
          quoted_rest.close [of d] by auto
    next
      case plain
      have scanned: "scan (quote_state d) n s = extend [c] (scan (quote_state d) (n + of_bool (c = 10)) s0)"
        using plain Cons less.prems(2) by (auto simp: quote_state_def)
      with less.prems have "left_by (\<lambda>r k _. quoted_rest d r k) (n + of_bool (c = 10)) s0
          (scan (quote_state d) (n + of_bool (c = 10)) s0)"
        by (intro less.hyps) (simp_all add: Cons)
      from left_by_extend [OF this, where R' = "\<lambda>r k _. quoted_rest d r k" and q = "[c]"]
      show ?thesis unfolding scanned using quoted_rest.plain plain by (simp add: Cons add.commute)
    qed
  qed
qed

lemma leave_backtick:
  "unterminated (fst (scan SS_Backtick n s)) = None \<Longrightarrow>
     left_by (\<lambda>r k s'. backtick_rest r \<and> k = count_list r 10 \<and> (s' = [] \<or> hd s' \<noteq> 96)) n s
       (scan SS_Backtick n s)" (is "_ \<Longrightarrow> left_by ?R _ _ _")
proof (induction "length s" arbitrary: n s rule: less_induct)
  case less
  show ?case
  proof (cases s)
    case (Cons c s0)
    consider (doubled) s1 where "c = 96" "s0 = 96 # s1" | (close) "c = 96" "s0 = [] \<or> hd s0 \<noteq> 96"
      | (plain) "c \<noteq> 96"
      by (cases s0) auto
    then show ?thesis
    proof cases
      case doubled
      with less.prems Cons have "left_by ?R (n + 0) s1 (scan SS_Backtick n s1)"
        by (simp add: less.hyps)
      from left_by_extend [OF this, where R' = ?R and q = "[96, 96]"]
      show ?thesis by (simp add: Cons doubled backtick_rest.doubled)
    next
      case close
      then show ?thesis
        using left_byI [of ?R "[96]" 0 s0 n] Cons by (auto intro: backtick_rest.close)
    next
      case plain
      with less.prems Cons have "left_by ?R (n + of_bool (c = 10)) s0
          (scan SS_Backtick (n + of_bool (c = 10)) s0)"
        by (intro less.hyps) simp_all
      from left_by_extend [OF this, where R' = ?R and q = "[c]"]
      show ?thesis using plain by (auto simp: Cons backtick_rest.plain)
    qed
  qed (use less.prems in simp)
qed

lemma leave_block_comment:
  "unterminated (fst (scan (comment_state depth) n s)) = None \<Longrightarrow>
     left_by (\<lambda>r k _. comment_tail depth r \<and> k = count_list r 10) n s (scan (comment_state depth) n s)"
proof (induction "length s" arbitrary: depth n s rule: less_induct)
  case less
  let ?R = "\<lambda>depth r k _. comment_tail depth r \<and> k = count_list r 10"
  show ?case
  proof (cases depth)
    case 0
    then show ?thesis
      using left_byI [of "?R 0" "[]" 0 s n] comment_tail.closed by (simp add: comment_state_def)
  next
    case (Suc m)
    consider "s = []" | c where "s = [c]" | (opens) s0 where "s = 47 # 42 # s0" | (closes) s0 where "s = 42 # 47 # s0"
      | (other) c d s0 where "s = c # d # s0" "\<not> (c = 47 \<and> d = 42)" "\<not> (c = 42 \<and> d = 47)"
      by (metis neq_Nil_conv)
    then show ?thesis
    proof cases
      case opens
      have "left_by (?R (Suc (Suc m))) n s0 (scan (comment_state (Suc (Suc m))) n s0)"
        using less.prems Suc opens by (intro less.hyps) (simp_all add: comment_state_def)
      then have "left_by (?R (Suc (Suc m))) (n + 0) s0 (scan (comment_state (Suc (Suc m))) n s0)" by simp
      from left_by_extend [OF this, where R' = "?R depth" and q = "[47, 42]"]
      show ?thesis by (simp add: opens Suc comment_state_def comment_tail.opens)
    next
      case closes
      have scanned: "scan (comment_state depth) n s = extend [42, 47] (scan (comment_state m) n s0)"
        by (simp add: closes Suc comment_state_def)
      with less.prems closes have "left_by (?R m) (n + 0) s0 (scan (comment_state m) n s0)"
        by (simp add: less.hyps)
      from left_by_extend [OF this, where R' = "?R depth" and q = "[42, 47]"]
      show ?thesis unfolding scanned by (simp add: closes Suc comment_tail.closes)
    next
      case other
      have scanned: "scan (comment_state depth) n s =
          extend [c] (scan (comment_state depth) (n + of_bool (c = 10)) (d # s0))"
        using other by (auto simp: Suc comment_state_def simp del: scan.simps(7)) (subst scan.simps, auto)+
      with less.prems other have IH: "left_by (?R depth) (n + of_bool (c = 10)) (d # s0)
          (scan (comment_state depth) (n + of_bool (c = 10)) (d # s0))"
        by (intro less.hyps) simp_all
      then obtain r k s' where r: "comment_tail depth r" "k = count_list r 10" "d # s0 = r @ s'"
        "scan (comment_state depth) (n + of_bool (c = 10)) (d # s0) =
          extend r (scan SS_Normal (n + of_bool (c = 10) + k) s')"
        by (auto simp: left_by_def)
      from r(1) Suc have "r \<noteq> []" by (auto elim: comment_tail.cases)
      with r(3) obtain r' where r': "r = d # r'" by (cases r) auto
      have "comment_tail depth (c # r)"
        using r(1) other(2,3) comment_tail.other unfolding r' Suc by blast
      then have "?R depth (c # r) (of_bool (c = 10) + k) s'" using r(2) by simp
      from left_byI [of "?R depth", OF this, of n]
      have "left_by (?R depth) n (c # d # s0)
          (extend (c # r) (scan SS_Normal (n + (of_bool (c = 10) + k)) s'))"
        using r(3) by simp
      then show ?thesis unfolding scanned r(4) by (simp add: other(1) add.assoc)
    qed (use less.prems Suc in \<open>auto simp: comment_state_def\<close>)
  qed
qed

lemma leave_line_comment:
  "scan SS_LineComment n s = (SS_LineComment, s, []) \<and> 10 \<notin> set s \<or>
   left_by (\<lambda>r k _. \<exists>q. 10 \<notin> set q \<and> r = q @ [10] \<and> k = 1) n s (scan SS_LineComment n s)"
proof (cases "10 \<in> set s")
  case True
  then obtain q s' where q: "s = q @ 10 # s'" "10 \<notin> set q" by (meson split_list_first)
  then show ?thesis
    using left_byI [of "\<lambda>r k _. \<exists>q. 10 \<notin> set q \<and> r = q @ [10] \<and> k = 1" "q @ [10]" 1 s' n]
    by (simp add: scan_line_comment)
qed (simp add: scan_line_comment)

text \<open>What stands at the start of a text that is read between regions.\<close>

lemma region_first:
  assumes "unterminated (fst (scan SS_Normal n s)) = None" and "s \<noteq> []" and "hd s \<noteq> 59"
  shows "(\<exists>q. 10 \<notin> set q \<and> s = 47 # 47 # q) \<or>
    (\<exists>r k s'. region r k \<and> follows r s' \<and> r \<noteq> [] \<and> s = r @ s' \<and>
       scan SS_Normal n s = extend r (scan SS_Normal (n + k) s'))"
proof -
  have regionI: ?thesis if "region (q @ r) k" "follows (q @ r) s'" "q \<noteq> []" "s = q @ r @ s'"
      "scan SS_Normal n s = extend q (extend r (scan SS_Normal (n + k) s'))" for q r k s'
    using that by (intro disjI2 exI [of _ "q @ r"] exI [of _ k] exI [of _ s']) simp
  obtain c s0 where s: "s = c # s0" using assms(2) by (cases s) auto
  with assms(3) have c: "c \<noteq> 59" by simp
  consider (line) s1 where "c = 47" "s0 = 47 # s1" | (block) s1 where "c = 47" "s0 = 42 # s1"
    | (quote) "c = 34 \<or> c = 39" | (tick) "c = 96"
    | (plain) "c \<notin> {34, 39, 59, 96}" "\<not> (c = 47 \<and> s0 \<noteq> [] \<and> (hd s0 = 47 \<or> hd s0 = 42))"
    using c by (cases s0) auto
  then show ?thesis
  proof cases
    case line
    from leave_line_comment [of n s1] show ?thesis
    proof
      assume "left_by (\<lambda>r k _. \<exists>q. 10 \<notin> set q \<and> r = q @ [10] \<and> k = 1) n s1 (scan SS_LineComment n s1)"
      then obtain q s' where "10 \<notin> set q" "s1 = (q @ [10]) @ s'"
        "scan SS_LineComment n s1 = extend (q @ [10]) (scan SS_Normal (n + 1) s')"
        unfolding left_by_def by blast
      then show ?thesis using line s region.line_comment [of q]
        by (intro regionI [of "[47, 47]" "q @ [10]" 1 s']) (auto simp: follows_def)
    qed (use line s in auto)
  next
    case block
    then have scanned: "scan SS_Normal n s = extend [47, 42] (scan (comment_state 1) n s1)"
      by (simp add: s comment_state_def)
    from leave_block_comment [of 1 n s1] assms(1) obtain r s' where
      "comment_tail 1 r" "s1 = r @ s'"
      "scan (comment_state 1) n s1 = extend r (scan SS_Normal (n + count_list r 10) s')"
      by (auto simp: scanned left_by_def)
    then show ?thesis using block s scanned region.block_comment [of r]
      by (intro regionI [of "[47, 42]" r "count_list r 10" s']) (auto simp: follows_def)
  next
    case quote
    then have scanned: "scan SS_Normal n s = extend [c] (scan (quote_state c) n s0)"
      by (auto simp: s opened_def quote_state_def)
    from leave_quote [of c n s0] assms(1) quote obtain r k s' where
      "quoted_rest c r k" "s0 = r @ s'" "scan (quote_state c) n s0 = extend r (scan SS_Normal (n + k) s')"
      by (auto simp: scanned left_by_def)
    then show ?thesis using quote s scanned region.quoted [of c r k]
      by (intro regionI [of "[c]" r k s']) (auto simp: follows_def)
  next
    case tick
    then have scanned: "scan SS_Normal n s = extend [c] (scan SS_Backtick n s0)"
      by (simp add: s opened_def)
    from leave_backtick [of n s0] assms(1) obtain r s' where
      "backtick_rest r" "s0 = r @ s'" "s' = [] \<or> hd s' \<noteq> 96"
      "scan SS_Backtick n s0 = extend r (scan SS_Normal (n + count_list r 10) s')"
      by (auto simp: scanned left_by_def)
    then show ?thesis using tick s scanned region.backtick [of r]
      by (intro regionI [of "[c]" r "count_list r 10" s']) (auto simp: follows_def)
  next
    case plain
    then have "scan SS_Normal n s = extend [c] (scan SS_Normal (n + of_bool (c = 10)) s0)"
      by (auto simp: s opened_def)
    with plain s show ?thesis using region.plain [of c]
      by (intro regionI [of "[c]" "[]" "of_bool (c = 10)" s0]) (auto simp: follows_def)
  qed
qed

lemma scan_script:
  "scan SS_Normal n s = (f, p, rest) \<Longrightarrow> unterminated f = None \<Longrightarrow> script n s p rest"
proof (induction "length s" arbitrary: n s p rest rule: less_induct)
  case less
  consider "s = []" | (semicolon) s0 where "s = 59 # s0" | (other) "s \<noteq> []" "hd s \<noteq> 59"
    by (cases s) auto
  then show ?case
  proof cases
    case 1
    with less.prems show ?thesis by (simp add: script.finish)
  next
    case semicolon
    with less.prems obtain p' rest' where "scan SS_Normal n s0 = (f, p', rest')" "p = []" "rest = (n, p') # rest'"
      by (auto split: prod.splits)
    with less semicolon show ?thesis by (simp add: script.semicolon)
  next
    case other
    with less.prems region_first [of n s] consider (comment) q where "10 \<notin> set q" "s = 47 # 47 # q"
      | (region) r k s' where "region r k" "follows r s'" "r \<noteq> []" "s = r @ s'"
        "scan SS_Normal n s = extend r (scan SS_Normal (n + k) s')"
      by fastforce
    then show ?thesis
    proof cases
      case comment
      with less.prems script.last_comment [OF comment(1), of n] show ?thesis
        by (auto simp: scan_line_comment extend_def)
    next
      case region
      with less.prems(1) obtain p' where "scan SS_Normal (n + k) s' = (f, p', rest)" "p = r @ p'"
        by (metis extend_eq)
      with less.hyps [of s' "n + k" p' rest] less.prems(2) region show ?thesis
        by (simp add: script.region)
    qed
  qed
qed

lemma split_cypher_script_result:
  "split_cypher_script source \<noteq> None"
  "split_cypher_script source = Some (Inr statements) \<longleftrightarrow>
     (\<exists>p rest. script 1 (normalize_newlines source) p rest \<and> statements = numbered ((1, p) # rest))"
proof -
  obtain f p rest where scanned: "scan SS_Normal 1 (normalize_newlines source) = (f, p, rest)"
    by (rule prod_cases3)
  note split = split_cypher_script_scan [OF scanned]
  then show "split_cypher_script source \<noteq> None" by (simp split: option.splits)
  show "split_cypher_script source = Some (Inr statements) \<longleftrightarrow>
     (\<exists>p rest. script 1 (normalize_newlines source) p rest \<and> statements = numbered ((1, p) # rest))"
  proof
    assume "split_cypher_script source = Some (Inr statements)"
    then have "unterminated f = None" "statements = numbered ((1, p) # rest)"
      unfolding split by (auto split: option.splits)
    with scan_script [OF scanned] show "\<exists>p rest. script 1 (normalize_newlines source) p rest \<and>
        statements = numbered ((1, p) # rest)" by blast
  next
    assume "\<exists>p rest. script 1 (normalize_newlines source) p rest \<and> statements = numbered ((1, p) # rest)"
    then obtain p' rest' where s: "script 1 (normalize_newlines source) p' rest'"
      "statements = numbered ((1, p') # rest')" by blast
    from script_scan [OF s(1)] scanned have "unterminated f = None" "p' = p" "rest' = rest" by auto
    with split s(2) show "split_cypher_script source = Some (Inr statements)" by simp
  qed
qed

text \<open>
  C21: cutting a script never panics. It succeeds exactly when the text, with its line ends
  normalised, is pieces separated by semicolons in which quoted text, quoted identifiers and comments
  are closed, and then it returns the trimmed pieces that are not empty, with their lines, in order.
\<close>

theorem split_cypher_script_iff:
  "split_cypher_script source \<noteq> None \<and>
   (split_cypher_script source = Some (Inr statements) \<longleftrightarrow>
      (\<exists>p rest. script 1 (normalize_newlines source) p rest \<and> statements = numbered ((1, p) # rest)))"
  using split_cypher_script_result(1) [of source] split_cypher_script_result(2) [of source statements]
  by blast

text \<open>The pieces and their semicolons are the whole text.\<close>

lemma script_lossless: "script n s p rest \<Longrightarrow> s = p @ concat (map (\<lambda>(_, q). 59 # q) rest)"
  by (induction rule: script.induct) auto

text \<open>
  The line of a statement. The loop means to move it past line feeds before the statement, but its test
  \<open>start == index + 1\<close> holds of no line feed: what is before \<open>start\<close> is a semicolon. So the statement
  \<open>B\<close>, on the second line, is reported on the first; and a line feed after a backslash is not counted.
\<close>

lemma script_char: "c \<notin> {34, 39, 47, 59, 96} \<Longrightarrow> script (n + of_bool (c = 10)) s p rest \<Longrightarrow>
    script n (c # s) (c # p) rest"
  using script.region [OF region.plain [of c], of s n p rest] by (auto simp: follows_def)

lemma start_line_of_semicolon:
  "split_cypher_script (ascii ''A;'' @ 10 # ascii ''B'') = Some (Inr [(1, ascii ''A''), (1, ascii ''B'')])"
proof -
  have "script 1 [10, 66] [10, 66] []"
    by (intro script_char script.finish) simp_all
  then have "script 1 (59 # [10, 66]) [] [(1, [10, 66])]" by (rule script.semicolon)
  then have "script 1 [65, 59, 10, 66] [65] [(1, [10, 66])]"
    by (intro script_char) simp_all
  moreover have "normalize_newlines (ascii ''A;'' @ 10 # ascii ''B'') = [65, 59, 10, 66]"
    by (simp add: normalize_newlines_def)
  moreover have "numbered [(1, [65]), (1, [10, 66])] = [(1, ascii ''A''), (1, ascii ''B'')]"
    by (simp add: trimmed_statement_def Let_def trim_def trim_end_def trim_start_def char_is_whitespace_def)
  ultimately show ?thesis
    unfolding split_cypher_script_result(2) by metis
qed

lemma escaped_line_not_counted: "quoted_rest 39 (92 # 10 # [39]) 0"
  by (rule quoted_rest.escape) (simp add: quoted_rest.close)

end
