(* ===== verification/Tck_Records.thy ===== *)
theory Tck_Records
  imports Tck_Projection Script_Grammar
begin

text \<open>
  What the projection establishes: no step of it panics, its features add well-formed blocks of
  occurrences, and its records index every query once, with one expectation.
\<close>

section \<open>The unique queries\<close>

definition query_key :: "(nat list \<Rightarrow> ustr) \<Rightarrow> pending_occurrence \<Rightarrow> ustr" where
  "query_key H oc = H (as_bytes (po_source oc))"

definition query_value :: "pending_occurrence \<Rightarrow> ustr \<times> expectation" where
  "query_value oc = (po_source oc, po_expectation oc)"

definition query_entry :: "(nat list \<Rightarrow> ustr) \<Rightarrow> pending_occurrence \<Rightarrow> ustr \<times> ustr \<times> expectation" where
  "query_entry H oc = (query_key H oc, query_value oc)"

text \<open>Occurrences with one digest have one text and one expectation.\<close>

definition consistent :: "(nat list \<Rightarrow> ustr) \<Rightarrow> pending_occurrence list \<Rightarrow> bool" where
  "consistent H ocs =
     (\<forall>a\<in>set ocs. \<forall>b\<in>set ocs. query_key H a = query_key H b \<longrightarrow> query_value a = query_value b)"

lemma consistent_Cons:
  "consistent H (oc # ocs) \<longleftrightarrow> consistent H ocs \<and>
     (\<forall>b\<in>set ocs. query_key H b = query_key H oc \<longrightarrow> query_value b = query_value oc)"
proof
  assume "consistent H ocs \<and> (\<forall>b\<in>set ocs. query_key H b = query_key H oc \<longrightarrow> query_value b = query_value oc)"
  then show "consistent H (oc # ocs)"
    unfolding consistent_def by (intro ballI impI) (metis set_ConsD)
next
  assume "consistent H (oc # ocs)"
  then show "consistent H ocs \<and> (\<forall>b\<in>set ocs. query_key H b = query_key H oc \<longrightarrow> query_value b = query_value oc)"
    unfolding consistent_def by (meson list.set_intros)
qed

lemma add_query_pass:
  "add_query H oc m = Some (Inr m') \<longleftrightarrow>
     (\<forall>v. map_of m (query_key H oc) = Some v \<longrightarrow> v = query_value oc) \<and>
     m' = bt_insert (query_key H oc) (query_value oc) m"
  by (auto simp: add_query_def Let_def query_key_def query_value_def split: option.splits if_splits)

lemma add_query_returns [returns_intros]: "returns (add_query H oc m)"
  by (auto simp: add_query_def Let_def split: option.split)

lemma add_queries_pass:
  "fold_run (add_query H) ocs m = Some (Inr m') \<longleftrightarrow>
     (\<forall>oc\<in>set ocs. \<forall>v. map_of m (query_key H oc) = Some v \<longrightarrow> v = query_value oc) \<and>
     consistent H ocs \<and> m' = fold (\<lambda>(k, v). bt_insert k v) (map (query_entry H) ocs) m"
proof (induction ocs arbitrary: m)
  case Nil
  then show ?case by (auto simp: consistent_def)
next
  case (Cons oc ocs)
  let ?k = "query_key H oc" and ?v = "query_value oc"
  let ?fits = "\<lambda>m oc. \<forall>v. map_of m (query_key H oc) = Some v \<longrightarrow> v = query_value oc"
  have later: "?fits m oc \<Longrightarrow> (\<forall>b\<in>set ocs. ?fits (bt_insert ?k ?v m) b) \<longleftrightarrow>
      (\<forall>b\<in>set ocs. ?fits m b) \<and> (\<forall>b\<in>set ocs. query_key H b = ?k \<longrightarrow> query_value b = ?v)"
  proof -
    assume first: "?fits m oc"
    have "?fits (bt_insert ?k ?v m) b \<longleftrightarrow>
        ?fits m b \<and> (query_key H b = ?k \<longrightarrow> query_value b = ?v)" for b
      using first by (cases "query_key H b = ?k") auto
    then show ?thesis by blast
  qed
  have "fold_run (add_query H) (oc # ocs) m = Some (Inr m') \<longleftrightarrow>
      ?fits m oc \<and> fold_run (add_query H) ocs (bt_insert ?k ?v m) = Some (Inr m')"
    by (simp add: run_then_pass add_query_pass)
  also have "\<dots> \<longleftrightarrow> ?fits m oc \<and> (\<forall>b\<in>set ocs. ?fits m b) \<and> consistent H (oc # ocs) \<and>
      m' = fold (\<lambda>(k, v). bt_insert k v) (map (query_entry H) (oc # ocs)) m"
  proof (cases "?fits m oc")
    case True
    show ?thesis
      unfolding Cons.IH later [OF True] consistent_Cons
      by (simp only: list.map fold_simps query_entry_def prod.case) blast
  next
    case False
    then show ?thesis by blast
  qed
  finally show ?case by simp
qed

lemma query_records_pass:
  "query_records H ocs = Some (Inr qs) \<longleftrightarrow>
     consistent H ocs \<and> qs = map make_query_record (bt_collect (map (query_entry H) ocs))"
  by (auto simp: query_records_def run_then_pass add_queries_pass bt_collect_def)

lemma query_records_returns [returns_intros]: "returns (query_records H ocs)"
  unfolding query_records_def by (intro returns_intros)

text \<open>The entry of an occurrence is in the map, and every entry is of an occurrence.\<close>

lemma unique_entry:
  assumes "consistent H ocs" and "oc \<in> set ocs"
  shows "map_of (bt_collect (map (query_entry H) ocs)) (query_key H oc) = Some (query_value oc)"
proof -
  let ?es = "map (query_entry H) ocs"
  have "query_key H oc \<in> fst ` set (rev ?es)" using assms(2) by (force simp: query_entry_def)
  then obtain v where v: "map_of (rev ?es) (query_key H oc) = Some v"
    by (metis not_None_eq map_of_eq_None_iff)
  from map_of_SomeD [OF this] have "(query_key H oc, v) \<in> set ?es" by simp
  then obtain b where b: "b \<in> set ocs" "query_key H b = query_key H oc" "v = query_value b"
    by (auto simp: query_entry_def)
  with assms have "v = query_value oc" unfolding consistent_def by blast
  with v show ?thesis by simp
qed

lemma unique_of_occurrence:
  assumes "(h, v) \<in> set (bt_collect (map (query_entry H) ocs))"
  shows "\<exists>oc\<in>set ocs. h = query_key H oc \<and> v = query_value oc"
proof -
  have "map_of (rev (map (query_entry H) ocs)) h = Some v"
    using assms bt_get_iff [OF bt_ok_collect, of "map (query_entry H) ocs" h v] by simp
  from map_of_SomeD [OF this] have "(h, v) \<in> set (map (query_entry H) ocs)" by simp
  then show ?thesis by (auto simp: query_entry_def)
qed

lemma make_query_record_simps [simp]:
  "qr_id (make_query_record e) = query_id_of (fst e)" "qr_sha256 (make_query_record e) = fst e"
  "qr_source (make_query_record e) = fst (snd e)" "qr_expectation (make_query_record e) = snd (snd e)"
  by (simp_all add: make_query_record_def case_prod_unfold)

lemma query_ids_distinct: "bt_ok m \<Longrightarrow> distinct (map qr_id (map make_query_record m))"
proof -
  assume "bt_ok m"
  then have "distinct (map fst m)" by (rule bt_ok_distinct)
  then have "distinct (map query_id_of (map fst m))"
    by (subst distinct_map) (simp add: inj_on_def query_id_of_def)
  then show ?thesis by (simp add: o_def)
qed

text \<open>So every lookup of an identifier succeeds.\<close>

lemma query_id_found:
  assumes "consistent H ocs" and "oc \<in> set ocs"
  shows "map_of (bt_collect (map (\<lambda>q. (qr_sha256 q, qr_id q))
      (map make_query_record (bt_collect (map (query_entry H) ocs))))) (query_key H oc) =
    Some (query_id_of (query_key H oc))"
proof -
  let ?m = "bt_collect (map (query_entry H) ocs)"
  have list: "map (\<lambda>q. (qr_sha256 q, qr_id q)) (map make_query_record ?m) =
      map (\<lambda>e. (fst e, query_id_of (fst e))) ?m" by simp
  have "distinct (map fst (map (\<lambda>e. (fst e, query_id_of (fst e))) ?m))"
    using bt_ok_distinct [OF bt_ok_collect] by (simp add: o_def)
  moreover have "(query_key H oc, query_id_of (query_key H oc)) \<in>
      set (map (\<lambda>e. (fst e, query_id_of (fst e))) ?m)"
    using map_of_SomeD [OF unique_entry [OF assms]] by force
  ultimately show ?thesis unfolding list by (simp add: map_of_rev_eq del: map_map)
qed

section \<open>The records\<close>

lemma occurrence_records_run:
  assumes "consistent H ocs"
    and "ids = bt_collect (map (\<lambda>q. (qr_sha256 q, qr_id q))
      (map make_query_record (bt_collect (map (query_entry H) ocs))))"
  shows "map_run (occurrence_record_of H ids) ocs =
    pass (map (\<lambda>oc. make_occurrence_record oc (query_id_of (query_key H oc))) ocs)"
proof -
  have "occurrence_record_of H ids oc = pass (make_occurrence_record oc (query_id_of (query_key H oc)))"
    if "oc \<in> set ocs" for oc
    using query_id_found [OF assms(1) that] by (simp add: occurrence_record_of_def assms(2) query_key_def)
  then have "map_run (occurrence_record_of H ids) xs =
      pass (map (\<lambda>oc. make_occurrence_record oc (query_id_of (query_key H oc))) xs)"
    if "set xs \<subseteq> set ocs" for xs
    using that by (induction xs) auto
  then show ?thesis by blast
qed

lemma finish_projection_returns [returns_intros]: "returns (finish_projection H b corpus_sha256)"
proof -
  have "returns (map_run (occurrence_record_of H (bt_collect (map (\<lambda>q. (qr_sha256 q, qr_id q)) qs))) pending)"
    if "query_records H pending = Some (Inr qs)" for qs pending
    using that occurrence_records_run [OF _ refl, of H pending] by (simp add: query_records_pass)
  then show ?thesis
    unfolding finish_projection_def Let_def validate_final_counts_def require_count_def
    by (intro returns_run_then query_records_returns) (auto intro!: returns_intros)
qed

lemma finish_projection_parts:
  assumes "finish_projection H b corpus_sha256 = Some (Inr p)"
  shows "let pending = sort_pending_occurrences (pb_occurrences b) in
    consistent H pending \<and>
    pj_queries p = map make_query_record (bt_collect (map (query_entry H) pending)) \<and>
    pj_occurrences p = map (\<lambda>oc. make_occurrence_record oc (query_id_of (query_key H oc))) pending \<and>
    pj_header p = make_header b corpus_sha256 (pj_queries p) (pj_occurrences p) \<and>
    length pending = 4882"
proof -
  let ?pending = "sort_pending_occurrences (pb_occurrences b)"
  let ?queries = "map make_query_record (bt_collect (map (query_entry H) ?pending))"
  from assms obtain qs occurrences where run: "query_records H ?pending = Some (Inr qs)"
    "map_run (occurrence_record_of H (bt_collect (map (\<lambda>q. (qr_sha256 q, qr_id q)) qs))) ?pending =
      Some (Inr occurrences)"
    "validate_final_counts (make_header b corpus_sha256 qs occurrences) = Some (Inr ())"
    "p = \<lparr>pj_header = make_header b corpus_sha256 qs occurrences, pj_queries = qs, pj_occurrences = occurrences\<rparr>"
    unfolding finish_projection_def Let_def by (auto simp: run_then_pass)
  have qs: "consistent H ?pending" "qs = ?queries" using run(1) by (simp_all add: query_records_pass)
  have ocs: "occurrences = map (\<lambda>oc. make_occurrence_record oc (query_id_of (query_key H oc))) ?pending"
    using run(2) unfolding qs(2) occurrence_records_run [OF qs(1) refl] by simp
  have "length occurrences = 4882"
    using run(3) by (simp add: validate_final_counts_def require_count_def make_header_def Let_def run_all_pass
        del: run_all.simps)
  with qs ocs run(4) show ?thesis by (simp add: Let_def)
qed

section \<open>Properties of the projection\<close>


text \<open>
  Indexing the queries never panics. It fails exactly when two occurrences with the same digest
  differ in their text or in their expectation; otherwise there is one record for each digest, in
  ascending order, and the record of an occurrence's digest has its text and its expectation.
\<close>

theorem query_records_index:
  "query_records H ocs \<noteq> None \<and>
   ((\<exists>qs. query_records H ocs = Some (Inr qs)) \<longleftrightarrow>
      (\<forall>a\<in>set ocs. \<forall>b\<in>set ocs. H (as_bytes (po_source a)) = H (as_bytes (po_source b)) \<longrightarrow>
         po_source a = po_source b \<and> po_expectation a = po_expectation b)) \<and>
   (\<forall>qs. query_records H ocs = Some (Inr qs) \<longrightarrow>
      sorted_wrt (<) (map qr_sha256 qs) \<and>
      (\<lambda>q. (qr_sha256 q, qr_source q, qr_expectation q)) ` set qs =
      (\<lambda>oc. (H (as_bytes (po_source oc)), po_source oc, po_expectation oc)) ` set ocs)"
proof -
  have "query_records H ocs \<noteq> None" using query_records_returns [of H ocs] by (simp add: returns_def)
  moreover have "(\<exists>qs. query_records H ocs = Some (Inr qs)) \<longleftrightarrow> consistent H ocs"
    by (simp add: query_records_pass)
  moreover have "sorted_wrt (<) (map qr_sha256 qs) \<and>
      (\<lambda>q. (qr_sha256 q, qr_source q, qr_expectation q)) ` set qs = query_entry H ` set ocs"
    if "query_records H ocs = Some (Inr qs)" for qs
  proof -
    let ?m = "bt_collect (map (query_entry H) ocs)"
    from that have c: "consistent H ocs" and qs: "qs = map make_query_record ?m"
      by (simp_all add: query_records_pass)
    have "set ?m = query_entry H ` set ocs"
    proof
      show "set ?m \<subseteq> query_entry H ` set ocs"
      proof
        fix e assume "e \<in> set ?m"
        then have "(fst e, snd e) \<in> set ?m" by simp
        from unique_of_occurrence [OF this] show "e \<in> query_entry H ` set ocs"
          by (auto simp: query_entry_def intro!: image_eqI prod_eqI)
      qed
      show "query_entry H ` set ocs \<subseteq> set ?m"
        using map_of_SomeD [OF unique_entry [OF c]] by (auto simp: query_entry_def)
    qed
    moreover have "(\<lambda>q. (qr_sha256 q, qr_source q, qr_expectation q)) ` set qs = set ?m"
      by (simp add: qs image_image)
    moreover have "sorted_wrt (<) (map qr_sha256 qs)"
      using bt_ok_collect [of "map (query_entry H) ocs"] by (simp add: qs bt_ok_def o_def)
    ultimately show ?thesis by simp
  qed
  ultimately show ?thesis
    unfolding consistent_def query_entry_def query_key_def query_value_def by simp
qed

section \<open>Reading the corpus\<close>

lemma split_returns [returns_intros]: "returns (split_cypher_script source)"
  using split_cypher_script_result(1) by (simp add: returns_def)

lemma spec_relative_returns [returns_intros]: "returns (spec_relative f)"
  unfolding spec_relative_def validate_spec_relative_def by (intro returns_intros)

lemma read_expectations_returns [returns_intros]: "returns (read_expectations C)"
  unfolding read_expectations_def validate_ledger_header_def read_review_def validate_spec_relative_def
  by (intro returns_intros) (auto intro!: returns_intros)

lemma read_graphs_returns [returns_intros]: "returns (read_graphs C)"
  unfolding read_graphs_def read_graph_def read_script_def validate_graph_script_name_def Let_def
  by (auto intro!: returns_intros)

lemma build_projection_returns [returns_intros]: "returns (build_projection C)"
  unfolding build_projection_def add_feature_def validate_seen_reviews_def validate_projection_counts_def
    require_count_def
  by (auto intro!: returns_intros)

lemma verify_rendered_returns [returns_intros]: "returns (verify_rendered C p)"
  unfolding verify_rendered_def render_projection_def json_line_def
  by (auto intro!: returns_intros)

text \<open>Every occurrence of a projection has the record of its query.\<close>

definition indexed :: "projection \<Rightarrow> bool" where
  "indexed p \<longleftrightarrow> distinct (map qr_id (pj_queries p)) \<and>
     (\<forall>oc\<in>set (pj_occurrences p). \<exists>q\<in>set (pj_queries p).
        qr_id q = oc_query_id oc \<and> qr_expectation q = oc_expectation oc)"

lemma finish_projection_indexed:
  assumes "finish_projection H b corpus_sha256 = Some (Inr p)"
  shows "indexed p"
proof -
  define pending where "pending = sort_pending_occurrences (pb_occurrences b)"
  let ?m = "bt_collect (map (query_entry H) pending)"
  note parts = finish_projection_parts [OF assms, unfolded Let_def, folded pending_def]
  then have c: "consistent H pending" and qs: "pj_queries p = map make_query_record ?m"
    and ocs: "pj_occurrences p = map (\<lambda>oc. make_occurrence_record oc (query_id_of (query_key H oc))) pending"
    by blast+
  have "\<exists>q\<in>set (pj_queries p). qr_id q = query_id_of (query_key H oc) \<and> qr_expectation q = po_expectation oc"
    if "oc \<in> set pending" for oc
    using map_of_SomeD [OF unique_entry [OF c that]]
    by (intro bexI [of _ "make_query_record (query_key H oc, query_value oc)"]) (auto simp: qs query_value_def)
  then show ?thesis
    unfolding indexed_def using query_ids_distinct [OF bt_ok_collect] qs
    by (auto simp: ocs make_occurrence_record_def simp del: map_map)
qed

lemma build_projection_indexed: "build_projection C = Some (Inr p) \<Longrightarrow> indexed p"
  unfolding build_projection_def by (auto simp: run_then_pass dest: finish_projection_indexed)

end
