(* ===== verification/Tck_Evaluate.thy ===== *)
theory Tck_Evaluate
  imports Tck_Records
begin

text \<open>
  The evaluation of the TCK projection with the parser (\<open>evaluate\<close> of \<open>xtask/src/tck.rs\<close>), its gate,
  and the release gate of \<open>xtask/src/spec.rs\<close> that demands all checks together.
\<close>

section \<open>Exclusions\<close>

definition s_accept_rejected :: ustr where "s_accept_rejected = ascii ''expected_accept_but_rejected''"
definition s_reject_accepted :: ustr where "s_reject_accepted = ascii ''expected_reject_but_accepted''"

definition mismatch_direction :: "expectation \<Rightarrow> ustr" where
  "mismatch_direction e = (case e of EX_Accept \<Rightarrow> s_accept_rejected | EX_Reject \<Rightarrow> s_reject_accepted)"

type_synonym exclusions = "(ustr, exclusion) btree"

definition read_exclusion :: "exclusion \<Rightarrow> exclusions \<Rightarrow> (tck_error, exclusions) run" where
  "read_exclusion x m =
     run_then (reject_if (xc_direction x \<noteq> s_accept_rejected \<and> xc_direction x \<noteq> s_reject_accepted)
       (TE_Invalid_Direction (xc_occurrence_id x) (xc_direction x))) (\<lambda>_.
     run_then (reject_if (trim (xc_issue x) = [] \<or> trim (xc_rationale x) = [])
       (TE_Empty_Exclusion (xc_occurrence_id x))) (\<lambda>_.
     if map_of m (xc_occurrence_id x) \<noteq> None then fail (TE_Duplicate_Exclusion (xc_occurrence_id x))
     else pass (bt_insert (xc_occurrence_id x) x m)))"

definition read_exclusions :: "corpus \<Rightarrow> (tck_error, exclusions) run" where
  "read_exclusions C =
     run_then (ok_or (TE_Unreadable f_exclusions) (cp_exclusions C)) (\<lambda>ledger.
     run_then (validate_ledger_header f_exclusions (xl_schema_version ledger) (xl_release ledger)
       (xl_commit ledger)) (\<lambda>_.
     run_then (reject_if (xl_exclusion_count ledger \<noteq> length (xl_exclusion ledger))
       (TE_Entry_Count f_exclusions (xl_exclusion_count ledger) (length (xl_exclusion ledger)))) (\<lambda>_.
     fold_run read_exclusion (xl_exclusion ledger) [])))"

section \<open>The report\<close>

record parser_diagnostic =
  pdg_code :: ustr
  pdg_message :: ustr
  pdg_start :: nat
  pdg_end :: nat

record conformance_failure =
  fl_occurrence_id :: ustr
  fl_query_id :: ustr
  fl_feature_path :: ustr
  fl_scenario_line :: nat
  fl_role :: query_role
  fl_expectation :: expectation
  fl_supplemental :: bool
  fl_direction :: ustr
  fl_excluded :: bool
  fl_exclusion_issue :: "ustr option"
  fl_source :: ustr
  fl_diagnostics :: "parser_diagnostic list"

record report_counts =
  rc_occurrences :: nat
  rc_active_occurrences :: nat
  rc_supplemental_occurrences :: nat
  rc_expected_accept :: nat
  rc_expected_reject :: nat
  rc_matched :: nat
  rc_active_matched :: nat
  rc_supplemental_matched :: nat
  rc_excluded :: nat
  rc_unexpected :: nat
  rc_active_unexpected :: nat
  rc_supplemental_unexpected :: nat
  rc_stale_exclusions :: nat

record failure_group =
  fg_direction :: ustr
  fg_diagnostic_code :: ustr
  fg_count :: nat

record conformance_report =
  cr_corpus_sha256 :: ustr
  cr_success :: bool
  cr_counts :: report_counts
  cr_groups :: "failure_group list"
  cr_failures :: "conformance_failure list"
  cr_stale_exclusions :: "ustr list"

text \<open>The diagnostics of one query, none if it is accepted. \<open>None\<close> is a panic of the parser.\<close>

definition parser_diagnostic_of :: "diagnostic \<Rightarrow> parser_diagnostic" where
  "parser_diagnostic_of d =
     \<lparr>pdg_code = code_as_str (diag_code d), pdg_message = diag_message d,
      pdg_start = span_start (diag_span d), pdg_end = span_end (diag_span d)\<rparr>"

definition query_outcome :: "engine \<Rightarrow> grammar \<Rightarrow> query_record \<Rightarrow> parser_diagnostic list panics" where
  "query_outcome engine g q =
     map_option (\<lambda>parsed. case parsed of
         Inr _ \<Rightarrow> []
       | Inl errors \<Rightarrow> map parser_diagnostic_of (pe_diagnostics errors))
       (parse engine g (qr_source q))"

type_synonym outcomes = "(ustr, parser_diagnostic list) btree"

definition add_outcome ::
  "engine \<Rightarrow> grammar \<Rightarrow> query_record \<Rightarrow> outcomes \<Rightarrow> (tck_error, outcomes) run" where
  "add_outcome engine g q m =
     Option.bind (query_outcome engine g q) (\<lambda>diagnostics. pass (bt_insert (qr_id q) diagnostics m))"

text \<open>The variables of the loop over the occurrences.\<close>

record tally =
  ty_failures :: "conformance_failure list"
  ty_stale :: "ustr list"
  ty_matched :: nat
  ty_active :: nat
  ty_supplemental :: nat

definition count_match :: "occurrence_record \<Rightarrow> exclusion option \<Rightarrow> tally \<Rightarrow> tally" where
  "count_match oc exclusion t =
     (let t = t\<lparr>ty_matched := ty_matched t + 1\<rparr>;
          t = (if oc_supplemental oc then t\<lparr>ty_supplemental := ty_supplemental t + 1\<rparr>
               else t\<lparr>ty_active := ty_active t + 1\<rparr>)
      in if exclusion \<noteq> None then t\<lparr>ty_stale := ty_stale t @ [oc_id oc]\<rparr> else t)"

definition make_failure ::
  "occurrence_record \<Rightarrow> exclusion option \<Rightarrow> ustr \<Rightarrow> parser_diagnostic list \<Rightarrow> conformance_failure" where
  "make_failure oc exclusion source diagnostics =
     \<lparr>fl_occurrence_id = oc_id oc, fl_query_id = oc_query_id oc, fl_feature_path = oc_feature_path oc,
      fl_scenario_line = oc_scenario_line oc, fl_role = oc_role oc, fl_expectation = oc_expectation oc,
      fl_supplemental = oc_supplemental oc, fl_direction = mismatch_direction (oc_expectation oc),
      fl_excluded = (exclusion \<noteq> None), fl_exclusion_issue = map_option xc_issue exclusion,
      fl_source = source, fl_diagnostics = diagnostics\<rparr>"

definition tally_occurrence ::
  "exclusions \<Rightarrow> outcomes \<Rightarrow> (ustr, query_record) btree \<Rightarrow> occurrence_record \<Rightarrow> tally \<Rightarrow>
     (tck_error, tally) run" where
  "tally_occurrence exclusions outcomes queries_by_id oc t =
     Option.bind (map_of outcomes (oc_query_id oc)) (\<lambda>diagnostics.
     let accepted = (diagnostics = []);
         matches = (case oc_expectation oc of EX_Accept \<Rightarrow> accepted | EX_Reject \<Rightarrow> \<not> accepted);
         exclusion = map_of exclusions (oc_id oc);
         direction = mismatch_direction (oc_expectation oc) in
     if matches then pass (count_match oc exclusion t)
     else run_then (case exclusion of
           None \<Rightarrow> pass ()
         | Some x \<Rightarrow> reject_if (xc_direction x \<noteq> direction)
             (TE_Exclusion_Direction (xc_occurrence_id x) (xc_direction x) direction)) (\<lambda>_.
       Option.bind (map_of queries_by_id (oc_query_id oc)) (\<lambda>query.
         pass (t\<lparr>ty_failures := ty_failures t @ [make_failure oc exclusion (qr_source query) diagnostics]\<rparr>))))"

text \<open>The number of unexpected failures for each direction and first diagnostic.\<close>

definition count_group :: "conformance_failure \<Rightarrow> (ustr \<times> ustr, nat) btree \<Rightarrow> (ustr \<times> ustr, nat) btree" where
  "count_group f m =
     (if fl_excluded f then m
      else let code = (case fl_diagnostics f of [] \<Rightarrow> ascii ''accepted'' | d # _ \<Rightarrow> pdg_code d);
               key = (fl_direction f, code) in
        bt_insert key ((case map_of m key of None \<Rightarrow> 0 | Some n \<Rightarrow> n) + 1) m)"

definition make_report :: "projection \<Rightarrow> tally \<Rightarrow> conformance_report" where
  "make_report p t =
     (let failures = sort_key fl_occurrence_id (ty_failures t);
          stale = sort (ty_stale t);
          excluded = length (filter fl_excluded failures);
          unexpected = length failures - excluded;
          supplemental_unexpected = length (filter (\<lambda>f. \<not> fl_excluded f \<and> fl_supplemental f) failures);
          h = pj_header p in
      \<lparr>cr_corpus_sha256 = hd_corpus_sha256 h,
       cr_success = (unexpected = 0 \<and> stale = []),
       cr_counts =
         \<lparr>rc_occurrences = length (pj_occurrences p),
          rc_active_occurrences = hd_active_occurrences h,
          rc_supplemental_occurrences = hd_supplemental_occurrences h,
          rc_expected_accept = hd_accept_occurrences h, rc_expected_reject = hd_reject_occurrences h,
          rc_matched = ty_matched t, rc_active_matched = ty_active t,
          rc_supplemental_matched = ty_supplemental t, rc_excluded = excluded, rc_unexpected = unexpected,
          rc_active_unexpected = unexpected - supplemental_unexpected,
          rc_supplemental_unexpected = supplemental_unexpected, rc_stale_exclusions = length stale\<rparr>,
       cr_groups = map (\<lambda>((direction, code), n).
           \<lparr>fg_direction = direction, fg_diagnostic_code = code, fg_count = n\<rparr>) (fold count_group failures []),
       cr_failures = failures, cr_stale_exclusions = stale\<rparr>)"

definition evaluate ::
  "engine \<Rightarrow> grammar \<Rightarrow> corpus \<Rightarrow> projection \<Rightarrow> (tck_error, conformance_report) run" where
  "evaluate engine g C p =
     run_then (read_exclusions C) (\<lambda>exclusions.
     let queries_by_id = bt_collect (map (\<lambda>q. (qr_id q, q)) (pj_queries p));
         occurrences_by_id = bt_collect (map (\<lambda>oc. (oc_id oc, oc)) (pj_occurrences p)) in
     run_then (for_each (\<lambda>x. reject_if (map_of occurrences_by_id (xc_occurrence_id x) = None)
       (TE_Unknown_Exclusion (xc_occurrence_id x))) (bt_values exclusions)) (\<lambda>_.
     run_then (fold_run (add_outcome engine g) (pj_queries p) []) (\<lambda>outcomes.
     run_then (fold_run (tally_occurrence exclusions outcomes queries_by_id) (pj_occurrences p)
       \<lparr>ty_failures = [], ty_stale = [], ty_matched = 0, ty_active = 0, ty_supplemental = 0\<rparr>) (\<lambda>t.
     pass (make_report p t)))))"

section \<open>Text of a report\<close>

primrec expectation_as_str :: "expectation \<Rightarrow> ustr" where
  "expectation_as_str EX_Accept = ascii ''accept''"
| "expectation_as_str EX_Reject = ascii ''reject''"

primrec query_role_as_str :: "query_role \<Rightarrow> ustr" where
  "query_role_as_str QR_Background = ascii ''background''"
| "query_role_as_str QR_NamedGraph = ascii ''named_graph''"
| "query_role_as_str QR_Setup = ascii ''setup''"
| "query_role_as_str QR_Primary = ascii ''primary''"
| "query_role_as_str QR_Control = ascii ''control''"

text \<open>The lines of a query on one line, at most 180 characters; 9166 is the return symbol, 8230 the ellipsis.\<close>

definition query_preview :: "ustr \<Rightarrow> ustr" where
  "query_preview source =
     (let flattened = join [32, 9166, 32] (filter (\<lambda>line. line \<noteq> []) (map trim (str_lines source)));
          preview = take 180 flattened
      in if length flattened > 180 then preview @ [8230] else preview)"

lemma query_preview_length: "length (query_preview source) \<le> 181"
  by (simp add: query_preview_def Let_def)

section \<open>The commands\<close>

definition gate_report :: "conformance_report \<Rightarrow> (tck_error, unit) run" where
  "gate_report report =
     (if cr_success report then pass ()
      else fail (TE_Unexpected (rc_unexpected (cr_counts report)) (rc_stale_exclusions (cr_counts report))))"

definition tck_verify :: "corpus \<Rightarrow> (tck_error, unit) run" where
  "tck_verify C = run_then (build_projection C) (\<lambda>p. verify_rendered C p)"

definition tck_check :: "engine \<Rightarrow> grammar \<Rightarrow> corpus \<Rightarrow> (tck_error, unit) run" where
  "tck_check engine g C =
     run_then (build_projection C) (\<lambda>p.
     run_then (verify_rendered C p) (\<lambda>_.
     run_then (evaluate engine g C p) gate_report))"

definition tck_release_check :: "engine \<Rightarrow> grammar \<Rightarrow> corpus \<Rightarrow> (tck_error, unit) run" where
  "tck_release_check engine g C =
     run_then (build_projection C) (\<lambda>p.
     run_then (verify_rendered C p) (\<lambda>_.
     run_then (evaluate engine g C p) (\<lambda>report.
     run_then (read_exclusions C) (\<lambda>exclusions.
     run_then (reject_if (exclusions \<noteq> []) (TE_Exclusions (length exclusions))) (\<lambda>_.
     gate_report report)))))"

text \<open>\<open>release_check\<close> of \<open>spec.rs\<close>: an error of the specification gate, blockers, or an error of the TCK.\<close>

datatype (plugins only: code size) release_error =
  RE_Spec spec_error | RE_Blocked "blocker list" | RE_Tck tck_error

definition spec_release_check ::
  "engine \<Rightarrow> grammar \<Rightarrow> 'v repository \<Rightarrow> corpus \<Rightarrow> (release_error, unit) run" where
  "spec_release_check engine g R C =
     run_then (map_err RE_Spec (spec_verify engine g R)) (\<lambda>_.
     run_then (map_err RE_Spec (read_traceability (rp_toml R) (rp_tables R))) (\<lambda>tr.
     case release_blockers (rp_toml R) tr of
       Some blockers \<Rightarrow> fail (RE_Blocked blockers)
     | None \<Rightarrow> map_err RE_Tck (tck_release_check engine g C)))"

end
