(* ===== verification/Tck_Verdict.thy ===== *)
theory Tck_Verdict
  imports Tck_Evaluate "HOL-Library.Multiset"
begin

text \<open>
  What the TCK gate means: the report succeeds exactly when the parser gives every occurrence the
  verdict it is expected to have, apart from the listed exclusions, and a release needs it without
  exclusions.
\<close>

section \<open>The parser on the queries\<close>

definition accepts :: "engine \<Rightarrow> grammar \<Rightarrow> ustr \<Rightarrow> bool" where
  "accepts engine g source = (\<exists>v. parse engine g source = Some (Inr v))"

lemma query_outcome_total:
  assumes "raw_engine engine" and "reports_input g"
  shows "\<exists>ds. query_outcome engine g q = Some ds \<and> (ds = [] \<longleftrightarrow> accepts engine g (qr_source q))"
proof -
  obtain out v where
    *: "parse_recovering engine g (qr_source q) = Some out" "po_value out = Some v"
      "\<forall>d\<in>set (po_diagnostics out). is_error d"
    using parse_recovering_result [OF assms, of "qr_source q"] by blast
  show ?thesis
  proof (cases "po_diagnostics out")
    case Nil
    with * show ?thesis by (simp add: query_outcome_def parse_def accepts_def)
  next
    case (Cons d ds)
    with *(3) have "list_ex is_error (po_diagnostics out)" by simp
    then have "parse engine g (qr_source q) = Some (Inl \<lparr>pe_diagnostics = sort_diagnostics (po_diagnostics out)\<rparr>)"
      using *(1) Cons by (simp add: parse_def parse_errors_new_def)
    moreover have "sort_diagnostics (po_diagnostics out) \<noteq> []"
      using Cons by (metis list.distinct(1) set_empty set_sort_diagnostics)
    ultimately show ?thesis by (simp add: query_outcome_def accepts_def)
  qed
qed

definition outcome_of :: "engine \<Rightarrow> grammar \<Rightarrow> query_record \<Rightarrow> parser_diagnostic list" where
  "outcome_of engine g q = (case query_outcome engine g q of Some ds \<Rightarrow> ds | None \<Rightarrow> [])"

lemma outcomes_run:
  assumes "raw_engine engine" and "reports_input g"
  shows "fold_run (add_outcome engine g) qs m =
    pass (fold (\<lambda>(k, v). bt_insert k v) (map (\<lambda>q. (qr_id q, outcome_of engine g q)) qs) m)"
proof (induction qs arbitrary: m)
  case (Cons q qs)
  from query_outcome_total [OF assms, of q] obtain ds where "query_outcome engine g q = Some ds" by blast
  with Cons show ?case by (simp add: add_outcome_def outcome_of_def)
qed simp

lemma outcome_of_Nil:
  "raw_engine engine \<Longrightarrow> reports_input g \<Longrightarrow> outcome_of engine g q = [] \<longleftrightarrow> accepts engine g (qr_source q)"
  using query_outcome_total [of engine g q] by (auto simp: outcome_of_def)

section \<open>The tally\<close>

text \<open>
  \<open>qof\<close> is the query of an occurrence and \<open>out\<close> its diagnostics, which the two maps of \<open>evaluate\<close>
  return.
\<close>

definition as_expected :: "(occurrence_record \<Rightarrow> parser_diagnostic list) \<Rightarrow> occurrence_record \<Rightarrow> bool" where
  "as_expected out oc = (case oc_expectation oc of EX_Accept \<Rightarrow> out oc = [] | EX_Reject \<Rightarrow> out oc \<noteq> [])"

definition direction_ok :: "exclusions \<Rightarrow> occurrence_record \<Rightarrow> bool" where
  "direction_ok xs oc =
     is_none_or (map_of xs (oc_id oc)) (\<lambda>x. xc_direction x = mismatch_direction (oc_expectation oc))"

definition tally_of ::
  "exclusions \<Rightarrow> (occurrence_record \<Rightarrow> query_record) \<Rightarrow> (occurrence_record \<Rightarrow> parser_diagnostic list) \<Rightarrow>
     occurrence_record list \<Rightarrow> tally \<Rightarrow> tally" where
  "tally_of xs qof out ocs t =
     \<lparr>ty_failures = ty_failures t @ map (\<lambda>oc. make_failure oc (map_of xs (oc_id oc)) (qr_source (qof oc)) (out oc))
        (filter (\<lambda>oc. \<not> as_expected out oc) ocs),
      ty_stale = ty_stale t @ map oc_id (filter (\<lambda>oc. as_expected out oc \<and> map_of xs (oc_id oc) \<noteq> None) ocs),
      ty_matched = ty_matched t + length (filter (as_expected out) ocs),
      ty_active = ty_active t + length (filter (\<lambda>oc. as_expected out oc \<and> \<not> oc_supplemental oc) ocs),
      ty_supplemental = ty_supplemental t + length (filter (\<lambda>oc. as_expected out oc \<and> oc_supplemental oc) ocs)\<rparr>"

lemma tally_of_Cons:
  "tally_of xs qof out (oc # ocs) t = tally_of xs qof out ocs
     (if as_expected out oc then count_match oc (map_of xs (oc_id oc)) t
      else t\<lparr>ty_failures := ty_failures t @ [make_failure oc (map_of xs (oc_id oc)) (qr_source (qof oc)) (out oc)]\<rparr>)"
  by (simp add: tally_of_def count_match_def Let_def)

lemma tally_occurrence_eq:
  assumes "map_of outcomes (oc_query_id oc) = Some (out oc)" and "map_of queries (oc_query_id oc) = Some (qof oc)"
  shows "tally_occurrence xs outcomes queries oc t =
    (if as_expected out oc then pass (count_match oc (map_of xs (oc_id oc)) t)
     else if direction_ok xs oc
     then pass (t\<lparr>ty_failures := ty_failures t @
       [make_failure oc (map_of xs (oc_id oc)) (qr_source (qof oc)) (out oc)]\<rparr>)
     else fail (TE_Exclusion_Direction
       (case map_of xs (oc_id oc) of None \<Rightarrow> [] | Some x \<Rightarrow> xc_occurrence_id x)
       (case map_of xs (oc_id oc) of None \<Rightarrow> [] | Some x \<Rightarrow> xc_direction x)
       (mismatch_direction (oc_expectation oc))))"
  using assms
  by (auto simp: tally_occurrence_def Let_def as_expected_def direction_ok_def is_none_or_def
      split: expectation.split option.split)

lemma tally_run:
  assumes "\<forall>oc\<in>set ocs. map_of outcomes (oc_query_id oc) = Some (out oc) \<and>
      map_of queries (oc_query_id oc) = Some (qof oc)"
  shows "fold_run (tally_occurrence xs outcomes queries) ocs t \<noteq> None"
    "fold_run (tally_occurrence xs outcomes queries) ocs t = Some (Inr t') \<longleftrightarrow>
       (\<forall>oc\<in>set ocs. as_expected out oc \<or> direction_ok xs oc) \<and> t' = tally_of xs qof out ocs t"
proof -
  have "fold_run (tally_occurrence xs outcomes queries) ocs t \<noteq> None \<and>
      (fold_run (tally_occurrence xs outcomes queries) ocs t = Some (Inr t') \<longleftrightarrow>
       (\<forall>oc\<in>set ocs. as_expected out oc \<or> direction_ok xs oc) \<and> t' = tally_of xs qof out ocs t)"
    using assms
  proof (induction ocs arbitrary: t)
    case Nil
    then show ?case by (auto simp: tally_of_def)
  next
    case (Cons oc ocs)
    have step: "tally_occurrence xs outcomes queries oc t =
      (if as_expected out oc then pass (count_match oc (map_of xs (oc_id oc)) t)
       else if direction_ok xs oc
       then pass (t\<lparr>ty_failures := ty_failures t @
         [make_failure oc (map_of xs (oc_id oc)) (qr_source (qof oc)) (out oc)]\<rparr>)
       else fail (TE_Exclusion_Direction
         (case map_of xs (oc_id oc) of None \<Rightarrow> [] | Some x \<Rightarrow> xc_occurrence_id x)
         (case map_of xs (oc_id oc) of None \<Rightarrow> [] | Some x \<Rightarrow> xc_direction x)
         (mismatch_direction (oc_expectation oc))))"
      by (rule tally_occurrence_eq) (use Cons.prems in auto)
    show ?case
    proof (cases "as_expected out oc \<or> direction_ok xs oc")
      case True
      let ?t = "if as_expected out oc then count_match oc (map_of xs (oc_id oc)) t
        else t\<lparr>ty_failures := ty_failures t @
          [make_failure oc (map_of xs (oc_id oc)) (qr_source (qof oc)) (out oc)]\<rparr>"
      have "fold_run (tally_occurrence xs outcomes queries) (oc # ocs) t =
          fold_run (tally_occurrence xs outcomes queries) ocs ?t"
        using True by (auto simp: step)
      with Cons.IH [of ?t] Cons.prems True show ?thesis by (simp add: tally_of_Cons)
    next
      case False
      then show ?thesis by (simp add: step)
    qed
  qed
  then show "fold_run (tally_occurrence xs outcomes queries) ocs t \<noteq> None"
    "fold_run (tally_occurrence xs outcomes queries) ocs t = Some (Inr t') \<longleftrightarrow>
       (\<forall>oc\<in>set ocs. as_expected out oc \<or> direction_ok xs oc) \<and> t' = tally_of xs qof out ocs t"
    by blast+
qed

section \<open>The report\<close>

abbreviation "no_tally \<equiv> \<lparr>ty_failures = [], ty_stale = [], ty_matched = 0, ty_active = 0, ty_supplemental = 0\<rparr>"

lemma length_filter_sort_key: "length (filter P (sort_key f xs)) = length (filter P xs)"
  by (metis mset_filter mset_sort size_mset)

lemma length_filter_eq_iff: "length xs - length (filter P xs) = 0 \<longleftrightarrow> (\<forall>x\<in>set xs. P x)"
proof
  assume "length xs - length (filter P xs) = 0"
  then have "length (filter P xs) = length xs" using length_filter_le [of P xs] by linarith
  then show "\<forall>x\<in>set xs. P x" by (metis length_filter_less less_irrefl)
qed simp

lemma report_success:
  "cr_success (make_report p t) \<longleftrightarrow> (\<forall>f\<in>set (ty_failures t). fl_excluded f) \<and> ty_stale t = []"
proof -
  have "sort (ty_stale t) = [] \<longleftrightarrow> ty_stale t = []" by (metis length_0_conv length_sort)
  moreover have "length (sort_key fl_occurrence_id (ty_failures t)) -
      length (filter fl_excluded (sort_key fl_occurrence_id (ty_failures t))) = 0 \<longleftrightarrow>
      (\<forall>f\<in>set (ty_failures t). fl_excluded f)"
    by (simp only: length_filter_sort_key length_sort length_filter_eq_iff)
  ultimately show ?thesis by (simp add: make_report_def Let_def)
qed

lemma tally_success:
  "cr_success (make_report p (tally_of xs qof out ocs no_tally)) \<longleftrightarrow>
     (\<forall>oc\<in>set ocs. as_expected out oc \<longleftrightarrow> map_of xs (oc_id oc) = None)"
  unfolding report_success
  by (auto simp: tally_of_def make_failure_def filter_empty_conv)

text \<open>Every occurrence is counted once: as matched, excluded or unexpected.\<close>

lemma report_counts:
  assumes "cr = cr_counts (make_report p (tally_of xs qof out ocs no_tally))"
  shows "rc_matched cr + rc_excluded cr + rc_unexpected cr = length ocs"
    "rc_active_matched cr + rc_supplemental_matched cr = rc_matched cr"
    "rc_active_unexpected cr + rc_supplemental_unexpected cr = rc_unexpected cr"
proof -
  let ?t = "tally_of xs qof out ocs no_tally"
  have split: "length (filter P zs) + length (filter (\<lambda>x. \<not> P x) zs) = length zs" for P and zs :: "'z list"
    by (rule sum_length_filter_compl)
  have both: "length (filter (\<lambda>x. P x \<and> \<not> Q x) zs) + length (filter (\<lambda>x. P x \<and> Q x) zs) = length (filter P zs)"
    for P Q and zs :: "'z list" using split [of Q "filter P zs"] by (simp add: conj_commute)
  have "length (filter fl_excluded (ty_failures ?t)) \<le> length (ty_failures ?t)" by (rule length_filter_le)
  moreover have "length (ty_failures ?t) + ty_matched ?t = length ocs"
    using split [of "as_expected out" ocs] by (simp add: tally_of_def)
  ultimately show "rc_matched cr + rc_excluded cr + rc_unexpected cr = length ocs"
    by (simp add: assms make_report_def Let_def length_filter_sort_key)
  show "rc_active_matched cr + rc_supplemental_matched cr = rc_matched cr"
    using both [of "as_expected out" oc_supplemental ocs] by (simp add: assms make_report_def Let_def tally_of_def)
  have "length (filter (\<lambda>f. \<not> fl_excluded f \<and> fl_supplemental f) (ty_failures ?t)) \<le>
      length (filter (\<lambda>f. \<not> fl_excluded f) (ty_failures ?t))"
    using both [of "\<lambda>f. \<not> fl_excluded f" fl_supplemental "ty_failures ?t"] by simp
  moreover have "length (filter (\<lambda>f. \<not> fl_excluded f) (ty_failures ?t)) =
      length (ty_failures ?t) - length (filter fl_excluded (ty_failures ?t))"
    using split [of fl_excluded "ty_failures ?t"] by simp
  ultimately show "rc_active_unexpected cr + rc_supplemental_unexpected cr = rc_unexpected cr"
    by (simp add: assms make_report_def Let_def length_filter_sort_key)
qed

section \<open>The gate\<close>

text \<open>The parser gives an occurrence the verdict it is expected to have.\<close>

definition meets :: "engine \<Rightarrow> grammar \<Rightarrow> projection \<Rightarrow> occurrence_record \<Rightarrow> bool" where
  "meets engine g p oc =
     (\<exists>q\<in>set (pj_queries p). qr_id q = oc_query_id oc \<and>
        (oc_expectation oc = EX_Accept \<longleftrightarrow> accepts engine g (qr_source q)))"

lemma collect_lookup:
  assumes "distinct (map f xs)" and "x \<in> set xs"
  shows "map_of (bt_collect (map (\<lambda>x. (f x, h x)) xs)) (f x) = Some (h x)"
proof -
  have "distinct (map fst (map (\<lambda>x. (f x, h x)) xs))" using assms(1) by (simp add: o_def)
  with assms(2) show ?thesis by (simp add: map_of_rev_eq image_iff) blast
qed

lemma collect_keys: "map_of (bt_collect (map (\<lambda>x. (f x, h x)) xs)) k = None \<longleftrightarrow> k \<notin> f ` set xs"
  by (auto simp: map_of_eq_None_iff image_iff)

lemma evaluate_result:
  assumes "raw_engine engine" and "reports_input g" and p: "indexed p"
  shows "evaluate engine g C p \<noteq> None"
    "(\<exists>report. evaluate engine g C p = Some (Inr report) \<and> cr_success report) \<longleftrightarrow>
     (\<exists>xs. read_exclusions C = Some (Inr xs) \<and>
        (\<forall>x\<in>set (bt_values xs). xc_occurrence_id x \<in> oc_id ` set (pj_occurrences p)) \<and>
        (\<forall>oc\<in>set (pj_occurrences p).
           if meets engine g p oc then map_of xs (oc_id oc) = None
           else is_some_and (map_of xs (oc_id oc))
             (\<lambda>x. xc_direction x = mismatch_direction (oc_expectation oc))))"
proof -
  let ?qs = "pj_queries p" and ?ocs = "pj_occurrences p"
  let ?queries = "bt_collect (map (\<lambda>q. (qr_id q, q)) ?qs)"
  let ?outcomes = "bt_collect (map (\<lambda>q. (qr_id q, outcome_of engine g q)) ?qs)"
  have distinct: "distinct (map qr_id ?qs)" using p by (simp add: indexed_def)
  have "\<forall>oc\<in>set ?ocs. \<exists>q\<in>set ?qs. qr_id q = oc_query_id oc" using p by (auto simp: indexed_def)
  then obtain qof where qof: "\<forall>oc\<in>set ?ocs. qof oc \<in> set ?qs \<and> qr_id (qof oc) = oc_query_id oc"
    by metis
  let ?out = "\<lambda>oc. outcome_of engine g (qof oc)"
  have lookups: "\<forall>oc\<in>set ?ocs. map_of ?outcomes (oc_query_id oc) = Some (?out oc) \<and>
      map_of ?queries (oc_query_id oc) = Some (qof oc)"
  proof
    fix oc assume "oc \<in> set ?ocs"
    with qof have "qof oc \<in> set ?qs" "qr_id (qof oc) = oc_query_id oc" by auto
    then show "map_of ?outcomes (oc_query_id oc) = Some (?out oc) \<and>
        map_of ?queries (oc_query_id oc) = Some (qof oc)"
      using collect_lookup [OF distinct, of "qof oc" "outcome_of engine g"]
        collect_lookup [OF distinct, of "qof oc" "\<lambda>q. q"]
      by (simp del: bt_get_collect)
  qed
  have meets: "as_expected ?out oc \<longleftrightarrow> meets engine g p oc" if "oc \<in> set ?ocs" for oc
  proof -
    have "q = qof oc" if "q \<in> set ?qs" "qr_id q = oc_query_id oc" for q
    proof (rule inj_onD)
      show "inj_on qr_id (set ?qs)" using distinct by (simp add: distinct_map)
    qed (use that qof \<open>oc \<in> set ?ocs\<close> in auto)
    then have "meets engine g p oc \<longleftrightarrow>
        (oc_expectation oc = EX_Accept \<longleftrightarrow> accepts engine g (qr_source (qof oc)))"
      using qof that by (auto simp: meets_def)
    then show ?thesis
      using outcome_of_Nil [OF assms(1,2)] by (auto simp: as_expected_def split: expectation.splits)
  qed
  have outcomes: "fold_run (add_outcome engine g) ?qs [] = pass ?outcomes"
    by (simp add: outcomes_run [OF assms(1,2)] bt_collect_def)
  let ?known = "\<lambda>xs. for_each (\<lambda>x. reject_if (map_of (bt_collect (map (\<lambda>oc. (oc_id oc, oc)) ?ocs))
      (xc_occurrence_id x) = None) (TE_Unknown_Exclusion (xc_occurrence_id x))) (bt_values xs)"
  let ?tally = "\<lambda>xs. fold_run (tally_occurrence xs ?outcomes ?queries) ?ocs no_tally"
  have run: "evaluate engine g C p = run_then (read_exclusions C) (\<lambda>xs.
      run_then (?known xs) (\<lambda>_. run_then (?tally xs) (\<lambda>t. pass (make_report p t))))"
    by (simp add: evaluate_def Let_def outcomes)
  have "returns (read_exclusions C)"
    unfolding read_exclusions_def read_exclusion_def validate_ledger_header_def
    by (auto intro!: returns_intros)
  moreover have "returns (?known xs)" for xs by (intro returns_intros)
  moreover have "returns (?tally xs)" for xs
    unfolding returns_def by (rule tally_run(1) [OF lookups])
  ultimately have "returns (evaluate engine g C p)" unfolding run by (intro returns_run_then) auto
  then show "evaluate engine g C p \<noteq> None" by (simp add: returns_def)
  have known: "?known xs = Some (Inr ()) \<longleftrightarrow> (\<forall>x\<in>set (bt_values xs). xc_occurrence_id x \<in> oc_id ` set ?ocs)" for xs
    by (simp add: for_each_pass collect_keys del: bt_get_collect)
  have "(\<exists>report. evaluate engine g C p = Some (Inr report) \<and> cr_success report) \<longleftrightarrow>
      (\<exists>xs. read_exclusions C = Some (Inr xs) \<and> ?known xs = Some (Inr ()) \<and>
        (\<forall>oc\<in>set ?ocs. as_expected ?out oc \<or> direction_ok xs oc) \<and>
        (\<forall>oc\<in>set ?ocs. as_expected ?out oc \<longleftrightarrow> map_of xs (oc_id oc) = None))"
    unfolding run run_then_pass tally_run(2) [OF lookups] by (auto simp: tally_success)
  also have "\<dots> \<longleftrightarrow> (\<exists>xs. read_exclusions C = Some (Inr xs) \<and>
        (\<forall>x\<in>set (bt_values xs). xc_occurrence_id x \<in> oc_id ` set ?ocs) \<and>
        (\<forall>oc\<in>set ?ocs. if meets engine g p oc then map_of xs (oc_id oc) = None
           else is_some_and (map_of xs (oc_id oc))
             (\<lambda>x. xc_direction x = mismatch_direction (oc_expectation oc))))"
  proof -
    have "(as_expected ?out oc \<or> direction_ok xs oc) \<and> (as_expected ?out oc \<longleftrightarrow> map_of xs (oc_id oc) = None) \<longleftrightarrow>
        (if meets engine g p oc then map_of xs (oc_id oc) = None
         else is_some_and (map_of xs (oc_id oc)) (\<lambda>x. xc_direction x = mismatch_direction (oc_expectation oc)))"
      if "oc \<in> set ?ocs" for xs oc
      using meets [OF that]
      by (cases "map_of xs (oc_id oc)") (auto simp: direction_ok_def is_none_or_def is_some_and_def)
    then show ?thesis unfolding known by (intro ex_cong1) blast
  qed
  finally show "(\<exists>report. evaluate engine g C p = Some (Inr report) \<and> cr_success report) \<longleftrightarrow>
     (\<exists>xs. read_exclusions C = Some (Inr xs) \<and>
        (\<forall>x\<in>set (bt_values xs). xc_occurrence_id x \<in> oc_id ` set ?ocs) \<and>
        (\<forall>oc\<in>set ?ocs. if meets engine g p oc then map_of xs (oc_id oc) = None
           else is_some_and (map_of xs (oc_id oc))
             (\<lambda>x. xc_direction x = mismatch_direction (oc_expectation oc))))" .
qed

text \<open>
  C19: the report on an indexed projection. Evaluating never panics, and the report is a success
  exactly when the ledger of exclusions reads, lists only known occurrences, and lists an occurrence
  if and only if the parser's verdict on its query is not the expected one, each with the direction in
  which it differs.
\<close>

theorem evaluate_success:
  assumes "raw_engine engine" and "reports_input g" and "indexed p"
  shows "evaluate engine g C p \<noteq> None \<and>
    ((\<exists>report. evaluate engine g C p = Some (Inr report) \<and> cr_success report) \<longleftrightarrow>
     (\<exists>xs. read_exclusions C = Some (Inr xs) \<and>
        (\<forall>x\<in>set (bt_values xs). xc_occurrence_id x \<in> oc_id ` set (pj_occurrences p)) \<and>
        (\<forall>oc\<in>set (pj_occurrences p).
           if meets engine g p oc then map_of xs (oc_id oc) = None
           else is_some_and (map_of xs (oc_id oc))
             (\<lambda>x. xc_direction x = mismatch_direction (oc_expectation oc)))))"
  using evaluate_result [OF assms, of C] by blast

lemma gate_report_pass [run_simps]: "gate_report report = Some (Inr u) \<longleftrightarrow> cr_success report"
  by (auto simp: gate_report_def)

lemma gate_report_returns [returns_intros]: "returns (gate_report report)"
  by (simp add: gate_report_def)

lemma read_exclusions_returns [returns_intros]: "returns (read_exclusions C)"
  unfolding read_exclusions_def read_exclusion_def validate_ledger_header_def
  by (auto intro!: returns_intros)

lemma evaluate_returns:
  "raw_engine engine \<Longrightarrow> reports_input g \<Longrightarrow> indexed p \<Longrightarrow> returns (evaluate engine g C p)"
  using evaluate_result(1) by (simp add: returns_def)

lemma tck_release_check_returns:
  assumes "raw_engine engine" and "reports_input g"
  shows "returns (tck_release_check engine g C)"
  unfolding tck_release_check_def
  by (intro returns_intros evaluate_returns assms) (rule build_projection_indexed)

text \<open>Without exclusions the report is a success when every occurrence meets its expectation.\<close>

lemma tck_release_check_pass:
  assumes "raw_engine engine" and "reports_input g"
  shows "tck_release_check engine g C = Some (Inr ()) \<longleftrightarrow>
    (\<exists>p. build_projection C = Some (Inr p) \<and> verify_rendered C p = Some (Inr ()) \<and>
       read_exclusions C = Some (Inr []) \<and> (\<forall>oc\<in>set (pj_occurrences p). meets engine g p oc))"
proof -
  have "(\<exists>report. evaluate engine g C p = Some (Inr report) \<and> read_exclusions C = Some (Inr []) \<and> cr_success report) \<longleftrightarrow>
      read_exclusions C = Some (Inr []) \<and> (\<forall>oc\<in>set (pj_occurrences p). meets engine g p oc)"
    if "build_projection C = Some (Inr p)" for p
  proof (cases "read_exclusions C = Some (Inr [])")
    case True
    then show ?thesis
      using evaluate_result(2) [OF assms build_projection_indexed [OF that], of C]
      by (auto simp: bt_values_def is_some_and_def)
  qed simp
  moreover have "tck_release_check engine g C = Some (Inr ()) \<longleftrightarrow>
      (\<exists>p. build_projection C = Some (Inr p) \<and> verify_rendered C p = Some (Inr ()) \<and>
        (\<exists>report. evaluate engine g C p = Some (Inr report) \<and> read_exclusions C = Some (Inr []) \<and> cr_success report))"
    unfolding tck_release_check_def by (auto simp: run_simps)
  ultimately show ?thesis by blast
qed

text \<open>Nor does the specification gate panic.\<close>

lemma parse_total:
  assumes "raw_engine engine" and "reports_input g"
  shows "parse engine g source \<noteq> None"
  using query_outcome_total [OF assms, of "\<lparr>qr_id = [], qr_sha256 = [], qr_source = source, qr_expectation = EX_Accept\<rparr>"]
  by (auto simp: query_outcome_def)

lemma execute_witness_returns:
  assumes "raw_engine engine" and "reports_input g" and "validate_witness w = Some (Inr ())"
  shows "returns (execute_witness engine g w)"
proof -
  consider "wt_entrypoint w = s_parser" "wt_expect w = s_accept \<or> wt_expect w = s_reject" | "wt_entrypoint w = s_lexer"
    using assms(3) by (auto simp: validate_witness_def run_simps split: if_splits)
  then show ?thesis
  proof cases
    case 1
    then have "returns (execute_parser_witness engine g w)"
      using parse_total [OF assms(1,2), of "wt_source w"]
      by (cases "parse engine g (wt_source w)")
         (auto simp: execute_parser_witness_def Let_def intro!: returns_intros split: sum.split)
    with 1 show ?thesis by (simp add: execute_witness_def)
  next
    case 2
    have "returns (execute_lexer_witness engine w)"
      using lex_result [OF assms(1), of "wt_source w"]
      by (auto simp: execute_lexer_witness_def Let_def intro!: returns_intros)
    with 2 show ?thesis by (simp add: execute_witness_def)
  qed
qed

lemma execute_witnesses_returns:
  assumes "raw_engine engine" and "reports_input g"
    and "validate_traceability U T files tables source names tr = Some (Inr u)"
  shows "returns (execute_witnesses engine g (tr_witnesses tr))"
proof -
  have "validate_traceability U T files tables source names tr = Some (Inr ())" using assms(3) by simp
  then have "\<forall>w\<in>set (bt_values (tr_witnesses tr)). validate_witness w = Some (Inr ())"
    by (rule validate_traceability_parts)
  then show ?thesis
    unfolding execute_witnesses_def
    by (intro returns_intros execute_witness_returns [OF assms(1,2)]) simp
qed

lemma verify_snapshot_returns [returns_intros]: "returns (verify_snapshot R)"
  unfolding verify_snapshot_def read_manifest_def read_manifest_file_def require_value_def
    manifest_string_def verify_count_def verify_table_count_def compare_inventory_def validate_hash_def
    Let_def case_prod_unfold
  by (intro returns_intros) (auto intro!: returns_intros)

lemma spec_verify_returns:
  assumes "raw_engine engine" and "reports_input g"
  shows "returns (spec_verify engine g R)"
  unfolding spec_verify_def Let_def case_prod_unfold require_table_value_def verify_table_count_def
  by (intro returns_intros) (rule execute_witnesses_returns [OF assms])

text \<open>
  C20: the release gate never panics, and it passes exactly when the specification gate passes;
  the traceability reads, with all 377 productions mapped and fully supported, the assessment
  declared complete and no deviation open; and the projection of the TCK is built, equals the
  generated file, no occurrence is excluded, and the parser accepts or rejects the query of every
  occurrence as expected.
\<close>

theorem spec_release_check_iff:
  assumes "raw_engine engine" and "reports_input g"
  shows "spec_release_check engine g R C \<noteq> None \<and>
   (spec_release_check engine g R C = Some (Inr ()) \<longleftrightarrow>
    spec_verify engine g R = Some (Inr ()) \<and>
    (\<exists>tr. read_traceability (rp_toml R) (rp_tables R) = Some (Inr tr) \<and>
       length (pm_productions (tr_map tr)) = 377 \<and>
       list_all (\<lambda>p. pn_support p = s_full) (pm_productions (tr_map tr)) \<and>
       table_bool (rp_toml R) (pm_values (tr_map tr)) ''assessment_complete'' = Some (Inr True) \<and>
       list_all (\<lambda>d. dv_status d \<noteq> s_open) (bt_values (tr_deviations tr))) \<and>
    (\<exists>p. build_projection C = Some (Inr p) \<and> verify_rendered C p = Some (Inr ()) \<and>
       read_exclusions C = Some (Inr []) \<and> (\<forall>oc\<in>set (pj_occurrences p). meets engine g p oc)))"
proof -
  have "returns (spec_release_check engine g R C)"
    unfolding spec_release_check_def
    by (intro returns_intros spec_verify_returns tck_release_check_returns assms)
       (auto intro!: returns_intros tck_release_check_returns assms split: option.split)
  moreover have "spec_release_check engine g R C = Some (Inr ()) \<longleftrightarrow>
      spec_verify engine g R = Some (Inr ()) \<and>
      (\<exists>tr. read_traceability (rp_toml R) (rp_tables R) = Some (Inr tr) \<and>
         release_blockers (rp_toml R) tr = None \<and> tck_release_check engine g C = Some (Inr ()))"
    unfolding spec_release_check_def by (auto simp: run_simps split: option.splits)
  ultimately show ?thesis
    unfolding tck_release_check_pass [OF assms] release_blockers_none returns_def by blast
qed

end
