(* ===== verification/Return_Sample.thy ===== *)
theory Return_Sample
  imports Entry
begin

text \<open>The parser tokens of \<open>RETURN *\<close>, which the contextual search does not change.\<close>

lemma sample_parser_tokens:
  "parser_tokens [\<lparr>token_kind = T_Keyword Kw_Return, token_span = mk_span 0 6\<rparr>,
     \<lparr>token_kind = T_Whitespace, token_span = mk_span 6 7\<rparr>,
     \<lparr>token_kind = T_Star, token_span = mk_span 7 8\<rparr>] = Some sample_return"
proof -
  let ?ts = "[\<lparr>token_kind = T_Keyword Kw_Return, token_span = mk_span 0 6\<rparr>,
     \<lparr>token_kind = T_Star, token_span = mk_span 7 8\<rparr>]"
  have kinds: "kind_at ?ts 0 = Some (T_Keyword Kw_Return)" "kind_at ?ts 1 = Some T_Star"
    "kind_at ?ts (Suc 0) = Some T_Star" "kind_at ?ts 2 = None"
    by (simp_all add: kind_at_def slice_get_def)
  have plain: "escaped_parameter_end ?ts i = None" "pattern_comprehension_end ?ts i = None"
    "is_relationship_label_start ?ts i = False" "label_predicate_end ?ts i = None"
    "qualified_function_name_end ?ts i = None" if "i = 0 \<or> i = 1" for i
    using that kinds
    by (auto simp: escaped_parameter_end_def pattern_comprehension_end_def slice_get_def
        is_relationship_label_start_def label_predicate_end_def qualified_function_name_end_def
        qualified_name_loop.simps is_symbolic_name_kind_def)
  have "classify ?ts ?ts 0 True = Some (P_Return, 0)" "classify ?ts ?ts 1 True = Some (P_Star, 1)"
    using kinds plain [of 0] plain [of 1] by (simp_all add: classify_def fused_pattern_def)
  moreover have "significant [\<lparr>token_kind = T_Keyword Kw_Return, token_span = mk_span 0 6\<rparr>,
     \<lparr>token_kind = T_Whitespace, token_span = mk_span 6 7\<rparr>,
     \<lparr>token_kind = T_Star, token_span = mk_span 7 8\<rparr>] = ?ts"
    by (simp add: significant_def token_is_trivia_def kind_is_trivia_def)
  ultimately show ?thesis
    by (simp add: parser_tokens_def tokenize_from.simps sample_return_def slice_get_def)
qed

lemma sample_contextual: "initial_contextual sample_return = sample_return"
proof -
  have "\<not> reads_as_name sample_return i" for i
    by (auto simp: reads_as_name_def sample_return_def ptok_at_def slice_get_def nth_Cons'
        is_some_and_iff is_contextual_name_candidate_def follows_name_marker_def ptok_before_def
        checked_sub_def is_solo_projection_keyword_def is_aliased_bare_expression_def)
  then show ?thesis by (simp add: initial_contextual_def map_nth)
qed

end
