(* ===== verification/Gate_Sample.thy ===== *)
theory Gate_Sample
  imports Spec_Gate Return_Sample
begin

text \<open>
  A repository with one production on which \<open>verify\<close> passes: a small lexer automaton, the grammar
  \<open>return_star\<close> and tables of nested values in place of the TOML files.
\<close>

section \<open>The parser on the two queries\<close>

definition sample_engine :: engine where
  "sample_engine source =
     (case source of
        [] \<Rightarrow> (None, 0)
      | c # _ \<Rightarrow>
          if starts_with (ascii ''RETURN'') source then (Some (Pat_Plain RT_Word), 6)
          else if c = 32 then (Some (Pat_Plain RT_Whitespace), 1)
          else if c = 42 then (Some (Pat_Plain RT_Star), 1)
          else (None, 1))"

interpretation sample: raw_engine sample_engine
  by unfold_locales (auto simp: sample_engine_def starts_with_iff split: list.splits)

lemma sample_keyword: "from_ascii_case_insensitive (ascii ''RETURN'') = Some Kw_Return"
  by (simp add: from_ascii_case_insensitive_def keyword_candidates_def eq_ignore_ascii_case_def
      keyword_codes is_ascii_iff to_ascii_uppercase_def)

lemma sample_lex_return:
  "lex sample_engine (ascii ''RETURN *'') = Some
     \<lparr>lex_tokens = [\<lparr>token_kind = T_Keyword Kw_Return, token_span = mk_span 0 6\<rparr>,
        \<lparr>token_kind = T_Whitespace, token_span = mk_span 6 7\<rparr>,
        \<lparr>token_kind = T_Star, token_span = mk_span 7 8\<rparr>],
      lex_diagnostics = []\<rparr>"
  using sample_keyword
  by (simp add: lex_def lex_from.simps lexer_next_def sample_engine_def starts_with_def
      span_new_def)

lemma sample_program: "\<exists>p. parse_program return_star source sample_return = Some (Inr p)"
  by (simp add: parse_program_def split_terminator_def wrap_statement_def evaluate_queries)

lemma sample_accepted: "\<exists>v. parse sample_engine return_star (ascii ''RETURN *'') = Some (Inr v)"
proof -
  obtain p where "parse_program return_star (ascii ''RETURN *'') sample_return = Some (Inr p)"
    using sample_program by blast
  then have "parse_program_with_contextual_names return_star (ascii ''RETURN *'') sample_return =
      Some (Inr p)"
    by (simp add: parse_program_with_contextual_names_def parse_tokens_with_contextual_names_def
        sample_contextual panics_as_value_def value_as_panics_def del: ascii_simps)
  then show ?thesis
    by (simp add: parse_def parse_recovering_def sample_lex_return sample_parser_tokens
        normalize_diagnostics_def Let_def max_diagnostics_def del: ascii_simps)
qed

lemma sample_lex_invalid:
  "\<exists>sp d. lex sample_engine (ascii ''?'') = Some
     \<lparr>lex_tokens = [\<lparr>token_kind = T_Invalid, token_span = sp\<rparr>], lex_diagnostics = [d]\<rparr> \<and>
     diag_code d = DC_InvalidToken"
  by (simp add: lex_def lex_from.simps lexer_next_def sample_engine_def starts_with_def span_new_def
      diagnostic_error_def diagnostic_new_def)

section \<open>The repository\<close>

datatype (plugins only: size) sample_value =
    SV_Str ustr | SV_Int int | SV_Bool bool | SV_Arr "sample_value list"
  | SV_Tab "(ustr \<times> sample_value) list"

definition sv_api :: "sample_value toml" where
  "sv_api =
     \<lparr>toml_get = (\<lambda>v key. case v of SV_Tab entries \<Rightarrow> map_of entries key | _ \<Rightarrow> None),
      as_str = (\<lambda>v. case v of SV_Str s \<Rightarrow> Some s | _ \<Rightarrow> None),
      as_array = (\<lambda>v. case v of SV_Arr vs \<Rightarrow> Some vs | _ \<Rightarrow> None),
      as_bool = (\<lambda>v. case v of SV_Bool b \<Rightarrow> Some b | _ \<Rightarrow> None),
      as_integer = (\<lambda>v. case v of SV_Int i \<Rightarrow> Some i | _ \<Rightarrow> None)\<rparr>"

definition sv_str :: "string \<Rightarrow> ustr \<Rightarrow> ustr \<times> sample_value" where
  "sv_str key text = (ascii key, SV_Str text)"

definition sv_strs :: "string \<Rightarrow> string list \<Rightarrow> ustr \<times> sample_value" where
  "sv_strs key texts = (ascii key, SV_Arr (map (\<lambda>t. SV_Str (ascii t)) texts))"

definition sv_int :: "string \<Rightarrow> int \<Rightarrow> ustr \<times> sample_value" where
  "sv_int key n = (ascii key, SV_Int n)"

definition sv_arr :: "string \<Rightarrow> sample_value list \<Rightarrow> ustr \<times> sample_value" where
  "sv_arr key vs = (ascii key, SV_Arr vs)"

definition sample_hash :: ustr where
  "sample_hash = replicate 64 (cp CHR ''a'')"

definition sample_grammar_path :: ustr where
  "sample_grammar_path = ascii ''v/grammar/openCypher.bnf''"

definition sv_manifest :: sample_value where
  "sv_manifest = SV_Tab
     [sv_str ''archive_sha256'' sample_hash, sv_str ''grammar_sha256'' sample_hash,
      sv_arr ''file'' [SV_Tab [sv_str ''path'' sample_grammar_path, sv_str ''sha256'' sample_hash]],
      sv_str ''release'' pinned_release, sv_str ''tag'' pinned_release, sv_str ''commit'' pinned_commit,
      sv_str ''vendor_root'' (ascii ''v''), sv_int ''file_count'' 1, sv_int ''feature_file_count'' 0,
      sv_int ''graph_file_count'' 0, sv_int ''production_count'' 1]"

definition sv_production_map :: sample_value where
  "sv_production_map = SV_Tab
     [sv_int ''schema_version'' 2,
      sv_arr ''production'' [SV_Tab
        [sv_str ''name'' (ascii ''query''), sv_str ''support'' s_full, sv_str ''mapping'' s_direct,
         sv_strs ''targets'' [''rust:parser::parse''], sv_strs ''positive_cases'' [''yes''],
         sv_strs ''negative_cases'' [''no''], sv_strs ''deviations'' [], sv_str ''note'' []]],
      sv_str ''grammar'' sample_grammar_path, sv_str ''grammar_sha256'' sample_hash,
      sv_int ''production_count'' 1, (ascii ''assessment_complete'', SV_Bool True)]"

definition sv_yes :: sample_value where
  "sv_yes = SV_Tab
     [sv_str ''id'' (ascii ''yes''), sv_str ''description'' (ascii ''sample''),
      sv_str ''baseline'' s_accept, sv_str ''entrypoint'' s_parser,
      sv_str ''source'' (ascii ''RETURN *''), sv_str ''expect'' s_accept]"

definition sv_no :: sample_value where
  "sv_no = SV_Tab
     [sv_str ''id'' (ascii ''no''), sv_str ''description'' (ascii ''sample''),
      sv_str ''baseline'' s_reject, sv_str ''entrypoint'' s_lexer, sv_str ''source'' (ascii ''?''),
      sv_str ''expect'' s_tokens, sv_strs ''tokens'' [''Invalid''],
      sv_strs ''diagnostics'' [''OCY-L001'']]"

definition sample_tables :: "ledger_file \<Rightarrow> sample_value option" where
  "sample_tables f =
     (case f of
        F_Manifest \<Rightarrow> Some sv_manifest
      | F_Production_Map \<Rightarrow> Some sv_production_map
      | F_Witnesses \<Rightarrow> Some (SV_Tab
          [sv_int ''schema_version'' 1,
           sv_arr ''case'' [sv_yes, sv_no]])
      | F_Deviations \<Rightarrow> Some (SV_Tab [sv_int ''schema_version'' 2, sv_arr ''deviation'' []]))"

definition sample_repository :: "sample_value repository" where
  "sample_repository =
     \<lparr>rp_toml = sv_api, rp_tables = sample_tables, rp_source = sample_source,
      rp_spec = (\<lambda>path. if path = sample_grammar_path then Some (Some (ascii ''<query> ::='')) else None),
      rp_inventory = (\<lambda>_. Some [(sample_grammar_path, sample_hash)]), rp_unicode = sample_unicode\<rparr>"

lemma ascii_eq_iff: "ascii s = ascii t \<longleftrightarrow> s = t"
  by (auto simp: ascii_def inj_map_eq_map inj_def)

lemmas read_defs = table_string_def table_string_array_def optional_string_array_def table_records_def
  require_schema_version_def read_toml_def sv_api_def sv_str_def sv_strs_def sv_int_def sv_arr_def
  ascii_eq_iff

lemma sample_read:
  "read_traceability sv_api sample_tables = Some (Inr (sample_traceability sv_production_map))"
proof -
  have "read_production_map sv_api sv_production_map = Some (Inr
      \<lparr>pm_values = sv_production_map, pm_productions = [sample_query]\<rparr>)"
    by (simp add: read_production_map_def sv_production_map_def read_defs read_production_def
        sample_query_def del: ascii_simps)
  moreover have "read_witness sv_api sv_yes = Some (Inr sample_yes)"
    "read_witness sv_api sv_no = Some (Inr sample_no)"
    by (simp_all add: read_witness_def sv_yes_def sv_no_def read_defs sample_yes_def sample_no_def
        del: ascii_simps)
  then have "read_witnesses sv_api (SV_Tab [sv_int ''schema_version'' 1, sv_arr ''case''
      [sv_yes, sv_no]]) =
      Some (Inr sample_catalog)"
    by (simp add: read_witnesses_def read_defs insert_new_def sample_yes_def sample_no_def sample_catalog_def
        del: ascii_simps) simp
  moreover have "read_deviations sv_api (SV_Tab [sv_int ''schema_version'' 2, sv_arr ''deviation'' []]) =
      Some (Inr [])"
    by (simp add: read_deviations_def read_defs del: ascii_simps)
  ultimately show ?thesis
    by (simp add: read_traceability_def read_toml_def sample_tables_def sample_traceability_def)
qed

lemma sample_paths:
  "validate_relative_path sample_grammar_path = Some (Inr ())"
  "validate_relative_path (ascii ''v'') = Some (Inr ())"
  "strip_suffix (ascii ''.feature'') sample_grammar_path = None"
  "str_contains (ascii ''/tck/graphs/'') sample_grammar_path = False"
  "ascii ''v'' @ ascii ''/grammar/openCypher.bnf'' = sample_grammar_path"
  by (simp_all add: sample_grammar_path_def validate_relative_path_def path_components_def Let_def
      map_filter_simps piece_component_def is_normal_def strip_suffix_def str_contains_def)

lemma sample_hash_valid: "validate_hash sample_hash = Some (Inr ())"
proof -
  have eq: "sample_hash = replicate 64 97" by (simp add: sample_hash_def)
  have bytes: "byte_len (replicate n 97) = n" "as_bytes (replicate n 97) = replicate n 97" for n
    by (induction n) (simp_all add: len_utf8_def encode_utf8_def)
  show ?thesis
    unfolding validate_hash_def eq bytes
    by (simp add: list_all_iff is_ascii_hexdigit_def)
qed

lemma sample_production_names: "production_names (ascii ''<query> ::='') = [ascii ''query'']"
  by (simp add: production_names_def production_name_def str_lines_def map_filter_simps trim_end_def
      char_is_whitespace_def strip_suffix_def)

lemma sample_snapshot:
  "verify_snapshot sample_repository =
     Some (Inr (sample_grammar_path, sample_hash, ascii ''<query> ::=''))"
proof -
  let ?m = "\<lparr>mf_values = sv_manifest, mf_files = [(sample_grammar_path, sample_hash)]\<rparr>"
  have "read_manifest sv_api sample_tables = Some (Inr ?m)"
    by (simp add: read_manifest_def read_manifest_file_def sample_tables_def sv_manifest_def read_defs
        sample_paths sample_hash_valid del: ascii_simps)
  moreover have "require_value sv_api ?m ''release'' pinned_release = Some (Inr ())"
    "require_value sv_api ?m ''tag'' pinned_release = Some (Inr ())"
    "require_value sv_api ?m ''commit'' pinned_commit = Some (Inr ())"
    "manifest_string sv_api ?m ''vendor_root'' = Some (Inr (ascii ''v''))"
    "require_value sv_api ?m ''grammar_sha256'' sample_hash = Some (Inr ())"
    "verify_count sv_api ?m ''file_count'' 1 = Some (Inr ())"
    "verify_count sv_api ?m ''file_count'' (Suc 0) = Some (Inr ())"
    "verify_count sv_api ?m ''feature_file_count'' 0 = Some (Inr ())"
    "verify_count sv_api ?m ''graph_file_count'' 0 = Some (Inr ())"
    "verify_count sv_api ?m ''production_count'' (Suc 0) = Some (Inr ())"
    by (simp_all add: require_value_def manifest_string_def verify_count_def verify_table_count_def
        sv_manifest_def read_defs pass_def del: ascii_simps)
  moreover have "compare_inventory [(sample_grammar_path, sample_hash)]
      [(sample_grammar_path, sample_hash)] = Some (Inr ())"
    by (simp add: compare_inventory_def bt_keys_def)
  ultimately show ?thesis
    by (simp add: verify_snapshot_def sample_repository_def Let_def sample_paths sample_production_names
        bt_keys_def del: ascii_simps)
qed

lemma sample_verify: "spec_verify sample_engine return_star sample_repository = Some (Inr ())"
proof -
  have "require_table_value sv_api sv_production_map F_Production_Map ''grammar'' sample_grammar_path =
      Some (Inr ())"
    "require_table_value sv_api sv_production_map F_Production_Map ''grammar_sha256'' sample_hash =
      Some (Inr ())"
    "verify_table_count sv_api sv_production_map F_Production_Map ''production_count'' (Suc 0) =
      Some (Inr ())"
    and complete: "table_bool sv_api sv_production_map ''assessment_complete'' = Some (Inr True)"
    by (simp_all add: require_table_value_def verify_table_count_def sv_production_map_def read_defs
        table_bool_def pass_def del: ascii_simps)
  moreover have "validate_deviation_evidence sample_unicode sv_api
      (rp_spec sample_repository) sample_tables [] = Some (Inr ())"
    by (simp add: validate_deviation_evidence_def sample_tables_def read_defs del: ascii_simps)
  from sample_traceability_valid [OF this complete]
  have "validate_traceability sample_unicode sv_api (rp_spec sample_repository) sample_tables
      sample_source [ascii ''query''] (sample_traceability sv_production_map) = Some (Inr ())" .
  moreover have "execute_witnesses sample_engine return_star sample_catalog = Some (Inr ())"
    using sample_accepted sample_lex_invalid
    by (auto simp: execute_witnesses_def bt_values_def sample_catalog_def for_each_pass
        execute_witness_def execute_parser_witness_def execute_lexer_witness_def sample_yes_def
        sample_no_def)
  ultimately show ?thesis
    using sample_snapshot
    by (simp add: spec_verify_def sample_repository_def sample_read sample_production_names
        sample_traceability_def sample_query_def del: ascii_simps)
qed


end
