(* ===== verification/Tck_Sample.thy ===== *)
theory Tck_Sample
  imports Tck_Verdict Gate_Sample
begin

text \<open>
  A feature, a projection and a corpus on which the properties of the TCK projection can be applied:
  a scenario whose query is expected to be rejected, and an occurrence of a query that the parser of
  \<open>Gate_Sample\<close> accepts.
\<close>

section \<open>A rejected scenario\<close>

definition plain_step :: "step_type \<Rightarrow> ustr \<Rightarrow> ustr option \<Rightarrow> nat \<Rightarrow> gherkin_step" where
  "plain_step kind text docstring line =
     \<lparr>gs_type = kind, gs_value = text, gs_docstring = docstring, gs_table = None, gs_line = line\<rparr>"

definition error_text :: ustr where
  "error_text = ascii ''a SyntaxError should be raised at compile time: X''"

definition rejected_scenario :: gherkin_scenario where
  "rejected_scenario =
     \<lparr>sc_keyword = ascii ''Scenario'', sc_name = ascii ''S'',
      sc_steps = [plain_step ST_When (ascii ''executing query:'') (Some (ascii ''?'')) 3,
        plain_step ST_Then error_text None 4],
      sc_examples = [], sc_tags = [ascii ''@skipGrammarCheck''], sc_line = 2\<rparr>"

definition sample_review :: expectation_review where
  "sample_review =
     \<lparr>rv_feature = ascii ''f'', rv_scenario_line = 2, rv_scenario = ascii ''S'',
      rv_error_type = s_syntax_error, rv_phase = s_compile_time, rv_detail = ascii ''X'',
      rv_expect = EX_Reject, rv_reason = ascii ''grammar_negative''\<rparr>"

definition sample_reviews :: reviews where
  "sample_reviews = [(review_key_of sample_review, sample_review)]"

definition sample_feature :: gherkin_feature where
  "sample_feature = \<lparr>gf_name = ascii ''F'', gf_background = None, gf_scenarios = [rejected_scenario],
     gf_rules = [], gf_tags = []\<rparr>"

lemma error_text_step: "parse_error_step error_text =
    Some \<lparr>ue_error_type = s_syntax_error, ue_phase = s_compile_time, ue_detail = ascii ''X''\<rparr>"
  by (simp add: parse_error_step_def error_text_def s_syntax_error_def s_compile_time_def)

lemma query_text_step: "parse_error_step (ascii ''executing query:'') = None"
  by (simp add: parse_error_step_def)

lemma substitute_plain: "60 \<notin> set s \<Longrightarrow> substitute s vals = pass s"
  using substitute_literal [of s vals "[]" "[]"] by (simp add: substitute_def)

lemma query_step_classified:
  "classify_step (plain_step kind (ascii ''executing query:'') (Some body) l) context p [] =
   run_then (map_err (\<lambda>name. TE_Step p l (ascii ''executing query:'') (SF_Body name)) (substitute body []))
     (\<lambda>source. pass (CS_Query \<lparr>qs_role = QR_Primary, qs_form = QF_Docstring, qs_source_path = p,
        qs_source_line = l, qs_source = source\<rparr>))"
proof -
  have "substitute (ascii ''executing query:'') [] = pass (ascii ''executing query:'')"
    by (rule substitute_plain) simp
  then show ?thesis
    by (simp add: classify_step_def plain_step_def step_query_kind_def query_step_of_def query_body_def
        Let_def map_err_def pass_def)
qed

lemma error_step_classified: "classify_step (plain_step ST_Then error_text None l) context p [] = pass CS_None"
proof -
  have "substitute error_text [] = pass error_text"
    by (rule substitute_plain) (simp add: error_text_def)
  moreover have "step_query_kind context error_text = None" "\<not> table_expected error_text"
    by (simp_all add: step_query_kind_def table_expected_def error_text_def starts_with_def)
  moreover have "no_argument error_text" by (simp add: no_argument_def error_text_step)
  ultimately show ?thesis
    by (simp add: classify_step_def plain_step_def map_err_def pass_def named_graph_def)
qed

lemma rejected_tag: "normalize_tag (ascii ''@skipGrammarCheck'') = s_skip_grammar"
  by (simp add: normalize_tag_def trim_def trim_start_def trim_end_def char_is_whitespace_def s_skip_grammar_def)

lemma rejected_expectation:
  "\<exists>seen. scenario_expectation (ascii ''f'') rejected_scenario sample_reviews [] =
     pass (\<lparr>se_expectation = EX_Reject, se_upstream_error = Some
       \<lparr>ue_error_type = s_syntax_error, ue_phase = s_compile_time, ue_detail = ascii ''X''\<rparr>\<rparr>, seen)"
proof -
  have "skips_grammar rejected_scenario"
    by (simp add: skips_grammar_def rejected_scenario_def rejected_tag del: ascii_simps)
  moreover have "List.map_filter (\<lambda>st. parse_error_step (gs_value st)) (sc_steps rejected_scenario) =
      [\<lparr>ue_error_type = s_syntax_error, ue_phase = s_compile_time, ue_detail = ascii ''X''\<rparr>]"
    by (simp add: rejected_scenario_def plain_step_def List.map_filter_def query_text_step error_text_step
        del: ascii_simps)
  moreover have "sc_line rejected_scenario = 2" "sc_name rejected_scenario = ascii ''S''"
    by (simp_all add: rejected_scenario_def)
  ultimately show ?thesis
    by (simp add: scenario_expectation_def reviewed_expectation_def Let_def sample_reviews_def
        review_key_of_def sample_review_def del: ascii_simps)
qed

lemma rejected_feature:
  "\<exists>b oc. process_feature new_builder sample_feature (ascii ''f'') sample_reviews [] [] = Some (Inr b) \<and>
     pb_occurrences b = [oc] \<and> po_expectation oc = EX_Reject"
proof -
  obtain seen where ex: "scenario_expectation (ascii ''f'') rejected_scenario sample_reviews [] =
     pass (\<lparr>se_expectation = EX_Reject, se_upstream_error = Some
       \<lparr>ue_error_type = s_syntax_error, ue_phase = s_compile_time, ue_detail = ascii ''X''\<rparr>\<rparr>, seen)"
    using rejected_expectation by blast
  have body: "substitute (ascii ''?'') [] = pass (ascii ''?'')" "substitute (ascii ''S'') [] = pass (ascii ''S'')"
    by (rule substitute_plain, simp)+
  have "expand_examples rejected_scenario p ls =
      pass [\<lparr>ei_index = None, ei_line = None, ei_values = [], ei_tags = []\<rparr>]" for p ls
    by (simp add: expand_examples_def rejected_scenario_def str_contains_def)
  moreover have "sc_examples rejected_scenario = []" "sc_name rejected_scenario = ascii ''S''"
    "sc_steps rejected_scenario = [plain_step ST_When (ascii ''executing query:'') (Some (ascii ''?'')) 3,
        plain_step ST_Then error_text None 4]"
    by (simp_all add: rejected_scenario_def del: ascii_simps)
  ultimately show ?thesis
    using ex body
    by (simp add: process_feature_def sample_feature_def process_scenario_def new_builder_def Let_def
        process_instance_def optional_steps_def extract_steps_def extract_step_def instance_context_def
        query_step_classified error_step_classified map_err_def pass_def push_occurrence_def
        primary_count_def new_occurrence_def
        del: ascii_simps)
qed


section \<open>An accepted query\<close>

definition sample_query_of :: "expectation \<Rightarrow> pending_occurrence" where
  "sample_query_of e =
     \<lparr>po_id = ascii ''o'', po_feature_path = ascii ''f'', po_feature = ascii ''F'', po_rule = None,
      po_scenario_template = ascii ''S'', po_scenario = ascii ''S'', po_scenario_line = 2,
      po_example_index = None, po_example_line = None, po_sequence = 1, po_role = QR_Primary,
      po_form = QF_Docstring, po_source_path = ascii ''f'', po_source_line = 3, po_tags = [],
      po_expectation = e, po_upstream_error = None, po_source = ascii ''RETURN *''\<rparr>"

text \<open>With the bytes as their own digest: one text may not be expected both ways.\<close>

lemma query_records_index_witness:
  "(\<exists>q. query_records (\<lambda>bytes. bytes) [sample_query_of EX_Accept, sample_query_of EX_Accept] = Some (Inr [q]) \<and>
      qr_expectation q = EX_Accept) \<and>
   \<not> (\<exists>qs. query_records (\<lambda>bytes. bytes) [sample_query_of EX_Accept, sample_query_of EX_Reject] = Some (Inr qs))"
proof
  let ?ocs = "[sample_query_of EX_Accept, sample_query_of EX_Accept]" and ?H = "\<lambda>bytes. bytes"
  from query_records_index [of ?H ?ocs] obtain qs where qs: "query_records ?H ?ocs = Some (Inr qs)" by auto
  with query_records_index [of ?H ?ocs] have sorted: "sorted_wrt (<) (map qr_sha256 qs)"
    and image: "(\<lambda>q. (qr_sha256 q, qr_source q, qr_expectation q)) ` set qs =
      {(as_bytes (ascii ''RETURN *''), ascii ''RETURN *'', EX_Accept)}"
    by (auto simp: sample_query_of_def simp del: ascii_simps)
  from sorted have "distinct (map qr_sha256 qs)" by (simp add: strict_sorted_iff)
  moreover have same: "\<forall>q\<in>set qs. qr_sha256 q = as_bytes (ascii ''RETURN *'') \<and> qr_expectation q = EX_Accept"
  proof
    fix q assume "q \<in> set qs"
    then have "(qr_sha256 q, qr_source q, qr_expectation q) \<in> (\<lambda>q. (qr_sha256 q, qr_source q, qr_expectation q)) ` set qs"
      by (rule imageI)
    then show "qr_sha256 q = as_bytes (ascii ''RETURN *'') \<and> qr_expectation q = EX_Accept"
      unfolding image by (simp del: ascii_simps)
  qed
  moreover from image have "qs \<noteq> []" by auto
  ultimately obtain q where "qs = [q]" by (cases qs; cases "tl qs") auto
  with qs same show "\<exists>q. query_records ?H ?ocs = Some (Inr [q]) \<and> qr_expectation q = EX_Accept" by auto
next
  show "\<not> (\<exists>qs. query_records (\<lambda>bytes. bytes) [sample_query_of EX_Accept, sample_query_of EX_Reject] = Some (Inr qs))"
    using query_records_index [of "\<lambda>bytes. bytes" "[sample_query_of EX_Accept, sample_query_of EX_Reject]"]
    by (simp add: sample_query_of_def del: ascii_simps)
qed

definition sample_projection :: projection where
  "sample_projection =
     (let queries = [make_query_record (ascii ''h'', ascii ''RETURN *'', EX_Accept)];
          occurrences = [make_occurrence_record (sample_query_of EX_Accept) (query_id_of (ascii ''h''))] in
      \<lparr>pj_header = make_header new_builder [] queries occurrences, pj_queries = queries,
       pj_occurrences = occurrences\<rparr>)"

definition sample_corpus :: corpus where
  "sample_corpus =
     \<lparr>cp_expectations = None,
      cp_exclusions = Some \<lparr>xl_schema_version = 1, xl_release = pinned_release, xl_commit = pinned_commit,
        xl_exclusion_count = 0, xl_exclusion = []\<rparr>,
      cp_features = None, cp_metadata = None, cp_scripts = None, cp_sibling = (\<lambda>_ _. None),
      cp_gherkin = (\<lambda>_. None), cp_graph_json = (\<lambda>_. None), cp_sha256 = (\<lambda>bytes. bytes),
      cp_corpus_sha256 = None, cp_header_json = (\<lambda>_. None), cp_query_json = (\<lambda>_. None),
      cp_occurrence_json = (\<lambda>_. None), cp_generated = None\<rparr>"

lemma sample_exclusions: "read_exclusions sample_corpus = Some (Inr [])"
  by (simp add: read_exclusions_def sample_corpus_def validate_ledger_header_def run_all_pass pass_def)

lemma sample_indexed: "indexed sample_projection"
  by (simp add: indexed_def sample_projection_def Let_def make_occurrence_record_def sample_query_of_def)

lemma sample_meets: "meets sample_engine return_star sample_projection oc"
  if "oc \<in> set (pj_occurrences sample_projection)"
  using that sample_accepted
  by (auto simp: meets_def accepts_def sample_projection_def Let_def make_occurrence_record_def
      sample_query_of_def simp del: ascii_simps)

lemma evaluate_success_witness:
  "raw_engine sample_engine \<and> reports_input return_star \<and> indexed sample_projection \<and>
   (\<exists>report. evaluate sample_engine return_star sample_corpus sample_projection = Some (Inr report) \<and>
      cr_success report)"
proof -
  have "\<exists>xs. read_exclusions sample_corpus = Some (Inr xs) \<and>
      (\<forall>x\<in>set (bt_values xs). xc_occurrence_id x \<in> oc_id ` set (pj_occurrences sample_projection)) \<and>
      (\<forall>oc\<in>set (pj_occurrences sample_projection).
         if meets sample_engine return_star sample_projection oc then map_of xs (oc_id oc) = None
         else is_some_and (map_of xs (oc_id oc)) (\<lambda>x. xc_direction x = mismatch_direction (oc_expectation oc)))"
    using sample_exclusions sample_meets by (intro exI [of _ "[]"]) (simp add: bt_values_def)
  with evaluate_success [OF sample.raw_engine_axioms return_star_reports sample_indexed, of sample_corpus]
  show ?thesis using sample.raw_engine_axioms return_star_reports sample_indexed by blast
qed

text \<open>The repository of \<open>Gate_Sample\<close> has one production of 377, so it is not released.\<close>

lemma spec_release_check_iff_witness:
  "raw_engine sample_engine \<and> reports_input return_star \<and>
   spec_verify sample_engine return_star sample_repository = Some (Inr ()) \<and>
   spec_release_check sample_engine return_star sample_repository sample_corpus \<noteq> None \<and>
   spec_release_check sample_engine return_star sample_repository sample_corpus \<noteq> Some (Inr ())"
proof -
  have "read_traceability (rp_toml sample_repository) (rp_tables sample_repository) =
      Some (Inr (sample_traceability sv_production_map))"
    by (simp add: sample_repository_def sample_read)
  moreover have "length (pm_productions (tr_map (sample_traceability sv_production_map))) = 1"
    by (simp add: sample_traceability_def)
  ultimately show ?thesis
    using spec_release_check_iff [OF sample.raw_engine_axioms return_star_reports,
        of sample_repository sample_corpus]
      sample.raw_engine_axioms return_star_reports sample_verify by auto
qed

end
