(* ===== verification/Grammar_Rules.thy ===== *)
theory Grammar_Rules
  imports Fragments Folds Literals Checked
begin

text \<open>
  The vocabulary of \<open>grammar/cypher.lalrpop\<close>. A nonterminal is a relation between the tokens it
  derives and the outcome of its action: a value, an error of an action with \<open>=>?\<close>, or a panic.
  Right-hand sides are put together from the forms of the grammar file: a terminal, symbols in
  sequence, \<open>X?\<close>, \<open>X*\<close>, \<open>X+\<close>, \<open>(\<open>,\<close> X)*\<close>, and an action with the positions \<open>@L\<close> and \<open>@R\<close>. Actions run
  from left to right, the children before the parent, and the first failure is the outcome.
\<close>

named_theorems safe_intros "right-hand sides whose actions do not panic"
named_theorems safe_simps "unfolding of semantic actions"

type_synonym 'a outcome = "(lalrpop_error, 'a) run"
type_synonym 'a rule = "spanned list \<Rightarrow> 'a outcome \<Rightarrow> bool"

section \<open>Right-hand sides\<close>

text \<open>\<open><l:@L> "t" <r:@R>\<close>.\<close>

definition terminal :: "parser_token \<Rightarrow> (nat \<times> nat) rule" where
  "terminal t ts out \<longleftrightarrow> (\<exists>u. ts = [u] \<and> tok_kind u = t \<and> out = pass (tok_start u, tok_end u))"

text \<open>A terminal whose value is not used, before or after the rest.\<close>

definition before :: "parser_token \<Rightarrow> 'a rule \<Rightarrow> 'a rule" where
  "before t R ts out \<longleftrightarrow> (\<exists>u us. ts = u # us \<and> tok_kind u = t \<and> R us out)"

definition after :: "'a rule \<Rightarrow> parser_token \<Rightarrow> 'a rule" where
  "after R t ts out \<longleftrightarrow> (\<exists>u us. ts = us @ [u] \<and> tok_kind u = t \<and> R us out)"

definition nothing :: "unit rule" where
  "nothing ts out \<longleftrightarrow> ts = [] \<and> out = pass ()"

definition seq :: "'a rule \<Rightarrow> 'b rule \<Rightarrow> ('a \<times> 'b) rule" where
  "seq R S ts out \<longleftrightarrow> (\<exists>us vs a b. ts = us @ vs \<and> R us a \<and> S vs b \<and>
     out = run_then a (\<lambda>x. run_then b (\<lambda>y. pass (x, y))))"

definition optional :: "'a rule \<Rightarrow> 'a option rule" where
  "optional R ts out \<longleftrightarrow> ts = [] \<and> out = pass None \<or> (\<exists>a. R ts a \<and> out = run_then a (\<lambda>x. pass (Some x)))"

definition many :: "'a rule \<Rightarrow> 'a list rule" where
  "many R ts out \<longleftrightarrow> (\<exists>parts outs. ts = concat parts \<and> list_all2 R parts outs \<and> out = map_run id outs)"

text \<open>\<open>X+\<close>, and the lists that the actions build of a head and a tail.\<close>

definition yields :: "'a rule \<Rightarrow> ('a \<Rightarrow> 'b) \<Rightarrow> 'b rule" where
  "yields R f ts out \<longleftrightarrow> (\<exists>a. R ts a \<and> out = run_then a (\<lambda>x. pass (f x)))"

definition some_of :: "'a rule \<Rightarrow> 'a list rule" where
  "some_of R = yields (seq R (many R)) (\<lambda>(x, xs). x # xs)"

definition separated_by :: "parser_token \<Rightarrow> 'a rule \<Rightarrow> 'a list rule" where
  "separated_by t R = yields (seq R (many (before t R))) (\<lambda>(x, xs). x # xs)"

text \<open>An action that may fail, and one that is given \<open>@L\<close> and \<open>@R\<close> around a right-hand side that is not empty.\<close>

definition fold_rule :: "'a rule \<Rightarrow> ('a \<Rightarrow> 'b outcome) \<Rightarrow> 'b rule" where
  "fold_rule R f ts out \<longleftrightarrow> (\<exists>a. R ts a \<and> out = run_then a f)"

definition act :: "'a rule \<Rightarrow> (nat \<Rightarrow> nat \<Rightarrow> 'a \<Rightarrow> 'b outcome) \<Rightarrow> 'b rule" where
  "act R f ts out \<longleftrightarrow> ts \<noteq> [] \<and>
     (\<exists>a. R ts a \<and> out = run_then a (f (tok_start (hd ts)) (tok_end (last ts))))"

text \<open>\<open>X <end:@R>\<close>.\<close>

definition with_end :: "'a rule \<Rightarrow> ('a \<times> nat) rule" where
  "with_end R = act R (\<lambda>l r x. pass (x, r))"

text \<open>\<open>Node::new(kind, Span::new(l, r))\<close>, for the types of the tree.\<close>

definition returns_value :: "'a panics \<Rightarrow> 'a outcome" where
  "returns_value v = map_option Inr v"

definition node_at :: "nat \<Rightarrow> nat \<Rightarrow> 'a \<Rightarrow> 'a node outcome" where
  "node_at l r kind = returns_value (map_option (Node kind) (span_new l r))"

definition expr_at :: "nat \<Rightarrow> nat \<Rightarrow> (expr, path_pattern, clause) expr_kind \<Rightarrow> expr outcome" where
  "expr_at l r kind = returns_value (map_option (mk_expr kind) (span_new l r))"

definition clause_at :: "nat \<Rightarrow> nat \<Rightarrow> (expr, path_pattern, clause) clause_kind \<Rightarrow> clause outcome" where
  "clause_at l r kind = returns_value (map_option (mk_clause kind) (span_new l r))"

definition label_at :: "nat \<Rightarrow> nat \<Rightarrow> label_expression label_expression_kind \<Rightarrow> label_expression outcome" where
  "label_at l r kind = returns_value (map_option (\<lambda>sp. LabelExpression (Node kind sp)) (span_new l r))"

definition path_at :: "nat \<Rightarrow> nat \<Rightarrow> (expr, path_pattern) path_pattern_kind \<Rightarrow> path_pattern outcome" where
  "path_at l r kind = returns_value (map_option (\<lambda>sp. PathPattern (Node kind sp)) (span_new l r))"

text \<open>A struct with a field \<open>span: Span::new(l, r)\<close>.\<close>

definition struct_at :: "nat \<Rightarrow> nat \<Rightarrow> (span \<Rightarrow> 'a) \<Rightarrow> 'a outcome" where
  "struct_at l r f = returns_value (map_option f (span_new l r))"

lemmas at_defs = node_at_def expr_at_def clause_at_def label_at_def path_at_def struct_at_def returns_value_def

section \<open>Monotonicity\<close>

lemma before_mono [mono]: "R \<le> S \<Longrightarrow> before t R \<le> before t S"
  by (auto simp: before_def le_fun_def)

lemma after_mono [mono]: "R \<le> S \<Longrightarrow> after R t \<le> after S t"
  by (auto simp: after_def le_fun_def)

lemma seq_mono [mono]: "R \<le> R' \<Longrightarrow> S \<le> S' \<Longrightarrow> seq R S \<le> seq R' S'"
  unfolding seq_def le_fun_def le_bool_def by blast

lemma optional_mono [mono]: "R \<le> S \<Longrightarrow> optional R \<le> optional S"
  by (auto simp: optional_def le_fun_def)

lemma many_mono [mono]: "R \<le> S \<Longrightarrow> many R \<le> many S"
  unfolding many_def le_fun_def le_bool_def using list_all2_mono [of R _ _ S] by blast

lemma yields_mono [mono]: "R \<le> S \<Longrightarrow> yields R f \<le> yields S f"
  by (auto simp: yields_def le_fun_def)

lemma some_of_mono [mono]: "R \<le> S \<Longrightarrow> some_of R \<le> some_of S"
  unfolding some_of_def by (intro yields_mono seq_mono many_mono)

lemma separated_by_mono [mono]: "R \<le> S \<Longrightarrow> separated_by t R \<le> separated_by t S"
  unfolding separated_by_def by (intro yields_mono seq_mono many_mono before_mono)

lemma fold_rule_mono [mono]: "R \<le> S \<Longrightarrow> fold_rule R f \<le> fold_rule S f"
  by (auto simp: fold_rule_def le_fun_def)

lemma act_mono [mono]: "R \<le> S \<Longrightarrow> act R f \<le> act S f"
  by (auto simp: act_def le_fun_def)

lemma with_end_mono [mono]: "R \<le> S \<Longrightarrow> with_end R \<le> with_end S"
  unfolding with_end_def by (rule act_mono)

section \<open>Actions that do not panic\<close>

text \<open>Tokens of the lexer: in order, between character boundaries, a parameter with its \<open>$\<close>.\<close>

definition good_token :: "ustr \<Rightarrow> spanned \<Rightarrow> bool" where
  "good_token source t = (spanned_ok source t \<and>
     (tok_kind t = P_Parameter \<longrightarrow> tok_start t < tok_end t \<and> is_char_boundary source (tok_start t + 1)))"

definition good_tokens :: "ustr \<Rightarrow> spanned list \<Rightarrow> bool" where
  "good_tokens source ts = (list_all (good_token source) ts \<and> ordered_tokens ts)"

text \<open>Whenever the rule derives good tokens its actions return, and a value is as \<open>w\<close> says.\<close>

definition returning :: "('a \<Rightarrow> bool) \<Rightarrow> 'a outcome \<Rightarrow> bool" where
  "returning w out = (case out of None \<Rightarrow> False | Some (Inl e) \<Rightarrow> True | Some (Inr v) \<Rightarrow> w v)"

definition safe :: "ustr \<Rightarrow> 'a rule \<Rightarrow> (spanned list \<Rightarrow> 'a \<Rightarrow> bool) \<Rightarrow> bool" where
  "safe source R w = (\<forall>ts out. good_tokens source ts \<longrightarrow> R ts out \<longrightarrow> returning (w ts) out)"

text \<open>The extent of some tokens.\<close>

definition covers :: "spanned list \<Rightarrow> span \<Rightarrow> bool" where
  "covers ts sp = (ts \<noteq> [] \<and> sp = mk_span (tok_start (hd ts)) (tok_end (last ts)))"

lemma returning_simps [simp]:
  "returning w (pass x) = w x" "returning w (fail e)" "\<not> returning w None"
  "returning w (Some (Inr x)) = w x" "returning w (Some (Inl e))"
  by (simp_all add: returning_def pass_def fail_def)

lemma returning_run_then:
  assumes "returning w a" and "\<And>x. w x \<Longrightarrow> returning w' (f x)"
  shows "returning w' (run_then a f)"
  using assms(1) assms(2) [unfolded returning_def]
  by (cases a rule: option.exhaust) (auto simp: returning_def run_then_def split: sum.splits)

lemma returning_mono: "returning w a \<Longrightarrow> (\<And>x. w x \<Longrightarrow> w' x) \<Longrightarrow> returning w' a"
  by (auto simp: returning_def split: option.splits sum.splits)

lemma good_tokens_append: "good_tokens source (us @ vs) \<Longrightarrow> good_tokens source us \<and> good_tokens source vs"
  by (auto simp: good_tokens_def ordered_tokens_def sorted_wrt_append)

lemma good_tokens_Cons: "good_tokens source (u # us) \<Longrightarrow> good_token source u \<and> good_tokens source us"
  by (auto simp: good_tokens_def ordered_tokens_def)

lemma good_tokens_concat: "good_tokens source (concat parts) \<Longrightarrow> part \<in> set parts \<Longrightarrow> good_tokens source part"
  by (induction parts) (auto dest: good_tokens_append)

lemma good_tokens_extent:
  assumes "good_tokens source ts" and "ts \<noteq> []"
  shows "tok_start (hd ts) \<le> tok_end (last ts)"
proof (cases "length ts = 1")
  case True
  with assms show ?thesis
    by (cases ts) (auto simp: good_tokens_def ordered_tokens_def)
next
  case False
  with assms(2) obtain us where "ts = hd ts # us" "us \<noteq> []"
    by (cases ts) auto
  then have "last ts \<in> set us" by (metis last_ConsR last_in_set)
  with \<open>ts = hd ts # us\<close> assms(1) have "tok_end (hd ts) \<le> tok_start (last ts)"
    unfolding good_tokens_def ordered_tokens_def by (metis sorted_wrt.simps(2))
  moreover have "tok_start (hd ts) \<le> tok_end (hd ts)" "tok_start (last ts) \<le> tok_end (last ts)"
    using assms by (auto simp: good_tokens_def ordered_tokens_def)
  ultimately show ?thesis by simp
qed

lemma safeI:
  "(\<And>ts out. good_tokens source ts \<Longrightarrow> R ts out \<Longrightarrow> returning (w ts) out) \<Longrightarrow> safe source R w"
  by (simp add: safe_def)

lemma safeD: "safe source R w \<Longrightarrow> good_tokens source ts \<Longrightarrow> R ts out \<Longrightarrow> returning (w ts) out"
  by (simp add: safe_def)

lemma safe_weaken: "safe source R w \<Longrightarrow> (\<And>ts x. w ts x \<Longrightarrow> w' ts x) \<Longrightarrow> safe source R w'"
  unfolding safe_def using returning_mono by blast

text \<open>The hypothesis of a rule induction.\<close>

lemma safe_hypothesis [safe_intros]:
  "safe source (\<lambda>ts out. R ts out \<and> (good_tokens source ts \<longrightarrow> returning (w ts) out)) w"
  by (rule safeI) simp

lemma safe_alt [safe_intros]:
  "safe source R w \<Longrightarrow> safe source S w \<Longrightarrow> safe source (\<lambda>ts out. R ts out \<or> S ts out) w"
  by (auto simp: safe_def)

lemma safe_terminal [safe_intros]:
  "safe source (terminal t) (\<lambda>ts x. \<exists>u. ts = [u] \<and> tok_kind u = t \<and> x = (tok_start u, tok_end u) \<and>
     spanned_ok source u)"
  by (rule safeI) (auto simp: terminal_def good_tokens_def good_token_def)

lemma safe_before [safe_intros]:
  "safe source R w \<Longrightarrow> safe source (before t R) (\<lambda>ts x. \<exists>u us. ts = u # us \<and> tok_kind u = t \<and> w us x)"
  by (rule safeI) (auto simp: before_def dest!: good_tokens_Cons safeD elim: returning_mono)

lemma safe_after [safe_intros]:
  "safe source R w \<Longrightarrow> safe source (after R t) (\<lambda>ts x. \<exists>u us. ts = us @ [u] \<and> tok_kind u = t \<and> w us x)"
  by (rule safeI) (auto simp: after_def dest!: good_tokens_append safeD elim: returning_mono)

lemma safe_nothing [safe_intros]: "safe source nothing (\<lambda>ts x. ts = [])"
  by (rule safeI) (auto simp: nothing_def)

lemma safe_seq [safe_intros]:
  assumes "safe source R w" and "safe source S w'"
  shows "safe source (seq R S) (\<lambda>ts x. \<exists>us vs. ts = us @ vs \<and> w us (fst x) \<and> w' vs (snd x))"
proof (rule safeI)
  fix ts out
  assume good: "good_tokens source ts" and "seq R S ts out"
  then obtain us vs a b where ts: "ts = us @ vs" and "R us a" "S vs b"
    and out: "out = run_then a (\<lambda>x. run_then b (\<lambda>y. pass (x, y)))"
    by (auto simp: seq_def)
  with good good_tokens_append [of source us vs] assms
  have a: "returning (w us) a" and b: "returning (w' vs) b" by (auto dest: safeD)
  show "returning (\<lambda>x. \<exists>us vs. ts = us @ vs \<and> w us (fst x) \<and> w' vs (snd x)) out"
    unfolding out
  proof (rule returning_run_then [OF a], rule returning_run_then [OF b])
    fix x y
    assume "w us x" and "w' vs y"
    with ts show "returning (\<lambda>x. \<exists>us vs. ts = us @ vs \<and> w us (fst x) \<and> w' vs (snd x)) (pass (x, y))"
      by auto
  qed
qed

lemma safe_yields [safe_intros]:
  "safe source R w \<Longrightarrow> safe source (yields R f) (\<lambda>ts y. \<exists>x. y = f x \<and> w ts x)"
  by (rule safeI) (auto simp: yields_def dest!: safeD intro!: returning_run_then)

lemma safe_optional [safe_intros]:
  "safe source R w \<Longrightarrow>
     safe source (optional R) (\<lambda>ts y. ts = [] \<and> y = None \<or> (\<exists>x. y = Some x \<and> w ts x))"
  by (rule safeI) (auto simp: optional_def dest!: safeD intro!: returning_run_then elim: returning_mono)

lemma returning_map_run:
  "list_all2 (\<lambda>w out. returning w out) ws outs \<Longrightarrow>
     returning (\<lambda>xs. list_all2 (\<lambda>w x. w x) ws xs) (map_run id outs)"
proof (induction ws outs rule: list_all2_induct)
  case (Cons w ws out outs)
  show ?case unfolding map_run.simps
  proof (rule returning_run_then)
    show "returning w (id out)" using Cons.hyps(1) by simp
  next
    fix x
    assume "w x"
    then show "returning (\<lambda>xs. list_all2 (\<lambda>w x. w x) (w # ws) xs)
        (run_then (map_run id outs) (\<lambda>ys. pass (x # ys)))"
      by (intro returning_run_then [OF Cons.IH]) simp
  qed
qed simp

lemma safe_many [safe_intros]:
  assumes "safe source R w"
  shows "safe source (many R) (\<lambda>ts xs. \<exists>parts. ts = concat parts \<and> list_all2 w parts xs)"
proof (rule safeI)
  fix ts out
  assume good: "good_tokens source ts" and "many R ts out"
  then obtain parts outs where ts: "ts = concat parts" and all: "list_all2 R parts outs"
    and out: "out = map_run id outs" by (auto simp: many_def)
  have "list_all2 (\<lambda>part out. returning (w part) out) parts outs"
    using all
  proof (rule list.rel_mono_strong)
    fix part out
    assume "part \<in> set parts" and "out \<in> set outs" and "R part out"
    with good ts assms show "returning (w part) out" by (metis good_tokens_concat safeD)
  qed
  then have "list_all2 (\<lambda>w out. returning w out) (map w parts) outs" by (simp add: list_all2_map1)
  then have "returning (\<lambda>xs. list_all2 (\<lambda>w x. w x) (map w parts) xs) (map_run id outs)"
    by (rule returning_map_run)
  then show "returning (\<lambda>xs. \<exists>parts. ts = concat parts \<and> list_all2 w parts xs) out"
    unfolding out by (rule returning_mono) (auto simp: ts list_all2_map1)
qed

lemma safe_fold_rule:
  assumes "safe source R w" and "\<And>ts x. good_tokens source ts \<Longrightarrow> w ts x \<Longrightarrow> returning (w' ts) (f x)"
  shows "safe source (fold_rule R f) w'"
  by (rule safeI) (use assms in \<open>auto simp: fold_rule_def dest!: safeD intro!: returning_run_then\<close>)

lemma good_tokens_boundaries:
  assumes "good_tokens source ts" and "ts \<noteq> []"
  shows "is_char_boundary source (tok_start (hd ts))" "is_char_boundary source (tok_end (last ts))"
  using assms by (auto simp: good_tokens_def good_token_def spanned_ok_def list_all_iff)

text \<open>An action is given the extent of some tokens, which \<open>Span::new\<close> and slices accept.\<close>

lemma safe_act:
  assumes "safe source R w"
    and "\<And>ts x. good_tokens source ts \<Longrightarrow> ts \<noteq> [] \<Longrightarrow> tok_start (hd ts) \<le> tok_end (last ts) \<Longrightarrow>
      is_char_boundary source (tok_start (hd ts)) \<Longrightarrow> is_char_boundary source (tok_end (last ts)) \<Longrightarrow>
      w ts x \<Longrightarrow> returning (w' ts) (f (tok_start (hd ts)) (tok_end (last ts)) x)"
  shows "safe source (act R f) w'"
  by (rule safeI)
    (use assms good_tokens_extent good_tokens_boundaries in
      \<open>auto simp: act_def dest!: safeD intro!: returning_run_then\<close>)

text \<open>The use in a rule induction.\<close>

lemma safe_use:
  "act R f ts out \<Longrightarrow> safe source (act R f) w \<Longrightarrow> good_tokens source ts \<longrightarrow> returning (w ts) out"
  "yields R k ts out \<Longrightarrow> safe source (yields R k) w \<Longrightarrow> good_tokens source ts \<longrightarrow> returning (w ts) out"
  "fold_rule R h ts out \<Longrightarrow> safe source (fold_rule R h) w \<Longrightarrow> good_tokens source ts \<longrightarrow> returning (w ts) out"
  by (auto simp: safe_def)

lemma safe_with_end [safe_intros]:
  "safe source R w \<Longrightarrow> safe source (with_end R) (\<lambda>ts y. ts \<noteq> [] \<and> snd y = tok_end (last ts) \<and> w ts (fst y))"
  unfolding with_end_def by (erule safe_act) simp

text \<open>Building a node over the extent of the tokens.\<close>

definition located :: "('a \<Rightarrow> span) \<Rightarrow> spanned list \<Rightarrow> 'a \<Rightarrow> bool" where
  "located sp ts x = covers ts (sp x)"

lemma at_simps [safe_simps]:
  assumes "l \<le> r"
  shows "node_at l r k = pass (Node k (mk_span l r))"
    and "expr_at l r ek = pass (mk_expr ek (mk_span l r))"
    and "clause_at l r ck = pass (mk_clause ck (mk_span l r))"
    and "label_at l r lk = pass (LabelExpression (Node lk (mk_span l r)))"
    and "path_at l r pk = pass (PathPattern (Node pk (mk_span l r)))"
    and "struct_at l r f = pass (f (mk_span l r))"
  using assms by (simp_all add: at_defs pass_def)

lemma slice_ok:
  assumes "l \<le> r" and "is_char_boundary source l" and "is_char_boundary source r"
  shows "\<exists>s. str_get source l r = Some s"
  using assms str_get_is_Some_iff [of source l r] by auto

lemma returning_name [safe_simps]:
  assumes "l \<le> r" and "is_char_boundary source l" and "is_char_boundary source r"
  shows "returning w (returns_value (make_name source l r escaped)) \<longleftrightarrow>
    (\<forall>n. make_name source l r escaped = Some n \<longrightarrow> w n)"
proof -
  from slice_ok [OF assms] obtain s where "str_get source l r = Some s" by blast
  with assms(1) show ?thesis by (simp add: make_name_def returns_value_def)
qed

lemma make_name_span: "make_name source l r escaped = Some n \<Longrightarrow> node_span n = mk_span l r"
  by (auto simp: make_name_def bind_eq_Some_conv dest: span_new_SomeD)

lemmas located_simps = located_def covers_def expr_span_def clause_span_def mk_expr_def mk_clause_def

declare located_simps [safe_simps]

end
