(* ===== verification/Grammar_Labels.thy ===== *)
theory Grammar_Labels
  imports Grammar_Rules
begin

text \<open>
  The part of \<open>grammar/cypher.lalrpop\<close> without expressions: names, counts, quantifiers and label
  expressions, which are left-recursive. The definitions ending in \<open>_action\<close> are the semantic actions, as
  LALRPOP has put them into \<open>src/generated/cypher.rs\<close>; the other definitions are the productions.
\<close>

section \<open>Names\<close>

definition name_token :: "bool rule" where
  "name_token ts out \<longleftrightarrow>
     yields (terminal P_Identifier) (\<lambda>_. False) ts out \<or>
     yields (terminal P_EscapedIdentifier) (\<lambda>_. True) ts out \<or>
     yields (terminal P_Match) (\<lambda>_. False) ts out \<or>
     yields (terminal P_Path) (\<lambda>_. False) ts out \<or>
     yields (terminal P_Return) (\<lambda>_. False) ts out"

definition name_action :: "ustr \<Rightarrow> nat \<Rightarrow> nat \<Rightarrow> bool \<Rightarrow> name outcome" where
  "name_action source l r escaped = returns_value (make_name source l r escaped)"

definition name_rule :: "ustr \<Rightarrow> name rule" where
  "name_rule source = act name_token (name_action source)"

definition qualified_name_action :: "nat \<Rightarrow> nat \<Rightarrow> name list \<Rightarrow> qualified_name outcome" where
  "qualified_name_action l r parts = struct_at l r (QualifiedName parts)"

definition qualified_name_rule :: "ustr \<Rightarrow> qualified_name rule" where
  "qualified_name_rule source = act (separated_by P_Dot (name_rule source)) qualified_name_action"

text \<open>\<open>NameCount\<close>, \<open>NameTrim\<close> and \<open>LegacyShortestPathName\<close>: a keyword as the name of a function.\<close>

definition keyword_name :: "ustr \<Rightarrow> parser_token \<Rightarrow> name rule" where
  "keyword_name source t = act (terminal t) (\<lambda>l r _. returns_value (make_name source l r False))"

definition name_count :: "ustr \<Rightarrow> name rule" where
  "name_count source = keyword_name source P_Count"

definition name_trim :: "ustr \<Rightarrow> name rule" where
  "name_trim source = keyword_name source P_Trim"

definition legacy_shortest_path_name :: "ustr \<Rightarrow> name rule" where
  "legacy_shortest_path_name source ts out \<longleftrightarrow>
     keyword_name source P_ShortestPath ts out \<or> keyword_name source P_AllShortestPaths ts out"

section \<open>Counts, selectors and quantifiers\<close>

text \<open>\<open>source[l..r].to_owned()\<close>.\<close>

definition text_of :: "ustr \<Rightarrow> nat \<Rightarrow> nat \<Rightarrow> ustr outcome" where
  "text_of source l r = returns_value (str_get source l r)"

definition decimal_text :: "ustr \<Rightarrow> ustr rule" where
  "decimal_text source = act (terminal P_Integer) (\<lambda>l r _. text_of source l r)"

definition path_count :: "ustr \<Rightarrow> ustr rule" where
  "path_count source ts out \<longleftrightarrow>
     act (terminal P_Integer) (\<lambda>l r _. text_of source l r) ts out \<or>
     act (terminal P_Parameter) (\<lambda>l r _. text_of source l r) ts out"

definition path_keyword :: "unit rule" where
  "path_keyword ts out \<longleftrightarrow>
     yields (terminal P_Path) (\<lambda>_. ()) ts out \<or> yields (terminal P_Paths) (\<lambda>_. ()) ts out"

definition group_keyword :: "unit rule" where
  "group_keyword ts out \<longleftrightarrow>
     yields (terminal P_Group) (\<lambda>_. ()) ts out \<or> yields (terminal P_Groups) (\<lambda>_. ()) ts out"

definition path_mode_node :: "path_mode node rule" where
  "path_mode_node ts out \<longleftrightarrow>
     act (terminal P_Walk) (\<lambda>l r _. node_at l r PM_Walk) ts out \<or>
     act (terminal P_Trail) (\<lambda>l r _. node_at l r PM_Trail) ts out \<or>
     act (terminal P_Simple) (\<lambda>l r _. node_at l r PM_Simple) ts out \<or>
     act (terminal P_Acyclic) (\<lambda>l r _. node_at l r PM_Acyclic) ts out"

definition path_selector_node :: "ustr \<Rightarrow> path_selector node rule" where
  "path_selector_node source ts out \<longleftrightarrow>
     act (before P_All (optional path_keyword)) (\<lambda>l r _. node_at l r PS_All) ts out \<or>
     act (before P_Any (seq (optional (path_count source)) (optional path_keyword)))
       (\<lambda>l r (count, _). node_at l r (PS_Any count)) ts out \<or>
     act (before P_Any (before P_Shortest (optional path_keyword))) (\<lambda>l r _. node_at l r PS_AnyShortest) ts out \<or>
     act (before P_All (before P_Shortest (optional path_keyword))) (\<lambda>l r _. node_at l r PS_AllShortest) ts out \<or>
     act (before P_Shortest (seq (path_count source) (optional path_keyword)))
       (\<lambda>l r (count, _). node_at l r (PS_Shortest (Some count) False)) ts out \<or>
     act (before P_Shortest (seq (optional (path_count source)) (seq (optional path_keyword) group_keyword)))
       (\<lambda>l r (count, _). node_at l r (PS_Shortest count True)) ts out"

definition legacy_bounds :: "ustr \<Rightarrow> quantifier_kind rule" where
  "legacy_bounds source ts out \<longleftrightarrow>
     yields (decimal_text source) QK_Fixed ts out \<or>
     yields (seq (after (optional (decimal_text source)) P_DotDot) (optional (decimal_text source)))
       (\<lambda>(lower, upper). QK_Range lower upper) ts out"

definition legacy_quantifier_action :: "nat \<Rightarrow> nat \<Rightarrow> quantifier_kind option \<Rightarrow> quantifier outcome" where
  "legacy_quantifier_action l r bounds =
     struct_at l r (Quantifier (case bounds of None \<Rightarrow> QK_ZeroOrMore | Some kind \<Rightarrow> kind))"

definition legacy_quantifier :: "ustr \<Rightarrow> quantifier rule" where
  "legacy_quantifier source = act (before P_Star (optional (legacy_bounds source))) legacy_quantifier_action"

definition graph_quantifier_fixed_action :: "nat \<Rightarrow> nat \<Rightarrow> ustr \<Rightarrow> quantifier outcome" where
  "graph_quantifier_fixed_action l r val = struct_at l r (Quantifier (QK_Fixed val))"

definition graph_quantifier_range_action ::
  "nat \<Rightarrow> nat \<Rightarrow> ustr option \<times> ustr option \<Rightarrow> quantifier outcome" where
  "graph_quantifier_range_action l r bounds =
     (case bounds of (lower, upper) \<Rightarrow> struct_at l r (Quantifier (QK_Range lower upper)))"

definition graph_quantifier :: "ustr \<Rightarrow> quantifier rule" where
  "graph_quantifier source ts out \<longleftrightarrow>
     act (terminal P_Star) (\<lambda>l r _. struct_at l r (Quantifier QK_ZeroOrMore)) ts out \<or>
     act (terminal P_Plus) (\<lambda>l r _. struct_at l r (Quantifier QK_OneOrMore)) ts out \<or>
     act (terminal P_Question) (\<lambda>l r _. struct_at l r (Quantifier QK_Optional)) ts out \<or>
     act (before P_LeftBrace (after (decimal_text source) P_RightBrace)) graph_quantifier_fixed_action ts out \<or>
     act (before P_LeftBrace (after (seq (after (optional (decimal_text source)) P_Comma)
       (optional (decimal_text source))) P_RightBrace)) graph_quantifier_range_action ts out"

section \<open>Labels\<close>

definition label_name :: "name \<Rightarrow> label_expression" where
  "label_name label = LabelExpression (Node (LX_Name label) (node_span label))"

definition label_or_action :: "nat \<Rightarrow> nat \<Rightarrow> label_expression \<times> label_expression \<Rightarrow> label_expression outcome" where
  "label_or_action l r operands = (case operands of (left, right) \<Rightarrow> label_at l r (LX_Or [left, right]))"

definition label_and_action :: "nat \<Rightarrow> nat \<Rightarrow> label_expression \<times> label_expression \<Rightarrow> label_expression outcome" where
  "label_and_action l r operands = (case operands of (left, right) \<Rightarrow> label_at l r (LX_And [left, right]))"

definition label_not_action :: "nat \<Rightarrow> nat \<Rightarrow> label_expression \<Rightarrow> label_expression outcome" where
  "label_not_action l r primary = label_at l r (LX_Not primary)"

definition label_wildcard_action :: "nat \<Rightarrow> nat \<Rightarrow> label_expression outcome" where
  "label_wildcard_action l r = label_at l r LX_Wildcard"

definition label_parenthesized_action :: "nat \<Rightarrow> nat \<Rightarrow> label_expression \<Rightarrow> label_expression outcome" where
  "label_parenthesized_action l r expression = label_at l r (LX_Parenthesized expression)"

inductive label_or :: "ustr \<Rightarrow> label_expression rule"
  and label_and :: "ustr \<Rightarrow> label_expression rule"
  and label_not :: "ustr \<Rightarrow> label_expression rule"
  and label_primary :: "ustr \<Rightarrow> label_expression rule"
  for source :: ustr
where
  or_and: "label_and source ts out \<Longrightarrow> label_or source ts out"
| or_pipe: "act (seq (after (label_or source) P_Pipe) (label_and source)) label_or_action ts out \<Longrightarrow>
    label_or source ts out"
| and_not: "label_not source ts out \<Longrightarrow> label_and source ts out"
| and_ampersand: "act (seq (after (label_and source) P_Ampersand) (label_not source)) label_and_action ts out \<Longrightarrow>
    label_and source ts out"
| not_primary: "label_primary source ts out \<Longrightarrow> label_not source ts out"
| not_bang: "act (before P_Bang (label_primary source)) label_not_action ts out \<Longrightarrow> label_not source ts out"
| primary_name: "yields (name_rule source) label_name ts out \<Longrightarrow> label_primary source ts out"
| primary_wildcard: "act (terminal P_Percent) (\<lambda>l r _. label_wildcard_action l r) ts out \<Longrightarrow>
    label_primary source ts out"
| primary_parenthesized:
    "act (before P_LeftParen (after (label_or source) P_RightParen)) label_parenthesized_action ts out \<Longrightarrow>
    label_primary source ts out"

definition colon_labels_action :: "nat \<Rightarrow> nat \<Rightarrow> name \<times> name list \<Rightarrow> label_expression outcome" where
  "colon_labels_action l r names =
     (case names of (head, tail) \<Rightarrow> label_at l r (LX_And (label_name head # map label_name tail)))"

definition colon_prefixed_label_expression :: "ustr \<Rightarrow> label_expression rule" where
  "colon_prefixed_label_expression source ts out \<longleftrightarrow>
     label_or source ts out \<or>
     act (seq (name_rule source) (some_of (before P_Colon (name_rule source)))) colon_labels_action ts out"

definition prefixed_label_expression :: "ustr \<Rightarrow> label_expression rule" where
  "prefixed_label_expression source ts out \<longleftrightarrow>
     before P_Colon (colon_prefixed_label_expression source) ts out \<or> before P_Is (label_or source) ts out"

definition relationship_labels :: "engine \<Rightarrow> grammar \<Rightarrow> ustr \<Rightarrow> label_expression rule" where
  "relationship_labels engine g source ts out \<longleftrightarrow>
     before P_Is (label_or source) ts out \<or>
     act (terminal P_RelationshipLabelExpression) (\<lambda>l r _. relationship_label_expression engine g source l r) ts out"

section \<open>No panic\<close>

definition label_expression_span :: "label_expression \<Rightarrow> span" where
  "label_expression_span x = (case x of LabelExpression n \<Rightarrow> node_span n)"

lemma returning_text_of [safe_simps]:
  assumes "l \<le> r" and "is_char_boundary source l" and "is_char_boundary source r"
  shows "returning w (text_of source l r) \<longleftrightarrow> (\<forall>s. str_get source l r = Some s \<longrightarrow> w s)"
proof -
  from slice_ok [OF assms] obtain s where "str_get source l r = Some s" by blast
  then show ?thesis by (simp add: text_of_def returns_value_def)
qed

lemma safe_name_token [safe_intros]: "safe source name_token (\<lambda>ts x. True)"
  unfolding name_token_def [abs_def]
  by (intro safe_alt; rule safe_weaken, (rule safe_intros)+, simp)

lemma safe_name_rule [safe_intros]: "safe source (name_rule source) (located node_span)"
  unfolding name_rule_def
  by (rule safe_act, (rule safe_intros)+, simp add: name_action_def safe_simps make_name_span)

lemma safe_qualified_name [safe_intros]: "safe source (qualified_name_rule source) (located qn_span)"
  unfolding qualified_name_rule_def separated_by_def
  by (rule safe_act, (rule safe_intros)+, simp add: qualified_name_action_def safe_simps)

lemma safe_keyword_name [safe_intros]: "safe source (keyword_name source t) (located node_span)"
  unfolding keyword_name_def by (rule safe_act, (rule safe_intros)+, simp add: safe_simps make_name_span)

lemma safe_function_names [safe_intros]:
  "safe source (name_count source) (located node_span)"
  "safe source (name_trim source) (located node_span)"
  "safe source (legacy_shortest_path_name source) (located node_span)"
  unfolding name_count_def name_trim_def legacy_shortest_path_name_def [abs_def]
  by (intro safe_alt safe_keyword_name)+

lemma safe_decimal_text [safe_intros]: "safe source (decimal_text source) (\<lambda>ts x. ts \<noteq> [])"
  unfolding decimal_text_def by (rule safe_act, (rule safe_intros)+, simp add: safe_simps)

lemma safe_path_count [safe_intros]: "safe source (path_count source) (\<lambda>ts x. True)"
  unfolding path_count_def [abs_def]
  by (intro safe_alt; rule safe_act, (rule safe_intros)+, simp add: safe_simps)

lemma safe_path_keyword [safe_intros]: "safe source path_keyword (\<lambda>ts x. True)"
  unfolding path_keyword_def [abs_def] by (intro safe_alt; rule safe_weaken, (rule safe_intros)+, simp)

lemma safe_group_keyword [safe_intros]: "safe source group_keyword (\<lambda>ts x. True)"
  unfolding group_keyword_def [abs_def] by (intro safe_alt; rule safe_weaken, (rule safe_intros)+, simp)

lemma safe_path_mode_node [safe_intros]: "safe source path_mode_node (located node_span)"
  unfolding path_mode_node_def [abs_def]
  by (intro safe_alt; rule safe_act, (rule safe_intros)+, simp add: safe_simps)

lemma safe_path_selector_node [safe_intros]: "safe source (path_selector_node source) (located node_span)"
  unfolding path_selector_node_def [abs_def]
  by (intro safe_alt; rule safe_act, (rule safe_intros)+, simp add: safe_simps split: prod.splits)

lemma safe_legacy_bounds [safe_intros]: "safe source (legacy_bounds source) (\<lambda>ts x. True)"
  unfolding legacy_bounds_def [abs_def] by (intro safe_alt; rule safe_weaken, (rule safe_intros)+, simp)

lemma safe_legacy_quantifier [safe_intros]: "safe source (legacy_quantifier source) (located quantifier_span)"
  unfolding legacy_quantifier_def
  by (rule safe_act, (rule safe_intros)+, simp add: legacy_quantifier_action_def safe_simps)

lemma safe_graph_quantifier [safe_intros]: "safe source (graph_quantifier source) (located quantifier_span)"
  unfolding graph_quantifier_def [abs_def]
  by (intro safe_alt; rule safe_act, (rule safe_intros)+,
      simp add: graph_quantifier_fixed_action_def graph_quantifier_range_action_def safe_simps split: prod.splits)

lemmas label_simps [safe_simps] = label_or_action_def label_and_action_def label_not_action_def
  label_wildcard_action_def label_parenthesized_action_def colon_labels_action_def label_name_def label_expression_span_def

lemma label_rules_return:
  shows "label_or source ts out \<Longrightarrow> good_tokens source ts \<longrightarrow> returning (located label_expression_span ts) out"
    and "label_and source ts out \<Longrightarrow> good_tokens source ts \<longrightarrow> returning (located label_expression_span ts) out"
    and "label_not source ts out \<Longrightarrow> good_tokens source ts \<longrightarrow> returning (located label_expression_span ts) out"
    and "label_primary source ts out \<Longrightarrow> good_tokens source ts \<longrightarrow> returning (located label_expression_span ts) out"
proof (induction rule: label_or_label_and_label_not_label_primary.inducts)
  case (or_pipe ts out)
  show ?case
    by (rule safe_use(1) [OF or_pipe], rule safe_act, (rule safe_intros)+,
        simp add: safe_simps split: prod.splits)
next
  case (and_ampersand ts out)
  show ?case
    by (rule safe_use(1) [OF and_ampersand], rule safe_act, (rule safe_intros)+,
        simp add: safe_simps split: prod.splits)
next
  case (not_bang ts out)
  show ?case
    by (rule safe_use(1) [OF not_bang], rule safe_act, (rule safe_intros)+, simp add: safe_simps)
next
  case (primary_name ts out)
  show ?case
    by (rule safe_use(2) [OF primary_name], rule safe_weaken, (rule safe_intros)+, auto simp: safe_simps)
next
  case (primary_wildcard ts out)
  show ?case
    by (rule safe_use(1) [OF primary_wildcard], rule safe_act, (rule safe_intros)+, simp add: safe_simps)
next
  case (primary_parenthesized ts out)
  show ?case
    by (rule safe_use(1) [OF primary_parenthesized], rule safe_act, (rule safe_intros)+,
        simp add: safe_simps)
qed simp_all

lemma safe_label_or [safe_intros]: "safe source (label_or source) (located label_expression_span)"
  by (rule safeI) (simp add: label_rules_return)

lemma safe_colon_prefixed [safe_intros]:
  "safe source (colon_prefixed_label_expression source) (located label_expression_span)"
  unfolding colon_prefixed_label_expression_def [abs_def] some_of_def
  by (intro safe_alt safe_label_or, rule safe_act, (rule safe_intros)+, simp add: safe_simps split: prod.splits)

lemma safe_prefixed_label_expression [safe_intros]:
  "safe source (prefixed_label_expression source) (\<lambda>ts x. ts \<noteq> [])"
  unfolding prefixed_label_expression_def [abs_def]
  by (intro safe_alt; rule safe_weaken, (rule safe_intros)+, auto)

lemma safe_relationship_labels [safe_intros]:
  assumes "raw_engine engine"
  shows "safe source (relationship_labels engine g source) (\<lambda>ts x. ts \<noteq> [])"
  unfolding relationship_labels_def [abs_def]
proof (intro safe_alt)
  show "safe source (before P_Is (label_or source)) (\<lambda>ts x. ts \<noteq> [])"
    by (rule safe_weaken, (rule safe_intros)+, auto)
  show "safe source (act (terminal P_RelationshipLabelExpression)
      (\<lambda>l r _. relationship_label_expression engine g source l r)) (\<lambda>ts x. ts \<noteq> [])"
  proof (rule safe_act, rule safe_intros)
    fix ts :: "spanned list"
    assume "ts \<noteq> []"
    from parse_label_expression_total [OF assms, of g source "tok_start (hd ts)" "tok_end (last ts)" True]
    obtain r where "relationship_label_expression engine g source (tok_start (hd ts)) (tok_end (last ts)) = Some r"
      unfolding relationship_label_expression_def by blast
    with \<open>ts \<noteq> []\<close> show "returning (\<lambda>x. ts \<noteq> [])
        (relationship_label_expression engine g source (tok_start (hd ts)) (tok_end (last ts)))"
      by (cases r) simp_all
  qed
qed

end
