(* ===== verification/Grammar_Paths.thy ===== *)
theory Grammar_Paths
  imports Grammar_Labels
begin

text \<open>
  Maps, node and relationship patterns, paths and patterns of \<open>grammar/cypher.lalrpop\<close>. The
  nonterminals \<open>Expr\<close> and \<open>PathPattern\<close>, through which the grammar is recursive, are the parameters
  \<open>E\<close> and \<open>P\<close>; \<open>Grammar\<close> ties the knot. Rules with a label of a relationship also have the engine
  and the generated parsers, which that action calls.
\<close>

section \<open>Maps and parameters\<close>

definition map_entry_action :: "nat \<Rightarrow> nat \<Rightarrow> name \<times> expr \<Rightarrow> expr map_entry outcome" where
  "map_entry_action l r entry = (case entry of (key, val) \<Rightarrow> struct_at l r (MapEntry key val))"

definition map_entry_rule :: "ustr \<Rightarrow> expr rule \<Rightarrow> expr map_entry rule" where
  "map_entry_rule source E = act (seq (after (name_rule source) P_Colon) E) map_entry_action"

definition nonempty_map_action :: "nat \<Rightarrow> nat \<Rightarrow> expr map_entry list \<Rightarrow> expr outcome" where
  "nonempty_map_action l r entries = expr_at l r (EK_Map entries)"

definition nonempty_map_value :: "ustr \<Rightarrow> expr rule \<Rightarrow> expr rule" where
  "nonempty_map_value source E =
     act (before P_LeftBrace (after (separated_by P_Comma (map_entry_rule source E)) P_RightBrace))
       nonempty_map_action"

definition map_value :: "ustr \<Rightarrow> expr rule \<Rightarrow> expr rule" where
  "map_value source E ts out \<longleftrightarrow>
     act (before P_LeftBrace (terminal P_RightBrace)) (\<lambda>l r _. expr_at l r (EK_Map [])) ts out \<or>
     nonempty_map_value source E ts out"

definition parameter_action :: "ustr \<Rightarrow> nat \<Rightarrow> nat \<Rightarrow> expr outcome" where
  "parameter_action source l r =
     run_then (returns_value (make_parameter source l r)) (\<lambda>p. expr_at l r (EK_Parameter p))"

definition parameter_expr :: "ustr \<Rightarrow> expr rule" where
  "parameter_expr source = act (terminal P_Parameter) (\<lambda>l r _. parameter_action source l r)"

definition properties_rule :: "ustr \<Rightarrow> expr rule \<Rightarrow> expr rule" where
  "properties_rule source E ts out \<longleftrightarrow>
     map_value source E ts out \<or> act (terminal P_Parameter) (\<lambda>l r _. parameter_action source l r) ts out"

definition where_rule :: "expr rule \<Rightarrow> expr rule" where
  "where_rule E = before P_Where E"

text \<open>The properties and the predicate of an element.\<close>

type_synonym element = "expr option \<times> expr option"

definition element_predicate :: "ustr \<Rightarrow> expr rule \<Rightarrow> element rule" where
  "element_predicate source E ts out \<longleftrightarrow>
     yields (properties_rule source E) (\<lambda>properties. (Some properties, None)) ts out \<or>
     yields (where_rule E) (\<lambda>where_clause. (None, Some where_clause)) ts out"

definition simple_element_predicate :: "ustr \<Rightarrow> expr rule \<Rightarrow> element rule" where
  "simple_element_predicate source E ts out \<longleftrightarrow>
     yields (map_value source E) (\<lambda>properties. (Some properties, None)) ts out \<or>
     yields (where_rule E) (\<lambda>where_clause. (None, Some where_clause)) ts out"

section \<open>Nodes\<close>

type_synonym node_filler = "name option \<times> label_expression option \<times> expr option \<times> expr option"
type_synonym path_factor = "(expr, path_pattern) path_factor_kind node"

definition node_filler_action ::
  "name option \<times> label_expression option \<times> element option \<Rightarrow> node_filler" where
  "node_filler_action parts = (case parts of (variable, labels, predicate) \<Rightarrow>
     (case predicate of
        None \<Rightarrow> (variable, labels, None, None)
      | Some (properties, where_clause) \<Rightarrow> (variable, labels, properties, where_clause)))"

definition node_filler :: "ustr \<Rightarrow> expr rule \<Rightarrow> node_filler rule" where
  "node_filler source E =
     yields (seq (optional (name_rule source)) (seq (optional (prefixed_label_expression source))
       (optional (element_predicate source E)))) node_filler_action"

definition simple_node_filler :: "ustr \<Rightarrow> expr rule \<Rightarrow> node_filler rule" where
  "simple_node_filler source E =
     yields (seq (optional (name_rule source)) (seq (optional (prefixed_label_expression source))
       (optional (simple_element_predicate source E)))) node_filler_action"

definition node_factor_action :: "nat \<Rightarrow> nat \<Rightarrow> node_filler \<times> quantifier option \<Rightarrow> path_factor outcome" where
  "node_factor_action l r parts =
     (case parts of ((variable, labels, properties, where_clause), quantifier) \<Rightarrow>
        let pattern = NodePattern variable labels properties where_clause in
        node_at l r (case quantifier of
            Some quantifier \<Rightarrow> PF_QuantifiedNode pattern quantifier
          | None \<Rightarrow> PF_Node pattern))"

definition node_factor :: "ustr \<Rightarrow> expr rule \<Rightarrow> path_factor rule" where
  "node_factor source E =
     act (before P_LeftParen (seq (after (node_filler source E) P_RightParen) (optional (graph_quantifier source))))
       node_factor_action"

definition simple_node_factor_action :: "nat \<Rightarrow> nat \<Rightarrow> node_filler \<Rightarrow> path_factor outcome" where
  "simple_node_factor_action l r filler =
     (case filler of (variable, labels, properties, where_clause) \<Rightarrow>
        node_at l r (PF_Node (NodePattern variable labels properties where_clause)))"

definition simple_node_factor :: "ustr \<Rightarrow> expr rule \<Rightarrow> path_factor rule" where
  "simple_node_factor source E =
     act (before P_LeftParen (after (simple_node_filler source E) P_RightParen)) simple_node_factor_action"

section \<open>Relationships\<close>

definition relationship_filler_action ::
  "name option \<times> label_expression option \<times> quantifier option \<times> element option \<Rightarrow> relationship_detail" where
  "relationship_filler_action parts = (case parts of (variable, labels, quantifier, predicate) \<Rightarrow>
     (case predicate of
        None \<Rightarrow> (variable, labels, quantifier, None, None)
      | Some (properties, where_clause) \<Rightarrow> (variable, labels, quantifier, properties, where_clause)))"

definition relationship_filler :: "engine \<Rightarrow> grammar \<Rightarrow> ustr \<Rightarrow> expr rule \<Rightarrow> relationship_detail rule" where
  "relationship_filler engine g source E =
     yields (seq (optional (name_rule source)) (seq (optional (relationship_labels engine g source))
       (seq (optional (legacy_quantifier source)) (optional (element_predicate source E)))))
       relationship_filler_action"

definition simple_relationship_filler ::
  "engine \<Rightarrow> grammar \<Rightarrow> ustr \<Rightarrow> expr rule \<Rightarrow> relationship_detail rule" where
  "simple_relationship_filler engine g source E =
     yields (seq (optional (name_rule source)) (seq (optional (relationship_labels engine g source))
       (seq (optional (legacy_quantifier source)) (optional (simple_element_predicate source E)))))
       relationship_filler_action"

definition relationship_detail_rule :: "engine \<Rightarrow> grammar \<Rightarrow> ustr \<Rightarrow> expr rule \<Rightarrow> relationship_detail rule" where
  "relationship_detail_rule engine g source E =
     before P_LeftBracket (after (relationship_filler engine g source E) P_RightBracket)"

definition simple_relationship_detail ::
  "engine \<Rightarrow> grammar \<Rightarrow> ustr \<Rightarrow> expr rule \<Rightarrow> relationship_detail rule" where
  "simple_relationship_detail engine g source E =
     before P_LeftBracket (after (simple_relationship_filler engine g source E) P_RightBracket)"

type_synonym relationship_primary = "nat \<times> nat \<times> relationship_direction \<times> relationship_detail option"

text \<open>The nine spellings, which \<open>RelationshipPrimary\<close> and \<open>SimpleRelationshipPrimary\<close> share.\<close>

definition primary_action ::
  "relationship_direction \<Rightarrow> nat \<Rightarrow> nat \<Rightarrow> relationship_detail option \<Rightarrow> relationship_primary outcome" where
  "primary_action direction l r detail = pass (l, r, direction, detail)"

definition primary_with :: "relationship_detail rule \<Rightarrow> relationship_primary rule" where
  "primary_with D ts out \<longleftrightarrow>
     act (before P_Minus (after (optional D) P_Minus)) (primary_action RD_Undirected) ts out \<or>
     act (before P_Minus (after (optional D) P_RightArrow)) (primary_action RD_Right) ts out \<or>
     act (before P_Minus (after (after (optional D) P_Minus) P_Greater)) (primary_action RD_Right) ts out \<or>
     act (before P_LeftArrow (after (optional D) P_Minus)) (primary_action RD_Left) ts out \<or>
     act (before P_Less (before P_Minus (after (optional D) P_Minus))) (primary_action RD_Left) ts out \<or>
     act (before P_LeftArrow (after (optional D) P_RightArrow)) (primary_action RD_Both) ts out \<or>
     act (before P_LeftArrow (after (after (optional D) P_Minus) P_Greater)) (primary_action RD_Both) ts out \<or>
     act (before P_Less (before P_Minus (after (optional D) P_RightArrow))) (primary_action RD_Both) ts out \<or>
     act (before P_Less (before P_Minus (after (after (optional D) P_Minus) P_Greater)))
       (primary_action RD_Both) ts out"

definition relationship_primary :: "engine \<Rightarrow> grammar \<Rightarrow> ustr \<Rightarrow> expr rule \<Rightarrow> relationship_primary rule" where
  "relationship_primary engine g source E = primary_with (relationship_detail_rule engine g source E)"

definition simple_relationship_primary ::
  "engine \<Rightarrow> grammar \<Rightarrow> ustr \<Rightarrow> expr rule \<Rightarrow> relationship_primary rule" where
  "simple_relationship_primary engine g source E = primary_with (simple_relationship_detail engine g source E)"

definition relationship_factor_action ::
  "relationship_primary \<times> quantifier option \<Rightarrow> path_factor outcome" where
  "relationship_factor_action parts = (case parts of ((l, base_r, direction, detail), quantifier) \<Rightarrow>
     let r = (case quantifier of None \<Rightarrow> base_r | Some val \<Rightarrow> span_end (quantifier_span val)) in
     returns_value (relationship_factor l r direction detail quantifier))"

definition relationship_factor_rule :: "engine \<Rightarrow> grammar \<Rightarrow> ustr \<Rightarrow> expr rule \<Rightarrow> path_factor rule" where
  "relationship_factor_rule engine g source E =
     fold_rule (seq (relationship_primary engine g source E) (optional (graph_quantifier source)))
       relationship_factor_action"

definition simple_relationship_factor_action :: "relationship_primary \<Rightarrow> path_factor outcome" where
  "simple_relationship_factor_action primary = (case primary of (l, r, direction, detail) \<Rightarrow>
     returns_value (relationship_factor l r direction detail None))"

definition simple_relationship_factor :: "engine \<Rightarrow> grammar \<Rightarrow> ustr \<Rightarrow> expr rule \<Rightarrow> path_factor rule" where
  "simple_relationship_factor engine g source E =
     fold_rule (simple_relationship_primary engine g source E) simple_relationship_factor_action"

section \<open>Paths\<close>

definition simple_path_tail :: "engine \<Rightarrow> grammar \<Rightarrow> ustr \<Rightarrow> expr rule \<Rightarrow> (path_factor \<times> path_factor) rule" where
  "simple_path_tail engine g source E =
     seq (simple_relationship_factor engine g source E) (simple_node_factor source E)"

definition parenthesized_path_action ::
  "nat \<Rightarrow> nat \<Rightarrow> name option \<times> path_pattern \<times> expr option \<times> quantifier option \<Rightarrow> path_factor outcome" where
  "parenthesized_path_action l r parts = (case parts of (binding, pattern, where_clause, quantifier) \<Rightarrow>
     node_at l r (case binding of
         Some binding \<Rightarrow> PF_Subpath binding pattern where_clause quantifier
       | None \<Rightarrow> PF_Parenthesized pattern where_clause quantifier))"

definition parenthesized_path_factor :: "ustr \<Rightarrow> expr rule \<Rightarrow> path_pattern rule \<Rightarrow> path_factor rule" where
  "parenthesized_path_factor source E P =
     act (before P_LeftParen (seq (optional (after (name_rule source) P_Equal)) (seq P
       (seq (after (optional (where_rule E)) P_RightParen) (optional (graph_quantifier source))))))
       parenthesized_path_action"

definition legacy_inner_action :: "nat \<Rightarrow> nat \<Rightarrow> path_factor \<times> path_factor \<times> path_factor \<Rightarrow> path_pattern outcome" where
  "legacy_inner_action l r parts = (case parts of (head, relationship, last_node) \<Rightarrow>
     path_at l r (PathPatternKind [head, relationship, last_node]))"

definition legacy_shortest_path_inner :: "engine \<Rightarrow> grammar \<Rightarrow> ustr \<Rightarrow> expr rule \<Rightarrow> path_pattern rule" where
  "legacy_shortest_path_inner engine g source E =
     act (seq (simple_node_factor source E) (simple_path_tail engine g source E)) legacy_inner_action"

definition legacy_shortest_path_kind :: "bool rule" where
  "legacy_shortest_path_kind ts out \<longleftrightarrow>
     yields (terminal P_ShortestPath) (\<lambda>_. False) ts out \<or> yields (terminal P_AllShortestPaths) (\<lambda>_. True) ts out"

definition legacy_shortest_path_action :: "nat \<Rightarrow> nat \<Rightarrow> bool \<times> path_pattern \<Rightarrow> path_factor outcome" where
  "legacy_shortest_path_action l r parts = (case parts of (every, pattern) \<Rightarrow>
     node_at l r (PF_LegacyShortest every pattern))"

definition legacy_shortest_path_factor :: "engine \<Rightarrow> grammar \<Rightarrow> ustr \<Rightarrow> expr rule \<Rightarrow> path_factor rule" where
  "legacy_shortest_path_factor engine g source E =
     act (seq legacy_shortest_path_kind
       (before P_LeftParen (after (legacy_shortest_path_inner engine g source E) P_RightParen)))
       legacy_shortest_path_action"

definition path_factor_rule ::
  "engine \<Rightarrow> grammar \<Rightarrow> ustr \<Rightarrow> expr rule \<Rightarrow> path_pattern rule \<Rightarrow> path_factor rule" where
  "path_factor_rule engine g source E P ts out \<longleftrightarrow>
     node_factor source E ts out \<or>
     relationship_factor_rule engine g source E ts out \<or>
     parenthesized_path_factor source E P ts out"

definition path_pattern_action :: "nat \<Rightarrow> nat \<Rightarrow> path_factor list \<Rightarrow> path_pattern outcome" where
  "path_pattern_action l r factors = path_at l r (PathPatternKind factors)"

definition single_factor_path :: "path_factor \<Rightarrow> path_pattern" where
  "single_factor_path factor = PathPattern (Node (PathPatternKind [factor]) (node_span factor))"

definition path_pattern_body ::
  "engine \<Rightarrow> grammar \<Rightarrow> ustr \<Rightarrow> expr rule \<Rightarrow> path_pattern rule \<Rightarrow> path_pattern rule" where
  "path_pattern_body engine g source E P ts out \<longleftrightarrow>
     yields (legacy_shortest_path_factor engine g source E) single_factor_path ts out \<or>
     act (some_of (path_factor_rule engine g source E P)) path_pattern_action ts out"

definition pattern_part_action ::
  "nat \<Rightarrow> nat \<Rightarrow> name option \<times> path_selector node option \<times> path_pattern \<Rightarrow>
     path_pattern pattern_part_kind node outcome" where
  "pattern_part_action l r parts = (case parts of (binding, selector, path) \<Rightarrow>
     node_at l r (PatternPartKind binding selector path))"

definition pattern_part_rule :: "ustr \<Rightarrow> path_pattern rule \<Rightarrow> path_pattern pattern_part_kind node rule" where
  "pattern_part_rule source P =
     act (seq (optional (after (name_rule source) P_Equal)) (seq (optional (path_selector_node source)) P))
       pattern_part_action"

definition pattern_action :: "nat \<Rightarrow> nat \<Rightarrow> path_pattern pattern_part_kind node list \<Rightarrow> pattern outcome" where
  "pattern_action l r parts = struct_at l r (Pattern parts)"

definition pattern_rule :: "ustr \<Rightarrow> path_pattern rule \<Rightarrow> pattern rule" where
  "pattern_rule source P = act (separated_by P_Comma (pattern_part_rule source P)) pattern_action"

text \<open>The pattern of a pattern expression or comprehension.\<close>

definition simple_path_action ::
  "nat \<Rightarrow> nat \<Rightarrow> path_factor \<times> (path_factor \<times> path_factor) list \<Rightarrow> pattern outcome" where
  "simple_path_action l r parts = (case parts of (head, tail) \<Rightarrow>
     run_then (path_at l r (PathPatternKind
         (head # concat (map (\<lambda>(relationship, next_node). [relationship, next_node]) tail)))) (\<lambda>path.
     run_then (node_at l r (PatternPartKind None None path)) (\<lambda>part.
     struct_at l r (Pattern [part]))))"

definition simple_path_pattern :: "engine \<Rightarrow> grammar \<Rightarrow> ustr \<Rightarrow> expr rule \<Rightarrow> pattern rule" where
  "simple_path_pattern engine g source E =
     act (seq (simple_node_factor source E) (some_of (simple_path_tail engine g source E))) simple_path_action"

lemmas path_rule_defs = map_entry_rule_def nonempty_map_value_def map_value_def [abs_def] parameter_expr_def
  properties_rule_def [abs_def] where_rule_def element_predicate_def [abs_def]
  simple_element_predicate_def [abs_def] node_filler_def simple_node_filler_def node_factor_def
  simple_node_factor_def relationship_filler_def simple_relationship_filler_def relationship_detail_rule_def
  simple_relationship_detail_def primary_with_def [abs_def] relationship_primary_def
  simple_relationship_primary_def relationship_factor_rule_def simple_relationship_factor_def
  simple_path_tail_def parenthesized_path_factor_def legacy_shortest_path_inner_def
  legacy_shortest_path_factor_def path_factor_rule_def [abs_def] path_pattern_body_def [abs_def]
  pattern_part_rule_def pattern_rule_def simple_path_pattern_def

section \<open>No panic\<close>

definition path_span :: "path_pattern \<Rightarrow> span" where
  "path_span p = node_span (path_node p)"

declare path_span_def [safe_simps]

lemmas path_actions [safe_simps] = map_entry_action_def nonempty_map_action_def node_factor_action_def
  simple_node_factor_action_def primary_action_def parenthesized_path_action_def legacy_inner_action_def
  legacy_shortest_path_action_def path_pattern_action_def pattern_part_action_def pattern_action_def
  simple_path_action_def

lemma safe_parameter_action:
  "safe source (act (terminal P_Parameter) (\<lambda>l r _. parameter_action source l r)) (located expr_span)"
proof (rule safe_act, rule safe_intros)
  fix ts :: "spanned list" and x
  assume good: "good_tokens source ts" and "ts \<noteq> []" and le: "tok_start (hd ts) \<le> tok_end (last ts)"
    and r: "is_char_boundary source (tok_end (last ts))"
    and "\<exists>u. ts = [u] \<and> tok_kind u = P_Parameter \<and> x = (tok_start u, tok_end u) \<and> spanned_ok source u"
  then have "tok_start (hd ts) + 1 \<le> tok_end (last ts)" "is_char_boundary source (tok_start (hd ts) + 1)"
    by (auto simp: good_tokens_def good_token_def)
  from slice_ok [OF this r] obtain s where "str_get source (tok_start (hd ts) + 1) (tok_end (last ts)) = Some s"
    by blast
  with le \<open>ts \<noteq> []\<close> show "returning (located expr_span ts)
      (parameter_action source (tok_start (hd ts)) (tok_end (last ts)))"
    by (simp add: parameter_action_def make_parameter_def returns_value_def safe_simps run_then_def
        returning_def pass_def)
qed

locale safe_expr =
  fixes source :: ustr and E :: "expr rule"
  assumes safe_E [safe_intros]: "safe source E (located expr_span)"
begin

lemma safe_map_entry [safe_intros]: "safe source (map_entry_rule source E) (located me_span)"
  unfolding map_entry_rule_def
  by (rule safe_act, (rule safe_intros)+, simp add: safe_simps split: prod.splits)

lemma safe_map_value [safe_intros]: "safe source (map_value source E) (located expr_span)"
  unfolding map_value_def [abs_def] nonempty_map_value_def separated_by_def
  by (intro safe_alt; rule safe_act, (rule safe_intros)+, simp add: safe_simps)

lemma safe_properties [safe_intros]: "safe source (properties_rule source E) (located expr_span)"
  unfolding properties_rule_def [abs_def] by (intro safe_alt safe_map_value safe_parameter_action)

lemma safe_where [safe_intros]: "safe source (where_rule E) (\<lambda>ts x. ts \<noteq> [])"
  unfolding where_rule_def by (rule safe_weaken, (rule safe_intros)+, auto)

lemma safe_element_predicates [safe_intros]:
  "safe source (element_predicate source E) (\<lambda>ts x. ts \<noteq> [])"
  "safe source (simple_element_predicate source E) (\<lambda>ts x. ts \<noteq> [])"
  unfolding element_predicate_def [abs_def] simple_element_predicate_def [abs_def]
  by (intro safe_alt; rule safe_weaken, (rule safe_intros)+, auto simp: safe_simps)+

lemma safe_node_fillers [safe_intros]:
  "safe source (node_filler source E) (\<lambda>ts x. True)"
  "safe source (simple_node_filler source E) (\<lambda>ts x. True)"
  unfolding node_filler_def simple_node_filler_def by (rule safe_weaken, (rule safe_intros)+, simp)+

lemma safe_node_factors [safe_intros]:
  "safe source (node_factor source E) (located node_span)"
  "safe source (simple_node_factor source E) (located node_span)"
  unfolding node_factor_def simple_node_factor_def
  by (rule safe_act, (rule safe_intros)+, simp add: safe_simps Let_def split: prod.splits)+

end

locale safe_paths = safe_expr source E for source :: ustr and E :: "expr rule" +
  fixes engine :: engine and g :: grammar and P :: "path_pattern rule"
  assumes engine: "raw_engine engine"
    and safe_P [safe_intros]: "safe source P (located path_span)"
begin

lemma safe_relationship_details [safe_intros]:
  "safe source (relationship_detail_rule engine g source E) (\<lambda>ts x. True)"
  "safe source (simple_relationship_detail engine g source E) (\<lambda>ts x. True)"
  unfolding relationship_detail_rule_def simple_relationship_detail_def relationship_filler_def
    simple_relationship_filler_def
  by (rule safe_weaken, (rule safe_intros safe_relationship_labels [OF engine])+, simp)+

lemma safe_primary_with:
  assumes "safe source D (\<lambda>ts x. True)"
  shows "safe source (primary_with D) (\<lambda>ts x. ts \<noteq> [] \<and> fst x = tok_start (hd ts) \<and> fst (snd x) = tok_end (last ts))"
  unfolding primary_with_def [abs_def]
  by (intro safe_alt; rule safe_act, (rule safe_intros assms)+, simp add: safe_simps)

lemma safe_simple_relationship_factor [safe_intros]:
  "safe source (simple_relationship_factor engine g source E) (located node_span)"
  unfolding simple_relationship_factor_def simple_relationship_primary_def
  by (rule safe_fold_rule, rule safe_primary_with, (rule safe_intros)+,
      auto simp: simple_relationship_factor_action_def relationship_factor_def returns_value_def safe_simps
        good_tokens_extent split: prod.splits)

lemma safe_relationship_factor [safe_intros]:
  "safe source (relationship_factor_rule engine g source E) (located node_span)"
  unfolding relationship_factor_rule_def relationship_primary_def
proof (rule safe_fold_rule, rule safe_seq, rule safe_primary_with, (rule safe_intros)+)
  fix ts :: "spanned list" and x :: "relationship_primary \<times> quantifier option"
  assume good: "good_tokens source ts"
    and "\<exists>us vs. ts = us @ vs \<and>
      (us \<noteq> [] \<and> fst (fst x) = tok_start (hd us) \<and> fst (snd (fst x)) = tok_end (last us)) \<and>
      (vs = [] \<and> snd x = None \<or> (\<exists>q. snd x = Some q \<and> located quantifier_span vs q))"
  then have ts: "ts \<noteq> []" and "fst (fst x) = tok_start (hd ts)"
    and "(case snd x of None \<Rightarrow> fst (snd (fst x)) | Some val \<Rightarrow> span_end (quantifier_span val)) = tok_end (last ts)"
    by (auto simp: safe_simps)
  with good_tokens_extent [OF good ts] show "returning (located node_span ts) (relationship_factor_action x)"
    by (cases "snd x") (auto simp: relationship_factor_action_def relationship_factor_def returns_value_def
        safe_simps split: prod.splits)
qed

lemma safe_simple_path_tail [safe_intros]:
  "safe source (simple_path_tail engine g source E) (\<lambda>ts x. ts \<noteq> [])"
  unfolding simple_path_tail_def by (rule safe_weaken, (rule safe_intros)+, auto simp: safe_simps)

lemma safe_parenthesized [safe_intros]:
  "safe source (parenthesized_path_factor source E P) (located node_span)"
  unfolding parenthesized_path_factor_def
  by (rule safe_act, (rule safe_intros)+, simp add: safe_simps split: prod.splits)

lemma safe_legacy_inner [safe_intros]:
  "safe source (legacy_shortest_path_inner engine g source E) (located path_span)"
  unfolding legacy_shortest_path_inner_def
  by (rule safe_act, (rule safe_intros)+, simp add: safe_simps split: prod.splits)

lemma safe_legacy_factor [safe_intros]:
  "safe source (legacy_shortest_path_factor engine g source E) (located node_span)"
proof -
  have kind: "safe source legacy_shortest_path_kind (\<lambda>ts x. True)"
    unfolding legacy_shortest_path_kind_def [abs_def]
    by (intro safe_alt; rule safe_weaken, (rule safe_intros)+, simp)
  show ?thesis
    unfolding legacy_shortest_path_factor_def
    by (rule safe_act, (rule safe_intros kind)+, simp add: safe_simps split: prod.splits)
qed

lemma safe_path_pattern_body: "safe source (path_pattern_body engine g source E P) (located path_span)"
proof -
  have "safe source (path_factor_rule engine g source E P) (\<lambda>ts x. True)"
    unfolding path_factor_rule_def [abs_def]
    by (intro safe_alt; rule safe_weaken, (rule safe_intros)+, simp)
  note factor = this
  have "safe source (yields (legacy_shortest_path_factor engine g source E) single_factor_path) (located path_span)"
    by (rule safe_weaken, (rule safe_intros)+, auto simp: single_factor_path_def safe_simps)
  moreover have "safe source (act (some_of (path_factor_rule engine g source E P)) path_pattern_action)
      (located path_span)"
    unfolding some_of_def by (rule safe_act, (rule safe_intros factor)+, simp add: safe_simps)
  ultimately show ?thesis unfolding path_pattern_body_def [abs_def] by (rule safe_alt)
qed

lemma safe_pattern_part [safe_intros]: "safe source (pattern_part_rule source P) (located node_span)"
  unfolding pattern_part_rule_def
  by (rule safe_act, (rule safe_intros)+, simp add: safe_simps split: prod.splits)

lemma safe_pattern [safe_intros]: "safe source (pattern_rule source P) (located pattern_span)"
  unfolding pattern_rule_def separated_by_def by (rule safe_act, (rule safe_intros)+, simp add: safe_simps)

lemma safe_simple_path_pattern:
  "safe source (simple_path_pattern engine g source E) (located pattern_span)"
  unfolding simple_path_pattern_def some_of_def
  by (rule safe_act, (rule safe_intros)+, simp add: safe_simps split: prod.splits)

end

end
