(* ===== verification/Grammar_Exprs.thy ===== *)
theory Grammar_Exprs
  imports Grammar_Paths
begin

text \<open>
  The expressions of \<open>grammar/cypher.lalrpop\<close>, from the primary expressions up to \<open>OR\<close>: one
  nonterminal for every level of precedence. The recursive nonterminals are parameters: \<open>E\<close> is \<open>Expr\<close>, \<open>N\<close> is
  \<open>NotExpr\<close>, \<open>U\<close> is \<open>UnaryExpr\<close>, \<open>P\<close> is \<open>PathPattern\<close> and \<open>Q\<close> is \<open>Query\<close>.
\<close>

section \<open>Literals and calls\<close>

definition integer_action :: "ustr \<Rightarrow> integer_radix \<Rightarrow> nat \<Rightarrow> nat \<Rightarrow> literal outcome" where
  "integer_action source radix l r = returns_value (make_integer_literal source l r radix)"

definition float_action :: "ustr \<Rightarrow> nat \<Rightarrow> nat \<Rightarrow> literal outcome" where
  "float_action source l r = run_then (text_of source l r) (\<lambda>t. node_at l r (LK_Float (FloatLiteral t)))"

definition string_action :: "ustr \<Rightarrow> nat \<Rightarrow> nat \<Rightarrow> literal outcome" where
  "string_action source l r =
     run_then (returns_value (make_string_literal source l r)) (\<lambda>s. node_at l r (LK_String s))"

definition literal_rule :: "ustr \<Rightarrow> literal rule" where
  "literal_rule source ts out \<longleftrightarrow>
     act (terminal P_Null) (\<lambda>l r _. node_at l r LK_Null) ts out \<or>
     act (terminal P_True) (\<lambda>l r _. node_at l r (LK_Boolean True)) ts out \<or>
     act (terminal P_False) (\<lambda>l r _. node_at l r (LK_Boolean False)) ts out \<or>
     act (terminal P_Integer) (\<lambda>l r _. integer_action source IR_Decimal l r) ts out \<or>
     act (terminal P_HexInteger) (\<lambda>l r _. integer_action source IR_Hexadecimal l r) ts out \<or>
     act (terminal P_OctalInteger) (\<lambda>l r _. integer_action source IR_Octal l r) ts out \<or>
     act (terminal P_Float) (\<lambda>l r _. float_action source l r) ts out \<or>
     act (terminal P_String) (\<lambda>l r _. string_action source l r) ts out \<or>
     act (terminal P_Inf) (\<lambda>l r _. float_action source l r) ts out \<or>
     act (terminal P_Infinity) (\<lambda>l r _. float_action source l r) ts out \<or>
     act (terminal P_Nan) (\<lambda>l r _. float_action source l r) ts out"

definition literal_expr_action :: "literal \<Rightarrow> expr" where
  "literal_expr_action literal = mk_expr (EK_Literal literal) (node_span literal)"

definition literal_expr :: "ustr \<Rightarrow> expr rule" where
  "literal_expr source = yields (literal_rule source) literal_expr_action"

definition set_quantifier_node :: "set_quantifier node rule" where
  "set_quantifier_node ts out \<longleftrightarrow>
     act (terminal P_SetAll) (\<lambda>l r _. node_at l r SQ_All) ts out \<or>
     act (terminal P_Distinct) (\<lambda>l r _. node_at l r SQ_Distinct) ts out"

definition function_arguments :: "expr rule \<Rightarrow> expr list rule" where
  "function_arguments E = separated_by P_Comma E"

type_synonym call = "set_quantifier node option \<times> expr list"

definition function_call_action :: "set_quantifier node option \<times> expr list option \<Rightarrow> call" where
  "function_call_action parts = (case parts of (quantifier, arguments) \<Rightarrow>
     (quantifier, case arguments of None \<Rightarrow> [] | Some xs \<Rightarrow> xs))"

definition function_call :: "expr rule \<Rightarrow> call rule" where
  "function_call E =
     yields (before P_LeftParen (after (seq (optional set_quantifier_node) (optional (function_arguments E)))
       P_RightParen)) function_call_action"

text \<open>A call of a function with a plain name, of \<open>NamedExpr\<close> and \<open>CountFunctionExpr\<close>.\<close>

definition call_action :: "nat \<Rightarrow> nat \<Rightarrow> name \<times> call \<Rightarrow> expr outcome" where
  "call_action l r parts = (case parts of (function, quantifier, arguments) \<Rightarrow>
     expr_at l r (EK_Function
       (FunctionInvocation (QualifiedName [function] (node_span function)) quantifier arguments)))"

definition variable_action :: "name \<Rightarrow> expr" where
  "variable_action val = mk_expr (EK_Variable val) (node_span val)"

definition named_expr :: "ustr \<Rightarrow> expr rule \<Rightarrow> expr rule" where
  "named_expr source E ts out \<longleftrightarrow>
     act (seq (name_rule source) (function_call E)) call_action ts out \<or>
     yields (name_rule source) variable_action ts out"

definition count_function_expr :: "ustr \<Rightarrow> expr rule \<Rightarrow> expr rule" where
  "count_function_expr source E = act (seq (name_count source) (function_call E)) call_action"

definition qualified_call_action ::
  "engine \<Rightarrow> ustr \<Rightarrow> nat \<Rightarrow> nat \<Rightarrow> (nat \<times> nat) \<times> call \<Rightarrow> expr outcome" where
  "qualified_call_action engine source l r parts = (case parts of ((_, name_r), quantifier, arguments) \<Rightarrow>
     run_then (returns_value (qualified_function_name engine source l name_r)) (\<lambda>function.
     expr_at l r (EK_Function (FunctionInvocation function quantifier arguments))))"

definition qualified_function_expr :: "engine \<Rightarrow> ustr \<Rightarrow> expr rule \<Rightarrow> expr rule" where
  "qualified_function_expr engine source E =
     act (seq (terminal P_QualifiedFunctionName) (function_call E)) (qualified_call_action engine source)"

definition trim_action :: "nat \<Rightarrow> nat \<Rightarrow> name \<times> expr \<Rightarrow> expr outcome" where
  "trim_action l r parts = (case parts of (function, argument) \<Rightarrow>
     expr_at l r (EK_Function (FunctionInvocation (QualifiedName [function] (node_span function)) None [argument])))"

definition trim_expr :: "ustr \<Rightarrow> expr rule \<Rightarrow> expr rule" where
  "trim_expr source E = act (seq (name_trim source) (before P_LeftParen (after E P_RightParen))) trim_action"

definition count_star_action :: "nat \<Rightarrow> nat \<Rightarrow> name \<times> nat \<times> nat \<Rightarrow> expr outcome" where
  "count_star_action l r parts = (case parts of (function, star_l, star_r) \<Rightarrow>
     run_then (expr_at star_l star_r EK_Wildcard) (\<lambda>star.
     expr_at l r (EK_Function (FunctionInvocation (QualifiedName [function] (node_span function)) None [star]))))"

definition count_star_expr :: "ustr \<Rightarrow> expr rule" where
  "count_star_expr source =
     act (seq (name_count source) (before P_LeftParen (after (terminal P_Star) P_RightParen))) count_star_action"

section \<open>Lists, cases and predicates\<close>

definition parenthesized_action :: "nat \<Rightarrow> nat \<Rightarrow> expr \<Rightarrow> expr outcome" where
  "parenthesized_action l r expression = expr_at l r (EK_Parenthesized expression)"

definition parenthesized_expr :: "expr rule \<Rightarrow> expr rule" where
  "parenthesized_expr E = act (before P_LeftParen (after E P_RightParen)) parenthesized_action"

definition list_action :: "nat \<Rightarrow> nat \<Rightarrow> expr \<times> expr \<times> expr list \<Rightarrow> expr outcome" where
  "list_action l r parts = (case parts of (head, second, tail) \<Rightarrow> expr_at l r (EK_List (head # second # tail)))"

definition list_value :: "expr rule \<Rightarrow> expr rule" where
  "list_value E ts out \<longleftrightarrow>
     act (before P_LeftBracket (terminal P_RightBracket)) (\<lambda>l r _. expr_at l r (EK_List [])) ts out \<or>
     act (before P_LeftBracket (after E P_RightBracket))
       (\<lambda>l r expression. returns_value (list_singleton_or_comprehension l r expression)) ts out \<or>
     act (before P_LeftBracket (after (seq (after E P_Comma) (seq E (many (before P_Comma E)))) P_RightBracket))
       list_action ts out \<or>
     act (before P_LeftBracket (after (seq E (seq (where_rule E) (optional (before P_Pipe E)))) P_RightBracket))
       (\<lambda>l r (source_expression, predicate, projection).
          list_comprehension_expr l r source_expression (Some predicate) projection) ts out \<or>
     act (before P_LeftBracket (after (seq (after E P_Pipe) E) P_RightBracket))
       (\<lambda>l r (source_expression, projection).
          list_comprehension_expr l r source_expression None (Some projection)) ts out"

definition case_alternative_action :: "nat \<Rightarrow> nat \<Rightarrow> expr list \<times> expr \<Rightarrow> expr case_alternative outcome" where
  "case_alternative_action l r parts = (case parts of (tests, result) \<Rightarrow> struct_at l r (CaseAlternative tests result))"

definition case_alternative_node :: "expr rule \<Rightarrow> expr case_alternative rule" where
  "case_alternative_node E =
     act (before P_When (seq (after (separated_by P_Comma E) P_Then) E)) case_alternative_action"

definition case_action ::
  "nat \<Rightarrow> nat \<Rightarrow> expr option \<times> expr case_alternative list \<times> expr option \<Rightarrow> expr outcome" where
  "case_action l r parts = (case parts of (operand, alternatives, else_expression) \<Rightarrow>
     expr_at l r (EK_Case (CaseExpression operand alternatives else_expression)))"

definition case_expr :: "expr rule \<Rightarrow> expr rule" where
  "case_expr E =
     act (before P_Case (after (seq (optional E) (seq (some_of (case_alternative_node E))
       (optional (before P_Else E)))) P_End)) case_action"

definition reduce_action :: "nat \<Rightarrow> nat \<Rightarrow> name \<times> expr \<times> name \<times> expr \<times> expr \<Rightarrow> expr outcome" where
  "reduce_action l r parts = (case parts of (accumulator, initial, variable, items, expression) \<Rightarrow>
     expr_at l r (EK_Reduce (ReduceExpression accumulator initial variable items expression)))"

definition reduce_expr :: "ustr \<Rightarrow> expr rule \<Rightarrow> expr rule" where
  "reduce_expr source E =
     act (before P_Reduce (before P_LeftParen (after
       (seq (after (name_rule source) P_Equal) (seq (after E P_Comma)
         (seq (after (name_rule source) P_In) (seq (after E P_Pipe) E)))) P_RightParen))) reduce_action"

definition quantified_predicate_kind_node :: "quantified_predicate_kind node rule" where
  "quantified_predicate_kind_node ts out \<longleftrightarrow>
     act (terminal P_All) (\<lambda>l r _. node_at l r QP_All) ts out \<or>
     act (terminal P_Any) (\<lambda>l r _. node_at l r QP_Any) ts out \<or>
     act (terminal P_None) (\<lambda>l r _. node_at l r QP_None) ts out \<or>
     act (terminal P_Single) (\<lambda>l r _. node_at l r QP_Single) ts out"

definition quantified_predicate_action ::
  "nat \<Rightarrow> nat \<Rightarrow> quantified_predicate_kind node \<times> name \<times> expr \<times> expr \<Rightarrow> expr outcome" where
  "quantified_predicate_action l r parts = (case parts of (kind, variable, items, predicate) \<Rightarrow>
     expr_at l r (EK_QuantifiedPredicate (QuantifiedPredicate kind variable items predicate)))"

definition quantified_predicate_expr :: "ustr \<Rightarrow> expr rule \<Rightarrow> expr rule" where
  "quantified_predicate_expr source E =
     act (seq quantified_predicate_kind_node (before P_LeftParen (after
       (seq (after (name_rule source) P_In) (seq (after E P_Where) E)) P_RightParen))) quantified_predicate_action"

section \<open>Patterns and subqueries\<close>

definition legacy_shortest_expr_action :: "nat \<Rightarrow> nat \<Rightarrow> name \<times> path_pattern \<Rightarrow> expr outcome" where
  "legacy_shortest_expr_action l r parts = (case parts of (function, path) \<Rightarrow>
     let pattern_span = node_span (path_node path);
         part = Node (PatternPartKind None None path) pattern_span;
         argument = mk_expr (EK_Pattern (Pattern [part] pattern_span)) pattern_span in
     expr_at l r (EK_Function
       (FunctionInvocation (QualifiedName [function] (node_span function)) None [argument])))"

definition legacy_shortest_path_expr :: "engine \<Rightarrow> grammar \<Rightarrow> ustr \<Rightarrow> expr rule \<Rightarrow> expr rule" where
  "legacy_shortest_path_expr engine g source E =
     act (seq (legacy_shortest_path_name source)
       (before P_LeftParen (after (legacy_shortest_path_inner engine g source E) P_RightParen)))
       legacy_shortest_expr_action"

definition subquery_kind_node :: "subquery_expression_kind node rule" where
  "subquery_kind_node ts out \<longleftrightarrow>
     act (terminal P_Exists) (\<lambda>l r _. node_at l r SE_Exists) ts out \<or>
     act (terminal P_Count) (\<lambda>l r _. node_at l r SE_Count) ts out \<or>
     act (terminal P_Collect) (\<lambda>l r _. node_at l r SE_Collect) ts out"

definition subquery_argument :: "ustr \<Rightarrow> expr rule \<Rightarrow> path_pattern rule \<Rightarrow> query rule \<Rightarrow> query rule" where
  "subquery_argument source E P Q ts out \<longleftrightarrow>
     Q ts out \<or>
     yields (seq (pattern_rule source P) (optional (where_rule E)))
       (\<lambda>(pattern, where_clause). query_from_pattern pattern where_clause) ts out"

definition subquery_action :: "nat \<Rightarrow> nat \<Rightarrow> subquery_expression_kind node \<times> query \<Rightarrow> expr outcome" where
  "subquery_action l r parts = (case parts of (kind, query) \<Rightarrow>
     expr_at l r (EK_Subquery (SubqueryExpression kind query)))"

definition subquery_expr :: "ustr \<Rightarrow> expr rule \<Rightarrow> path_pattern rule \<Rightarrow> query rule \<Rightarrow> expr rule" where
  "subquery_expr source E P Q =
     act (seq subquery_kind_node (before P_LeftBrace (after (subquery_argument source E P Q) P_RightBrace)))
       subquery_action"

definition pattern_comprehension_rule :: "engine \<Rightarrow> grammar \<Rightarrow> ustr \<Rightarrow> expr rule" where
  "pattern_comprehension_rule engine g source =
     act (terminal P_PatternComprehension) (\<lambda>l r _. pattern_comprehension engine g source l r)"

definition pattern_expression_rule :: "engine \<Rightarrow> grammar \<Rightarrow> ustr \<Rightarrow> expr rule" where
  "pattern_expression_rule engine g source =
     act (terminal P_PatternExpression) (\<lambda>l r _. pattern_expression engine g source l r)"

definition primary_expr ::
  "engine \<Rightarrow> grammar \<Rightarrow> ustr \<Rightarrow> expr rule \<Rightarrow> path_pattern rule \<Rightarrow> query rule \<Rightarrow> expr rule" where
  "primary_expr engine g source E P Q ts out \<longleftrightarrow>
     act (terminal P_ErrorExpression) (\<lambda>l r _. expr_at l r (EK_Error Error_node)) ts out \<or>
     literal_expr source ts out \<or>
     parameter_expr source ts out \<or>
     pattern_comprehension_rule engine g source ts out \<or>
     list_value E ts out \<or>
     map_value source E ts out \<or>
     case_expr E ts out \<or>
     reduce_expr source E ts out \<or>
     trim_expr source E ts out \<or>
     quantified_predicate_expr source E ts out \<or>
     count_function_expr source E ts out \<or>
     count_star_expr source ts out \<or>
     subquery_expr source E P Q ts out \<or>
     legacy_shortest_path_expr engine g source E ts out \<or>
     qualified_function_expr engine source E ts out \<or>
     named_expr source E ts out \<or>
     parenthesized_expr E ts out"

section \<open>Suffixes and operators\<close>

definition map_projection_entry_action ::
  "nat \<Rightarrow> nat \<Rightarrow> name \<times> expr \<Rightarrow> expr map_projection_item_kind node outcome" where
  "map_projection_entry_action l r parts = (case parts of (key, val) \<Rightarrow>
     run_then (struct_at l r (MapEntry key val)) (\<lambda>entry. node_at l r (MP_Entry entry)))"

definition map_projection_item_node :: "ustr \<Rightarrow> expr rule \<Rightarrow> expr map_projection_item_kind node rule" where
  "map_projection_item_node source E ts out \<longleftrightarrow>
     act (before P_Dot (name_rule source)) (\<lambda>l r key. node_at l r (MP_Property key)) ts out \<or>
     act (before P_Dot (terminal P_Star)) (\<lambda>l r _. node_at l r MP_AllProperties) ts out \<or>
     act (seq (after (name_rule source) P_Colon) E) map_projection_entry_action ts out \<or>
     yields (name_rule source) (\<lambda>variable. Node (MP_Variable variable) (node_span variable)) ts out"

definition projection_suffix :: "expr map_projection_item_kind node list option \<times> nat \<Rightarrow> postfix_suffix" where
  "projection_suffix parts = (case parts of (items, last_end) \<Rightarrow>
     PX_MapProjection (case items of None \<Rightarrow> [] | Some xs \<Rightarrow> xs) last_end)"

definition index_suffix :: "expr \<times> nat \<Rightarrow> postfix_suffix" where
  "index_suffix parts = (case parts of (index, last_end) \<Rightarrow> PX_Index index last_end)"

definition slice_suffix :: "(expr option \<times> expr option) \<times> nat \<Rightarrow> postfix_suffix" where
  "slice_suffix parts = (case parts of ((lower, upper), last_end) \<Rightarrow> PX_Slice lower upper last_end)"

definition postfix_suffix_node :: "ustr \<Rightarrow> expr rule \<Rightarrow> postfix_suffix rule" where
  "postfix_suffix_node source E ts out \<longleftrightarrow>
     yields (before P_Dot (name_rule source)) PX_Property ts out \<or>
     yields (with_end (before P_LeftBrace (after
       (optional (separated_by P_Comma (map_projection_item_node source E))) P_RightBrace)))
       projection_suffix ts out \<or>
     yields (with_end (before P_LeftBracket (after E P_RightBracket))) index_suffix ts out \<or>
     yields (with_end (before P_LeftBracket (after (seq (after (optional E) P_DotDot) (optional E)) P_RightBracket)))
       slice_suffix ts out"

definition postfix_action :: "expr \<times> postfix_suffix list \<Rightarrow> expr outcome" where
  "postfix_action parts = (case parts of (primary, suffixes) \<Rightarrow> returns_value (fold_postfix primary suffixes))"

definition postfix_expr ::
  "engine \<Rightarrow> grammar \<Rightarrow> ustr \<Rightarrow> expr rule \<Rightarrow> path_pattern rule \<Rightarrow> query rule \<Rightarrow> expr rule" where
  "postfix_expr engine g source E P Q =
     fold_rule (seq (primary_expr engine g source E P Q) (many (postfix_suffix_node source E))) postfix_action"

definition unary_action :: "unary_operator \<Rightarrow> nat \<Rightarrow> nat \<Rightarrow> (nat \<times> nat) \<times> expr \<Rightarrow> expr outcome" where
  "unary_action operator l r parts = (case parts of ((op_l, op_r), operand) \<Rightarrow>
     run_then (node_at op_l op_r operator) (\<lambda>operator. expr_at l r (EK_Unary operator operand)))"

definition unary_body ::
  "engine \<Rightarrow> grammar \<Rightarrow> ustr \<Rightarrow> expr rule \<Rightarrow> path_pattern rule \<Rightarrow> query rule \<Rightarrow> expr rule \<Rightarrow> expr rule" where
  "unary_body engine g source E P Q U ts out \<longleftrightarrow>
     postfix_expr engine g source E P Q ts out \<or>
     act (seq (terminal P_Plus) U) (unary_action UN_Plus) ts out \<or>
     act (seq (terminal P_Minus) U) (unary_action UN_Minus) ts out"

definition binary_action :: "expr \<times> (binary_operator node \<times> expr) list \<Rightarrow> expr outcome" where
  "binary_action parts = (case parts of (head, tail) \<Rightarrow> returns_value (fold_binary head tail))"

definition tail_action :: "binary_operator \<Rightarrow> (nat \<times> nat) \<times> expr \<Rightarrow> (binary_operator node \<times> expr) outcome" where
  "tail_action operator parts = (case parts of ((op_l, op_r), right) \<Rightarrow>
     run_then (node_at op_l op_r operator) (\<lambda>operator. pass (operator, right)))"

definition tail_of :: "parser_token \<Rightarrow> binary_operator \<Rightarrow> expr rule \<Rightarrow> (binary_operator node \<times> expr) rule" where
  "tail_of t operator R = fold_rule (seq (terminal t) R) (tail_action operator)"

definition power_expr :: "expr rule \<Rightarrow> expr rule" where
  "power_expr U = fold_rule (seq U (many (tail_of P_Caret BO_Power U))) binary_action"

definition multiplicative_tail :: "expr rule \<Rightarrow> (binary_operator node \<times> expr) rule" where
  "multiplicative_tail R ts out \<longleftrightarrow>
     tail_of P_Star BO_Multiply R ts out \<or> tail_of P_Slash BO_Divide R ts out \<or>
     tail_of P_Percent BO_Remainder R ts out"

definition multiply_expr :: "expr rule \<Rightarrow> expr rule" where
  "multiply_expr U = fold_rule (seq (power_expr U) (many (multiplicative_tail (power_expr U)))) binary_action"

definition additive_tail :: "expr rule \<Rightarrow> (binary_operator node \<times> expr) rule" where
  "additive_tail R ts out \<longleftrightarrow> tail_of P_Plus BO_Add R ts out \<or> tail_of P_Minus BO_Subtract R ts out"

definition add_expr :: "expr rule \<Rightarrow> expr rule" where
  "add_expr U = fold_rule (seq (multiply_expr U) (many (additive_tail (multiply_expr U)))) binary_action"

definition concat_expr :: "expr rule \<Rightarrow> expr rule" where
  "concat_expr U = fold_rule (seq (add_expr U) (many (tail_of P_DoublePipe BO_Concat (add_expr U)))) binary_action"

definition simple_comparison_operator :: "binary_operator node rule" where
  "simple_comparison_operator ts out \<longleftrightarrow>
     act (terminal P_Equal) (\<lambda>l r _. node_at l r BO_Equal) ts out \<or>
     act (terminal P_NotEqual) (\<lambda>l r _. node_at l r BO_NotEqual) ts out \<or>
     act (terminal P_Less) (\<lambda>l r _. node_at l r BO_Less) ts out \<or>
     act (terminal P_LessEqual) (\<lambda>l r _. node_at l r BO_LessEqual) ts out \<or>
     act (terminal P_Greater) (\<lambda>l r _. node_at l r BO_Greater) ts out \<or>
     act (terminal P_GreaterEqual) (\<lambda>l r _. node_at l r BO_GreaterEqual) ts out"

definition advanced_comparison_operator :: "binary_operator node rule" where
  "advanced_comparison_operator ts out \<longleftrightarrow>
     act (terminal P_RegexMatch) (\<lambda>l r _. node_at l r BO_RegexMatch) ts out \<or>
     act (terminal P_In) (\<lambda>l r _. node_at l r BO_In) ts out \<or>
     act (terminal P_Contains) (\<lambda>l r _. node_at l r BO_Contains) ts out \<or>
     act (before P_Starts (terminal P_With)) (\<lambda>l r _. node_at l r BO_StartsWith) ts out \<or>
     act (before P_Ends (terminal P_With)) (\<lambda>l r _. node_at l r BO_EndsWith) ts out"

definition comparison_suffix_of :: "binary_operator node \<times> expr \<Rightarrow> comparison_suffix" where
  "comparison_suffix_of parts = (case parts of (operator, right) \<Rightarrow> CS_Binary operator right)"

definition is_null_suffix :: "(nat \<times> nat) option \<times> nat \<Rightarrow> comparison_suffix" where
  "is_null_suffix parts = (case parts of (negated, last_end) \<Rightarrow> CS_Is (negated \<noteq> None) IP_Null last_end)"

definition advanced_comparison_suffix :: "engine \<Rightarrow> grammar \<Rightarrow> ustr \<Rightarrow> expr rule \<Rightarrow> comparison_suffix rule" where
  "advanced_comparison_suffix engine g source U ts out \<longleftrightarrow>
     yields (seq advanced_comparison_operator (concat_expr U)) comparison_suffix_of ts out \<or>
     yields (with_end (before P_Is (after (optional (terminal P_Not)) P_Null))) is_null_suffix ts out \<or>
     act (terminal P_LabelPredicate) (\<lambda>l r _. label_comparison_suffix engine g source l r) ts out"

definition advanced_comparison_action :: "expr \<times> comparison_suffix option \<Rightarrow> expr outcome" where
  "advanced_comparison_action parts = (case parts of (head, advanced) \<Rightarrow>
     returns_value (fold_comparison head (case advanced of None \<Rightarrow> [] | Some suffix \<Rightarrow> [suffix])))"

definition advanced_comparison_expr :: "engine \<Rightarrow> grammar \<Rightarrow> ustr \<Rightarrow> expr rule \<Rightarrow> expr rule" where
  "advanced_comparison_expr engine g source U =
     fold_rule (seq (concat_expr U) (optional (advanced_comparison_suffix engine g source U)))
       advanced_comparison_action"

definition simple_comparison_suffix :: "engine \<Rightarrow> grammar \<Rightarrow> ustr \<Rightarrow> expr rule \<Rightarrow> comparison_suffix rule" where
  "simple_comparison_suffix engine g source U =
     yields (seq simple_comparison_operator (advanced_comparison_expr engine g source U)) comparison_suffix_of"

definition comparison_action :: "expr \<times> comparison_suffix list \<Rightarrow> expr outcome" where
  "comparison_action parts = (case parts of (head, simple) \<Rightarrow> returns_value (fold_comparison head simple))"

definition comparison_expr :: "engine \<Rightarrow> grammar \<Rightarrow> ustr \<Rightarrow> expr rule \<Rightarrow> expr rule" where
  "comparison_expr engine g source U =
     fold_rule (seq (advanced_comparison_expr engine g source U)
       (many (simple_comparison_suffix engine g source U))) comparison_action"

definition not_body :: "engine \<Rightarrow> grammar \<Rightarrow> ustr \<Rightarrow> expr rule \<Rightarrow> expr rule \<Rightarrow> expr rule" where
  "not_body engine g source U N ts out \<longleftrightarrow>
     comparison_expr engine g source U ts out \<or>
     pattern_expression_rule engine g source ts out \<or>
     act (seq (terminal P_Not) N) (unary_action UN_Not) ts out"

definition and_expr :: "expr rule \<Rightarrow> expr rule" where
  "and_expr N = fold_rule (seq N (many (tail_of P_And BO_And N))) binary_action"

definition xor_expr :: "expr rule \<Rightarrow> expr rule" where
  "xor_expr N = fold_rule (seq (and_expr N) (many (tail_of P_Xor BO_Xor (and_expr N)))) binary_action"

definition or_expr :: "expr rule \<Rightarrow> expr rule" where
  "or_expr N = fold_rule (seq (xor_expr N) (many (tail_of P_Or BO_Or (xor_expr N)))) binary_action"

lemmas expr_rule_defs = function_arguments_def function_call_def named_expr_def [abs_def]
  count_function_expr_def qualified_function_expr_def trim_expr_def parenthesized_expr_def
  list_value_def [abs_def] case_alternative_node_def case_expr_def reduce_expr_def
  quantified_predicate_expr_def legacy_shortest_path_expr_def subquery_argument_def [abs_def]
  subquery_expr_def primary_expr_def [abs_def] map_projection_item_node_def [abs_def]
  postfix_suffix_node_def [abs_def] postfix_expr_def unary_body_def [abs_def] tail_of_def power_expr_def
  multiplicative_tail_def [abs_def] multiply_expr_def additive_tail_def [abs_def] add_expr_def concat_expr_def
  advanced_comparison_suffix_def [abs_def] advanced_comparison_expr_def simple_comparison_suffix_def
  comparison_expr_def not_body_def [abs_def] and_expr_def xor_expr_def or_expr_def

end
