(* ===== verification/Grammar_Expr_Safe.thy ===== *)
theory Grammar_Expr_Safe
  imports Grammar_Exprs
begin

text \<open>
  The actions of the expression rules return on good tokens, and the expression of a rule covers its
  tokens. The folds of operators and suffixes share one contract, the locale \<open>left_fold\<close>.
\<close>

section \<open>Folds over suffixes\<close>

locale left_fold =
  fixes source :: ustr and step :: "expr \<Rightarrow> 'x \<Rightarrow> expr panics" and run :: "expr \<Rightarrow> 'x list \<Rightarrow> expr panics"
    and w :: "spanned list \<Rightarrow> 'x \<Rightarrow> bool"
  assumes run_Nil: "run e [] = Some e"
    and run_Cons: "run e (x # xs) = Option.bind (step e x) (\<lambda>e'. run e' xs)"
    and step_located: "good_tokens source (ts @ part) \<Longrightarrow> located expr_span ts e \<Longrightarrow> w part x \<Longrightarrow>
      \<exists>e'. step e x = Some e' \<and> located expr_span (ts @ part) e'"
begin

lemma run_located:
  "list_all2 w parts xs \<Longrightarrow> good_tokens source (ts @ concat parts) \<Longrightarrow> located expr_span ts e \<Longrightarrow>
     \<exists>e'. run e xs = Some e' \<and> located expr_span (ts @ concat parts) e'"
proof (induction parts xs arbitrary: ts e rule: list_all2_induct)
  case Nil
  then show ?case by (simp add: run_Nil)
next
  case (Cons part parts x xs)
  from Cons.prems(1) have "good_tokens source (ts @ part)"
    using good_tokens_append [of source "ts @ part" "concat parts"] by simp
  from step_located [OF this Cons.prems(2) Cons.hyps(1)] obtain e' where
    "step e x = Some e'" "located expr_span (ts @ part) e'" by blast
  with Cons.IH [of "ts @ part" e'] Cons.prems(1) show ?case by (simp add: run_Cons)
qed

lemma safe_fold:
  assumes "safe source R (located expr_span)" and "safe source S w"
  shows "safe source (fold_rule (seq R (many S)) (\<lambda>(e, xs). returns_value (run e xs))) (located expr_span)"
proof (rule safe_fold_rule, rule safe_seq [OF assms(1)], rule safe_many [OF assms(2)])
  fix ts and x :: "expr \<times> 'x list"
  assume good: "good_tokens source ts"
    and "\<exists>us vs. ts = us @ vs \<and> located expr_span us (fst x) \<and>
      (\<exists>parts. vs = concat parts \<and> list_all2 w parts (snd x))"
  then obtain us parts where "ts = us @ concat parts" "located expr_span us (fst x)"
    "list_all2 w parts (snd x)" by blast
  with run_located [of parts "snd x" us "fst x"] good show "returning (located expr_span ts)
      (case x of (e, xs) \<Rightarrow> returns_value (run e xs))"
    by (auto simp: returns_value_def split: prod.splits)
qed

lemma safe_fold_optional:
  assumes "safe source R (located expr_span)" and "safe source S w"
  shows "safe source (fold_rule (seq R (optional S))
      (\<lambda>(e, x). returns_value (run e (case x of None \<Rightarrow> [] | Some y \<Rightarrow> [y])))) (located expr_span)"
proof (rule safe_fold_rule, rule safe_seq [OF assms(1)], rule safe_optional [OF assms(2)])
  fix ts and x :: "expr \<times> 'x option"
  assume good: "good_tokens source ts"
    and "\<exists>us vs. ts = us @ vs \<and> located expr_span us (fst x) \<and>
      (vs = [] \<and> snd x = None \<or> (\<exists>y. snd x = Some y \<and> w vs y))"
  then obtain us parts where "ts = us @ concat parts" "located expr_span us (fst x)"
    "list_all2 w parts (case snd x of None \<Rightarrow> [] | Some y \<Rightarrow> [y])"
  proof (elim exE conjE disjE)
    fix us vs
    assume "ts = us @ vs" "located expr_span us (fst x)" "vs = []" "snd x = None"
    then show thesis by (intro that [of us "[]"]) simp_all
  next
    fix us vs y
    assume "ts = us @ vs" "located expr_span us (fst x)" "snd x = Some y" "w vs y"
    then show thesis by (intro that [of us "[vs]"]) simp_all
  qed
  with run_located [of parts "case snd x of None \<Rightarrow> [] | Some y \<Rightarrow> [y]" us "fst x"] good
  show "returning (located expr_span ts)
      (case x of (e, x) \<Rightarrow> returns_value (run e (case x of None \<Rightarrow> [] | Some y \<Rightarrow> [y])))"
    by (auto simp: returns_value_def split: prod.splits)
qed

end

text \<open>The order of adjacent groups of tokens.\<close>

lemma good_tokens_order:
  assumes "good_tokens source (us @ vs)" and "us \<noteq> []" and "vs \<noteq> []"
  shows "tok_start (hd us) \<le> tok_end (last us)" and "tok_end (last us) \<le> tok_start (hd vs)"
    and "tok_start (hd vs) \<le> tok_end (last vs)"
proof -
  from good_tokens_append [OF assms(1)] have "good_tokens source us" "good_tokens source vs" by simp_all
  with assms(2,3) show "tok_start (hd us) \<le> tok_end (last us)" "tok_start (hd vs) \<le> tok_end (last vs)"
    using good_tokens_extent by auto
  have "last us \<in> set us" "hd vs \<in> set vs" using assms(2,3) by simp_all
  with assms(1) show "tok_end (last us) \<le> tok_start (hd vs)"
    by (auto simp: good_tokens_def ordered_tokens_def sorted_wrt_append)
qed

text \<open>An operator and its right operand; a suffix that ends with its tokens.\<close>

definition tail_ok :: "spanned list \<Rightarrow> binary_operator node \<times> expr \<Rightarrow> bool" where
  "tail_ok ts x = (\<exists>us vs. ts = us @ vs \<and> located expr_span vs (snd x))"

lemma tail_ok_Cons: "located expr_span vs e \<Longrightarrow> tail_ok (t # vs) (operator, e)"
  unfolding tail_ok_def by (intro exI [of _ "[t]"] exI [of _ vs]) simp

definition binary_step :: "expr \<Rightarrow> binary_operator node \<times> expr \<Rightarrow> expr panics" where
  "binary_step e x =
     map_option (mk_expr (EK_Binary e (fst x) (snd x))) (span_cover (expr_span e) (expr_span (snd x)))"

lemma cover_located:
  assumes good: "good_tokens source (ts @ part)" and "located sp ts e" and part: "part = us @ vs"
    and "covers vs s"
  shows "span_cover (sp e) s = Some (mk_span (tok_start (hd (ts @ part))) (tok_end (last (ts @ part))))"
proof -
  from assms(2,4) have e: "sp e = mk_span (tok_start (hd ts)) (tok_end (last ts))" and "ts \<noteq> []"
    and s: "s = mk_span (tok_start (hd vs)) (tok_end (last vs))" and "vs \<noteq> []"
    by (simp_all add: located_def covers_def)
  then have "tok_end (last ts) \<le> tok_start (hd vs)"
    using good unfolding good_tokens_def ordered_tokens_def part
    by (simp add: sorted_wrt_append)
  moreover have "tok_start (hd ts) \<le> tok_end (last ts)" "tok_start (hd vs) \<le> tok_end (last vs)"
    using good_tokens_extent [of source ts] good_tokens_extent [of source vs] \<open>ts \<noteq> []\<close> \<open>vs \<noteq> []\<close>
      good_tokens_append [of source ts part] good_tokens_append [of source us vs] good part by simp_all
  ultimately show ?thesis
    using \<open>ts \<noteq> []\<close> \<open>vs \<noteq> []\<close> by (simp add: e s part span_cover_def)
qed

lemma binary_step_located:
  assumes "good_tokens source (ts @ part)" and "located expr_span ts e" and "tail_ok part x"
  shows "\<exists>e'. binary_step e x = Some e' \<and> located expr_span (ts @ part) e'"
proof -
  from assms(3) obtain us vs where part: "part = us @ vs" and "located expr_span vs (snd x)"
    by (auto simp: tail_ok_def)
  then have "covers vs (expr_span (snd x))" by (simp add: located_def)
  from cover_located [OF assms(1,2) part this] assms(2) show ?thesis
    by (simp add: binary_step_def located_simps)
qed

interpretation binary: left_fold source binary_step fold_binary tail_ok for source
proof
  show "fold_binary e (x # xs) = Option.bind (binary_step e x) (\<lambda>e'. fold_binary e' xs)" for e x xs
    by (cases x) (simp add: binary_step_def Option.bind_map_option comp_def)
qed (simp_all add: binary_step_located)

text \<open>The suffixes of a comparison.\<close>

definition suffix_ok :: "spanned list \<Rightarrow> comparison_suffix \<Rightarrow> bool" where
  "suffix_ok ts x = (case x of
     CS_Binary operator right \<Rightarrow> tail_ok ts (operator, right)
   | CS_Is negated predicate last_end \<Rightarrow> ts \<noteq> [] \<and> last_end = tok_end (last ts))"

definition comparison_step :: "expr \<Rightarrow> comparison_suffix \<Rightarrow> expr panics" where
  "comparison_step e x = (case x of
     CS_Binary operator right \<Rightarrow> binary_step e (operator, right)
   | CS_Is negated predicate last_end \<Rightarrow>
       map_option (mk_expr (EK_Is e negated predicate)) (span_new (span_start (expr_span e)) last_end))"

lemma end_located:
  assumes "good_tokens source (ts @ part)" and "located expr_span ts e" and "part \<noteq> []"
  shows "span_new (span_start (expr_span e)) (tok_end (last part)) =
    Some (mk_span (tok_start (hd (ts @ part))) (tok_end (last (ts @ part))))"
  using good_tokens_extent [OF assms(1)] assms(2,3) by (simp add: located_def covers_def)

lemma comparison_step_located:
  assumes "good_tokens source (ts @ part)" and "located expr_span ts e" and "suffix_ok part x"
  shows "\<exists>e'. comparison_step e x = Some e' \<and> located expr_span (ts @ part) e'"
proof (cases x)
  case (CS_Binary operator right)
  with assms binary_step_located show ?thesis by (simp add: comparison_step_def suffix_ok_def)
next
  case (CS_Is negated predicate last_end)
  with assms(3) have "part \<noteq> []" "last_end = tok_end (last part)" by (simp_all add: suffix_ok_def)
  with CS_Is end_located [OF assms(1,2)] assms(2) show ?thesis
    by (simp add: comparison_step_def located_simps)
qed

interpretation comparison: left_fold source comparison_step fold_comparison suffix_ok for source
proof
  show "fold_comparison e (x # xs) = Option.bind (comparison_step e x) (\<lambda>e'. fold_comparison e' xs)" for e x xs
    by (cases x) (simp_all add: comparison_step_def binary_step_def Option.bind_map_option comp_def)
qed (simp_all add: comparison_step_located)

text \<open>The suffixes of a primary expression.\<close>

definition postfix_ok :: "spanned list \<Rightarrow> postfix_suffix \<Rightarrow> bool" where
  "postfix_ok ts x = (case x of
     PX_Property key \<Rightarrow> (\<exists>us vs. ts = us @ vs \<and> covers vs (node_span key))
   | PX_MapProjection items last_end \<Rightarrow> ts \<noteq> [] \<and> last_end = tok_end (last ts)
   | PX_Index index last_end \<Rightarrow> ts \<noteq> [] \<and> last_end = tok_end (last ts)
   | PX_Slice lower upper last_end \<Rightarrow> ts \<noteq> [] \<and> last_end = tok_end (last ts))"

lemma apply_postfix_located:
  assumes "good_tokens source (ts @ part)" and "located expr_span ts e" and "postfix_ok part x"
  shows "\<exists>e'. apply_postfix e x = Some e' \<and> located expr_span (ts @ part) e'"
proof (cases x)
  case (PX_Property key)
  with assms(3) obtain us vs where part: "part = us @ vs" and key: "covers vs (node_span key)"
    by (auto simp: postfix_ok_def)
  from cover_located [OF assms(1,2) part key] PX_Property assms(2) show ?thesis
    by (simp add: located_simps)
qed (use assms end_located [OF assms(1,2)] in \<open>auto simp: postfix_ok_def located_simps\<close>)

interpretation postfix: left_fold source apply_postfix fold_postfix postfix_ok for source
  by unfold_locales (simp_all add: apply_postfix_located)

section \<open>The rules\<close>

lemma covers_Cons: "covers us sp \<Longrightarrow> \<exists>as bs. t # us = as @ bs \<and> covers bs sp"
  by (intro exI [of _ "[t]"] exI [of _ us]) simp

lemmas expr_actions [safe_simps] = call_action_def trim_action_def count_star_action_def
  parenthesized_action_def list_action_def case_alternative_action_def case_action_def reduce_action_def
  quantified_predicate_action_def legacy_shortest_expr_action_def subquery_action_def
  map_projection_entry_action_def unary_action_def

text \<open>The literals that read the source.\<close>

lemma returning_literal_actions [safe_simps]:
  assumes "l \<le> r" and "is_char_boundary source l" and "is_char_boundary source r"
    and w: "\<And>x. node_span x = mk_span l r \<Longrightarrow> w x"
  shows "returning w (integer_action source radix l r)" and "returning w (float_action source l r)"
    and "returning w (string_action source l r)"
proof -
  from slice_ok [OF assms(1-3)] obtain s where "str_get source l r = Some s" by blast
  with assms(1) w show "returning w (integer_action source radix l r)"
    "returning w (float_action source l r)" "returning w (string_action source l r)"
    by (simp_all add: integer_action_def make_integer_literal_def float_action_def text_of_def
        string_action_def make_string_literal_def returns_value_def run_then_def safe_simps)
qed

lemma safe_literal [safe_intros]: "safe source (literal_expr source) (located expr_span)"
proof -
  have "safe source (literal_rule source) (located node_span)"
    unfolding literal_rule_def [abs_def]
    by (intro safe_alt; rule safe_act, (rule safe_intros)+, simp add: safe_simps)
  then show ?thesis
    unfolding literal_expr_def
    by (intro safe_weaken [OF safe_yields]) (auto simp: literal_expr_action_def safe_simps)
qed

lemma safe_set_quantifier_node [safe_intros]: "safe source set_quantifier_node (located node_span)"
  unfolding set_quantifier_node_def [abs_def]
  by (intro safe_alt; rule safe_act, (rule safe_intros)+, simp add: safe_simps)

lemma safe_kind_nodes [safe_intros]:
  "safe source quantified_predicate_kind_node (located node_span)"
  "safe source subquery_kind_node (located node_span)"
  "safe source simple_comparison_operator (located node_span)"
  "safe source advanced_comparison_operator (located node_span)"
  unfolding quantified_predicate_kind_node_def [abs_def] subquery_kind_node_def [abs_def]
    simple_comparison_operator_def [abs_def] advanced_comparison_operator_def [abs_def]
  by (intro safe_alt; rule safe_act, (rule safe_intros)+, simp add: safe_simps)+

lemma safe_parameter_expr [safe_intros]: "safe source (parameter_expr source) (located expr_span)"
  unfolding parameter_expr_def by (rule safe_parameter_action)

lemma safe_count_star [safe_intros]: "safe source (count_star_expr source) (located expr_span)"
  unfolding count_star_expr_def
  by (rule safe_act, (rule safe_intros)+, auto simp: safe_simps spanned_ok_def)

lemma qualified_function_name_total:
  assumes "raw_engine engine" and "l \<le> r" and "is_char_boundary source l" and "is_char_boundary source r"
  shows "\<exists>n. qualified_function_name engine source l r = Some n"
proof -
  from slice_ok [OF assms(2-4)] obtain fragment where fragment: "str_get source l r = Some fragment" by blast
  from lex_result [OF assms(1), of fragment] obtain lexed where lexed: "lex engine fragment = Some lexed" by auto
  let ?name = "\<lambda>t. make_name source (l + span_start (token_span t)) (l + span_end (token_span t))
    (token_kind t = T_EscapedIdentifier)"
  have "\<exists>n. ?name t = Some n" if "t \<in> set (lex_tokens lexed)" for t
    using lex_boundaries [OF assms(1) lexed that] str_get_boundary [OF fragment]
      make_name_ok [of source "(l + span_start (token_span t), P_Identifier, l + span_end (token_span t))"]
    by (simp add: spanned_ok_def wf_span_def)
  then have "\<exists>parts. those (map ?name (filter (\<lambda>t. \<not> token_is_trivia t \<and> token_kind t \<noteq> T_Dot)
      (lex_tokens lexed))) = Some parts"
    by (intro those_map_total) simp
  with assms(2) show ?thesis
    by (auto simp: qualified_function_name_def fragment lexed)
qed

context safe_paths
begin

lemma safe_function_call [safe_intros]: "safe source (function_call E) (\<lambda>ts x. True)"
  unfolding function_call_def function_arguments_def separated_by_def
  by (rule safe_weaken, (rule safe_intros)+, simp)

lemma safe_named_expr [safe_intros]: "safe source (named_expr source E) (located expr_span)"
proof -
  have "safe source (act (seq (name_rule source) (function_call E)) call_action) (located expr_span)"
    by (rule safe_act, (rule safe_intros)+, simp add: safe_simps split: prod.splits)
  moreover have "safe source (yields (name_rule source) variable_action) (located expr_span)"
    by (rule safe_weaken, (rule safe_intros)+, auto simp: variable_action_def safe_simps)
  ultimately show ?thesis unfolding named_expr_def [abs_def] by (rule safe_alt)
qed

lemma safe_calls [safe_intros]:
  "safe source (count_function_expr source E) (located expr_span)"
  "safe source (trim_expr source E) (located expr_span)"
  "safe source (parenthesized_expr E) (located expr_span)"
  "safe source (reduce_expr source E) (located expr_span)"
  "safe source (quantified_predicate_expr source E) (located expr_span)"
  "safe source (legacy_shortest_path_expr engine g source E) (located expr_span)"
  unfolding count_function_expr_def trim_expr_def parenthesized_expr_def reduce_expr_def
    quantified_predicate_expr_def legacy_shortest_path_expr_def
  by (rule safe_act, (rule safe_intros)+, simp add: safe_simps Let_def split: prod.splits)+

lemma safe_qualified_function [safe_intros]:
  "safe source (qualified_function_expr engine source E) (located expr_span)"
  unfolding qualified_function_expr_def
proof (rule safe_act, (rule safe_intros)+)
  fix ts :: "spanned list" and x :: "(nat \<times> nat) \<times> call"
  assume le: "tok_start (hd ts) \<le> tok_end (last ts)" and l: "is_char_boundary source (tok_start (hd ts))"
    and "ts \<noteq> []" and "\<exists>us vs. ts = us @ vs \<and>
      (\<exists>u. us = [u] \<and> tok_kind u = P_QualifiedFunctionName \<and> fst x = (tok_start u, tok_end u) \<and>
        spanned_ok source u) \<and> True"
  then obtain u vs where "ts = u # vs" "fst x = (tok_start u, tok_end u)" "spanned_ok source u" by auto
  with l qualified_function_name_total [OF engine, of "tok_start (hd ts)" "snd (fst x)" source]
  obtain n where "qualified_function_name engine source (tok_start (hd ts)) (snd (fst x)) = Some n"
    by (auto simp: spanned_ok_def)
  with le \<open>ts \<noteq> []\<close> show "returning (located expr_span ts)
      (qualified_call_action engine source (tok_start (hd ts)) (tok_end (last ts)) x)"
    by (auto simp: qualified_call_action_def returns_value_def run_then_def safe_simps split: prod.splits)
qed

lemma safe_case_expr [safe_intros]: "safe source (case_expr E) (located expr_span)"
proof -
  have alternative: "safe source (case_alternative_node E) (located ca_span)"
    unfolding case_alternative_node_def separated_by_def
    by (rule safe_act, (rule safe_intros)+, simp add: safe_simps split: prod.splits)
  show ?thesis
    unfolding case_expr_def some_of_def
    by (rule safe_act, (rule safe_intros alternative)+, simp add: safe_simps split: prod.splits)
qed

lemma safe_list_value [safe_intros]: "safe source (list_value E) (located expr_span)"
  unfolding list_value_def [abs_def]
  by (intro safe_alt; rule safe_act, (rule safe_intros)+,
      simp add: safe_simps list_singleton_or_comprehension_def list_comprehension_expr_def returns_value_def
        split: prod.splits comprehension_source.splits)

lemma safe_nested_patterns [safe_intros]:
  "safe source (pattern_comprehension_rule engine g source) (located expr_span)"
  "safe source (pattern_expression_rule engine g source) (located expr_span)"
proof -
  have nested: "returning (located expr_span ts) (pattern_comprehension engine g source (tok_start (hd ts)) (tok_end (last ts)))"
    "returning (located expr_span ts) (pattern_expression engine g source (tok_start (hd ts)) (tok_end (last ts)))"
    if "ts \<noteq> []" for ts
    using that pattern_comprehension_total [OF engine, of g source "tok_start (hd ts)" "tok_end (last ts)"]
      pattern_expression_total [OF engine, of g source "tok_start (hd ts)" "tok_end (last ts)"]
    by (auto simp: returning_def is_comprehension_at_def located_simps split: sum.splits)
  show "safe source (pattern_comprehension_rule engine g source) (located expr_span)"
    "safe source (pattern_expression_rule engine g source) (located expr_span)"
    unfolding pattern_comprehension_rule_def pattern_expression_rule_def
    by (rule safe_act, (rule safe_intros)+, simp add: nested)+
qed

lemma safe_postfix_suffix [safe_intros]: "safe source (postfix_suffix_node source E) postfix_ok"
proof -
  have item: "safe source (map_projection_item_node source E) (\<lambda>ts x. ts \<noteq> [])"
  proof -
    have variable: "safe source (yields (name_rule source) (\<lambda>variable. Node (MP_Variable variable) (node_span variable)))
        (\<lambda>ts x. ts \<noteq> [])"
      by (rule safe_weaken, (rule safe_intros)+, auto simp: safe_simps)
    show ?thesis
      unfolding map_projection_item_node_def [abs_def]
      by (intro safe_alt variable; rule safe_act, (rule safe_intros)+, simp add: safe_simps split: prod.splits)
  qed
  have "safe source (yields (before P_Dot (name_rule source)) PX_Property) postfix_ok"
    by (rule safe_weaken, (rule safe_intros)+) (auto simp: postfix_ok_def located_def intro: covers_Cons)
  moreover have "safe source (yields (with_end (before P_LeftBrace (after
       (optional (separated_by P_Comma (map_projection_item_node source E))) P_RightBrace)))
       projection_suffix) postfix_ok"
    unfolding separated_by_def
    by (rule safe_weaken, (rule safe_intros item)+) (auto simp: postfix_ok_def projection_suffix_def split: prod.splits)
  moreover have "safe source (yields (with_end (before P_LeftBracket (after E P_RightBracket))) index_suffix) postfix_ok"
    by (rule safe_weaken, (rule safe_intros)+) (auto simp: postfix_ok_def index_suffix_def split: prod.splits)
  moreover have "safe source (yields (with_end (before P_LeftBracket
      (after (seq (after (optional E) P_DotDot) (optional E)) P_RightBracket))) slice_suffix) postfix_ok"
    by (rule safe_weaken, (rule safe_intros)+) (auto simp: postfix_ok_def slice_suffix_def split: prod.splits)
  ultimately show ?thesis
    unfolding postfix_suffix_node_def [abs_def] by (intro safe_alt)
qed

end

text \<open>The recursive nonterminals, and the rules that need them.\<close>

locale safe_rules = safe_paths source E engine g P
  for source :: ustr and E :: "expr rule" and engine :: engine and g :: grammar and P :: "path_pattern rule" +
  fixes Q :: "query rule" and U :: "expr rule" and N :: "expr rule"
  assumes safe_Q [safe_intros]: "safe source Q (located node_span)"
    and safe_U [safe_intros]: "safe source U (located expr_span)"
    and safe_N [safe_intros]: "safe source N (located expr_span)"
begin

lemma safe_subquery [safe_intros]: "safe source (subquery_expr source E P Q) (located expr_span)"
proof -
  have "safe source Q (\<lambda>ts x. True)" by (rule safe_weaken [OF safe_Q]) simp
  moreover have "safe source (yields (seq (pattern_rule source P) (optional (where_rule E)))
      (\<lambda>(pattern, where_clause). query_from_pattern pattern where_clause)) (\<lambda>ts x. True)"
    by (rule safe_weaken, (rule safe_intros)+, simp)
  ultimately have argument: "safe source (subquery_argument source E P Q) (\<lambda>ts x. True)"
    unfolding subquery_argument_def [abs_def] by (rule safe_alt)
  show ?thesis
    unfolding subquery_expr_def
    by (rule safe_act, (rule safe_intros argument)+, simp add: safe_simps split: prod.splits)
qed

lemma safe_primary [safe_intros]: "safe source (primary_expr engine g source E P Q) (located expr_span)"
proof -
  have error: "safe source (act (terminal P_ErrorExpression) (\<lambda>l r _. expr_at l r (EK_Error Error_node)))
      (located expr_span)"
    by (rule safe_act, (rule safe_intros)+, simp add: safe_simps)
  show ?thesis unfolding primary_expr_def [abs_def] by (intro safe_alt error) (rule safe_intros)+
qed

lemma safe_postfix_expr [safe_intros]: "safe source (postfix_expr engine g source E P Q) (located expr_span)"
  unfolding postfix_expr_def postfix_action_def [abs_def]
  by (rule postfix.safe_fold [OF safe_primary safe_postfix_suffix])

lemma safe_unary: "safe source R (located expr_span) \<Longrightarrow>
    safe source (act (seq (terminal t) R) (unary_action operator)) (located expr_span)"
  by (rule safe_act, (rule safe_intros | assumption)+)
    (auto simp: safe_simps spanned_ok_def split: prod.splits)

lemma safe_unary_body: "safe source (unary_body engine g source E P Q U) (located expr_span)"
  unfolding unary_body_def [abs_def] by (intro safe_alt safe_postfix_expr safe_unary safe_U)

lemma safe_tail_of:
  assumes "safe source R (located expr_span)"
  shows "safe source (tail_of t operator R) tail_ok"
  unfolding tail_of_def
  by (rule safe_fold_rule, (rule safe_intros assms)+)
    (auto simp: tail_action_def spanned_ok_def at_simps intro: tail_ok_Cons split: prod.splits)

lemma safe_binary:
  assumes "safe source R (located expr_span)" and "safe source T tail_ok"
  shows "safe source (fold_rule (seq R (many T)) binary_action) (located expr_span)"
  unfolding binary_action_def [abs_def] by (rule binary.safe_fold [OF assms])

lemma safe_arithmetic:
  "safe source (power_expr U) (located expr_span)" "safe source (multiply_expr U) (located expr_span)"
  "safe source (add_expr U) (located expr_span)" "safe source (concat_expr U) (located expr_span)"
proof -
  show power: "safe source (power_expr U) (located expr_span)"
    unfolding power_expr_def by (intro safe_binary safe_tail_of safe_U)
  show multiply: "safe source (multiply_expr U) (located expr_span)"
    unfolding multiply_expr_def multiplicative_tail_def [abs_def]
    by (intro safe_binary safe_alt safe_tail_of power)
  show add: "safe source (add_expr U) (located expr_span)"
    unfolding add_expr_def additive_tail_def [abs_def]
    by (intro safe_binary safe_alt safe_tail_of multiply)
  show "safe source (concat_expr U) (located expr_span)"
    unfolding concat_expr_def by (intro safe_binary safe_tail_of add)
qed

lemma safe_comparison_suffixes:
  "safe source (yields (seq simple_comparison_operator R) comparison_suffix_of) suffix_ok"
  "safe source (yields (seq advanced_comparison_operator R) comparison_suffix_of) suffix_ok"
  if "safe source R (located expr_span)" for R
  by (rule safe_weaken, (rule safe_intros that)+,
      fastforce simp: suffix_ok_def comparison_suffix_of_def tail_ok_def split: prod.splits)+

lemma safe_comparison:
  "safe source (advanced_comparison_expr engine g source U) (located expr_span)"
  "safe source (comparison_expr engine g source U) (located expr_span)"
proof -
  have is_null: "safe source (yields (with_end (before P_Is (after (optional (terminal P_Not)) P_Null)))
      is_null_suffix) suffix_ok"
    by (rule safe_weaken, (rule safe_intros)+) (auto simp: suffix_ok_def is_null_suffix_def split: prod.splits)
  have label: "safe source (act (terminal P_LabelPredicate)
      (\<lambda>l r _. label_comparison_suffix engine g source l r)) suffix_ok"
  proof (rule safe_act, (rule safe_intros)+)
    fix ts :: "spanned list"
    assume "ts \<noteq> []"
    moreover from parse_label_expression_total [OF engine, of g source "tok_start (hd ts)" "tok_end (last ts)" True]
    obtain r where "parse_label_expression engine g source (tok_start (hd ts)) (tok_end (last ts)) True = Some r"
      by blast
    ultimately show "returning (suffix_ok ts) (label_comparison_suffix engine g source (tok_start (hd ts)) (tok_end (last ts)))"
      by (cases r) (simp_all add: label_comparison_suffix_def suffix_ok_def)
  qed
  have suffix: "safe source (advanced_comparison_suffix engine g source U) suffix_ok"
    unfolding advanced_comparison_suffix_def [abs_def]
    by (intro safe_alt safe_comparison_suffixes safe_arithmetic is_null label)
  show advanced: "safe source (advanced_comparison_expr engine g source U) (located expr_span)"
    unfolding advanced_comparison_expr_def advanced_comparison_action_def [abs_def]
    by (rule comparison.safe_fold_optional [OF safe_arithmetic(4) suffix])
  show "safe source (comparison_expr engine g source U) (located expr_span)"
    unfolding comparison_expr_def comparison_action_def [abs_def] simple_comparison_suffix_def
    by (intro comparison.safe_fold advanced safe_comparison_suffixes)
qed

lemma safe_not_body: "safe source (not_body engine g source U N) (located expr_span)"
  unfolding not_body_def [abs_def]
  by (intro safe_alt safe_comparison safe_nested_patterns safe_unary safe_N)

lemma safe_or_expr: "safe source (or_expr N) (located expr_span)"
  unfolding or_expr_def xor_expr_def and_expr_def by (intro safe_binary safe_tail_of safe_N)

end

end
