(* ===== verification/Grammar_Clauses.thy ===== *)
theory Grammar_Clauses
  imports Grammar_Expr_Safe
begin

text \<open>
  The clauses and queries of \<open>grammar/cypher.lalrpop\<close>, over the recursive nonterminals \<open>E\<close> (\<open>Expr\<close>) and
  \<open>P\<close> (\<open>PathPattern\<close>); \<open>X\<close> is \<open>PostfixExpr\<close>, the target of \<open>SET\<close> and \<open>REMOVE\<close>.
\<close>

text \<open>\<open><l:@L> X <r:@R>\<close> before more symbols.\<close>

definition with_extent :: "'a rule \<Rightarrow> (nat \<times> nat \<times> 'a) rule" where
  "with_extent R = act R (\<lambda>l r x. pass (l, r, x))"

lemma with_extent_mono [mono]: "R \<le> S \<Longrightarrow> with_extent R \<le> with_extent S"
  unfolding with_extent_def by (rule act_mono)

section \<open>Projections\<close>

definition projection_expression_action ::
  "nat \<Rightarrow> nat \<Rightarrow> expr \<times> name option \<Rightarrow> expr projection_item_kind node outcome" where
  "projection_expression_action l r parts = (case parts of (expression, renamed) \<Rightarrow>
     node_at l r (PI_Expression expression renamed))"

definition projection_expression_item :: "ustr \<Rightarrow> expr rule \<Rightarrow> expr projection_item_kind node rule" where
  "projection_expression_item source E =
     act (seq E (optional (before P_As (name_rule source)))) projection_expression_action"

definition projection_item :: "ustr \<Rightarrow> expr rule \<Rightarrow> expr projection_item_kind node rule" where
  "projection_item source E ts out \<longleftrightarrow>
     act (terminal P_Star) (\<lambda>l r _. node_at l r PI_Wildcard) ts out \<or> projection_expression_item source E ts out"

definition projection_items :: "ustr \<Rightarrow> expr rule \<Rightarrow> expr projection_item_kind node list rule" where
  "projection_items source E =
     yields (seq (projection_item source E) (many (before P_Comma (projection_expression_item source E))))
       (\<lambda>(x, xs). x # xs)"

definition sort_direction_node :: "sort_direction node rule" where
  "sort_direction_node ts out \<longleftrightarrow>
     act (terminal P_Asc) (\<lambda>l r _. node_at l r SD_Ascending) ts out \<or>
     act (terminal P_Ascending) (\<lambda>l r _. node_at l r SD_Ascending) ts out \<or>
     act (terminal P_Desc) (\<lambda>l r _. node_at l r SD_Descending) ts out \<or>
     act (terminal P_Descending) (\<lambda>l r _. node_at l r SD_Descending) ts out"

definition sort_item_action :: "nat \<Rightarrow> nat \<Rightarrow> expr \<times> sort_direction node option \<Rightarrow> expr sort_item outcome" where
  "sort_item_action l r parts = (case parts of (expression, direction) \<Rightarrow>
     struct_at l r (SortItem expression direction None))"

definition sort_item_rule :: "expr rule \<Rightarrow> expr sort_item rule" where
  "sort_item_rule E = act (seq E (optional sort_direction_node)) sort_item_action"

definition order_by_action :: "nat \<Rightarrow> nat \<Rightarrow> expr sort_item list \<Rightarrow> expr order_by outcome" where
  "order_by_action l r items = struct_at l r (OrderBy items)"

definition order_by_clause :: "expr rule \<Rightarrow> expr order_by rule" where
  "order_by_clause E = act (before P_Order (before P_By (separated_by P_Comma (sort_item_rule E)))) order_by_action"

definition page_clause :: "expr rule \<Rightarrow> (bool \<times> expr) rule" where
  "page_clause E ts out \<longleftrightarrow>
     yields (before P_Offset E) (\<lambda>e. (True, e)) ts out \<or> yields (before P_Skip E) (\<lambda>e. (False, e)) ts out"

definition limit_clause :: "expr rule \<Rightarrow> expr rule" where
  "limit_clause E = before P_Limit E"

definition projection_body_action ::
  "nat \<Rightarrow> nat \<Rightarrow> set_quantifier node option \<times> expr projection_item_kind node list \<times> expr order_by option \<times>
     (bool \<times> expr) option \<times> expr option \<Rightarrow> expr projection_clause outcome" where
  "projection_body_action l r parts = (case parts of (quantifier, items, order, page, limit) \<Rightarrow>
     (case (case page of
              Some (True, expression) \<Rightarrow> (Some expression, None)
            | Some (False, expression) \<Rightarrow> (None, Some expression)
            | None \<Rightarrow> (None, None)) of (offset, skip) \<Rightarrow>
        struct_at l r (ProjectionClause quantifier items order offset skip limit)))"

definition projection_body :: "ustr \<Rightarrow> expr rule \<Rightarrow> expr projection_clause rule" where
  "projection_body source E =
     act (seq (optional set_quantifier_node) (seq (projection_items source E) (seq (optional (order_by_clause E))
       (seq (optional (page_clause E)) (optional (limit_clause E)))))) projection_body_action"

section \<open>Reading clauses\<close>

definition match_action ::
  "nat \<Rightarrow> nat \<Rightarrow> (nat \<times> nat) option \<times> path_mode node option \<times> pattern \<times> expr option \<Rightarrow> clause outcome" where
  "match_action l r parts = (case parts of (is_optional, mode, pattern, where_clause) \<Rightarrow>
     clause_at l r (CK_Match (MatchClause (is_optional \<noteq> None) mode pattern [] where_clause)))"

definition match_rule :: "ustr \<Rightarrow> expr rule \<Rightarrow> path_pattern rule \<Rightarrow> clause rule" where
  "match_rule source E P =
     act (seq (optional (terminal P_Optional)) (before P_Match (seq (optional path_mode_node)
       (seq (pattern_rule source P) (optional (where_rule E)))))) match_action"

definition unwind_action :: "nat \<Rightarrow> nat \<Rightarrow> expr \<times> name \<Rightarrow> clause outcome" where
  "unwind_action l r parts = (case parts of (expression, variable) \<Rightarrow>
     clause_at l r (CK_Unwind (UnwindClause expression variable)))"

definition unwind_rule :: "ustr \<Rightarrow> expr rule \<Rightarrow> clause rule" where
  "unwind_rule source E = act (before P_Unwind (seq (after E P_As) (name_rule source))) unwind_action"

definition with_action :: "nat \<Rightarrow> nat \<Rightarrow> expr projection_clause \<times> expr option \<Rightarrow> clause outcome" where
  "with_action l r parts = (case parts of (projection, where_clause) \<Rightarrow>
     clause_at l r (CK_With (WithClause projection where_clause)))"

definition with_rule :: "ustr \<Rightarrow> expr rule \<Rightarrow> clause rule" where
  "with_rule source E = act (before P_With (seq (projection_body source E) (optional (where_rule E)))) with_action"

definition return_action :: "nat \<Rightarrow> nat \<Rightarrow> expr projection_clause \<Rightarrow> clause outcome" where
  "return_action l r projection = clause_at l r (CK_Return (ReturnClause projection))"

definition return_rule :: "ustr \<Rightarrow> expr rule \<Rightarrow> clause rule" where
  "return_rule source E = act (before P_Return (projection_body source E)) return_action"

definition argument_list :: "expr rule \<Rightarrow> expr list rule" where
  "argument_list E ts out \<longleftrightarrow>
     yields (before P_LeftParen (terminal P_RightParen)) (\<lambda>_. []) ts out \<or>
     before P_LeftParen (after (separated_by P_Comma E) P_RightParen) ts out"

definition yield_item_action :: "nat \<Rightarrow> nat \<Rightarrow> name \<times> name option \<Rightarrow> expr projection_item_kind node outcome" where
  "yield_item_action l r parts = (case parts of (field, renamed) \<Rightarrow>
     node_at l r (PI_Expression (mk_expr (EK_Variable field) (node_span field)) renamed))"

definition yield_item :: "ustr \<Rightarrow> expr projection_item_kind node rule" where
  "yield_item source =
     act (seq (name_rule source) (optional (before P_As (name_rule source)))) yield_item_action"

definition standalone_yield_action ::
  "nat \<Rightarrow> nat \<Rightarrow> expr projection_item_kind node list \<Rightarrow> expr yield_clause outcome" where
  "standalone_yield_action l r items = struct_at l r (YieldClause False items None)"

definition standalone_yield_clause :: "ustr \<Rightarrow> expr yield_clause rule" where
  "standalone_yield_clause source ts out \<longleftrightarrow>
     act (before P_Yield (terminal P_Star)) (\<lambda>l r _. struct_at l r (YieldClause True [] None)) ts out \<or>
     act (before P_Yield (separated_by P_Comma (yield_item source))) standalone_yield_action ts out"

definition named_yield_action ::
  "nat \<Rightarrow> nat \<Rightarrow> expr projection_item_kind node list \<times> expr option \<Rightarrow> expr yield_clause outcome" where
  "named_yield_action l r parts = (case parts of (items, where_clause) \<Rightarrow>
     struct_at l r (YieldClause False items where_clause))"

definition named_yield_clause :: "ustr \<Rightarrow> expr rule \<Rightarrow> expr yield_clause rule" where
  "named_yield_clause source E =
     act (before P_Yield (seq (separated_by P_Comma (yield_item source)) (optional (where_rule E)))) named_yield_action"

definition call_clause_action ::
  "nat \<Rightarrow> nat \<Rightarrow> qualified_name \<times> expr list \<times> expr yield_clause option \<Rightarrow> clause outcome" where
  "call_clause_action l r parts = (case parts of (procedure, arguments, yield_clause) \<Rightarrow>
     clause_at l r (CK_Call (CallClause False (CT_Procedure procedure (Some arguments)) yield_clause)))"

definition call_rule :: "ustr \<Rightarrow> expr rule \<Rightarrow> clause rule" where
  "call_rule source E =
     act (before P_Call (seq (qualified_name_rule source) (seq (argument_list E)
       (optional (named_yield_clause source E))))) call_clause_action"

definition standalone_call_action ::
  "nat \<Rightarrow> nat \<Rightarrow> qualified_name \<times> expr list option \<times> expr yield_clause option \<Rightarrow> clause outcome" where
  "standalone_call_action l r parts = (case parts of (procedure, arguments, yield_clause) \<Rightarrow>
     clause_at l r (CK_Call (CallClause False (CT_Procedure procedure arguments) yield_clause)))"

definition standalone_call_rule :: "ustr \<Rightarrow> expr rule \<Rightarrow> clause rule" where
  "standalone_call_rule source E =
     act (before P_Call (seq (qualified_name_rule source) (seq (optional (argument_list E))
       (optional (standalone_yield_clause source))))) standalone_call_action"

section \<open>Updating clauses\<close>

definition create_action :: "nat \<Rightarrow> nat \<Rightarrow> pattern \<Rightarrow> clause outcome" where
  "create_action l r pattern = clause_at l r (CK_Create (CreateClause pattern))"

definition create_rule :: "ustr \<Rightarrow> path_pattern rule \<Rightarrow> clause rule" where
  "create_rule source P = act (before P_Create (pattern_rule source P)) create_action"

definition set_merge_action :: "nat \<Rightarrow> nat \<Rightarrow> name \<times> expr \<Rightarrow> expr set_item_kind node outcome" where
  "set_merge_action l r parts = (case parts of (target, val) \<Rightarrow> node_at l r (SI_MergeProperties target val))"

definition set_labels_action :: "nat \<Rightarrow> nat \<Rightarrow> name \<times> label_expression \<Rightarrow> expr set_item_kind node outcome" where
  "set_labels_action l r parts = (case parts of (target, labels) \<Rightarrow> node_at l r (SI_Labels target labels))"

definition set_property_action :: "nat \<Rightarrow> nat \<Rightarrow> expr \<times> expr \<Rightarrow> expr set_item_kind node outcome" where
  "set_property_action l r parts = (case parts of (target, val) \<Rightarrow>
     node_at l r (case node_kind (expr_node target) of
         EK_Variable variable \<Rightarrow> SI_ReplaceProperties variable val
       | _ \<Rightarrow> SI_Property target val))"

definition set_item_rule :: "ustr \<Rightarrow> expr rule \<Rightarrow> expr rule \<Rightarrow> expr set_item_kind node rule" where
  "set_item_rule source E X ts out \<longleftrightarrow>
     act (seq (after (name_rule source) P_PlusEqual) E) set_merge_action ts out \<or>
     act (seq (name_rule source) (prefixed_label_expression source)) set_labels_action ts out \<or>
     act (seq (after X P_Equal) E) set_property_action ts out"

definition set_body :: "ustr \<Rightarrow> expr rule \<Rightarrow> expr rule \<Rightarrow> expr set_clause rule" where
  "set_body source E X = yields (before P_Set (separated_by P_Comma (set_item_rule source E X))) SetClause"

definition set_action :: "nat \<Rightarrow> nat \<Rightarrow> expr set_clause \<Rightarrow> clause outcome" where
  "set_action l r clause = clause_at l r (CK_Set clause)"

definition set_rule :: "ustr \<Rightarrow> expr rule \<Rightarrow> expr rule \<Rightarrow> clause rule" where
  "set_rule source E X = act (set_body source E X) set_action"

definition merge_trigger_node :: "merge_trigger node rule" where
  "merge_trigger_node ts out \<longleftrightarrow>
     act (terminal P_Match) (\<lambda>l r _. node_at l r MT_Match) ts out \<or>
     act (terminal P_Create) (\<lambda>l r _. node_at l r MT_Create) ts out"

definition merge_action_action ::
  "nat \<Rightarrow> nat \<Rightarrow> merge_trigger node \<times> expr set_clause \<Rightarrow> expr merge_action outcome" where
  "merge_action_action l r parts = (case parts of (trigger, set_part) \<Rightarrow> struct_at l r (MergeAction trigger set_part))"

definition merge_action_rule :: "ustr \<Rightarrow> expr rule \<Rightarrow> expr rule \<Rightarrow> expr merge_action rule" where
  "merge_action_rule source E X =
     act (before P_On (seq merge_trigger_node (set_body source E X))) merge_action_action"

definition merge_clause_action ::
  "nat \<Rightarrow> nat \<Rightarrow> path_pattern pattern_part_kind node \<times> expr merge_action list \<Rightarrow> clause outcome" where
  "merge_clause_action l r parts = (case parts of (pattern, actions) \<Rightarrow>
     clause_at l r (CK_Merge (MergeClause pattern actions)))"

definition merge_rule :: "ustr \<Rightarrow> expr rule \<Rightarrow> path_pattern rule \<Rightarrow> expr rule \<Rightarrow> clause rule" where
  "merge_rule source E P X =
     act (before P_Merge (seq (pattern_part_rule source P) (many (merge_action_rule source E X)))) merge_clause_action"

definition remove_labels_action ::
  "nat \<Rightarrow> nat \<Rightarrow> name \<times> label_expression \<Rightarrow> expr remove_item_kind node outcome" where
  "remove_labels_action l r parts = (case parts of (target, labels) \<Rightarrow> node_at l r (RI_Labels target labels))"

definition remove_item_rule :: "ustr \<Rightarrow> expr rule \<Rightarrow> expr remove_item_kind node rule" where
  "remove_item_rule source X ts out \<longleftrightarrow>
     act (seq (name_rule source) (prefixed_label_expression source)) remove_labels_action ts out \<or>
     act X (\<lambda>l r expression. node_at l r (RI_Property expression)) ts out"

definition remove_action :: "nat \<Rightarrow> nat \<Rightarrow> expr remove_item_kind node list \<Rightarrow> clause outcome" where
  "remove_action l r items = clause_at l r (CK_Remove (RemoveClause items))"

definition remove_rule :: "ustr \<Rightarrow> expr rule \<Rightarrow> clause rule" where
  "remove_rule source X =
     act (before P_Remove (separated_by P_Comma (remove_item_rule source X))) remove_action"

definition delete_action :: "nat \<Rightarrow> nat \<Rightarrow> (nat \<times> nat) option \<times> expr list \<Rightarrow> clause outcome" where
  "delete_action l r parts = (case parts of (detach, expressions) \<Rightarrow>
     run_then (node_at l r (if detach \<noteq> None then DM_Detach else DM_Normal)) (\<lambda>mode.
     clause_at l r (CK_Delete (DeleteClause mode expressions))))"

definition delete_rule :: "expr rule \<Rightarrow> clause rule" where
  "delete_rule E =
     act (seq (optional (terminal P_Detach)) (before P_Delete (separated_by P_Comma E))) delete_action"

section \<open>Queries\<close>

definition non_result_clause :: "ustr \<Rightarrow> expr rule \<Rightarrow> path_pattern rule \<Rightarrow> expr rule \<Rightarrow> clause rule" where
  "non_result_clause source E P X ts out \<longleftrightarrow>
     match_rule source E P ts out \<or> unwind_rule source E ts out \<or> with_rule source E ts out \<or>
     create_rule source P ts out \<or> merge_rule source E P X ts out \<or> set_rule source E X ts out \<or>
     remove_rule source X ts out \<or> delete_rule E ts out \<or> call_rule source E ts out"

definition clause_root_rule :: "ustr \<Rightarrow> expr rule \<Rightarrow> path_pattern rule \<Rightarrow> expr rule \<Rightarrow> clause rule" where
  "clause_root_rule source E P X ts out \<longleftrightarrow> non_result_clause source E P X ts out \<or> return_rule source E ts out"

definition single_query_action ::
  "nat \<Rightarrow> nat \<Rightarrow> clause \<times> clause list \<times> clause option \<Rightarrow> single_query outcome" where
  "single_query_action l r parts = (case parts of (head, tail, result) \<Rightarrow>
     node_at l r (SingleQueryKind (head # tail @ (case result of None \<Rightarrow> [] | Some c \<Rightarrow> [c]))))"

definition result_query_action :: "nat \<Rightarrow> nat \<Rightarrow> clause \<Rightarrow> single_query outcome" where
  "result_query_action l r result = node_at l r (SingleQueryKind [result])"

definition single_query_rule :: "ustr \<Rightarrow> expr rule \<Rightarrow> path_pattern rule \<Rightarrow> expr rule \<Rightarrow> single_query rule" where
  "single_query_rule source E P X ts out \<longleftrightarrow>
     act (seq (non_result_clause source E P X) (seq (many (non_result_clause source E P X))
       (optional (return_rule source E)))) single_query_action ts out \<or>
     act (return_rule source E) result_query_action ts out"

definition union_quantifier_rule :: "union_operator rule" where
  "union_quantifier_rule ts out \<longleftrightarrow>
     yields (terminal P_All) (\<lambda>_. UO_All) ts out \<or> yields (terminal P_Distinct) (\<lambda>_. UO_Distinct) ts out"

definition union_tail_action ::
  "(nat \<times> nat \<times> union_operator option) \<times> single_query \<Rightarrow> (union_operator node \<times> single_query) outcome" where
  "union_tail_action parts = (case parts of ((l, r, quantifier), query) \<Rightarrow>
     run_then (node_at l r (case quantifier of None \<Rightarrow> UO_Default | Some q \<Rightarrow> q)) (\<lambda>operator.
     pass (operator, query)))"

definition union_tail ::
  "ustr \<Rightarrow> expr rule \<Rightarrow> path_pattern rule \<Rightarrow> expr rule \<Rightarrow> (union_operator node \<times> single_query) rule" where
  "union_tail source E P X =
     fold_rule (seq (with_extent (before P_Union (optional union_quantifier_rule))) (single_query_rule source E P X))
       union_tail_action"

definition query_action ::
  "nat \<Rightarrow> nat \<Rightarrow> single_query \<times> (union_operator node \<times> single_query) list \<Rightarrow> query outcome" where
  "query_action l r parts = (case parts of (head, tails) \<Rightarrow>
     node_at l r (QU_Regular (RegularQuery head (map (\<lambda>(operator, query). UnionBranch operator query) tails))))"

definition regular_query_body :: "ustr \<Rightarrow> expr rule \<Rightarrow> path_pattern rule \<Rightarrow> expr rule \<Rightarrow> query rule" where
  "regular_query_body source E P X =
     act (seq (single_query_rule source E P X) (many (union_tail source E P X))) query_action"

lemmas clause_rule_defs = projection_expression_item_def projection_item_def [abs_def] projection_items_def
  sort_item_rule_def order_by_clause_def page_clause_def [abs_def] limit_clause_def projection_body_def
  match_rule_def unwind_rule_def with_rule_def return_rule_def argument_list_def [abs_def]
  named_yield_clause_def call_rule_def standalone_call_rule_def create_rule_def set_item_rule_def [abs_def]
  set_body_def set_rule_def merge_action_rule_def merge_rule_def remove_item_rule_def [abs_def] remove_rule_def
  delete_rule_def non_result_clause_def [abs_def] clause_root_rule_def [abs_def] single_query_rule_def [abs_def]
  union_tail_def regular_query_body_def

end
