(* ===== verification/Cypher_Grammar.thy ===== *)
theory Cypher_Grammar
  imports Grammar_Clauses
begin

text \<open>
  The knot of \<open>grammar/cypher.lalrpop\<close>: its recursive nonterminals, as the least relations that the
  productions close, and the five start symbols.
\<close>

section \<open>The productions are monotone\<close>

lemma alt_mono:
  fixes R :: "'a rule"
  shows "R \<le> R' \<Longrightarrow> S \<le> S' \<Longrightarrow> (\<lambda>ts out. R ts out \<or> S ts out) \<le> (\<lambda>ts out. R' ts out \<or> S' ts out)"
  by (auto simp: le_fun_def)

lemmas rule_monos = alt_mono before_mono after_mono seq_mono optional_mono many_mono yields_mono some_of_mono
  separated_by_mono fold_rule_mono act_mono with_end_mono with_extent_mono

lemma or_expr_mono [mono]: "N \<le> N' \<Longrightarrow> or_expr N \<le> or_expr N'"
  unfolding expr_rule_defs by (intro rule_monos; assumption?; rule order_refl)

lemma not_body_mono [mono]:
  "U \<le> U' \<Longrightarrow> N \<le> N' \<Longrightarrow> not_body engine g source U N \<le> not_body engine g source U' N'"
  unfolding expr_rule_defs by (intro rule_monos; (assumption | rule order_refl))

lemma postfix_expr_mono [mono]:
  "E \<le> E' \<Longrightarrow> P \<le> P' \<Longrightarrow> Q \<le> Q' \<Longrightarrow> postfix_expr engine g source E P Q \<le> postfix_expr engine g source E' P' Q'"
  unfolding expr_rule_defs path_rule_defs by (intro rule_monos; (assumption | rule order_refl))

lemma unary_body_mono [mono]:
  "E \<le> E' \<Longrightarrow> P \<le> P' \<Longrightarrow> Q \<le> Q' \<Longrightarrow> U \<le> U' \<Longrightarrow>
     unary_body engine g source E P Q U \<le> unary_body engine g source E' P' Q' U'"
  unfolding unary_body_def [abs_def] by (intro rule_monos postfix_expr_mono; (assumption | rule order_refl))

lemma path_pattern_body_mono [mono]:
  "E \<le> E' \<Longrightarrow> P \<le> P' \<Longrightarrow> path_pattern_body engine g source E P \<le> path_pattern_body engine g source E' P'"
  unfolding path_rule_defs by (intro rule_monos; (assumption | rule order_refl))

lemma regular_query_body_mono [mono]:
  "E \<le> E' \<Longrightarrow> P \<le> P' \<Longrightarrow> X \<le> X' \<Longrightarrow> regular_query_body source E P X \<le> regular_query_body source E' P' X'"
  unfolding clause_rule_defs path_rule_defs by (intro rule_monos; (assumption | rule order_refl))

section \<open>The recursive nonterminals\<close>

inductive expr_rule :: "engine \<Rightarrow> grammar \<Rightarrow> ustr \<Rightarrow> expr rule"
  and not_rule :: "engine \<Rightarrow> grammar \<Rightarrow> ustr \<Rightarrow> expr rule"
  and unary_rule :: "engine \<Rightarrow> grammar \<Rightarrow> ustr \<Rightarrow> expr rule"
  and path_rule :: "engine \<Rightarrow> grammar \<Rightarrow> ustr \<Rightarrow> path_pattern rule"
  and query_rule :: "engine \<Rightarrow> grammar \<Rightarrow> ustr \<Rightarrow> query rule"
  for engine :: engine and g :: grammar and source :: ustr
where
  expr: "or_expr (not_rule engine g source) ts out \<Longrightarrow> expr_rule engine g source ts out"
| not: "not_body engine g source (unary_rule engine g source) (not_rule engine g source) ts out \<Longrightarrow>
    not_rule engine g source ts out"
| unary: "unary_body engine g source (expr_rule engine g source) (path_rule engine g source)
      (query_rule engine g source) (unary_rule engine g source) ts out \<Longrightarrow>
    unary_rule engine g source ts out"
| path: "path_pattern_body engine g source (expr_rule engine g source) (path_rule engine g source) ts out \<Longrightarrow>
    path_rule engine g source ts out"
| query: "regular_query_body source (expr_rule engine g source) (path_rule engine g source)
      (postfix_expr engine g source (expr_rule engine g source) (path_rule engine g source)
        (query_rule engine g source)) ts out \<Longrightarrow>
    query_rule engine g source ts out"

section \<open>The start symbols\<close>

definition postfix_rule :: "engine \<Rightarrow> grammar \<Rightarrow> ustr \<Rightarrow> expr rule" where
  "postfix_rule engine g source =
     postfix_expr engine g source (expr_rule engine g source) (path_rule engine g source) (query_rule engine g source)"

definition clause_start :: "engine \<Rightarrow> grammar \<Rightarrow> ustr \<Rightarrow> clause rule" where
  "clause_start engine g source =
     clause_root_rule source (expr_rule engine g source) (path_rule engine g source) (postfix_rule engine g source)"

definition standalone_call_start :: "engine \<Rightarrow> grammar \<Rightarrow> ustr \<Rightarrow> clause rule" where
  "standalone_call_start engine g source = standalone_call_rule source (expr_rule engine g source)"

definition pattern_start :: "engine \<Rightarrow> grammar \<Rightarrow> ustr \<Rightarrow> pattern rule" where
  "pattern_start engine g source = simple_path_pattern engine g source (expr_rule engine g source)"

definition expr_start :: "engine \<Rightarrow> grammar \<Rightarrow> ustr \<Rightarrow> expr rule" where
  "expr_start engine g source = expr_rule engine g source"

definition label_start :: "ustr \<Rightarrow> label_expression rule" where
  "label_start source = prefixed_label_expression source"

end
