(* ===== verification/Grammar_Safe.thy ===== *)
theory Grammar_Safe
  imports Cypher_Grammar Logos_Engine
begin

text \<open>
  No action of the grammar panics on tokens of the lexer, and what a start symbol returns covers its tokens:
  the clauses and queries, and the induction over the recursive nonterminals.
\<close>

section \<open>Clauses\<close>

lemmas clause_actions [safe_simps] = projection_expression_action_def sort_item_action_def order_by_action_def
  match_action_def unwind_action_def with_action_def return_action_def yield_item_action_def
  standalone_yield_action_def named_yield_action_def call_clause_action_def standalone_call_action_def
  create_action_def set_merge_action_def set_labels_action_def set_property_action_def set_action_def
  merge_action_action_def merge_clause_action_def remove_labels_action_def remove_action_def delete_action_def
  single_query_action_def result_query_action_def query_action_def

lemma safe_plain_nodes [safe_intros]:
  "safe source sort_direction_node (located node_span)" "safe source merge_trigger_node (located node_span)"
  unfolding sort_direction_node_def [abs_def] merge_trigger_node_def [abs_def]
  by (intro safe_alt; rule safe_act, (rule safe_intros)+, simp add: safe_simps)+

lemma safe_with_extent [safe_intros]:
  "safe source R w \<Longrightarrow> safe source (with_extent R)
     (\<lambda>ts x. fst x = tok_start (hd ts) \<and> fst (snd x) = tok_end (last ts) \<and> fst x \<le> fst (snd x))"
  unfolding with_extent_def by (erule safe_act) simp

context safe_expr
begin

lemma safe_projection_body [safe_intros]: "safe source (projection_body source E) (\<lambda>ts x. True)"
proof -
  have item: "safe source (projection_expression_item source E) (located node_span)"
    unfolding projection_expression_item_def
    by (rule safe_act, (rule safe_intros)+, simp add: safe_simps split: prod.splits)
  have first: "safe source (projection_item source E) (located node_span)"
    unfolding projection_item_def [abs_def]
    by (intro safe_alt item; rule safe_act, (rule safe_intros)+, simp add: safe_simps)
  have items: "safe source (projection_items source E) (\<lambda>ts x. True)"
    unfolding projection_items_def by (rule safe_weaken, (rule safe_intros first item)+, simp)
  have sort: "safe source (sort_item_rule E) (located so_span)"
    unfolding sort_item_rule_def by (rule safe_act, (rule safe_intros)+, simp add: safe_simps split: prod.splits)
  have order: "safe source (order_by_clause E) (located ob_span)"
    unfolding order_by_clause_def separated_by_def
    by (rule safe_act, (rule safe_intros sort)+, simp add: safe_simps)
  have page: "safe source (page_clause E) (\<lambda>ts x. True)"
    unfolding page_clause_def [abs_def] by (intro safe_alt; rule safe_weaken, (rule safe_intros)+, simp)
  have limit: "safe source (limit_clause E) (\<lambda>ts x. True)"
    unfolding limit_clause_def by (rule safe_weaken, (rule safe_intros)+, simp)
  show ?thesis
    unfolding projection_body_def
    by (rule safe_act, (rule safe_intros items order page limit)+,
        simp add: safe_simps projection_body_action_def split: prod.splits)
qed

lemma safe_projections [safe_intros]:
  "safe source (with_rule source E) (located clause_span)"
  "safe source (return_rule source E) (located clause_span)"
  "safe source (unwind_rule source E) (located clause_span)"
  "safe source (delete_rule E) (located clause_span)"
  unfolding with_rule_def return_rule_def unwind_rule_def delete_rule_def separated_by_def
  by (rule safe_act, (rule safe_intros)+, simp add: safe_simps split: prod.splits)+

lemma safe_argument_list [safe_intros]: "safe source (argument_list E) (\<lambda>ts x. True)"
  unfolding argument_list_def [abs_def] separated_by_def
  by (intro safe_alt; rule safe_weaken, (rule safe_intros)+, simp)

lemma safe_yield_item [safe_intros]: "safe source (yield_item source) (located node_span)"
  unfolding yield_item_def by (rule safe_act, (rule safe_intros)+, simp add: safe_simps split: prod.splits)

lemma safe_yield_clauses [safe_intros]:
  "safe source (standalone_yield_clause source) (located yc_span)"
  "safe source (named_yield_clause source E) (located yc_span)"
proof -
  show "safe source (standalone_yield_clause source) (located yc_span)"
    unfolding standalone_yield_clause_def [abs_def] separated_by_def
    by (intro safe_alt; rule safe_act, (rule safe_intros)+, simp add: safe_simps)
  show "safe source (named_yield_clause source E) (located yc_span)"
    unfolding named_yield_clause_def separated_by_def
    by (rule safe_act, (rule safe_intros)+, simp add: safe_simps split: prod.splits)
qed

lemma safe_call_rules [safe_intros]:
  "safe source (call_rule source E) (located clause_span)"
  "safe source (standalone_call_rule source E) (located clause_span)"
  unfolding call_rule_def standalone_call_rule_def
  by (rule safe_act, (rule safe_intros)+, simp add: safe_simps split: prod.splits)+

end

locale safe_clauses = safe_paths source E engine g P
  for source :: ustr and E :: "expr rule" and engine :: engine and g :: grammar and P :: "path_pattern rule" +
  fixes X :: "expr rule"
  assumes safe_X [safe_intros]: "safe source X (located expr_span)"
begin

lemma safe_set_body [safe_intros]: "safe source (set_body source E X) (\<lambda>ts x. True)"
proof -
  have item: "safe source (set_item_rule source E X) (located node_span)"
    unfolding set_item_rule_def [abs_def]
    by (intro safe_alt; rule safe_act, (rule safe_intros)+, simp add: safe_simps split: prod.splits)
  show ?thesis
    unfolding set_body_def separated_by_def by (rule safe_weaken, (rule safe_intros item)+, simp)
qed

lemma safe_updates [safe_intros]:
  "safe source (match_rule source E P) (located clause_span)"
  "safe source (create_rule source P) (located clause_span)"
  "safe source (set_rule source E X) (located clause_span)"
  unfolding match_rule_def create_rule_def set_rule_def
  by (rule safe_act, (rule safe_intros)+, simp add: safe_simps split: prod.splits)+

lemma safe_merge [safe_intros]: "safe source (merge_rule source E P X) (located clause_span)"
proof -
  have merge: "safe source (merge_action_rule source E X) (located ma_span)"
    unfolding merge_action_rule_def
    by (rule safe_act, (rule safe_intros)+, simp add: safe_simps split: prod.splits)
  show ?thesis
    unfolding merge_rule_def by (rule safe_act, (rule safe_intros merge)+, simp add: safe_simps split: prod.splits)
qed

lemma safe_remove [safe_intros]: "safe source (remove_rule source X) (located clause_span)"
proof -
  have item: "safe source (remove_item_rule source X) (located node_span)"
    unfolding remove_item_rule_def [abs_def]
    by (intro safe_alt; rule safe_act, (rule safe_intros)+, simp add: safe_simps split: prod.splits)
  show ?thesis
    unfolding remove_rule_def separated_by_def by (rule safe_act, (rule safe_intros item)+, simp add: safe_simps)
qed

lemma safe_clause_roots [safe_intros]:
  "safe source (non_result_clause source E P X) (located clause_span)"
  "safe source (clause_root_rule source E P X) (located clause_span)"
proof -
  show "safe source (non_result_clause source E P X) (located clause_span)"
    unfolding non_result_clause_def [abs_def] by (intro safe_alt) (rule safe_intros)+
  then show "safe source (clause_root_rule source E P X) (located clause_span)"
    unfolding clause_root_rule_def [abs_def] by (intro safe_alt safe_projections)
qed

lemma safe_single_query [safe_intros]: "safe source (single_query_rule source E P X) (located node_span)"
  unfolding single_query_rule_def [abs_def]
  by (intro safe_alt; rule safe_act, (rule safe_intros)+, simp add: safe_simps split: prod.splits)

lemma safe_regular_query_body: "safe source (regular_query_body source E P X) (located node_span)"
proof -
  have "safe source union_quantifier_rule (\<lambda>ts x. True)"
    unfolding union_quantifier_rule_def [abs_def]
    by (intro safe_alt; rule safe_weaken, (rule safe_intros)+, simp)
  note quantifier = this
  have tail: "safe source (union_tail source E P X) (\<lambda>ts x. True)"
    unfolding union_tail_def
    by (rule safe_fold_rule, (rule safe_intros quantifier)+)
      (auto simp: union_tail_action_def at_simps split: prod.splits)
  show ?thesis
    unfolding regular_query_body_def by (rule safe_act, (rule safe_intros tail)+, simp add: safe_simps split: prod.splits)
qed

end

section \<open>All nonterminals\<close>

text \<open>The hypotheses of the rule induction, as the locales want them.\<close>

definition returns_on :: "ustr \<Rightarrow> ('a \<Rightarrow> span) \<Rightarrow> 'a rule \<Rightarrow> 'a rule" where
  "returns_on source sp R ts out \<longleftrightarrow> R ts out \<and> (good_tokens source ts \<longrightarrow> returning (located sp ts) out)"

lemma returns_on_eq:
  "(\<lambda>ts out. R ts out \<and> (good_tokens source ts \<longrightarrow> returning (located sp ts) out)) = returns_on source sp R"
  by (simp add: returns_on_def fun_eq_iff)

lemma safe_returns_on [safe_intros]: "safe source (returns_on source sp R) (located sp)"
  by (rule safeI) (simp add: returns_on_def)

lemma safe_no_rule [safe_intros]: "safe source (\<lambda>ts out. False) w"
  by (rule safeI) simp

lemma safe_case:
  "safe source B w \<Longrightarrow> B ts out \<Longrightarrow> good_tokens source ts \<longrightarrow> returning (w ts) out"
  by (simp add: safe_def)

lemmas safe_locales = safe_expr.intro safe_paths.intro safe_paths_axioms.intro safe_rules.intro
  safe_rules_axioms.intro safe_clauses.intro safe_clauses_axioms.intro

lemma rules_return:
  assumes engine: "raw_engine engine"
  shows "expr_rule engine g source ts out \<Longrightarrow> good_tokens source ts \<longrightarrow> returning (located expr_span ts) out"
    and "not_rule engine g source ts1 out1 \<Longrightarrow> good_tokens source ts1 \<longrightarrow> returning (located expr_span ts1) out1"
    and "unary_rule engine g source ts2 out2 \<Longrightarrow> good_tokens source ts2 \<longrightarrow> returning (located expr_span ts2) out2"
    and "path_rule engine g source ts3 out3 \<Longrightarrow> good_tokens source ts3 \<longrightarrow> returning (located path_span ts3) out3"
    and "query_rule engine g source ts4 out4 \<Longrightarrow> good_tokens source ts4 \<longrightarrow> returning (located node_span ts4) out4"
proof (induction rule: expr_rule_not_rule_unary_rule_path_rule_query_rule.inducts)
  case (expr ts out)
  have "safe_rules source (returns_on source expr_span (not_rule engine g source)) engine (\<lambda>ts out. False)
      (\<lambda>ts out. False) (returns_on source expr_span (not_rule engine g source))
      (returns_on source expr_span (not_rule engine g source))"
    by (intro safe_locales safe_returns_on safe_no_rule engine)
  from safe_case [OF safe_rules.safe_or_expr [OF this] expr [unfolded returns_on_eq]] show ?case .
next
  case (not ts out)
  let ?N = "returns_on source expr_span (not_rule engine g source)"
  let ?U = "returns_on source expr_span (unary_rule engine g source)"
  have "safe_rules source ?N engine (\<lambda>ts out. False) (\<lambda>ts out. False) ?U ?N"
    by (intro safe_locales safe_returns_on safe_no_rule engine)
  from safe_case [OF safe_rules.safe_not_body [OF this] not [unfolded returns_on_eq]] show ?case .
next
  case (unary ts out)
  let ?E = "returns_on source expr_span (expr_rule engine g source)"
  let ?P = "returns_on source path_span (path_rule engine g source)"
  let ?Q = "returns_on source node_span (query_rule engine g source)"
  let ?U = "returns_on source expr_span (unary_rule engine g source)"
  have "safe_rules source ?E engine ?P ?Q ?U ?U"
    by (intro safe_locales safe_returns_on safe_no_rule engine)
  from safe_case [OF safe_rules.safe_unary_body [OF this] unary [unfolded returns_on_eq]] show ?case .
next
  case (path ts out)
  let ?E = "returns_on source expr_span (expr_rule engine g source)"
  let ?P = "returns_on source path_span (path_rule engine g source)"
  have "safe_paths source ?E engine ?P"
    by (intro safe_locales safe_returns_on safe_no_rule engine)
  from safe_case [OF safe_paths.safe_path_pattern_body [OF this] path [unfolded returns_on_eq]] show ?case .
next
  case (query ts out)
  let ?E = "returns_on source expr_span (expr_rule engine g source)"
  let ?P = "returns_on source path_span (path_rule engine g source)"
  let ?Q = "returns_on source node_span (query_rule engine g source)"
  have rules: "safe_rules source ?E engine ?P ?Q ?E ?E"
    by (intro safe_locales safe_returns_on safe_no_rule engine)
  have "safe_clauses source ?E engine ?P (postfix_expr engine g source ?E ?P ?Q)"
    by (intro safe_locales safe_returns_on engine safe_rules.safe_postfix_expr [OF rules])
  from safe_case [OF safe_clauses.safe_regular_query_body [OF this] query [unfolded returns_on_eq]] show ?case .
qed

text \<open>The contracts hold for the grammar's own nonterminals.\<close>

lemma safe_nonterminals:
  assumes "raw_engine engine"
  shows "safe source (expr_rule engine g source) (located expr_span)"
    and "safe source (not_rule engine g source) (located expr_span)"
    and "safe source (unary_rule engine g source) (located expr_span)"
    and "safe source (path_rule engine g source) (located path_span)"
    and "safe source (query_rule engine g source) (located node_span)"
  using rules_return [OF assms] by (simp_all add: safe_def)

interpretation nonterminals: safe_rules source "expr_rule (logos_next U) g source" "logos_next U" g "path_rule (logos_next U) g source"
  "query_rule (logos_next U) g source" "unary_rule (logos_next U) g source" "not_rule (logos_next U) g source"
  for source g U
  by (intro safe_locales safe_nonterminals logos.raw_engine_axioms)

lemma safe_postfix_rule: "safe source (postfix_rule (logos_next U) g source) (located expr_span)"
  unfolding postfix_rule_def by (rule nonterminals.safe_postfix_expr)

interpretation clause_rules: safe_clauses source "expr_rule (logos_next U) g source" "logos_next U" g
  "path_rule (logos_next U) g source" "postfix_rule (logos_next U) g source"
  for source g U
  by (intro safe_locales safe_nonterminals safe_postfix_rule logos.raw_engine_axioms)

text \<open>Every start symbol.\<close>

lemma safe_start_symbols:
  assumes engine: "raw_engine engine"
  shows "safe source (clause_start engine g source) (located clause_span)"
    and "safe source (standalone_call_start engine g source) (located clause_span)"
    and "safe source (pattern_start engine g source) (located pattern_span)"
    and "safe source (expr_start engine g source) (located expr_span)"
    and "safe source (label_start source) (\<lambda>ts x. ts \<noteq> [])"
proof -
  note nonterminals = safe_nonterminals [OF engine]
  have expr: "safe_expr source (expr_rule engine g source)"
    by (intro safe_locales nonterminals)
  have paths: "safe_paths source (expr_rule engine g source) engine (path_rule engine g source)"
    by (intro safe_locales nonterminals engine)
  have rules: "safe_rules source (expr_rule engine g source) engine (path_rule engine g source)
      (query_rule engine g source) (unary_rule engine g source) (not_rule engine g source)"
    by (intro safe_locales nonterminals engine)
  have clauses: "safe_clauses source (expr_rule engine g source) engine (path_rule engine g source)
      (postfix_rule engine g source)"
    unfolding postfix_rule_def
    by (intro safe_locales nonterminals engine safe_rules.safe_postfix_expr [OF rules])
  show "safe source (clause_start engine g source) (located clause_span)"
    unfolding clause_start_def by (rule safe_clauses.safe_clause_roots(2) [OF clauses])
  show "safe source (standalone_call_start engine g source) (located clause_span)"
    unfolding standalone_call_start_def by (rule safe_expr.safe_call_rules(2) [OF expr])
  show "safe source (pattern_start engine g source) (located pattern_span)"
    unfolding pattern_start_def by (rule safe_paths.safe_simple_path_pattern [OF paths])
  show "safe source (expr_start engine g source) (located expr_span)"
    unfolding expr_start_def by (rule nonterminals)
  show "safe source (label_start source) (\<lambda>ts x. ts \<noteq> [])"
    unfolding label_start_def by (rule safe_prefixed_label_expression)
qed

end
