(* ===== verification/Grammar_Lexed.thy ===== *)
theory Grammar_Lexed
  imports Grammar_Safe Entry
begin

text \<open>
  The tokens that the lexer and the cut into parser tokens hand to the generated parsers are good
  tokens, for a whole source, for a nested fragment of it, and after keywords were reread as names.
\<close>

section \<open>A parameter starts with a dollar\<close>

lemma ptok_from_parameter: "ptok_from k = Some P_Parameter \<Longrightarrow> k = T_Parameter"
proof (cases k)
  case (T_Keyword x)
  assume "ptok_from k = Some P_Parameter"
  with T_Keyword keyword_token_candidate [of x] show ?thesis
    by (simp add: is_contextual_name_candidate_def)
qed simp_all

lemma classify_parameter:
  assumes "classify (take n full) full index p = Some (P_Parameter, e)"
  shows "\<exists>x. slice_get full index = Some x \<and> token_kind x \<in> {T_Dollar, T_Parameter}"
proof -
  have "escaped_parameter_end (take n full) index = Some e' \<Longrightarrow>
      \<exists>x. slice_get full index = Some x \<and> token_kind x = T_Dollar" for e'
    by (auto simp: escaped_parameter_end_def slice_get_def split: if_splits bind_splits)
  with assms show ?thesis
    by (auto simp: classify_def fused_pattern_def kind_at_def slice_get_def
        split: option.splits if_splits bind_splits dest: ptok_from_parameter)
qed

lemma tokenize_parameter:
  assumes "tokenize_from scan_of patterns base full index = Some out" and "\<And>i. \<exists>n. scan_of i = take n full"
    and "t \<in> set out" and "tok_kind t = P_Parameter"
  shows "\<exists>i e. i \<le> e \<and> e < length full \<and> token_kind (full ! i) \<in> {T_Dollar, T_Parameter} \<and>
    tok_start t = base + span_start (token_span (full ! i)) \<and> tok_end t = base + span_end (token_span (full ! e))"
  using assms(1,3)
proof (induction "length full - index" arbitrary: index out rule: less_induct)
  case less
  from less.prems obtain k e last_token rest where
    index: "index < length full" and c: "classify (scan_of index) full index (patterns index) = Some (k, e)"
    and last_token: "slice_get full e = Some last_token"
    and rest: "tokenize_from scan_of patterns base full (e + 1) = Some rest"
    and out: "out = (base + span_start (token_span (full ! index)), k, base + span_end (token_span last_token)) # rest"
    by (subst (asm) (1) tokenize_from.simps) (auto split: if_splits option.splits)
  from classify_bound [OF c] have "index \<le> e" by simp
  from less.prems(2) out consider "t = (base + span_start (token_span (full ! index)), k, base + span_end (token_span last_token))"
    | "t \<in> set rest" by auto
  then show ?case
  proof cases
    case 1
    with assms(4) have "k = P_Parameter" by simp
    obtain n where "scan_of index = take n full" using assms(2) by blast
    with c \<open>k = P_Parameter\<close> have "classify (take n full) full index (patterns index) = Some (P_Parameter, e)"
      by simp
    from classify_parameter [OF this] obtain x where
      "slice_get full index = Some x" "token_kind x \<in> {T_Dollar, T_Parameter}" by blast
    with 1 last_token \<open>index \<le> e\<close> show ?thesis
      by (intro exI [of _ index] exI [of _ e]) (auto simp: slice_get_def split: if_splits)
  next
    case 2
    have "length full - (e + 1) < length full - index" using index \<open>index \<le> e\<close> by linarith
    from less.hyps [OF this rest 2] show ?thesis .
  qed
qed

text \<open>The automaton reports \<open>$\<close> and parameters only where a dollar is.\<close>

locale dollar_engine = raw_engine +
  assumes dollar: "next_match s = (Some (Pat_Plain raw), n) \<Longrightarrow> raw \<in> {RT_Dollar, RT_Parameter} \<Longrightarrow>
    s \<noteq> [] \<and> hd s = 36"
begin

lemma lexer_next_dollar:
  assumes "lexer_next next_match s = Some (Inr raw, word, rest)" and "raw \<in> {RT_Dollar, RT_Parameter}"
  shows "s \<noteq> [] \<and> hd s = 36"
proof -
  obtain found n where m: "next_match s = (found, n)" by (cases "next_match s")
  with assms obtain pattern where pattern: "found = Some pattern" by (cases found) (auto simp: lexer_next_def)
  with m assms have "pattern = Pat_Plain raw"
    by (cases pattern) (auto simp: lexer_next_def split: option.splits prod.splits)
  with m pattern assms(2) dollar show ?thesis by simp
qed

end

definition dollar_at :: "ustr \<Rightarrow> token \<Rightarrow> bool" where
  "dollar_at source t = (token_kind t \<in> {T_Dollar, T_Parameter} \<longrightarrow>
     is_char_boundary source (span_start (token_span t) + 1))"

context dollar_engine
begin

lemma lex_from_dollars:
  "lex_from next_match (byte_len pre) source tokens diagnostics = Some out \<Longrightarrow>
   \<forall>t\<in>set tokens. dollar_at (pre @ source) t \<Longrightarrow> \<forall>t\<in>set (lex_tokens out). dollar_at (pre @ source) t"
proof (induction "length source" arbitrary: pre source tokens diagnostics rule: less_induct)
  case less
  show ?case
  proof (cases "source = []")
    case True
    with less.prems show ?thesis by (simp add: lex_from.simps [of _ _ "[]"]) auto
  next
    case False
    obtain raw word rest where nx: "lexer_next next_match source = Some (raw, word, rest)"
      "source = word @ rest" "word \<noteq> []"
      using lexer_next_total [OF False] by blast
    define k where "k = (case raw of Inr r \<Rightarrow> raw_token_kind r word | Inl _ \<Rightarrow> T_Invalid)"
    define t where "t = \<lparr>token_kind = k, token_span = mk_span (byte_len pre) (byte_len (pre @ word))\<rparr>"
    have "dollar_at (pre @ source) t"
    proof -
      have "raw \<in> {Inr RT_Dollar, Inr RT_Parameter}" if "k \<in> {T_Dollar, T_Parameter}"
      proof (cases raw)
        case (Inr r)
        with that show ?thesis by (cases r) (auto simp: k_def split: option.splits)
      qed (use that in \<open>simp add: k_def\<close>)
      with nx lexer_next_dollar [of source _ word rest] have "k \<in> {T_Dollar, T_Parameter} \<Longrightarrow> hd word = 36"
        by (cases word) auto
      moreover have "is_char_boundary (pre @ source) (byte_len pre + 1)" if "hd word = 36"
      proof -
        from that nx obtain w where "pre @ source = (pre @ [36]) @ w @ rest" by (cases word) auto
        moreover have "byte_len (pre @ [36]) = byte_len pre + 1" by (simp add: byte_len_def encode_utf8_def)
        ultimately show ?thesis by (metis is_char_boundary_append)
      qed
      ultimately show ?thesis by (simp add: dollar_at_def t_def)
    qed
    moreover have "\<exists>d. lex_from next_match (byte_len pre) source tokens diagnostics =
        lex_from next_match (byte_len (pre @ word)) rest (tokens @ [t]) (diagnostics @ d)"
    proof (cases raw)
      case (Inl e)
      with nx False show ?thesis by (subst lex_from.simps) (auto simp: t_def k_def)
    next
      case (Inr r)
      with nx False show ?thesis
        by (intro exI [of _ "[]"], subst lex_from.simps) (auto simp: t_def k_def)
    qed
    then obtain d where "lex_from next_match (byte_len pre) source tokens diagnostics =
        lex_from next_match (byte_len (pre @ word)) rest (tokens @ [t]) (diagnostics @ d)" ..
    moreover have "length rest < length source" using nx by (cases word) auto
    ultimately show ?thesis
      using less.hyps [of rest "pre @ word" "tokens @ [t]" "diagnostics @ d"] less.prems nx(2) by auto
  qed
qed

end

interpretation logos_dollar: dollar_engine "logos_next U" for U
proof
  fix s raw n
  assume "logos_next U s = (Some (Pat_Plain raw), n)" and raw: "raw \<in> {RT_Dollar, RT_Parameter}"
  then have "best_match (raw_patterns U) s = Some (Pat_Plain raw, n)"
    by (simp add: logos_next_def split: option.splits prod.splits)
  from best_match_Some [OF this] longest_Some obtain r where
    "(Pat_Plain raw, r) \<in> set (raw_patterns U)" "matches r (take n s)" by blast
  with raw show "s \<noteq> [] \<and> hd s = 36"
    by (cases s; cases n) (auto simp: raw_patterns_def elim!: matches_elims)
qed

section \<open>Parser tokens of a lexed text\<close>

lemma tiles_nonempty: "tiles a ss b \<Longrightarrow> s \<in> set ss \<Longrightarrow> span_start s < span_end s"
  by (induction ss arbitrary: a) auto

text \<open>The significant tokens of a piece of the source that was lexed by itself, seen in the source.\<close>

lemma lexed_piece:
  assumes engine: "dollar_engine engine" and piece: "str_get source start stop = Some fragment"
    and lexed: "lex engine fragment = Some lexed"
  shows "sorted_wrt (\<lambda>s t. span_end (token_span s) \<le> span_start (token_span t)) (significant (lex_tokens lexed))"
    and "t \<in> set (significant (lex_tokens lexed)) \<Longrightarrow>
      span_start (token_span t) < span_end (token_span t) \<and>
      is_char_boundary source (start + span_start (token_span t)) \<and>
      is_char_boundary source (start + span_end (token_span t)) \<and>
      (token_kind t \<in> {T_Dollar, T_Parameter} \<longrightarrow>
         is_char_boundary source (start + span_start (token_span t) + 1))"
proof -
  from engine have raw: "raw_engine engine" by (simp add: dollar_engine_def)
  from lex_result [OF raw, of fragment] lexed have
    tiling: "tiles 0 (map token_span (lex_tokens lexed)) (byte_len fragment)" by auto
  then show "sorted_wrt (\<lambda>s t. span_end (token_span s) \<le> span_start (token_span t)) (significant (lex_tokens lexed))"
    using tiles_sorted by (fastforce simp: sorted_wrt_map significant_def sorted_wrt_filter)
  assume "t \<in> set (significant (lex_tokens lexed))"
  then have t: "t \<in> set (lex_tokens lexed)" by (simp add: significant_def)
  with dollar_engine.lex_from_dollars [OF engine, of "[]" fragment "[]" "[]" lexed] lexed
  have "dollar_at fragment t" by (simp add: lex_def)
  with t lex_boundaries [OF raw lexed t] tiles_nonempty [OF tiling, of "token_span t"]
    str_get_boundary [OF piece] str_get_boundary [OF piece, of "span_start (token_span t) + 1"]
  show "span_start (token_span t) < span_end (token_span t) \<and>
      is_char_boundary source (start + span_start (token_span t)) \<and>
      is_char_boundary source (start + span_end (token_span t)) \<and>
      (token_kind t \<in> {T_Dollar, T_Parameter} \<longrightarrow>
         is_char_boundary source (start + span_start (token_span t) + 1))"
    by (auto simp: dollar_at_def)
qed

lemma tokenize_good:
  assumes engine: "dollar_engine engine" and piece: "str_get source start stop = Some fragment"
    and lexed: "lex engine fragment = Some lexed" and scan: "\<And>i. \<exists>n. scan_of i = take n (significant (lex_tokens lexed))"
  shows "\<exists>ts. tokenize_from scan_of patterns start (significant (lex_tokens lexed)) 0 = Some ts \<and> good_tokens source ts"
proof -
  let ?full = "significant (lex_tokens lexed)"
  note sorted = lexed_piece(1) [OF engine piece lexed] and token = lexed_piece(2) [OF engine piece lexed]
  have "length (scan_of i) \<le> length ?full" for i using scan [of i] by auto
  then have "\<exists>ts runs. tokenize_from scan_of patterns start ?full 0 = Some ts \<and> concat runs = drop 0 ?full \<and>
      list_all2 (run_of start) runs ts"
    by (rule tokenize_from_cover [OF _ significant_not_trivia])
  then obtain ts runs where
    ts: "tokenize_from scan_of patterns start ?full 0 = Some ts" and runs: "concat runs = ?full"
      "list_all2 (run_of start) runs ts" by (auto simp only: drop_0)
  from run_of_ordered [OF runs(2)] runs(1) sorted token have ordered: "ordered_tokens ts \<and>
    (\<forall>o'\<in>set ts. \<exists>a\<in>set ?full. \<exists>b\<in>set ?full.
       tok_start o' = start + span_start (token_span a) \<and> tok_end o' = start + span_end (token_span b))"
    by (simp add: wf_span_def order_less_imp_le)
  have "good_token source t" if t: "t \<in> set ts" for t
  proof -
    from ordered t obtain a b where "a \<in> set ?full" "b \<in> set ?full"
      "tok_start t = start + span_start (token_span a)" "tok_end t = start + span_end (token_span b)" by blast
    moreover from ordered t have "tok_start t \<le> tok_end t" by (simp add: ordered_tokens_def)
    ultimately have "spanned_ok source t" using token by (simp add: spanned_ok_def)
    moreover have "tok_start t < tok_end t \<and> is_char_boundary source (tok_start t + 1)"
      if kind: "tok_kind t = P_Parameter"
    proof -
      from tokenize_parameter [OF ts scan t kind] obtain i e where
        ie: "i \<le> e" "e < length ?full" "token_kind (?full ! i) \<in> {T_Dollar, T_Parameter}"
          "tok_start t = start + span_start (token_span (?full ! i))"
          "tok_end t = start + span_end (token_span (?full ! e))" by blast
      from ie have members: "?full ! i \<in> set ?full" "?full ! e \<in> set ?full" by simp_all
      have "span_start (token_span (?full ! i)) < span_end (token_span (?full ! e))"
      proof (cases "i = e")
        case False
        with ie sorted have "span_end (token_span (?full ! i)) \<le> span_start (token_span (?full ! e))"
          by (simp add: sorted_wrt_iff_nth_less)
        with token [OF members(1)] token [OF members(2)] show ?thesis by linarith
      qed (use token members in simp)
      with ie token [OF members(1)] show ?thesis by auto
    qed
    ultimately show ?thesis by (simp add: good_token_def)
  qed
  with ts ordered show ?thesis by (auto simp: good_tokens_def list_all_iff)
qed

lemma parser_tokens_good:
  assumes "dollar_engine engine" and "lex engine source = Some lexed"
  shows "\<exists>ts. parser_tokens (lex_tokens lexed) = Some ts \<and> good_tokens source ts"
proof -
  have "str_get source 0 (byte_len source) = Some source" by (auto simp: str_get_Some_iff)
  from tokenize_good [OF assms(1) this assms(2)] show ?thesis
    unfolding parser_tokens_def Let_def by (metis take_all order_refl)
qed

lemma nested_parser_tokens_good:
  assumes "dollar_engine engine" and "str_get source start stop = Some fragment"
    and "lex engine fragment = Some lexed" and "nested_parser_tokens (lex_tokens lexed) start reserved = Some ts"
  shows "good_tokens source ts"
proof -
  let ?full = "significant (lex_tokens lexed)"
  have good: "good_tokens source ts"
    if run: "tokenize_from scan_of p start ?full 0 = Some ts" and scan: "\<And>i. \<exists>n. scan_of i = take n ?full" for scan_of p
  proof -
    from tokenize_good [OF assms(1-3) scan, of "\<lambda>i. i" p] run show ?thesis by simp
  qed
  have full: "\<exists>n. ?full = take n ?full" by (metis take_all order_refl)
  show ?thesis
  proof (cases reserved)
    case None
    with assms(4) have "tokenize_from (\<lambda>_. ?full) (\<lambda>index. index \<noteq> 0) start ?full 0 = Some ts"
      by (simp add: nested_parser_tokens_def Let_def)
    from good [OF this full] show ?thesis .
  next
    case (Some raw)
    let ?b = "length (significant (take raw (lex_tokens lexed)))"
    from Some assms(4) have "tokenize_from (\<lambda>index. if index < ?b then take ?b ?full else ?full)
        (\<lambda>index. index \<noteq> 0) start ?full 0 = Some ts"
      by (simp add: nested_parser_tokens_def Let_def split: if_splits)
    moreover have "\<exists>n. (if index < ?b then take ?b ?full else ?full) = take n ?full" for index
      using full by (cases "index < ?b") auto
    ultimately show ?thesis by (rule good)
  qed
qed

text \<open>Rereading keywords as names keeps the tokens good.\<close>

lemma rereading_good:
  assumes "rereading ts cs" and "good_tokens source ts"
  shows "good_tokens source cs"
proof -
  from assms(2) rereading_ordered [OF assms(1)] have "ordered_tokens cs" by (simp add: good_tokens_def)
  moreover from assms have "list_all (good_token source) cs"
    by (auto simp: rereading_iff rereads_def good_tokens_def list_all_length good_token_def spanned_ok_def)
  ultimately show ?thesis by (simp add: good_tokens_def)
qed

lemma slice_good: "good_tokens source ts \<Longrightarrow> good_tokens source (slice ts a b)"
  unfolding slice_def using good_tokens_append by (metis append_take_drop_id)

end
