(* ===== verification/Grammar_Input.thy ===== *)
theory Grammar_Input
  imports Grammar_Lexed Return_Sample
begin

text \<open>
  What reaches the generated parsers: pieces of the parser tokens of the source, of a fragment of it
  that was lexed again, or of a label expression, after keywords were reread as names. On all of them
  the semantic actions return.
\<close>

section \<open>The inputs of the generated parsers\<close>

definition label_tokens :: "nat \<Rightarrow> token list \<Rightarrow> spanned list panics" where
  "label_tokens start tokens = those (map (\<lambda>t. map_option (\<lambda>k.
     (start + span_start (token_span t), k, start + span_end (token_span t)))
     (ptok_from (token_kind t))) (significant tokens))"

inductive parser_input :: "engine \<Rightarrow> ustr \<Rightarrow> spanned list \<Rightarrow> bool" for engine :: engine and source :: ustr where
  whole: "lex engine source = Some lexed \<Longrightarrow> parser_tokens (lex_tokens lexed) = Some ts \<Longrightarrow>
    parser_input engine source ts"
| nested: "str_get source start stop = Some fragment \<Longrightarrow> lex engine fragment = Some lexed \<Longrightarrow>
    nested_parser_tokens (lex_tokens lexed) start reserved = Some ts \<Longrightarrow> parser_input engine source ts"
| labels: "str_get source start stop = Some fragment \<Longrightarrow> lex engine fragment = Some lexed \<Longrightarrow>
    label_tokens start (lex_tokens lexed) = Some ts \<Longrightarrow>
    parser_input engine source (normalize_label_tokens legacy 0 [] ts)"
| reread: "parser_input engine source ts \<Longrightarrow> rereading ts cs \<Longrightarrow> parser_input engine source cs"
| piece: "parser_input engine source ts \<Longrightarrow> parser_input engine source (slice ts a b)"

section \<open>They are good tokens\<close>

lemma those_map_all2: "those (map f xs) = Some ys \<Longrightarrow> list_all2 (\<lambda>x y. f x = Some y) xs ys"
  by (induction xs arbitrary: ys) (auto split: option.splits)

text \<open>A parser token for every lexer token, of the same extent.\<close>

definition stands_for :: "nat \<Rightarrow> token \<Rightarrow> spanned \<Rightarrow> bool" where
  "stands_for start t s = (tok_start s = start + span_start (token_span t) \<and>
     tok_end s = start + span_end (token_span t) \<and> ptok_from (token_kind t) = Some (tok_kind s))"

lemma label_tokens_good:
  assumes engine: "dollar_engine engine" and piece: "str_get source start stop = Some fragment"
    and lexed: "lex engine fragment = Some lexed" and ts: "label_tokens start (lex_tokens lexed) = Some ts"
  shows "good_tokens source ts"
proof -
  let ?full = "significant (lex_tokens lexed)"
  note sorted = lexed_piece(1) [OF engine piece lexed] and token = lexed_piece(2) [OF engine piece lexed]
  have all: "list_all2 (stands_for start) ?full ts"
    by (rule list.rel_mono_strong [OF those_map_all2 [OF ts [unfolded label_tokens_def]]])
      (auto simp: stands_for_def)
  then have nth: "length ts = length ?full" "\<And>i. i < length ts \<Longrightarrow> stands_for start (?full ! i) (ts ! i)"
    by (auto simp: list_all2_conv_all_nth)
  have "good_token source (ts ! i)" if i: "i < length ts" for i
  proof -
    from i nth have "?full ! i \<in> set ?full" by simp
    from token [OF this] nth(2) [OF i] show ?thesis
      by (auto simp: good_token_def spanned_ok_def stands_for_def dest: ptok_from_parameter)
  qed
  then have "list_all (good_token source) ts" by (simp add: list_all_length)
  moreover have "ordered_tokens ts"
    unfolding ordered_tokens_def
  proof
    show "\<forall>t\<in>set ts. tok_start t \<le> tok_end t"
      using calculation by (auto simp only: list_all_iff good_token_def spanned_ok_def)
    show "sorted_wrt (\<lambda>a b. tok_end a \<le> tok_start b) ts"
      using nth sorted by (simp add: sorted_wrt_iff_nth_less stands_for_def)
  qed
  ultimately show ?thesis by (simp add: good_tokens_def)
qed

text \<open>The label syntax of old drops colons and reads keywords as names.\<close>

lemma good_as_name: "good_token source t \<Longrightarrow> good_token source (as_name t)"
  by (simp add: good_token_def spanned_ok_def as_name_def)

lemma good_tokens_snoc:
  "good_tokens source (ts @ t # us) \<Longrightarrow> c \<in> {t, as_name t} \<Longrightarrow> good_tokens source (ts @ c # us)"
  using good_as_name [of source t]
  by (auto simp: good_tokens_def ordered_tokens_append ordered_tokens_Cons as_name_def)

lemma good_tokens_drop: "good_tokens source (ts @ t # us) \<Longrightarrow> good_tokens source (ts @ us)"
  by (auto simp: good_tokens_def ordered_tokens_append ordered_tokens_Cons)

lemma normalize_label_tokens_good:
  "good_tokens source (normalized @ ts) \<Longrightarrow> good_tokens source (normalize_label_tokens legacy index normalized ts)"
proof (induction legacy index normalized ts rule: normalize_label_tokens.induct)
  case (2 legacy index normalized t ts)
  then show ?case
    using good_tokens_drop [of source normalized t ts] good_tokens_snoc [of source normalized t ts] by auto
qed simp

lemma parser_input_good:
  assumes "dollar_engine engine"
  shows "parser_input engine source ts \<Longrightarrow> good_tokens source ts"
proof (induction rule: parser_input.induct)
  case (whole lexed ts)
  with parser_tokens_good [OF assms] show ?case by fastforce
next
  case (nested start stop fragment lexed reserved ts)
  then show ?case by (rule nested_parser_tokens_good [OF assms])
next
  case (labels start stop fragment lexed ts legacy)
  with label_tokens_good [OF assms] show ?case by (auto intro: normalize_label_tokens_good)
next
  case (reread ts cs)
  with rereading_good show ?case by blast
next
  case (piece ts a b)
  with slice_good show ?case by blast
qed

section \<open>No action panics\<close>

text \<open>The extent of the tokens a value is built of.\<close>

definition spans_exactly :: "('a \<Rightarrow> span) \<Rightarrow> spanned list \<Rightarrow> 'a outcome \<Rightarrow> bool" where
  "spans_exactly sp ts out = (case out of
     None \<Rightarrow> False
   | Some (Inl e) \<Rightarrow> True
   | Some (Inr x) \<Rightarrow> ts \<noteq> [] \<and> sp x = mk_span (tok_start (hd ts)) (tok_end (last ts)))"

lemma spans_exactly_iff: "spans_exactly sp ts out = returning (located sp ts) out"
  by (simp add: spans_exactly_def returning_def located_def covers_def split: option.splits sum.splits)

lemma safe_spans_exactly:
  "safe source R (located sp) \<Longrightarrow> good_tokens source ts \<Longrightarrow> R ts out \<Longrightarrow> spans_exactly sp ts out"
  by (simp add: spans_exactly_iff safe_def)


section \<open>A derivation\<close>

lemma derive_terminal: "tok_kind u = t \<Longrightarrow> terminal t [u] (Some (Inr (tok_start u, tok_end u)))"
  by (simp add: terminal_def pass_def)

lemma derive_before: "tok_kind u = t \<Longrightarrow> R us out \<Longrightarrow> before t R (u # us) out"
  by (simp add: before_def)

lemma derive_seq:
  "R us (Some (Inr x)) \<Longrightarrow> S vs (Some (Inr y)) \<Longrightarrow> seq R S (us @ vs) (Some (Inr (x, y)))"
  unfolding seq_def by (intro exI conjI; assumption?) (simp_all add: run_then_def pass_def)

lemma derive_seq_empty:
  "R [] (Some (Inr x)) \<Longrightarrow> S vs (Some (Inr y)) \<Longrightarrow> seq R S vs (Some (Inr (x, y)))"
  using derive_seq [of R "[]" x S vs y] by simp

lemma derive_seq_last:
  "R us (Some (Inr x)) \<Longrightarrow> S [] (Some (Inr y)) \<Longrightarrow> seq R S us (Some (Inr (x, y)))"
  using derive_seq [of R us x S "[]" y] by simp

lemma derive_optional:
  "optional R [] (Some (Inr None))"
  "R ts (Some (Inr x)) \<Longrightarrow> optional R ts (Some (Inr (Some x)))"
  by (auto simp: optional_def run_then_def pass_def)

lemma derive_many: "many R [] (Some (Inr []))"
  by (auto simp: many_def pass_def intro!: exI [of _ "[]"])

lemma derive_yields: "R ts (Some (Inr x)) \<Longrightarrow> yields R f ts (Some (Inr (f x)))"
  by (auto simp: yields_def run_then_def pass_def intro!: exI [of _ "Some (Inr x)"])

lemma derive_act:
  "ts \<noteq> [] \<Longrightarrow> R ts (Some (Inr x)) \<Longrightarrow> f (tok_start (hd ts)) (tok_end (last ts)) x = out \<Longrightarrow> act R f ts out"
  by (auto simp: act_def run_then_def intro!: exI [of _ "Some (Inr x)"])

definition star_clause :: clause where
  "star_clause = mk_clause (CK_Return (ReturnClause (ProjectionClause None
     [Node PI_Wildcard (mk_span 7 8)] None None None None (mk_span 7 8)))) (mk_span 0 8)"

lemma star_lexed:
  "lex (logos_next ascii_unicode) (ascii ''RETURN *'') =
     Some \<lparr>lex_tokens = [\<lparr>token_kind = T_Keyword Kw_Return, token_span = mk_span 0 6\<rparr>,
       \<lparr>token_kind = T_Whitespace, token_span = mk_span 6 7\<rparr>,
       \<lparr>token_kind = T_Star, token_span = mk_span 7 8\<rparr>], lex_diagnostics = []\<rparr>"
  by code_simp

lemma star_input: "parser_input (logos_next ascii_unicode) (ascii ''RETURN *'') sample_return"
  using parser_input.whole [OF star_lexed] sample_parser_tokens by simp

lemma star_derived: "clause_start engine g source sample_return (Some (Inr star_clause))"
proof -
  let ?E = "expr_rule engine g source"
  have at: "node_at 7 8 PI_Wildcard = Some (Inr (Node PI_Wildcard (mk_span 7 8)))"
    by (simp add: at_simps pass_def)
  have "projection_item source ?E [(7, P_Star, 8)] (Some (Inr (Node PI_Wildcard (mk_span 7 8))))"
    unfolding projection_item_def
    by (rule disjI1) (rule derive_act, simp, rule derive_terminal, simp_all add: at)
  then have parts: "seq (projection_item source ?E) (many (before P_Comma (projection_expression_item source ?E)))
      [(7, P_Star, 8)] (Some (Inr (Node PI_Wildcard (mk_span 7 8), [])))"
    by (rule derive_seq_last) (rule derive_many)
  have "projection_items source ?E [(7, P_Star, 8)]
      (Some (Inr (case (Node PI_Wildcard (mk_span 7 8), []) of (x, xs) \<Rightarrow> x # xs)))"
    unfolding projection_items_def by (rule derive_yields) (rule parts)
  then have items: "projection_items source ?E [(7, P_Star, 8)] (Some (Inr [Node PI_Wildcard (mk_span 7 8)]))"
    by simp
  let ?rest = "seq (optional (order_by_clause ?E)) (seq (optional (page_clause ?E)) (optional (limit_clause ?E)))"
  have rest: "?rest [] (Some (Inr (None, None, None)))"
    by (intro derive_seq_empty derive_optional(1))
  have body: "projection_body source ?E [(7, P_Star, 8)]
      (Some (Inr (ProjectionClause None [Node PI_Wildcard (mk_span 7 8)] None None None None (mk_span 7 8))))"
    unfolding projection_body_def
  proof (rule derive_act)
    show "seq (optional set_quantifier_node) (seq (projection_items source ?E) ?rest) [(7, P_Star, 8)]
        (Some (Inr (None, [Node PI_Wildcard (mk_span 7 8)], None, None, None)))"
      by (rule derive_seq_empty, rule derive_optional(1), rule derive_seq_last, rule items, rule rest)
  qed (simp_all add: projection_body_action_def at_simps pass_def)
  show ?thesis
    unfolding clause_start_def clause_root_rule_def return_rule_def sample_return_def
    by (rule disjI2, rule derive_act, simp, rule derive_before, simp, rule body)
      (simp add: return_action_def star_clause_def at_simps pass_def)
qed


end
