(* ===== verification/Grammar_Precedence.thy ===== *)
theory Grammar_Precedence
  imports Grammar_Input
begin

text \<open>
  How the grammar groups operators. Every operator has a level, the expression of a level has operands
  of a higher level only, and the binary operators of one level associate to the left. The trees that
  the productions derive are grouped that way, whatever the tokens.
\<close>

section \<open>Levels\<close>

text \<open>From \<open>OR\<close>, which binds least, to the postfix forms and the primary expressions.\<close>

primrec operator_level :: "binary_operator \<Rightarrow> nat" where
  "operator_level BO_Or = 1"
| "operator_level BO_Xor = 2"
| "operator_level BO_And = 3"
| "operator_level BO_Equal = 5"
| "operator_level BO_NotEqual = 5"
| "operator_level BO_Less = 5"
| "operator_level BO_LessEqual = 5"
| "operator_level BO_Greater = 5"
| "operator_level BO_GreaterEqual = 5"
| "operator_level BO_RegexMatch = 6"
| "operator_level BO_In = 6"
| "operator_level BO_StartsWith = 6"
| "operator_level BO_EndsWith = 6"
| "operator_level BO_Contains = 6"
| "operator_level BO_Concat = 7"
| "operator_level BO_Add = 8"
| "operator_level BO_Subtract = 8"
| "operator_level BO_Multiply = 9"
| "operator_level BO_Divide = 9"
| "operator_level BO_Remainder = 9"
| "operator_level BO_Power = 10"

primrec prefix_level :: "unary_operator \<Rightarrow> nat" where
  "prefix_level UN_Not = 4"
| "prefix_level UN_Plus = 11"
| "prefix_level UN_Minus = 11"

definition strength :: "expr \<Rightarrow> nat" where
  "strength e = (case node_kind (expr_node e) of
     EK_Binary left operator right \<Rightarrow> operator_level (node_kind operator)
   | EK_Unary operator operand \<Rightarrow> prefix_level (node_kind operator)
   | EK_Is operand negated predicate \<Rightarrow> 6
   | _ \<Rightarrow> 12)"

text \<open>The operators of level 6 do not associate: only one may follow an operand.\<close>

definition left_level :: "binary_operator \<Rightarrow> nat" where
  "left_level operator = (if operator_level operator = 6 then 7 else operator_level operator)"

text \<open>Down to the primary expressions, which delimit what they contain.\<close>

fun grouped :: "expr \<Rightarrow> bool" where
  "grouped (Expr (Node kind sp)) = (case kind of
     EK_Binary left operator right \<Rightarrow>
       grouped left \<and> grouped right \<and> left_level (node_kind operator) \<le> strength left \<and>
       operator_level (node_kind operator) < strength right
   | EK_Unary operator operand \<Rightarrow> grouped operand \<and> prefix_level (node_kind operator) \<le> strength operand
   | EK_Is operand negated predicate \<Rightarrow> grouped operand \<and> 7 \<le> strength operand
   | EK_Property base key \<Rightarrow> grouped base \<and> strength base = 12
   | EK_Index base index \<Rightarrow> grouped base \<and> strength base = 12
   | EK_Slice base lower upper \<Rightarrow> grouped base \<and> strength base = 12
   | EK_MapProjection (MapProjection base items) \<Rightarrow> grouped base \<and> strength base = 12
   | _ \<Rightarrow> True)"

section \<open>The values of a rule\<close>

named_theorems gives_intros "what the values of a right-hand side satisfy"

definition gives :: "'a rule \<Rightarrow> ('a \<Rightarrow> bool) \<Rightarrow> bool" where
  "gives R w = (\<forall>ts x. R ts (Some (Inr x)) \<longrightarrow> w x)"

lemma run_then_value: "run_then a f = Some (Inr y) \<longleftrightarrow> (\<exists>x. a = Some (Inr x) \<and> f x = Some (Inr y))"
  by (cases a; cases "the a") (auto simp: run_then_def)

lemma pass_value [simp]: "pass x = Some (Inr y) \<longleftrightarrow> x = y"
  by (simp add: pass_def)

lemma value_run_then: "Some (Inr y) = run_then a f \<longleftrightarrow> (\<exists>x. a = Some (Inr x) \<and> f x = Some (Inr y))"
  using run_then_value by metis

lemma gives_any [gives_intros]: "gives R (\<lambda>x. True)"
  by (simp add: gives_def)

lemma gives_weaken: "gives R w \<Longrightarrow> (\<And>x. w x \<Longrightarrow> w' x) \<Longrightarrow> gives R w'"
  by (simp add: gives_def)

lemma gives_alt: "gives R w \<Longrightarrow> gives S w \<Longrightarrow> gives (\<lambda>ts out. R ts out \<or> S ts out) w"
  by (auto simp: gives_def)

lemma gives_before: "gives R w \<Longrightarrow> gives (before t R) w"
  by (auto simp: gives_def before_def)

lemma gives_seq: "gives R w \<Longrightarrow> gives S w' \<Longrightarrow> gives (seq R S) (\<lambda>(x, y). w x \<and> w' y)"
  unfolding gives_def seq_def value_run_then run_then_value by fastforce

lemma map_run_value: "map_run id outs = Some (Inr xs) \<longleftrightarrow> outs = map (\<lambda>x. Some (Inr x)) xs"
  by (induction outs arbitrary: xs) (auto simp: run_then_value Cons_eq_map_conv)

lemma gives_many: "gives R w \<Longrightarrow> gives (many R) (list_all w)"
  by (auto simp: gives_def many_def map_run_value list_all2_conv_all_nth list_all_length
      dest!: sym [of "Some (Inr x)" for x])

lemma gives_optional: "gives R w \<Longrightarrow> gives (optional R) (\<lambda>y. \<forall>x. y = Some x \<longrightarrow> w x)"
  by (auto simp: gives_def optional_def value_run_then pass_def)

lemma gives_yields: "gives R w \<Longrightarrow> (\<And>x. w x \<Longrightarrow> w' (f x)) \<Longrightarrow> gives (yields R f) w'"
  by (auto simp: gives_def yields_def value_run_then)

lemma gives_fold_rule:
  "gives R w \<Longrightarrow> (\<And>x y. w x \<Longrightarrow> f x = Some (Inr y) \<Longrightarrow> w' y) \<Longrightarrow> gives (fold_rule R f) w'"
  by (auto simp: gives_def fold_rule_def value_run_then)

lemma gives_act:
  "gives R w \<Longrightarrow> (\<And>l r x y. w x \<Longrightarrow> f l r x = Some (Inr y) \<Longrightarrow> w' y) \<Longrightarrow> gives (act R f) w'"
  unfolding gives_def act_def value_run_then by blast

text \<open>An action whose values have a property whatever it is given.\<close>

lemma gives_act_always: "(\<And>l r x y. f l r x = Some (Inr y) \<Longrightarrow> w y) \<Longrightarrow> gives (act R f) w"
  by (rule gives_act [OF gives_any])

section \<open>The folds\<close>

definition at_level :: "nat \<Rightarrow> expr \<Rightarrow> bool" where
  "at_level n e = (grouped e \<and> n \<le> strength e)"

lemma at_level_mono: "at_level n e \<Longrightarrow> m \<le> n \<Longrightarrow> at_level m e"
  by (simp add: at_level_def)

lemma expr_at_value: "expr_at l r kind = Some (Inr e) \<Longrightarrow> \<exists>sp. e = mk_expr kind sp"
  by (auto simp: at_defs)

lemma node_at_value: "node_at l r kind = Some (Inr n) \<Longrightarrow> node_kind n = kind"
  by (auto simp: at_defs)

lemma binary_level:
  assumes "at_level (left_level (node_kind operator)) left"
    and "at_level (operator_level (node_kind operator) + 1) right"
  shows "at_level (operator_level (node_kind operator)) (mk_expr (EK_Binary left operator right) sp)"
  using assms by (simp add: at_level_def mk_expr_def strength_def)

text \<open>The binary operators of a level that associates to the left.\<close>

definition tail_at :: "nat \<Rightarrow> binary_operator node \<times> expr \<Rightarrow> bool" where
  "tail_at n t = (operator_level (node_kind (fst t)) = n \<and> n \<noteq> 6 \<and> at_level (n + 1) (snd t))"

lemma fold_binary_level:
  "fold_binary e tail = Some result \<Longrightarrow> at_level n e \<Longrightarrow> list_all (tail_at n) tail \<Longrightarrow> at_level n result"
proof (induction e tail rule: fold_binary.induct)
  case (2 e operator right tail)
  from "2.prems"(1) obtain sp where
    "fold_binary (mk_expr (EK_Binary e operator right) sp) tail = Some result"
    and sp: "span_cover (expr_span e) (expr_span right) = Some sp" by (auto simp: bind_eq_Some_conv)
  moreover have "at_level n (mk_expr (EK_Binary e operator right) sp)"
    using "2.prems"(2,3) binary_level [of operator e right sp] by (auto simp: tail_at_def left_level_def)
  ultimately show ?case using "2.IH" [OF sp] "2.prems"(3) by simp
qed simp

lemma gives_left_fold:
  assumes "gives R (at_level m)" and "gives S (tail_at n)" and "m = n + 1"
  shows "gives (fold_rule (seq R (many S)) binary_action) (at_level n)"
proof (rule gives_fold_rule [OF gives_seq [OF assms(1) gives_many [OF assms(2)]]])
  fix x y
  assume "case x of (head, tail) \<Rightarrow> at_level m head \<and> list_all (tail_at n) tail"
    and "binary_action x = Some (Inr y)"
  then show "at_level n y"
    using assms(3) at_level_mono [of m "fst x" n] fold_binary_level [of "fst x" "snd x" y n]
    by (auto simp: binary_action_def returns_value_def split: prod.splits)
qed

lemma gives_tail_of:
  "gives R (at_level m) \<Longrightarrow> m = n + 1 \<Longrightarrow> operator_level operator = n \<Longrightarrow> n \<noteq> 6 \<Longrightarrow> gives (tail_of t operator R) (tail_at n)"
  unfolding tail_of_def
  by (rule gives_fold_rule [OF gives_seq [OF gives_any]], assumption)
    (auto simp: tail_action_def run_then_value tail_at_def dest!: node_at_value)

text \<open>Comparisons: one suffix of level 6, or any number of level 5.\<close>

definition suffix_at :: "nat \<Rightarrow> comparison_suffix \<Rightarrow> bool" where
  "suffix_at n s = (case s of
     CS_Binary operator right \<Rightarrow> operator_level (node_kind operator) = n \<and> at_level (n + 1) right
   | CS_Is negated predicate last_end \<Rightarrow> n = 6)"

lemma fold_comparison_step:
  assumes "fold_comparison e [suffix] = Some result" and "at_level (if n = 6 then 7 else n) e" and "suffix_at n suffix"
  shows "at_level n result"
proof (cases suffix)
  case (CS_Binary operator right)
  with assms binary_level [of operator e right] show ?thesis
    by (auto simp: suffix_at_def left_level_def bind_eq_Some_conv)
next
  case (CS_Is negated predicate last_end)
  with assms show ?thesis
    by (auto simp: suffix_at_def bind_eq_Some_conv at_level_def mk_expr_def strength_def)
qed

lemma fold_comparison_Cons:
  "fold_comparison e (suffix # tail) = Option.bind (fold_comparison e [suffix]) (\<lambda>e'. fold_comparison e' tail)"
  by (cases suffix) (simp_all add: bind_assoc)

lemma fold_comparison_level:
  "fold_comparison e tail = Some result \<Longrightarrow> at_level 5 e \<Longrightarrow> list_all (suffix_at 5) tail \<Longrightarrow> at_level 5 result"
proof (induction tail arbitrary: e)
  case (Cons suffix tail)
  from Cons.prems(1) obtain e' where "fold_comparison e [suffix] = Some e'" "fold_comparison e' tail = Some result"
    unfolding fold_comparison_Cons [of e suffix tail] bind_eq_Some_conv by blast
  with Cons fold_comparison_step [of e suffix e' 5] show ?case by simp
qed simp

lemma strength_le: "strength e \<le> 12"
proof -
  have "operator_level operator \<le> 12" for operator by (cases operator) simp_all
  moreover have "prefix_level operator \<le> 12" for operator by (cases operator) simp_all
  ultimately show ?thesis by (auto simp: strength_def split: expr_kind.splits)
qed

lemma fold_postfix_level:
  "fold_postfix e suffixes = Some result \<Longrightarrow> at_level 12 e \<Longrightarrow> at_level 12 result"
proof (induction e suffixes rule: fold_postfix.induct)
  case (2 e suffix suffixes)
  then obtain e' where e': "apply_postfix e suffix = Some e'" "fold_postfix e' suffixes = Some result"
    by (auto simp: bind_eq_Some_conv)
  from strength_le [of e] e'(1) "2.prems"(2) have "at_level 12 e'"
    by (cases suffix) (auto simp: at_level_def mk_expr_def strength_def)
  with "2.IH" e' show ?case by simp
qed simp

section \<open>The nonterminals of the levels\<close>

lemmas level_intros = gives_left_fold gives_tail_of

lemma gives_concat:
  assumes "gives U (at_level 11)"
  shows "gives (concat_expr U) (at_level 7)"
proof -
  have power: "gives (power_expr U) (at_level 10)"
    unfolding power_expr_def by (rule gives_left_fold gives_tail_of assms | simp)+
  have multiply: "gives (multiply_expr U) (at_level 9)"
    unfolding multiply_expr_def multiplicative_tail_def [abs_def]
    by (rule gives_left_fold gives_tail_of gives_alt power | simp)+
  have add: "gives (add_expr U) (at_level 8)"
    unfolding add_expr_def additive_tail_def [abs_def]
    by (rule gives_left_fold gives_tail_of gives_alt multiply | simp)+
  show ?thesis
    unfolding concat_expr_def by (rule gives_left_fold gives_tail_of add | simp)+
qed

lemma gives_or:
  assumes "gives N (at_level 4)"
  shows "gives (or_expr N) (at_level 1)"
proof -
  have conjunction: "gives (and_expr N) (at_level 3)"
    unfolding and_expr_def by (rule gives_left_fold gives_tail_of assms | simp)+
  have exclusive: "gives (xor_expr N) (at_level 2)"
    unfolding xor_expr_def by (rule gives_left_fold gives_tail_of conjunction | simp)+
  show ?thesis
    unfolding or_expr_def by (rule gives_left_fold gives_tail_of exclusive | simp)+
qed

text \<open>The primary expressions.\<close>

definition atom_kind :: "(expr, path_pattern, clause) expr_kind \<Rightarrow> bool" where
  "atom_kind kind = (case kind of
     EK_Binary left operator right \<Rightarrow> False
   | EK_Unary operator operand \<Rightarrow> False
   | EK_Is operand negated predicate \<Rightarrow> False
   | EK_Property base key \<Rightarrow> False
   | EK_Index base index \<Rightarrow> False
   | EK_Slice base lower upper \<Rightarrow> False
   | EK_MapProjection projection \<Rightarrow> False
   | _ \<Rightarrow> True)"

lemma atom_level: "atom_kind kind \<Longrightarrow> at_level 12 (mk_expr kind sp)"
  by (cases kind) (simp_all add: atom_kind_def at_level_def mk_expr_def strength_def)

lemma expr_at_atom: "expr_at l r kind = Some (Inr e) \<Longrightarrow> atom_kind kind \<Longrightarrow> at_level 12 e"
  using expr_at_value [of l r kind e] atom_level by auto

lemma atom_kinds [simp]:
  "atom_kind (EK_Literal a)" "atom_kind (EK_Variable b)" "atom_kind (EK_Parameter c)" "atom_kind (EK_List d)"
  "atom_kind (EK_Map f)" "atom_kind (EK_Function h)" "atom_kind (EK_Case i)" "atom_kind (EK_ListComprehension j)"
  "atom_kind (EK_PatternComprehension k)" "atom_kind (EK_Reduce l)" "atom_kind (EK_QuantifiedPredicate m)"
  "atom_kind (EK_Subquery n)" "atom_kind (EK_Pattern q)" "atom_kind (EK_Parenthesized r)" "atom_kind (EK_Error s)"
  by (simp_all add: atom_kind_def)

lemmas primary_actions = parameter_action_def nonempty_map_action_def case_action_def reduce_action_def
  trim_action_def quantified_predicate_action_def call_action_def count_star_action_def subquery_action_def
  legacy_shortest_expr_action_def qualified_call_action_def parenthesized_action_def list_action_def Let_def

lemma case_value [simp]:
  "(case s of Inl e \<Rightarrow> Some (Inl e) | Inr x \<Rightarrow> f x) = Some (Inr y) \<longleftrightarrow> (\<exists>x. s = Inr x \<and> f x = Some (Inr y))"
  by (cases s) simp_all

lemma primary_action_values:
  "list_singleton_or_comprehension l r e = Some y \<Longrightarrow> at_level 12 y"
  "list_comprehension_expr l r e predicate projection = Some (Inr y) \<Longrightarrow> at_level 12 y"
  "pattern_expression engine g source l r = Some (Inr y) \<Longrightarrow> at_level 12 y"
  by (auto simp: list_singleton_or_comprehension_def list_comprehension_expr_def pattern_expression_def
      user_error_def bind_eq_Some_conv intro!: atom_level split: comprehension_source.splits option.splits
      if_splits)

lemma comprehension_value: "parse_comprehension_tokens g source l r ts = Some (Inr y) \<Longrightarrow> at_level 12 y"
  by (auto simp: parse_comprehension_tokens_def comprehension_body_def user_error_def user_error_at_def
      bind_eq_Some_conv Let_def intro!: atom_level split: option.splits if_splits)

lemma try_pipes_value:
  "try_pipes g source l r tokens pipes best = Some (Inr y) \<Longrightarrow> at_level 12 y"
proof (induction pipes arbitrary: best)
  case (Cons pipe pipes)
  from Cons.prems obtain ts s where "parse_comprehension_tokens g source l r ts = Some s"
    "(case s of Inr x \<Rightarrow> Some (Inr x)
      | Inl error \<Rightarrow> try_pipes g source l r tokens pipes (retain_farthest_error best error)) = Some (Inr y)"
    by (auto simp only: try_pipes.simps bind_eq_Some_conv)
  with Cons.IH comprehension_value show ?case by (cases s) auto
qed simp

lemma pattern_comprehension_value:
  "pattern_comprehension engine g source l r = Some (Inr y) \<Longrightarrow> at_level 12 y"
  by (auto simp: pattern_comprehension_def user_error_def bind_eq_Some_conv intro: try_pipes_value
      split: option.splits if_splits)

lemma gives_primary: "gives (primary_expr engine g source E P Q) (at_level 12)"
proof -
  note action = gives_act_always expr_at_atom primary_action_values pattern_comprehension_value
  have literal: "gives (literal_expr source) (at_level 12)"
    unfolding literal_expr_def by (rule gives_yields [OF gives_any]) (simp add: literal_expr_action_def atom_level)
  have list: "gives (list_value E) (at_level 12)"
    unfolding list_value_def [abs_def]
    by (intro gives_alt gives_act_always)
      (auto simp: primary_actions returns_value_def intro: expr_at_atom primary_action_values)
  have map: "gives (map_value source E) (at_level 12)"
    unfolding map_value_def [abs_def] nonempty_map_value_def
    by (intro gives_alt gives_act_always) (auto simp: primary_actions intro: expr_at_atom)
  have named: "gives (named_expr source E) (at_level 12)"
    unfolding named_expr_def [abs_def]
    by (intro gives_alt gives_act_always gives_yields [OF gives_any])
      (auto simp: primary_actions variable_action_def atom_level intro: expr_at_atom split: prod.splits)
  show ?thesis
    unfolding primary_expr_def [abs_def] parameter_expr_def pattern_comprehension_rule_def case_expr_def
      reduce_expr_def trim_expr_def quantified_predicate_expr_def count_function_expr_def count_star_expr_def
      subquery_expr_def legacy_shortest_path_expr_def qualified_function_expr_def parenthesized_expr_def
    by (intro gives_alt literal list map named gives_act_always)
      (auto simp: primary_actions run_then_value intro: expr_at_atom pattern_comprehension_value split: prod.splits)
qed

lemma gives_postfix: "gives (postfix_expr engine g source E P Q) (at_level 12)"
  unfolding postfix_expr_def
  by (rule gives_fold_rule [OF gives_seq [OF gives_primary gives_any]])
    (auto simp: postfix_action_def returns_value_def intro: fold_postfix_level)

lemma gives_unary_body:
  assumes "gives U (at_level 11)"
  shows "gives (unary_body engine g source E P Q U) (at_level 11)"
proof -
  have signed: "gives (act (seq (terminal t) U) (unary_action operator)) (at_level 11)"
    if "operator \<noteq> UN_Not" for t operator
    using that
    by (intro gives_act [OF gives_seq [OF gives_any assms]], cases operator)
      (auto simp: unary_action_def run_then_value at_level_def strength_def mk_expr_def
        dest!: node_at_value expr_at_value)
  show ?thesis
    unfolding unary_body_def [abs_def]
    by (intro gives_alt signed gives_weaken [OF gives_postfix]) (auto intro: at_level_mono)
qed

lemma gives_comparison:
  assumes "gives U (at_level 11)"
  shows "gives (comparison_expr engine g source U) (at_level 5)"
proof -
  let ?operator = "\<lambda>n operator. operator_level (node_kind operator) = n"
  have operators: "gives advanced_comparison_operator (?operator 6)" "gives simple_comparison_operator (?operator 5)"
    unfolding advanced_comparison_operator_def [abs_def] simple_comparison_operator_def [abs_def]
    by (intro gives_alt gives_act_always; auto dest: node_at_value)+
  have suffix: "gives (yields (seq R S) comparison_suffix_of) (suffix_at n)"
    if "gives R (?operator n)" "gives S (at_level (n + 1))" for R S n
    by (rule gives_yields [OF gives_seq [OF that]])
      (auto simp: comparison_suffix_of_def suffix_at_def split: prod.splits)
  have advanced_suffix: "gives (advanced_comparison_suffix engine g source U) (suffix_at 6)"
    unfolding advanced_comparison_suffix_def [abs_def]
  proof (intro gives_alt suffix gives_act_always gives_yields [OF gives_any])
    show "gives (concat_expr U) (at_level (6 + 1))" using gives_concat [OF assms] by simp
    fix l r suffix
    assume "label_comparison_suffix engine g source l r = Some (Inr suffix)"
    then obtain z :: "label_expression parsed"
      where "map_sum id (\<lambda>labels. CS_Is False (IP_Label labels) r) z = Inr suffix"
      by (auto simp: label_comparison_suffix_def)
    then show "suffix_at 6 suffix" by (cases z) (auto simp: suffix_at_def)
  qed (auto simp: operators is_null_suffix_def suffix_at_def split: prod.splits)
  have advanced: "gives (advanced_comparison_expr engine g source U) (at_level 6)"
    unfolding advanced_comparison_expr_def
  proof (rule gives_fold_rule [OF gives_seq [OF gives_concat [OF assms] gives_optional [OF advanced_suffix]]])
    fix x y
    assume x: "case x of (head, suffix) \<Rightarrow> at_level 7 head \<and> (\<forall>s. suffix = Some s \<longrightarrow> suffix_at 6 s)"
      and y: "advanced_comparison_action x = Some (Inr y)"
    obtain head suffix where parts: "x = (head, suffix)" by (cases x)
    show "at_level 6 y"
    proof (cases suffix)
      case None
      with x y parts show ?thesis
        by (simp add: advanced_comparison_action_def returns_value_def at_level_def)
    next
      case (Some s)
      with x y parts fold_comparison_step [of head s y 6] show ?thesis
        by (simp add: advanced_comparison_action_def returns_value_def)
    qed
  qed
  have simple: "gives (simple_comparison_suffix engine g source U) (suffix_at 5)"
    unfolding simple_comparison_suffix_def
    by (rule suffix) (use operators advanced in simp_all)
  show ?thesis
    unfolding comparison_expr_def
    by (rule gives_fold_rule [OF gives_seq [OF advanced gives_many [OF simple]]])
      (auto simp: comparison_action_def returns_value_def dest!: fold_comparison_level intro: at_level_mono [of 6 _ 5])
qed

lemma gives_not_body:
  assumes "gives U (at_level 11)" and "gives N (at_level 4)"
  shows "gives (not_body engine g source U N) (at_level 4)"
proof -
  have negated: "gives (act (seq (terminal P_Not) N) (unary_action UN_Not)) (at_level 4)"
    by (rule gives_act [OF gives_seq [OF gives_any assms(2)]])
      (auto simp: unary_action_def run_then_value at_level_def strength_def mk_expr_def
        dest!: node_at_value expr_at_value)
  have pattern: "gives (pattern_expression_rule engine g source) (at_level 4)"
    unfolding pattern_expression_rule_def
    by (rule gives_act_always) (auto intro: at_level_mono [OF primary_action_values(3)])
  show ?thesis
    unfolding not_body_def [abs_def]
    by (intro gives_alt negated pattern gives_weaken [OF gives_comparison [OF assms(1)]]) (auto intro: at_level_mono)
qed

section \<open>Grouping\<close>

lemma gives_hypothesis: "gives (\<lambda>ts out. R ts out \<and> (\<forall>e. out = Some (Inr e) \<longrightarrow> w e)) w"
  by (simp add: gives_def)

lemma gives_case: "gives R w \<Longrightarrow> R ts out \<Longrightarrow> \<forall>e. out = Some (Inr e) \<longrightarrow> w e"
  by (auto simp: gives_def)

lemma rules_grouped:
  "expr_rule engine g source ts out \<Longrightarrow> \<forall>e. out = Some (Inr e) \<longrightarrow> at_level 1 e"
  "not_rule engine g source ts1 out1 \<Longrightarrow> \<forall>e. out1 = Some (Inr e) \<longrightarrow> at_level 4 e"
  "unary_rule engine g source ts2 out2 \<Longrightarrow> \<forall>e. out2 = Some (Inr e) \<longrightarrow> at_level 11 e"
  "path_rule engine g source ts3 out3 \<Longrightarrow> True"
  "query_rule engine g source ts4 out4 \<Longrightarrow> True"
proof (induction rule: expr_rule_not_rule_unary_rule_path_rule_query_rule.inducts)
  case (expr ts out)
  from gives_case [OF gives_or [OF gives_hypothesis] this] show ?case .
next
  case (not ts out)
  from gives_case [OF gives_not_body [OF gives_hypothesis gives_hypothesis] this] show ?case .
next
  case (unary ts out)
  from gives_case [OF gives_unary_body [OF gives_hypothesis] this] show ?case .
qed simp_all

text \<open>
  C15: the grammar resolves precedence and associativity. Whatever tokens an expression is derived of, in
  its tree the left operand of a binary operator binds at least as strongly as the operator and
  the right operand more strongly, so that operators of one level associate to the left; the string,
  list and regular expression comparisons and \<open>IS\<close> do not associate; \<open>NOT\<close> takes a whole comparison and
  a sign only another sign or a postfix expression; and only a primary expression carries postfix forms.
\<close>

theorem expr_precedence:
  assumes "expr_start engine g source ts (Some (Inr e))"
  shows "grouped e"
  using rules_grouped(1) [of engine g source ts "Some (Inr e)"] assms
  by (simp add: expr_start_def at_level_def)

section \<open>A difference of a term and a product\<close>

lemma derive_fold_rule:
  "R ts (Some (Inr x)) \<Longrightarrow> f x = out \<Longrightarrow> fold_rule R f ts out"
  by (auto simp: fold_rule_def run_then_def intro!: exI [of _ "Some (Inr x)"])

lemma derive_many_one: "R ts (Some (Inr x)) \<Longrightarrow> many R ts (Some (Inr [x]))"
  by (auto simp: many_def run_then_def pass_def intro!: exI [of _ "[ts]"] exI [of _ "[Some (Inr x)]"])

text \<open>An operand passes through a level that it does not use.\<close>

lemma derive_operand:
  "R ts (Some (Inr e)) \<Longrightarrow> fold_rule (seq R (many S)) binary_action ts (Some (Inr e))"
  by (rule derive_fold_rule, rule derive_seq_last, assumption, rule derive_many)
    (simp add: binary_action_def returns_value_def)

lemma derive_comparison:
  assumes "concat_expr U ts (Some (Inr e))"
  shows "comparison_expr engine g source U ts (Some (Inr e))"
proof -
  have advanced: "advanced_comparison_expr engine g source U ts (Some (Inr e))"
    unfolding advanced_comparison_expr_def
    by (rule derive_fold_rule, rule derive_seq_last, rule assms, rule derive_optional(1))
      (simp add: advanced_comparison_action_def returns_value_def)
  show ?thesis
    unfolding comparison_expr_def
    by (rule derive_fold_rule, rule derive_seq_last, rule advanced, rule derive_many)
      (simp add: comparison_action_def returns_value_def)
qed

lemma derive_expr:
  assumes "concat_expr (unary_rule engine g source) ts (Some (Inr e))"
  shows "expr_start engine g source ts (Some (Inr e))"
proof -
  have "not_rule engine g source ts (Some (Inr e))"
    by (rule expr_rule_not_rule_unary_rule_path_rule_query_rule.not)
      (simp add: not_body_def derive_comparison [OF assms])
  then show ?thesis
    unfolding expr_start_def
    by (intro expr_rule_not_rule_unary_rule_path_rule_query_rule.expr)
      (simp add: or_expr_def xor_expr_def and_expr_def derive_operand)
qed

definition operand_at :: "nat \<Rightarrow> nat \<Rightarrow> expr" where
  "operand_at l r = mk_expr (EK_Error Error_node) (mk_span l r)"

lemma derive_error_operand:
  assumes "l \<le> r"
  shows "unary_rule engine g source [(l, P_ErrorExpression, r)] (Some (Inr (operand_at l r)))"
proof -
  have primary: "primary_expr engine g source E P Q [(l, P_ErrorExpression, r)] (Some (Inr (operand_at l r)))" for E P Q
    unfolding primary_expr_def
    by (rule disjI1, rule derive_act, simp, rule derive_terminal)
      (simp_all add: assms at_simps operand_at_def pass_def)
  have "postfix_expr engine g source E P Q [(l, P_ErrorExpression, r)] (Some (Inr (operand_at l r)))" for E P Q
    unfolding postfix_expr_def
    by (rule derive_fold_rule, rule derive_seq_last, rule primary, rule derive_many) (simp add: postfix_action_def returns_value_def)
  then show ?thesis
    by (intro expr_rule_not_rule_unary_rule_path_rule_query_rule.unary) (simp add: unary_body_def)
qed

definition difference_tokens :: "spanned list" where
  "difference_tokens = [(0, P_ErrorExpression, 1)] @ [(2, P_Minus, 3)] @ [(4, P_ErrorExpression, 5)] @
     [(6, P_Star, 7)] @ [(8, P_ErrorExpression, 9)]"

definition difference_expr :: expr where
  "difference_expr = mk_expr (EK_Binary (operand_at 0 1) (Node BO_Subtract (mk_span 2 3))
     (mk_expr (EK_Binary (operand_at 4 5) (Node BO_Multiply (mk_span 6 7)) (operand_at 8 9)) (mk_span 4 9)))
     (mk_span 0 9)"

lemma derive_tail:
  assumes "R ts (Some (Inr e))" and "l \<le> r"
  shows "tail_of t operator R ((l, t, r) # ts) (Some (Inr (Node operator (mk_span l r), e)))"
proof -
  have parts: "seq (terminal t) R ([(l, t, r)] @ ts) (Some (Inr ((tok_start (l, t, r), tok_end (l, t, r)), e)))"
    by (rule derive_seq, rule derive_terminal, simp, rule assms(1))
  show ?thesis
    unfolding tail_of_def
    by (rule derive_fold_rule, rule parts [simplified]) (simp add: tail_action_def at_simps assms(2) pass_def)
qed

text \<open>A level with one operator.\<close>

lemma derive_binary:
  assumes "R us (Some (Inr a))" and "S vs (Some (Inr (operator, b)))"
    and "span_cover (expr_span a) (expr_span b) = Some sp"
  shows "fold_rule (seq R (many S)) binary_action (us @ vs) (Some (Inr (mk_expr (EK_Binary a operator b) sp)))"
  by (rule derive_fold_rule, rule derive_seq, rule assms(1), rule derive_many_one, rule assms(2))
    (simp add: binary_action_def returns_value_def assms(3))

lemma expr_precedence_witness:
  "expr_start (logos_next ascii_unicode) return_star [] difference_tokens (Some (Inr difference_expr)) \<and>
   grouped difference_expr"
proof -
  let ?U = "unary_rule (logos_next ascii_unicode) return_star []"
  have power: "power_expr ?U [(l, P_ErrorExpression, r)] (Some (Inr (operand_at l r)))" if "l \<le> r" for l r
    unfolding power_expr_def by (rule derive_operand, rule derive_error_operand [OF that])
  then have product: "multiply_expr ?U [(l, P_ErrorExpression, r)] (Some (Inr (operand_at l r)))" if "l \<le> r" for l r
    unfolding multiply_expr_def using that by (intro derive_operand) simp
  have star: "multiplicative_tail (power_expr ?U) ([(6, P_Star, 7)] @ [(8, P_ErrorExpression, 9)])
      (Some (Inr (Node BO_Multiply (mk_span 6 7), operand_at 8 9)))"
    unfolding multiplicative_tail_def append_Cons append_Nil
    by (rule disjI1, rule derive_tail, rule power) simp_all
  have factor: "multiply_expr ?U ([(4, P_ErrorExpression, 5)] @ [(6, P_Star, 7)] @ [(8, P_ErrorExpression, 9)])
      (Some (Inr (mk_expr (EK_Binary (operand_at 4 5) (Node BO_Multiply (mk_span 6 7)) (operand_at 8 9)) (mk_span 4 9))))"
    unfolding multiply_expr_def
    by (rule derive_binary, rule power, simp, rule star) (simp_all add: operand_at_def span_cover_def)
  have minus: "additive_tail (multiply_expr ?U)
      ([(2, P_Minus, 3)] @ [(4, P_ErrorExpression, 5)] @ [(6, P_Star, 7)] @ [(8, P_ErrorExpression, 9)])
      (Some (Inr (Node BO_Subtract (mk_span 2 3), mk_expr (EK_Binary (operand_at 4 5) (Node BO_Multiply (mk_span 6 7))
         (operand_at 8 9)) (mk_span 4 9))))"
    unfolding additive_tail_def append_Cons append_Nil
    by (rule disjI2, rule derive_tail, rule factor [simplified]) simp
  have "add_expr ?U difference_tokens (Some (Inr difference_expr))"
    unfolding add_expr_def difference_tokens_def difference_expr_def
    by (rule derive_binary, rule product, simp, rule minus) (simp_all add: operand_at_def span_cover_def)
  then have derived: "expr_start (logos_next ascii_unicode) return_star [] difference_tokens (Some (Inr difference_expr))"
    by (intro derive_expr) (simp add: concat_expr_def derive_operand)
  from derived expr_precedence [OF derived] show ?thesis ..
qed

end
