(* ===== verification/Grammar_Program.thy ===== *)
theory Grammar_Program
  imports Grammar_Precedence "HOL-Library.Sublist"
begin

text \<open>
  The grammar and the parser around it, put together: when the generated parsers return what the
  grammar derives, the clauses of an accepted program are derived of consecutive pieces of its tokens.
\<close>

section \<open>The contract of the generated parsers\<close>

text \<open>
  What LALRPOP promises of a parser: a value is the outcome of the actions of a derivation. The parsers
  of this program may read a keyword as a name where the grammar wants one.
\<close>

definition derived_by :: "'a rule \<Rightarrow> spanned list \<Rightarrow> 'a \<Rightarrow> bool" where
  "derived_by R ts x = (\<exists>cs. rereading ts cs \<and> R cs (Some (Inr x)))"

definition generated :: "engine \<Rightarrow> grammar \<Rightarrow> bool" where
  "generated engine g = (\<forall>source ts.
     (\<forall>c. clause_root g source ts = Inr c \<longrightarrow> derived_by (clause_start engine g source) ts c) \<and>
     (\<forall>c. standalone_call_root g source ts = Inr c \<longrightarrow> derived_by (standalone_call_start engine g source) ts c) \<and>
     (\<forall>p. pattern_fragment g source ts = Inr p \<longrightarrow> derived_by (pattern_start engine g source) ts p) \<and>
     (\<forall>e. expr_fragment g source ts = Inr e \<longrightarrow> derived_by (expr_start engine g source) ts e) \<and>
     (\<forall>l. label_predicate_fragment g source ts = Inr l \<longrightarrow> derived_by (label_start source) ts l))"

section \<open>The clauses of a program\<close>

definition query_clauses :: "single_query \<Rightarrow> clause list" where
  "query_clauses query = (case node_kind query of SingleQueryKind clauses \<Rightarrow> clauses)"

definition union_clauses :: "single_query \<Rightarrow> union_tail \<Rightarrow> clause list" where
  "union_clauses head unions = query_clauses head @ concat (map (\<lambda>b. query_clauses (ub_query b)) unions)"

definition statement_clauses :: "statement_kind \<Rightarrow> clause list" where
  "statement_clauses statement = (case statement of
     ST_Query query \<Rightarrow>
       (case node_kind (qs_query query) of
          QU_Regular regular \<Rightarrow> union_clauses (rq_head regular) (rq_unions regular)
        | QU_Error e \<Rightarrow> [])
   | ST_Error e \<Rightarrow> [])"

definition program_clauses :: "program \<Rightarrow> clause list" where
  "program_clauses program = concat (map (\<lambda>s. statement_clauses (node_kind s)) (program_statements program))"

text \<open>A clause, and the tokens it was derived of.\<close>

definition clause_of :: "engine \<Rightarrow> grammar \<Rightarrow> ustr \<Rightarrow> spanned list \<Rightarrow> clause \<Rightarrow> bool" where
  "clause_of engine g source piece c = (
     (derived_by (clause_start engine g source) piece c \<or>
      derived_by (standalone_call_start engine g source) piece c) \<and> piece \<noteq> [] \<and>
     clause_span c = mk_span (tok_start (hd piece)) (tok_end (last piece)))"

text \<open>The clauses in order, each with its piece of the tokens.\<close>

definition clauses_of :: "engine \<Rightarrow> grammar \<Rightarrow> ustr \<Rightarrow> spanned list \<Rightarrow> clause list \<Rightarrow> bool" where
  "clauses_of engine g source ts clauses = (\<exists>pieces.
     list_all2 (clause_of engine g source) pieces clauses \<and> subseq (concat pieces) ts)"

lemma derived_clause:
  assumes good: "good_tokens source ts" and R: "safe source R (located clause_span)" and c: "derived_by R ts c"
  shows "ts \<noteq> [] \<and> clause_span c = mk_span (tok_start (hd ts)) (tok_end (last ts))"
proof -
  from c obtain cs where cs: "rereading ts cs" "R cs (Some (Inr c))" by (auto simp: derived_by_def)
  from safeD [OF R rereading_good [OF cs(1) good] cs(2)] have
    span: "cs \<noteq> []" "clause_span c = mk_span (tok_start (hd cs)) (tok_end (last cs))"
    by (simp_all add: located_def covers_def)
  from cs(1) have eq: "length ts = length cs" "\<And>i. i < length ts \<Longrightarrow> tok_start (cs ! i) = tok_start (ts ! i) \<and>
      tok_end (cs ! i) = tok_end (ts ! i)" by (auto simp: rereading_iff rereads_def)
  with span(1) have "ts \<noteq> []" by auto
  with span eq show ?thesis by (simp add: hd_conv_nth last_conv_nth)
qed

lemma good_subseq: "subseq us ts \<Longrightarrow> good_tokens source ts \<Longrightarrow> good_tokens source us"
  by (induction rule: list_emb.induct)
    (auto simp: good_tokens_def ordered_tokens_Cons dest: list_emb_set)

section \<open>From pieces to programs\<close>

lemma query_clauses_of:
  assumes g: "generated engine g" and engine: "raw_engine engine" and good: "good_tokens source ts"
    and run: "parse_single_query g source ts = Some (Inr query)"
  shows "clauses_of engine g source ts (query_clauses query)"
proof -
  from run obtain parsed where loop: "clause_loop g source ts 0 = Inr parsed" and
    parsed: "query_clauses query = parsed"
    by (auto simp: parse_single_query_def query_clauses_def split: if_splits sum.splits)
  from clause_loop_pieces [OF loop] parsed obtain pieces clauses where
    pieces: "concat pieces = ts" "clause_pieces g source pieces clauses" and query: "query_clauses query = clauses"
    by auto
  have "list_all2 (clause_of engine g source) pieces clauses"
    using pieces(2) [unfolded clause_pieces_def, THEN conjunct1]
  proof (rule list.rel_mono_strong)
    fix piece c
    assume piece: "piece \<in> set pieces" and c: "piece \<noteq> [] \<and> clause_root g source piece = Inr c"
    with g have derived: "derived_by (clause_start engine g source) piece c" by (simp add: generated_def)
    from good pieces(1) piece have "good_tokens source piece" by (auto intro: good_tokens_concat)
    from derived_clause [OF this safe_start_symbols(1) [OF engine] derived] derived
    show "clause_of engine g source piece c" by (simp add: clause_of_def)
  qed
  with pieces(1) query show ?thesis by (auto simp: clauses_of_def)
qed

lemma clauses_of_append:
  assumes "clauses_of engine g source us as" and "clauses_of engine g source vs bs" and "subseq (us @ vs) ts"
  shows "clauses_of engine g source ts (as @ bs)"
proof -
  from assms(1,2) obtain ps qs where "list_all2 (clause_of engine g source) ps as" "subseq (concat ps) us"
    "list_all2 (clause_of engine g source) qs bs" "subseq (concat qs) vs" by (auto simp: clauses_of_def)
  then have "list_all2 (clause_of engine g source) (ps @ qs) (as @ bs)" "subseq (concat (ps @ qs)) (us @ vs)"
    by (simp_all add: list_all2_appendI list_emb_append_mono)
  with assms(3) show ?thesis unfolding clauses_of_def by (metis subseq_order.trans)
qed

lemma union_clauses_of:
  assumes g: "generated engine g" and engine: "raw_engine engine"
  shows "union_query g source ts head unions \<Longrightarrow> good_tokens source ts \<Longrightarrow>
    clauses_of engine g source ts (union_clauses head unions)"
proof (induction rule: union_query.induct)
  case (uq_single ts query)
  then show ?case by (simp add: union_clauses_def query_clauses_of [OF g engine])
next
  case (uq_union left head op ops right query tail)
  from uq_union.prems good_tokens_append have good: "good_tokens source left" "good_tokens source right" by metis+
  have "clauses_of engine g source (left @ ops @ right) (query_clauses head @ union_clauses query tail)"
  proof (rule clauses_of_append)
    show "clauses_of engine g source left (query_clauses head)"
      by (rule query_clauses_of [OF g engine good(1) uq_union.hyps(1)])
    show "clauses_of engine g source right (union_clauses query tail)" by (rule uq_union.IH [OF good(2)])
    show "subseq (left @ right) (left @ ops @ right)" by (rule list_emb_append_mono) (auto intro: list_emb_append2)
  qed
  then show ?case by (simp add: union_clauses_def)
qed

lemma program_clauses_of:
  assumes g: "generated engine g" and engine: "raw_engine engine" and good: "good_tokens source ts"
    and run: "parse_program g source ts = Some (Inr program)" and "ts \<noteq> []"
  shows "clauses_of engine g source ts (program_clauses program)"
proof -
  from good have "ordered_tokens ts" by (simp add: good_tokens_def)
  from parse_program_parts [OF this assms(5) run] obtain qs head unions terminator where
    parts: "program = program_of head unions (mk_span (tok_start (hd qs)) (tok_end (last qs))) terminator
      (mk_span (tok_start (hd ts)) (tok_end (last ts)))"
      "union_query g source qs head unions \<or> (\<exists>clause. standalone_call_root g source qs = Inr clause \<and>
        head = Node (SingleQueryKind [clause]) (clause_span clause) \<and> unions = [])"
      "terminator = None \<and> qs = ts \<or> (\<exists>semi. tok_kind semi = P_Semicolon \<and> ts = qs @ [semi] \<and>
        terminator = Some (mk_span (tok_start semi) (tok_end semi)))"
    by (elim exE conjE) (rule that)
  note program = parts(1)
  have qs: "qs = ts \<or> (\<exists>semi. ts = qs @ [semi])"
    using parts(3) by (elim disjE exE conjE) (rule disjI1, assumption, rule disjI2, rule exI, assumption)
  from qs have "subseq (qs @ []) ts" by auto
  have good_qs: "good_tokens source qs"
    using qs good good_tokens_append [of source qs] by (elim disjE exE) simp_all
  have "clauses_of engine g source qs (union_clauses head unions)"
    using parts(2)
  proof (elim disjE exE conjE)
    fix clause
    assume call: "standalone_call_root g source qs = Inr clause"
      and head: "head = Node (SingleQueryKind [clause]) (clause_span clause)" "unions = []"
    from g call have derived: "derived_by (standalone_call_start engine g source) qs clause"
      by (simp add: generated_def)
    from derived_clause [OF good_qs safe_start_symbols(2) [OF engine] derived] derived
    have "clause_of engine g source qs clause" by (simp add: clause_of_def)
    then have "list_all2 (clause_of engine g source) [qs] [clause] \<and> subseq (concat [qs]) qs" by simp
    then have "clauses_of engine g source qs [clause]" unfolding clauses_of_def ..
    then show ?thesis by (simp add: head union_clauses_def query_clauses_def)
  qed (rule union_clauses_of [OF g engine _ good_qs])
  from clauses_of_append [OF this _ \<open>subseq (qs @ []) ts\<close>, of "[]"]
  have "clauses_of engine g source ts (union_clauses head unions)" by (simp add: clauses_of_def)
  then show ?thesis
    unfolding program program_of_def program_clauses_def statement_clauses_def by simp
qed

lemma empty_program_clauses:
  "parse_program g source [] = Some (Inr program) \<Longrightarrow> program_clauses program = []"
  by (auto simp: parse_program_def program_clauses_def bind_eq_Some_conv)

text \<open>Pieces in order give clauses in order.\<close>

lemma clauses_sorted:
  assumes "clauses_of engine g source ts clauses" and "good_tokens source ts"
  shows "sorted_wrt (\<lambda>c d. span_end (clause_span c) \<le> span_start (clause_span d)) clauses"
proof -
  from assms(1) obtain pieces where pieces: "list_all2 (clause_of engine g source) pieces clauses"
    "subseq (concat pieces) ts" by (auto simp: clauses_of_def)
  from good_subseq [OF pieces(2) assms(2)] have "ordered_tokens (concat pieces)" by (simp add: good_tokens_def)
  with pieces(1) show ?thesis
  proof (induction rule: list_all2_induct)
    case (Cons piece pieces c clauses)
    have "tok_end (last piece) \<le> span_start (clause_span d)" if "d \<in> set clauses" for d
    proof -
      from Cons.hyps that obtain p where p: "p \<in> set pieces" "clause_of engine g source p d"
        by (metis in_set_conv_nth list_all2_conv_all_nth)
      then have "hd p \<in> set p" by (simp add: clause_of_def)
      with p(1) have "hd p \<in> set (concat pieces)" by auto
      moreover have "last piece \<in> set piece" using Cons.hyps by (simp add: clause_of_def)
      ultimately show ?thesis using Cons.prems p(2) by (auto simp: ordered_tokens_append clause_of_def)
    qed
    with Cons show ?case by (auto simp: clause_of_def ordered_tokens_append)
  qed simp
qed


section \<open>A generated parser\<close>

text \<open>It accepts \<open>RETURN *\<close> at the start of the source, with the value that the grammar derives.\<close>

definition star_only :: grammar where
  "star_only = return_star
     \<lparr>clause_root := (\<lambda>source ts. if ts = sample_return then Inr star_clause else Inl (PE_User 0))\<rparr>"

lemma star_only_generated: "generated engine star_only"
  using star_derived [of engine star_only] rereading_iff [of sample_return sample_return]
  by (auto simp: generated_def star_only_def return_star_def derived_by_def split: if_splits)

lemma star_only_reports: "reports_input star_only"
  by (simp add: reports_input_def star_only_def wf_error_def)

lemma star_parsed:
  "\<exists>v. parse (logos_next ascii_unicode) star_only (ascii ''RETURN *'') = Some (Inr v) \<and>
     program_clauses (pp_program v) = [star_clause]"
proof -
  have "is_return star_clause" by (simp add: is_return_def star_clause_def)
  then have "\<exists>p. parse_program star_only source sample_return = Some (Inr p) \<and> program_clauses p = [star_clause]" for source
    by (simp add: parse_program_def split_terminator_def wrap_statement_def evaluate_queries star_only_def
        program_clauses_def statement_clauses_def union_clauses_def query_clauses_def)
  then obtain p where "parse_program star_only (ascii ''RETURN *'') sample_return = Some (Inr p)"
    and clauses: "program_clauses p = [star_clause]" by blast
  then have "parse_program_with_contextual_names star_only (ascii ''RETURN *'') sample_return = Some (Inr p)"
    by (simp add: parse_program_with_contextual_names_def parse_tokens_with_contextual_names_def
        sample_contextual panics_as_value_def value_as_panics_def del: ascii_simps)
  then show ?thesis
    by (simp add: parse_def parse_recovering_def star_lexed sample_parser_tokens clauses
        normalize_diagnostics_def Let_def max_diagnostics_def del: ascii_simps)
qed


end
