(* ===== verification/Contextual_Action.thy ===== *)
theory Contextual_Action
  imports Parser_Tokens "HOL-Library.Word"
begin

text \<open>
  How a generated parser of \<open>src/generated/cypher.rs\<close> reads a keyword as a name. The index of a terminal
  carries a mark in its highest bit when the token may be a name; the look-up of an action takes the
  mark off, and falls back to the action of the terminal \<open>identifier\<close> when the terminal has none of
  its own in the state. \<open>usize\<close> has 64 bits. The action table is an argument: nothing depends on its entries.
\<close>

unbundle bit_operations_syntax

type_synonym usize = "64 word"
type_synonym i16 = "16 word"

section \<open>Terminals\<close>

text \<open>\<open>__token_to_integer\<close>; every terminal has its arm, so the final \<open>None\<close> of the source is never reached.\<close>

primrec token_to_integer :: "parser_token \<Rightarrow> nat" where
  "token_to_integer P_ErrorExpression = 0"
| "token_to_integer P_Identifier = 1"
| "token_to_integer P_EscapedIdentifier = 2"
| "token_to_integer P_Parameter = 3"
| "token_to_integer P_Integer = 4"
| "token_to_integer P_HexInteger = 5"
| "token_to_integer P_OctalInteger = 6"
| "token_to_integer P_Float = 7"
| "token_to_integer P_String = 8"
| "token_to_integer P_PatternComprehension = 9"
| "token_to_integer P_PatternExpression = 10"
| "token_to_integer P_LabelPredicate = 11"
| "token_to_integer P_RelationshipLabelExpression = 12"
| "token_to_integer P_QualifiedFunctionName = 13"
| "token_to_integer P_All = 14"
| "token_to_integer P_SetAll = 15"
| "token_to_integer P_AllShortestPaths = 16"
| "token_to_integer P_And = 17"
| "token_to_integer P_Any = 18"
| "token_to_integer P_As = 19"
| "token_to_integer P_Asc = 20"
| "token_to_integer P_Ascending = 21"
| "token_to_integer P_By = 22"
| "token_to_integer P_Call = 23"
| "token_to_integer P_Case = 24"
| "token_to_integer P_Contains = 25"
| "token_to_integer P_Collect = 26"
| "token_to_integer P_Count = 27"
| "token_to_integer P_Create = 28"
| "token_to_integer P_Delete = 29"
| "token_to_integer P_Desc = 30"
| "token_to_integer P_Descending = 31"
| "token_to_integer P_Detach = 32"
| "token_to_integer P_Distinct = 33"
| "token_to_integer P_Else = 34"
| "token_to_integer P_End = 35"
| "token_to_integer P_Ends = 36"
| "token_to_integer P_Exists = 37"
| "token_to_integer P_False = 38"
| "token_to_integer P_Group = 39"
| "token_to_integer P_Groups = 40"
| "token_to_integer P_In = 41"
| "token_to_integer P_Inf = 42"
| "token_to_integer P_Infinity = 43"
| "token_to_integer P_Is = 44"
| "token_to_integer P_Limit = 45"
| "token_to_integer P_Match = 46"
| "token_to_integer P_Merge = 47"
| "token_to_integer P_Nan = 48"
| "token_to_integer P_None = 49"
| "token_to_integer P_Not = 50"
| "token_to_integer P_Null = 51"
| "token_to_integer P_Offset = 52"
| "token_to_integer P_On = 53"
| "token_to_integer P_Optional = 54"
| "token_to_integer P_Or = 55"
| "token_to_integer P_Order = 56"
| "token_to_integer P_Path = 57"
| "token_to_integer P_Paths = 58"
| "token_to_integer P_Reduce = 59"
| "token_to_integer P_Remove = 60"
| "token_to_integer P_Return = 61"
| "token_to_integer P_Set = 62"
| "token_to_integer P_Shortest = 63"
| "token_to_integer P_ShortestPath = 64"
| "token_to_integer P_Simple = 65"
| "token_to_integer P_Single = 66"
| "token_to_integer P_Skip = 67"
| "token_to_integer P_Starts = 68"
| "token_to_integer P_Then = 69"
| "token_to_integer P_Trail = 70"
| "token_to_integer P_Trim = 71"
| "token_to_integer P_True = 72"
| "token_to_integer P_Union = 73"
| "token_to_integer P_Unwind = 74"
| "token_to_integer P_Walk = 75"
| "token_to_integer P_When = 76"
| "token_to_integer P_Where = 77"
| "token_to_integer P_With = 78"
| "token_to_integer P_Xor = 79"
| "token_to_integer P_Yield = 80"
| "token_to_integer P_Acyclic = 81"
| "token_to_integer P_LeftParen = 82"
| "token_to_integer P_RightParen = 83"
| "token_to_integer P_LeftBracket = 84"
| "token_to_integer P_RightBracket = 85"
| "token_to_integer P_LeftBrace = 86"
| "token_to_integer P_RightBrace = 87"
| "token_to_integer P_Comma = 88"
| "token_to_integer P_Dot = 89"
| "token_to_integer P_DotDot = 90"
| "token_to_integer P_Colon = 91"
| "token_to_integer P_DoubleColon = 92"
| "token_to_integer P_Semicolon = 93"
| "token_to_integer P_Pipe = 94"
| "token_to_integer P_DoublePipe = 95"
| "token_to_integer P_Ampersand = 96"
| "token_to_integer P_Question = 97"
| "token_to_integer P_Dollar = 98"
| "token_to_integer P_Plus = 99"
| "token_to_integer P_Minus = 100"
| "token_to_integer P_Star = 101"
| "token_to_integer P_Slash = 102"
| "token_to_integer P_Percent = 103"
| "token_to_integer P_Caret = 104"
| "token_to_integer P_Bang = 105"
| "token_to_integer P_Equal = 106"
| "token_to_integer P_NotEqual = 107"
| "token_to_integer P_Less = 108"
| "token_to_integer P_LessEqual = 109"
| "token_to_integer P_Greater = 110"
| "token_to_integer P_GreaterEqual = 111"
| "token_to_integer P_PlusEqual = 112"
| "token_to_integer P_FatArrow = 113"
| "token_to_integer P_RegexMatch = 114"
| "token_to_integer P_LeftArrow = 115"
| "token_to_integer P_RightArrow = 116"
| "token_to_integer P_Invalid = 117"

text \<open>\<open>1usize << (usize::BITS - 1)\<close>.\<close>

definition contextual_mask :: usize where
  "contextual_mask = push_bit 63 1"

definition token_to_index :: "parser_token \<Rightarrow> usize" where
  "token_to_index t =
     (let integer = word_of_nat (token_to_integer t) in
      if is_contextual_name_candidate t then integer OR contextual_mask else integer)"

text \<open>The terminals in the order of their indices.\<close>

definition terminals :: "parser_token list" where
  "terminals = [
     P_ErrorExpression, P_Identifier, P_EscapedIdentifier, P_Parameter, P_Integer,
     P_HexInteger, P_OctalInteger, P_Float, P_String, P_PatternComprehension,
     P_PatternExpression, P_LabelPredicate, P_RelationshipLabelExpression,
     P_QualifiedFunctionName, P_All, P_SetAll, P_AllShortestPaths, P_And, P_Any, P_As, P_Asc,
     P_Ascending, P_By, P_Call, P_Case, P_Contains, P_Collect, P_Count, P_Create, P_Delete,
     P_Desc, P_Descending, P_Detach, P_Distinct, P_Else, P_End, P_Ends, P_Exists, P_False,
     P_Group, P_Groups, P_In, P_Inf, P_Infinity, P_Is, P_Limit, P_Match, P_Merge, P_Nan,
     P_None, P_Not, P_Null, P_Offset, P_On, P_Optional, P_Or, P_Order, P_Path, P_Paths,
     P_Reduce, P_Remove, P_Return, P_Set, P_Shortest, P_ShortestPath, P_Simple, P_Single,
     P_Skip, P_Starts, P_Then, P_Trail, P_Trim, P_True, P_Union, P_Unwind, P_Walk, P_When,
     P_Where, P_With, P_Xor, P_Yield, P_Acyclic, P_LeftParen, P_RightParen, P_LeftBracket,
     P_RightBracket, P_LeftBrace, P_RightBrace, P_Comma, P_Dot, P_DotDot, P_Colon,
     P_DoubleColon, P_Semicolon, P_Pipe, P_DoublePipe, P_Ampersand, P_Question, P_Dollar,
     P_Plus, P_Minus, P_Star, P_Slash, P_Percent, P_Caret, P_Bang, P_Equal, P_NotEqual,
     P_Less, P_LessEqual, P_Greater, P_GreaterEqual, P_PlusEqual, P_FatArrow, P_RegexMatch,
     P_LeftArrow, P_RightArrow, P_Invalid]"

text \<open>\<open>__TERMINAL\<close>: the names of the terminals in the grammar, each between quotation marks.\<close>

definition TERMINAL :: "ustr list" where
  "TERMINAL = map (\<lambda>name. 34 # ascii name @ [34]) [
     ''error expression'', ''identifier'', ''escaped identifier'', ''parameter'', ''integer'',
     ''hex integer'', ''octal integer'', ''float'', ''string'', ''pattern comprehension'',
     ''pattern expression'', ''label predicate'', ''relationship label expression'',
     ''qualified function name'', ''ALL'', ''set ALL'', ''ALLSHORTESTPATHS'', ''AND'',
     ''ANY'', ''AS'', ''ASC'', ''ASCENDING'', ''BY'', ''CALL'', ''CASE'', ''CONTAINS'',
     ''COLLECT'', ''COUNT'', ''CREATE'', ''DELETE'', ''DESC'', ''DESCENDING'', ''DETACH'',
     ''DISTINCT'', ''ELSE'', ''END'', ''ENDS'', ''EXISTS'', ''FALSE'', ''GROUP'', ''GROUPS'',
     ''IN'', ''INF'', ''INFINITY'', ''IS'', ''LIMIT'', ''MATCH'', ''MERGE'', ''NAN'',
     ''NONE'', ''NOT'', ''NULL'', ''OFFSET'', ''ON'', ''OPTIONAL'', ''OR'', ''ORDER'',
     ''PATH'', ''PATHS'', ''REDUCE'', ''REMOVE'', ''RETURN'', ''SET'', ''SHORTEST'',
     ''SHORTESTPATH'', ''SIMPLE'', ''SINGLE'', ''SKIP'', ''STARTS'', ''THEN'', ''TRAIL'',
     ''TRIM'', ''TRUE'', ''UNION'', ''UNWIND'', ''WALK'', ''WHEN'', ''WHERE'', ''WITH'',
     ''XOR'', ''YIELD'', ''ACYCLIC'', ''('', '')'', ''['', '']'', ''{'', ''}'', '','', ''.'',
     ''..'', '':'', ''::'', '';'', ''|'', ''||'', ''&'', ''?'', ''$'', ''+'', ''-'', ''*'',
     ''/'', ''%'', ''^'', ''!'', ''='', ''<>'', ''<'', ''<='', ''>'', ''>='', ''+='', ''=>'',
     ''=~'', ''<-'', ''->'', ''invalid token'']"

section \<open>Actions\<close>

text \<open>
  \<open>__ACTION[(state as usize) * 118 + integer]\<close>: the state is sign-extended, and an index outside the table
  panics.
\<close>

definition table_action :: "i16 list \<Rightarrow> i16 \<Rightarrow> usize \<Rightarrow> i16 panics" where
  "table_action table state integer =
     slice_get table (unat (scast state :: usize) * 118 + unat integer)"

definition contextual_action :: "i16 list \<Rightarrow> i16 \<Rightarrow> usize \<Rightarrow> i16 panics" where
  "contextual_action table state integer =
     (let raw_integer = integer AND NOT contextual_mask in
      Option.bind (table_action table state raw_integer) (\<lambda>action.
        if integer AND contextual_mask \<noteq> 0 \<and> action = 0
        then table_action table state (word_of_nat (token_to_integer P_Identifier))
        else Some action))"

text \<open>\<open>__token_to_symbol\<close>: the index must be one of the 118 terminals.\<close>

definition token_symbol :: "usize \<Rightarrow> parser_token \<Rightarrow> parser_token panics" where
  "token_symbol token_index t = (if unat token_index \<le> 117 then Some t else None)"

definition token_to_symbol :: "usize \<Rightarrow> parser_token \<Rightarrow> parser_token panics" where
  "token_to_symbol token_index t = token_symbol (token_index AND NOT contextual_mask) t"

text \<open>\<open>__expected_tokens\<close>: the names of the terminals with an action in the state.\<close>

definition expected_tokens :: "i16 list \<Rightarrow> i16 \<Rightarrow> ustr list panics" where
  "expected_tokens table state =
     map_option (concat)
       (those (map (\<lambda>(index, terminal).
          map_option (\<lambda>next_state. if next_state = 0 then [] else [terminal])
            (table_action table state (word_of_nat index)))
          (enumerate 0 TERMINAL)))"

section \<open>The order of the terminals\<close>

lemma terminals_integers: "map token_to_integer terminals = [0..<118]"
  by (simp add: terminals_def upt_rec)

lemma set_terminals: "set terminals = UNIV"
proof -
  have "t \<in> set terminals" for t
    unfolding terminals_def by (cases t) (simp_all only: list.set insert_iff simp_thms)
  then show ?thesis by blast
qed

lemma length_terminals: "length terminals = 118"
  using arg_cong [OF terminals_integers, of length] by simp

lemma token_to_integer_bound: "token_to_integer t < 118"
proof -
  have "token_to_integer t \<in> set (map token_to_integer terminals)"
    using set_terminals by simp
  then show ?thesis unfolding terminals_integers by simp
qed

lemma token_to_integer_inj: "inj token_to_integer"
proof -
  have "distinct (map token_to_integer terminals)" unfolding terminals_integers by simp
  then show ?thesis by (simp add: distinct_map set_terminals)
qed

lemma terminals_nth: "terminals ! token_to_integer t = t"
proof -
  have "map token_to_integer terminals ! token_to_integer t = token_to_integer t"
    unfolding terminals_integers using token_to_integer_bound [of t] by simp
  then have "token_to_integer (terminals ! token_to_integer t) = token_to_integer t"
    using token_to_integer_bound [of t] by (simp add: length_terminals)
  then show ?thesis using token_to_integer_inj by (simp add: inj_eq)
qed

text \<open>
  The name of a terminal in the grammar is the name of the token, but for the \<open>ALL\<close> of a set quantifier,
  which the grammar calls \<open>set ALL\<close>.
\<close>

definition terminal_name :: "parser_token \<Rightarrow> ustr" where
  "terminal_name t = (if t = P_SetAll then ascii ''set ALL'' else ptok_name t)"

lemma TERMINAL_names: "TERMINAL = map (\<lambda>t. 34 # terminal_name t @ [34]) terminals"
  by (simp add: terminals_def TERMINAL_def terminal_name_def)

section \<open>The mark\<close>

lemma mask_bit: "bit contextual_mask n \<longleftrightarrow> n = 63"
  unfolding contextual_mask_def bit_push_bit_iff by auto

lemma terminal_bit:
  fixes n :: nat
  assumes "n < 118" and "7 \<le> i"
  shows "\<not> bit n i"
proof -
  have "(128::nat) \<le> 2 ^ i" using assms(2) power_increasing [of 7 i "2::nat"] by simp
  with assms(1) have "n div 2 ^ i = 0" by simp
  then show ?thesis by (simp add: bit_iff_odd)
qed

lemma plain_and_mask: "n < 118 \<Longrightarrow> (word_of_nat n :: usize) AND contextual_mask = 0"
  by (rule bit_word_eqI) (auto simp: bit_simps mask_bit terminal_bit)

lemma plain_clear_mask: "n < 118 \<Longrightarrow> (word_of_nat n :: usize) AND NOT contextual_mask = word_of_nat n"
  by (rule bit_word_eqI) (auto simp: bit_simps mask_bit terminal_bit)

lemma marked_clear_mask:
  "n < 118 \<Longrightarrow> ((word_of_nat n :: usize) OR contextual_mask) AND NOT contextual_mask = word_of_nat n"
  by (rule bit_word_eqI) (auto simp: bit_simps mask_bit terminal_bit)

lemma marked_and_mask: "((w :: usize) OR contextual_mask) AND contextual_mask = contextual_mask"
  by (rule bit_word_eqI) (auto simp: bit_simps)

lemma mask_nonzero: "contextual_mask \<noteq> 0"
  using mask_bit [of 63] by auto

lemma unat_terminal: "n < 118 \<Longrightarrow> unat (word_of_nat n :: usize) = n"
  by (simp add: unat_of_nat)

lemma decoded_index:
  "token_to_index t AND NOT contextual_mask = word_of_nat (token_to_integer t)"
  unfolding token_to_index_def Let_def
  by (simp add: token_to_integer_bound plain_clear_mask marked_clear_mask)

lemma marked_index: "token_to_index t AND contextual_mask \<noteq> 0 \<longleftrightarrow> is_contextual_name_candidate t"
  unfolding token_to_index_def Let_def
  by (simp add: token_to_integer_bound plain_and_mask marked_and_mask mask_nonzero)

lemma token_to_index_inj: "inj token_to_index"
proof (rule injI)
  fix s t assume "token_to_index s = token_to_index t"
  then have "(word_of_nat (token_to_integer s) :: usize) = word_of_nat (token_to_integer t)"
    using decoded_index by metis
  then have "token_to_integer s = token_to_integer t"
    using unat_terminal token_to_integer_bound by metis
  then show "s = t" using token_to_integer_inj by (simp add: inj_eq)
qed

section \<open>A row of the table\<close>

text \<open>The 118 entries of a state.\<close>

definition row :: "i16 list \<Rightarrow> i16 \<Rightarrow> parser_token \<Rightarrow> i16" where
  "row table state t = table ! (unat (scast state :: usize) * 118 + token_to_integer t)"

definition has_row :: "i16 list \<Rightarrow> i16 \<Rightarrow> bool" where
  "has_row table state \<longleftrightarrow> (unat (scast state :: usize) + 1) * 118 \<le> length table"

lemma table_action_row:
  "has_row table state \<Longrightarrow>
   table_action table state (word_of_nat (token_to_integer t)) = Some (row table state t)"
  using token_to_integer_bound [of t]
  by (simp add: has_row_def row_def table_action_def slice_get_def unat_terminal)

lemma contextual_action_row:
  "has_row table state \<Longrightarrow>
   contextual_action table state (token_to_index t) =
   Some (if is_contextual_name_candidate t \<and> row table state t = 0 then row table state P_Identifier
         else row table state t)"
  unfolding contextual_action_def Let_def decoded_index marked_index
  by (simp only: table_action_row bind_simps split: if_split) simp

lemma those_map_Some: "(\<And>x. x \<in> set xs \<Longrightarrow> f x = Some (g x)) \<Longrightarrow> those (map f xs) = Some (map g xs)"
  by (induction xs) auto

lemma expected_tokens_row:
  assumes "has_row table state"
  shows "expected_tokens table state =
    Some (map (\<lambda>t. 34 # terminal_name t @ [34]) (filter (\<lambda>t. row table state t \<noteq> 0) terminals))"
proof -
  have "token_to_integer (terminals ! i) = i" if "i < 118" for i
    using arg_cong [OF terminals_integers, of "\<lambda>xs. xs ! i"] that by (simp add: length_terminals)
  then have enum: "enumerate 0 TERMINAL =
      map (\<lambda>t. (token_to_integer t, 34 # terminal_name t @ [34])) terminals"
    by (intro nth_equalityI) (simp_all add: TERMINAL_names length_terminals nth_enumerate_eq)
  have parts: "map_option (\<lambda>a. if a = 0 then [] else [34 # terminal_name t @ [34]])
        (table_action table state (word_of_nat (token_to_integer t))) =
      Some (if row table state t = 0 then [] else [34 # terminal_name t @ [34]])" for t
    by (simp add: table_action_row [OF assms])
  have concat: "concat (map (\<lambda>t. if P t then [] else [f t]) ts) = map f (filter (\<lambda>t. \<not> P t) ts)"
    for P and f :: "parser_token \<Rightarrow> ustr" and ts
    by (induction ts) simp_all
  show ?thesis
    unfolding expected_tokens_def enum map_map comp_def prod.case parts
    by (simp only: those_map_Some [OF refl] option.map concat)
qed

section \<open>The look-up of a token\<close>

lemma inj_ascii: "inj ascii"
  unfolding ascii_def by (rule inj_mapI) (simp add: inj_def)

lemma distinct_TERMINAL: "distinct TERMINAL"
proof -
  have "inj_on (\<lambda>name. 34 # ascii name @ [34]) A" for A
    using inj_ascii by (auto intro!: inj_onI dest: injD)
  then show ?thesis unfolding TERMINAL_def distinct_map by simp
qed

lemma terminal_name_inj: "terminal_name s = terminal_name t \<Longrightarrow> s = t"
proof -
  have "distinct (map (\<lambda>t. 34 # terminal_name t @ [34]) terminals)"
    using distinct_TERMINAL unfolding TERMINAL_names .
  then have "inj (\<lambda>t. 34 # terminal_name t @ [34])"
    unfolding distinct_map set_terminals by simp
  then show "terminal_name s = terminal_name t \<Longrightarrow> s = t" by (auto dest: injD)
qed

lemma refused_row:
  assumes "has_row table state" and "expected_tokens table state = Some names"
  shows "34 # terminal_name t @ [34] \<in> set names \<longleftrightarrow> row table state t \<noteq> 0"
  using assms(2) unfolding expected_tokens_row [OF assms(1)]
  by (auto simp: set_terminals dest: terminal_name_inj)

text \<open>
  C16: on a table with a row for the state, the look-up of a token never panics; it gives the action of
  the token's own terminal, and the action of \<open>identifier\<close> exactly when the token has none and may be
  a name. The mark does not change the symbol of the token. So a token is refused exactly when the
  state's expected names contain neither the token's name nor, for a token that may be a name,
  \<open>identifier\<close>.
\<close>

theorem contextual_action_spec:
  assumes "has_row table state"
  shows "contextual_action table state (token_to_index t) =
      (let native = table_action table state (word_of_nat (token_to_integer t)) in
       if native = Some 0 \<and> is_contextual_name_candidate t
       then table_action table state (word_of_nat (token_to_integer P_Identifier)) else native) \<and>
    token_to_symbol (token_to_index t) t = Some t \<and>
    (\<exists>names. expected_tokens table state = Some names \<and>
       (contextual_action table state (token_to_index t) = Some 0 \<longleftrightarrow>
        34 # terminal_name t @ [34] \<notin> set names \<and>
        \<not> (is_contextual_name_candidate t \<and> 34 # terminal_name P_Identifier @ [34] \<in> set names)))"
    (is "?look \<and> ?symbol \<and> ?refused")
proof (intro conjI)
  show ?look
    by (simp only: contextual_action_row [OF assms] table_action_row [OF assms] Let_def option.inject)
      auto
  show ?symbol
    using token_to_integer_bound [of t]
    by (simp add: token_to_symbol_def token_symbol_def decoded_index unat_terminal)
  obtain names where names: "expected_tokens table state = Some names"
    using expected_tokens_row [OF assms] by blast
  then show ?refused
    by (auto simp: contextual_action_row [OF assms] refused_row [OF assms names])
qed

lemma contextual_action_spec_witness:
  "contextual_action ((replicate 118 0)[1 := 5]) 0 (token_to_index P_Match) = Some 5 \<and>
   contextual_action ((replicate 118 0)[1 := 5]) 0 (token_to_index P_Comma) = Some 0"
proof -
  have row: "has_row ((replicate 118 0)[1 := 5]) 0" by (simp add: has_row_def)
  show ?thesis
    using contextual_action_spec [OF row, of P_Match] contextual_action_spec [OF row, of P_Comma]
    by (simp add: Let_def table_action_def slice_get_def is_contextual_name_candidate_def)
qed

end
