(* ===== verification/Grammar_Post.thy ===== *)
theory Grammar_Post
  imports Checked Parse_Errors "HOL-Library.Sublist"
begin

text \<open>
  The rewriting of the generated parsers in \<open>src/xtask/src/grammar.rs\<close>: the texts it looks for and the
  texts it puts in their place, the check of the functions \<open>__token_to_symbol\<close>, and the three replacements, each
  after a count of its sites. The lemmas show when a text that is not in the input cannot appear in the
  output of a replacement, and so that a second application never succeeds.
\<close>

section \<open>Occurrences\<close>

text \<open>
  The pieces between the occurrences that \<open>str::matches\<close> finds: from the left, without overlaps. The source
  looks for no empty text; its only piece here is the whole.
\<close>

function pieces :: "ustr \<Rightarrow> ustr \<Rightarrow> ustr list" where
  "pieces d s =
     (if d = [] then [s]
      else case split_once d s of None \<Rightarrow> [s] | Some (a, b) \<Rightarrow> a # pieces d b)"
  by pat_completeness auto
termination
  by (relation "measure (\<lambda>(d, s). length s)") (auto dest: split_once_Some)

declare pieces.simps [simp del]

text \<open>\<open>str::matches(d).count()\<close> and \<open>str::replace\<close>.\<close>

definition match_count :: "ustr \<Rightarrow> ustr \<Rightarrow> nat" where
  "match_count d s = length (pieces d s) - 1"

definition str_replace :: "ustr \<Rightarrow> ustr \<Rightarrow> ustr \<Rightarrow> ustr" where
  "str_replace d replacement s = join replacement (pieces d s)"

section \<open>Texts\<close>

definition GENERATED_PARSER_COUNT :: nat where
  "GENERATED_PARSER_COUNT = 5"

definition GENERATED_TOKEN_TO_SYMBOL_START :: ustr where
  "GENERATED_TOKEN_TO_SYMBOL_START = ascii ''    fn __token_to_symbol<''"

definition GENERATED_TOKEN_TO_SYMBOL_END :: ustr where
  "GENERATED_TOKEN_TO_SYMBOL_END = ascii ''    fn __simulate_reduce<''"

definition SHARED_EXTERNAL_TOKEN_SYMBOL :: ustr where
  "SHARED_EXTERNAL_TOKEN_SYMBOL = ascii ''__Symbol::Variant0(__token)''"

definition TOKEN_TO_INDEX :: ustr where
  "TOKEN_TO_INDEX = join [10] [
     ascii ''        fn token_to_index(&self, token: &Self::Token) -> Option<usize> {'',
     ascii ''            __token_to_integer(token, core::marker::PhantomData::<(&())>)'',
     ascii ''        }'']"

definition CONTEXTUAL_TOKEN_TO_INDEX :: ustr where
  "CONTEXTUAL_TOKEN_TO_INDEX = join [10] [
     ascii ''        fn token_to_index(&self, token: &Self::Token) -> Option<usize> {'',
     ascii ''            __token_to_integer(token, core::marker::PhantomData::<(&())>).map(|integer| {'',
     ascii ''                if token.is_contextual_name_candidate() {'',
     ascii ''                    integer | (1usize << (usize::BITS - 1))'',
     ascii ''                } else {'',
     ascii ''                    integer'',
     ascii ''                }'',
     ascii ''            })'',
     ascii ''        }'']"

definition PARSER_ACTION :: ustr where
  "PARSER_ACTION = join [10] [
     ascii ''        fn action(&self, state: i16, integer: usize) -> i16 {'',
     ascii ''            __action(state, integer)'',
     ascii ''        }'']"

definition CONTEXTUAL_PARSER_ACTION :: ustr where
  "CONTEXTUAL_PARSER_ACTION = join [10] [
     ascii ''        fn action(&self, state: i16, integer: usize) -> i16 {'',
     ascii ''            let contextual_mask = 1usize << (usize::BITS - 1);'',
     ascii ''            let raw_integer = integer & !contextual_mask;'',
     ascii ''            let action = __action(state, raw_integer);'',
     ascii ''            if integer & contextual_mask != 0 && action == 0 {'',
     ascii ''                let identifier_integer = __token_to_integer('',
     ascii ''                    &ParserToken::Identifier,'',
     ascii ''                    core::marker::PhantomData::<(&())>,'',
     ascii ''                )'',
     ascii ''                .expect('' @ [34] @ ascii ''the grammar must declare the identifier terminal'' @ [34] @ ascii '');'',
     ascii ''                __action(state, identifier_integer)'',
     ascii ''            } else {'',
     ascii ''                action'',
     ascii ''            }'',
     ascii ''        }'']"

definition TOKEN_TO_SYMBOL :: ustr where
  "TOKEN_TO_SYMBOL = join [10] [
     ascii ''        fn token_to_symbol(&self, token_index: usize, token: Self::Token) -> Self::Symbol {'',
     ascii ''            __token_to_symbol(token_index, token, core::marker::PhantomData::<(&())>)'',
     ascii ''        }'']"

definition CONTEXTUAL_TOKEN_TO_SYMBOL :: ustr where
  "CONTEXTUAL_TOKEN_TO_SYMBOL = join [10] [
     ascii ''        fn token_to_symbol(&self, token_index: usize, token: Self::Token) -> Self::Symbol {'',
     ascii ''            let contextual_mask = 1usize << (usize::BITS - 1);'',
     ascii ''            __token_to_symbol('',
     ascii ''                token_index & !contextual_mask,'',
     ascii ''                token,'',
     ascii ''                core::marker::PhantomData::<(&())>,'',
     ascii ''            )'',
     ascii ''        }'']"

section \<open>The check of the token symbols\<close>

text \<open>The messages: the sites found, or the parser and what was found in it.\<close>

datatype (plugins only: size) post_error =
  GE_SharedSites nat
| GE_Boundary nat
| GE_SharedArm nat nat
| GE_Sites ustr nat

text \<open>
  One round of the loop: \<open>expect\<close> panics when no function is left. The result is the remainder, from the
  end marker on.
\<close>

definition shared_symbol_round :: "nat \<Rightarrow> ustr \<Rightarrow> (post_error, ustr) run" where
  "shared_symbol_round parser_index remainder =
     Option.bind (split_once GENERATED_TOKEN_TO_SYMBOL_START remainder)
       (\<lambda>(_, function_and_remainder).
          run_then (ok_or (GE_Boundary (parser_index + 1))
              (split_once GENERATED_TOKEN_TO_SYMBOL_END function_and_remainder))
            (\<lambda>(body, rest).
               let shared_symbol_count = match_count SHARED_EXTERNAL_TOKEN_SYMBOL body;
                   external_symbol_count = match_count (ascii ''__Symbol::Variant'') body in
               if shared_symbol_count \<noteq> 1 \<or> external_symbol_count \<noteq> 1
               then fail (GE_SharedArm (parser_index + 1) external_symbol_count)
               else pass (GENERATED_TOKEN_TO_SYMBOL_END @ rest)))"

definition verify_shared_external_token_symbols :: "ustr \<Rightarrow> (post_error, unit) run" where
  "verify_shared_external_token_symbols contents =
     (let function_count = match_count GENERATED_TOKEN_TO_SYMBOL_START contents in
      if function_count \<noteq> GENERATED_PARSER_COUNT then fail (GE_SharedSites function_count)
      else run_then (fold_run shared_symbol_round [0..<GENERATED_PARSER_COUNT] contents) (\<lambda>_. pass ()))"

section \<open>The replacements\<close>

definition replacements :: "(ustr \<times> ustr \<times> ustr) list" where
  "replacements = [
     (ascii ''token-index contextual marker'', TOKEN_TO_INDEX, CONTEXTUAL_TOKEN_TO_INDEX),
     (ascii ''contextual identifier fallback action'', PARSER_ACTION, CONTEXTUAL_PARSER_ACTION),
     (ascii ''contextual token-index decoding'', TOKEN_TO_SYMBOL, CONTEXTUAL_TOKEN_TO_SYMBOL)]"

definition replace_sites :: "ustr \<times> ustr \<times> ustr \<Rightarrow> ustr \<Rightarrow> (post_error, ustr) run" where
  "replace_sites = (\<lambda>(description, original, replacement) contents.
     let matches = match_count original contents in
     if matches \<noteq> GENERATED_PARSER_COUNT then fail (GE_Sites description matches)
     else pass (str_replace original replacement contents))"

definition postprocess_contextual_names :: "ustr \<Rightarrow> (post_error, ustr) run" where
  "postprocess_contextual_names contents =
     run_then (verify_shared_external_token_symbols contents)
       (\<lambda>_. fold_run replace_sites replacements contents)"

section \<open>Occurrences do not touch texts that are apart\<close>

lemma split_once_None: "d \<noteq> [] \<Longrightarrow> split_once d s = None \<longleftrightarrow> \<not> sublist d s"
  by (induction d s rule: split_once.induct)
     (auto simp: sublist_Cons_right prefix_def strip_prefix_Some_iff split: option.splits
       dest: strip_prefix_Some_iff [THEN iffD2] )

text \<open>The first occurrence: no other one ends before it does.\<close>

lemma butlast_shorter: "d \<noteq> [] \<Longrightarrow> \<not> sublist d (butlast d)"
  by (auto dest!: sublist_length_le) (cases d; simp)

lemma split_once_first:
  "d \<noteq> [] \<Longrightarrow> split_once d s = Some (x, y) \<Longrightarrow> \<not> sublist d (x @ butlast d)"
proof (induction d s arbitrary: x rule: split_once.induct)
  case (2 d c s)
  show ?case
  proof (cases "strip_prefix d (c # s)")
    case None
    from 2(3) None obtain a where a: "x = c # a" and rec: "split_once d s = Some (a, y)"
      by auto
    have "prefix (c # a @ butlast d) (c # s)"
      using split_once_Some [OF rec] 2(2) by (simp add: prefix_def) (metis append.assoc append_butlast_last_id)
    moreover have "\<not> prefix d (c # s)"
      using None by (metis option.distinct(1) prefixE strip_prefix_Some_iff)
    ultimately have "\<not> prefix d (c # a @ butlast d)" using prefix_order.order_trans by blast
    with 2(1) [OF None 2(2) rec] show ?thesis unfolding a by (simp add: sublist_Cons_right)
  next
    case (Some r)
    with 2 show ?thesis by (simp add: butlast_shorter)
  qed
qed simp

lemma first_unique:
  assumes "x @ d @ y = u @ d @ v" and "\<not> sublist d (u @ butlast d)" and "d \<noteq> []"
  shows "length u \<le> length x"
proof (rule ccontr)
  assume "\<not> length u \<le> length x"
  then have shorter: "length (x @ d) \<le> length (u @ butlast d)" using assms(3) by (cases d) auto
  have "prefix (u @ butlast d) (u @ d @ v)"
    using append_butlast_last_id [OF assms(3)] by (auto simp: prefix_def) (metis append.assoc)
  moreover have "prefix (x @ d) (u @ d @ v)" using assms(1) [symmetric] by (simp add: prefix_def)
  ultimately have "prefix (x @ d) (u @ butlast d)" using shorter prefix_length_prefix by blast
  then have "sublist d (u @ butlast d)" by (auto simp: prefix_def sublist_def)
  with assms(2) show False by contradiction
qed

lemma split_once_iff:
  assumes "d \<noteq> []"
  shows "split_once d s = Some (x, y) \<longleftrightarrow> s = x @ d @ y \<and> \<not> sublist d (x @ butlast d)"
proof
  assume "split_once d s = Some (x, y)"
  then show "s = x @ d @ y \<and> \<not> sublist d (x @ butlast d)"
    using split_once_Some split_once_first [OF assms] by blast
next
  assume s: "s = x @ d @ y \<and> \<not> sublist d (x @ butlast d)"
  then have "sublist d s" by auto
  with assms obtain u v where uv: "split_once d s = Some (u, v)"
    using split_once_None [of d s] by (cases "split_once d s") auto
  then have eq: "x @ d @ y = u @ d @ v" and "\<not> sublist d (u @ butlast d)"
    using s split_once_Some split_once_first [OF assms] by blast+
  then have "length u = length x"
    using first_unique [OF eq _ assms] first_unique [OF eq [symmetric] _ assms] s by fastforce
  with eq uv show "split_once d s = Some (x, y)" by simp
qed

section \<open>Texts that are apart\<close>

text \<open>No occurrence of the first text shares a character with an occurrence of the second.\<close>

definition apart :: "ustr \<Rightarrow> ustr \<Rightarrow> bool" where
  "apart p r \<longleftrightarrow> p \<noteq> [] \<and> \<not> sublist p r \<and> \<not> sublist r p \<and>
     (\<forall>x. x \<noteq> [] \<longrightarrow> prefix x p \<longrightarrow> \<not> suffix x r) \<and> (\<forall>x. x \<noteq> [] \<longrightarrow> suffix x p \<longrightarrow> \<not> prefix x r)"

lemma apart_sublist_right:
  assumes "apart p r"
  shows "sublist p (r @ b) \<longleftrightarrow> sublist p b"
proof
  assume "sublist p (r @ b)"
  then consider "sublist p b" | u v where "p = u @ v" and "suffix u r" and "prefix v b"
    using assms unfolding sublist_append apart_def by blast
  then show "sublist p b"
  proof cases
    case 2
    then have "u = []" using assms unfolding apart_def by (meson prefixI)
    with 2 show ?thesis by auto
  qed
qed (auto simp: sublist_append)

lemma apart_sublist:
  assumes "apart p r"
  shows "sublist p (a @ r @ b) \<longleftrightarrow> sublist p a \<or> sublist p b"
proof
  assume "sublist p (a @ r @ b)"
  then consider "sublist p a" | "sublist p (r @ b)" | u v where "p = u @ v" and "suffix u a" and "prefix v (r @ b)"
    unfolding sublist_append [of p a] by blast
  then show "sublist p a \<or> sublist p b"
  proof cases
    case 2
    then show ?thesis using apart_sublist_right [OF assms] by blast
  next
    case 3
    from 3(3) consider "prefix v r" | w where "v = r @ w" unfolding prefix_append by blast
    then show ?thesis
    proof cases
      case 1
      then have "v = []" using assms 3(1) unfolding apart_def by (meson suffixI)
      with 3 show ?thesis by auto
    next
      case 2
      then have "sublist r p" using 3(1) by (auto simp: sublist_def)
      then show ?thesis using assms unfolding apart_def by blast
    qed
  qed auto
qed (auto simp: sublist_append)

lemma split_once_apart:
  assumes "apart p r"
  shows "split_once p (a @ r @ b) =
    (case split_once p a of
       Some (x, y) \<Rightarrow> Some (x, y @ r @ b)
     | None \<Rightarrow> map_option (\<lambda>(x, y). (a @ r @ x, y)) (split_once p b))"
proof -
  have p: "p \<noteq> []" using assms unfolding apart_def by blast
  show ?thesis
  proof (cases "split_once p a")
    case None
    show ?thesis
    proof (cases "split_once p b")
      case None
      with \<open>split_once p a = None\<close> have "split_once p (a @ r @ b) = None"
        by (simp add: split_once_None [OF p] apart_sublist [OF assms])
      with None \<open>split_once p a = None\<close> show ?thesis by simp
    next
      case (Some xy)
      then obtain x y where xy: "split_once p b = Some (x, y)" by (cases xy) simp
      then have "split_once p (a @ r @ b) = Some (a @ r @ x, y)"
        using None by (simp add: split_once_iff [OF p] split_once_None [OF p] apart_sublist [OF assms])
      with None xy show ?thesis by simp
    qed
  next
    case (Some xy)
    then obtain x y where xy: "split_once p a = Some (x, y)" by (cases xy) simp
    then have "split_once p (a @ r @ b) = Some (x, y @ r @ b)" by (auto simp: split_once_iff [OF p])
    with xy show ?thesis by simp
  qed
qed

section \<open>Counts\<close>

lemma length_pieces_pos: "0 < length (pieces d s)"
  by (subst pieces.simps) (auto split: option.splits)

lemma match_count_None: "d \<noteq> [] \<Longrightarrow> split_once d s = None \<Longrightarrow> match_count d s = 0"
  by (simp add: match_count_def pieces.simps)

lemma match_count_Some: "d \<noteq> [] \<Longrightarrow> split_once d s = Some (x, y) \<Longrightarrow> match_count d s = Suc (match_count d y)"
  using length_pieces_pos [of d y] by (simp add: match_count_def pieces.simps [of d s])

lemma match_count_0: "d \<noteq> [] \<Longrightarrow> \<not> sublist d s \<Longrightarrow> match_count d s = 0"
  by (simp add: match_count_None split_once_None)

lemma match_count_apart:
  assumes "apart p r"
  shows "match_count p (a @ r @ b) = match_count p a + match_count p b"
proof -
  have p: "p \<noteq> []" using assms unfolding apart_def by blast
  show ?thesis
  proof (induction a rule: length_induct)
    case (1 a)
    show ?case
    proof (cases "split_once p a")
      case None
      have whole: "split_once p (a @ r @ b) = map_option (\<lambda>(x, y). (a @ r @ x, y)) (split_once p b)"
        by (simp add: split_once_apart [OF assms] None)
      show ?thesis
      proof (cases "split_once p b")
        case None
        with whole \<open>split_once p a = None\<close> show ?thesis by (simp add: match_count_None [OF p])
      next
        case (Some xy)
        then obtain x y where xy: "split_once p b = Some (x, y)" by (cases xy) simp
        with whole None show ?thesis
          by (simp add: match_count_None [OF p] match_count_Some [OF p])
      qed
    next
      case (Some xy)
      then obtain x y where xy: "split_once p a = Some (x, y)" by (cases xy) simp
      then have "length y < length a" using split_once_Some [OF xy] p by simp
      with 1 have "match_count p (y @ r @ b) = match_count p y + match_count p b" by blast
      moreover have "split_once p (a @ r @ b) = Some (x, y @ r @ b)"
        by (simp add: split_once_apart [OF assms] xy)
      ultimately show ?thesis using xy by (simp add: match_count_Some [OF p])
    qed
  qed
qed

lemma match_count_join:
  assumes "apart p r"
  shows "match_count p (join r xs) = sum_list (map (match_count p) xs)"
proof -
  have "match_count p [] = 0" using assms by (simp add: apart_def match_count_0)
  then show ?thesis
  proof (induction xs)
    case (Cons x xs)
    then show ?case by (cases xs) (simp_all add: match_count_apart [OF assms])
  qed simp
qed

lemma join_pieces: "d \<noteq> [] \<Longrightarrow> join d (pieces d s) = s"
proof (induction d s rule: pieces.induct)
  case (1 d s)
  show ?case
  proof (cases "split_once d s")
    case None
    with 1(2) show ?thesis by (simp add: pieces.simps)
  next
    case (Some xy)
    then obtain x y where xy: "split_once d s = Some (x, y)" by (cases xy) simp
    then have "join d (pieces d y) = y" using 1 by blast
    moreover have "join d (x # pieces d y) = x @ d @ join d (pieces d y)"
      using length_pieces_pos [of d y] by (cases "pieces d y") simp_all
    ultimately show ?thesis
      using split_once_Some [OF xy] 1(2) xy by (subst pieces.simps) simp
  qed
qed

lemma pieces_free: "d \<noteq> [] \<Longrightarrow> x \<in> set (pieces d s) \<Longrightarrow> \<not> sublist d x"
proof (induction d s rule: pieces.induct)
  case (1 d s)
  show ?case
  proof (cases "split_once d s")
    case None
    with 1(2,3) show ?thesis
      using split_once_None [of d s] by (simp add: pieces.simps [of d s])
  next
    case (Some xy)
    then obtain u v where uv: "split_once d s = Some (u, v)" by (cases xy) simp
    with 1(2,3) consider "x = u" | "x \<in> set (pieces d v)" by (auto simp: pieces.simps [of d s])
    then show ?thesis
    proof cases
      case 1
      have "\<not> sublist d (u @ butlast d)" using split_once_first uv \<open>d \<noteq> []\<close> by blast
      then show ?thesis unfolding 1 by (auto simp: sublist_append)
    next
      case 2
      show ?thesis using 1(1) [OF 1(2) uv refl 1(2) 2] by simp
    qed
  qed
qed

text \<open>A replacement leaves the counts of texts that are apart from both of its texts, and none of its own.\<close>

lemma match_count_replace:
  assumes "apart p d" and "apart p r" and "d \<noteq> []"
  shows "match_count p (str_replace d r s) = match_count p s"
proof -
  have "match_count p (str_replace d r s) = sum_list (map (match_count p) (pieces d s))"
    unfolding str_replace_def by (rule match_count_join [OF assms(2)])
  also have "\<dots> = match_count p (join d (pieces d s))"
    by (rule match_count_join [OF assms(1), symmetric])
  finally show ?thesis by (simp add: join_pieces [OF assms(3)])
qed

lemma match_count_replaced:
  assumes "apart d r"
  shows "match_count d (str_replace d r s) = 0"
proof -
  have d: "d \<noteq> []" using assms by (simp add: apart_def)
  have "match_count d x = 0" if "x \<in> set (pieces d s)" for x
    using pieces_free [OF d that] d by (simp add: match_count_0)
  then show ?thesis unfolding str_replace_def match_count_join [OF assms] by simp
qed

section \<open>The texts of methods are apart\<close>

text \<open>
  The six texts are methods: eight blanks, \<open>fn\<close> and a blank, which occurs nowhere else in them, and a
  closing brace at the end. The texts that are looked for have only that closing brace.
\<close>

definition method_head :: ustr where
  "method_head = [32, 32, 32, 32, 32, 32, 32, 32, 102, 110, 32]"

definition method_text :: "ustr \<Rightarrow> bool" where
  "method_text t \<longleftrightarrow>
     prefix method_head t \<and> \<not> sublist [32, 102, 110, 32] (drop 8 t) \<and> last t = 125"

definition simple_method :: "ustr \<Rightarrow> bool" where
  "simple_method t \<longleftrightarrow> method_text t \<and> 125 \<notin> set (butlast t)"

lemma method_start:
  assumes "method_text t"
  shows "\<not> sublist method_head (tl t)"
proof
  assume occ: "sublist method_head (tl t)"
  from assms obtain u where t: "t = method_head @ u" by (auto simp: method_text_def prefix_def)
  from assms have free: "\<not> sublist [32, 102, 110, 32] (102 # 110 # 32 # u)"
    by (simp add: method_text_def t method_head_def)
  have "sublist [32, 102, 110, 32] method_head" by (simp add: method_head_def sublist_Cons_right)
  with free have "\<not> sublist method_head (102 # 110 # 32 # u)" using sublist_order.order_trans by blast
  with occ show False
    unfolding t by (simp add: method_head_def sublist_Cons_right)
qed

lemma method_occurs:
  assumes "method_text t" and "prefix method_head p"
  shows "sublist p t \<longleftrightarrow> prefix p t"
proof
  assume "sublist p t"
  moreover have "\<not> sublist p (tl t)"
    using method_start [OF assms(1)] assms(2) sublist_order.order_trans prefix_imp_sublist by blast
  ultimately show "prefix p t" by (cases t) (auto simp: sublist_Cons_right)
qed auto

lemma simple_apart:
  assumes "simple_method p" and "method_text r" and "\<not> prefix p r" and "\<not> prefix r p"
  shows "apart p r"
  unfolding apart_def
proof (intro conjI allI impI)
  have heads: "prefix method_head p" "prefix method_head r"
    using assms by (auto simp: simple_method_def method_text_def)
  then show "p \<noteq> []" by (auto simp: method_head_def)
  show "\<not> sublist p r" using method_occurs [OF assms(2) heads(1)] assms(3) by blast
  show "\<not> sublist r p"
    using method_occurs [OF _ heads(2), of p] assms(1,4) by (auto simp: simple_method_def)
  fix x :: ustr
  assume x: "x \<noteq> []"
  show "\<not> suffix x r" if "prefix x p"
  proof
    assume "suffix x r"
    then have "last x = 125" using x assms(2) by (auto simp: suffix_def method_text_def)
    moreover from that obtain y where y: "p = x @ y" by (auto simp: prefix_def)
    ultimately have "y = []"
      using x assms(1) by (cases y) (auto simp: simple_method_def butlast_append dest: last_in_set)
    then have "sublist p r" using y \<open>suffix x r\<close> by auto
    with \<open>\<not> sublist p r\<close> show False by contradiction
  qed
  show "\<not> prefix x r" if "suffix x p"
  proof
    assume xr: "prefix x r"
    have "x \<noteq> p" using xr assms(3) by blast
    with that have "suffix x (tl p)" by (cases p) (auto simp: suffix_Cons)
    have "last x = 125"
      using that x assms(1) by (auto simp: suffix_def simple_method_def method_text_def)
    from xr heads(2) consider "prefix x method_head" | "prefix method_head x"
      using prefix_same_cases by blast
    then show False
    proof cases
      case 1
      then have "last x \<in> set method_head" using x by (metis last_in_set set_mono_prefix subsetD)
      with \<open>last x = 125\<close> show False by (simp add: method_head_def)
    next
      case 2
      then have "sublist method_head (tl p)"
        using \<open>suffix x (tl p)\<close> sublist_order.order_trans prefix_imp_sublist suffix_imp_sublist by blast
      then show False using method_start assms(1) by (simp add: simple_method_def)
    qed
  qed
qed

lemmas method_texts =
  TOKEN_TO_INDEX_def CONTEXTUAL_TOKEN_TO_INDEX_def PARSER_ACTION_def CONTEXTUAL_PARSER_ACTION_def
  TOKEN_TO_SYMBOL_def CONTEXTUAL_TOKEN_TO_SYMBOL_def

lemma simple_methods: "list_all simple_method [TOKEN_TO_INDEX, PARSER_ACTION, TOKEN_TO_SYMBOL]"
  by (simp add: method_texts simple_method_def method_text_def method_head_def sublist_Cons_right)

lemma sublist_lines:
  assumes "10 \<notin> set p" and "p \<noteq> []"
  shows "sublist p (join [10] ls) \<longleftrightarrow> (\<exists>l\<in>set ls. sublist p l)"
proof -
  have "apart p [10]"
    using assms by (auto simp: apart_def sublist_Cons_right prefix_Cons suffix_Cons dest: set_mono_prefix set_mono_suffix set_mono_sublist)
  then show ?thesis
  proof (induction ls)
    case (Cons l ls)
    then show ?case by (cases ls) (simp_all only: join.simps apart_sublist, auto)
  qed (simp add: assms(2))
qed

lemma last_join: "ls \<noteq> [] \<Longrightarrow> last ls \<noteq> [] \<Longrightarrow> join d ls \<noteq> [] \<and> last (join d ls) = last (last ls)"
proof (induction ls)
  case (Cons l ls)
  then show ?case by (cases ls) auto
qed simp

lemma method_of_lines:
  assumes "prefix method_head l" and "\<not> sublist [32, 102, 110, 32] (drop 8 l)"
    and "list_all (\<lambda>l. \<not> sublist [32, 102, 110, 32] l) ls" and "last (l # ls) = ascii ''        }''"
  shows "method_text (join [10] (l # ls))"
proof -
  from assms(1) have "prefix method_head (join [10] (l # ls))" by (cases ls) (auto intro: prefix_prefix)
  moreover have "drop 8 (join [10] (l # ls)) = join [10] (drop 8 l # ls)"
    using assms(1) by (cases ls) (auto simp: method_head_def prefix_def)
  moreover have "last (join [10] (l # ls)) = 125" using last_join [of "l # ls" "[10]"] assms(4) by simp
  ultimately show ?thesis
    using assms(2,3) by (simp add: method_text_def sublist_lines list_all_iff)
qed

lemma contextual_index_method: "method_text CONTEXTUAL_TOKEN_TO_INDEX"
  unfolding CONTEXTUAL_TOKEN_TO_INDEX_def
  by (rule method_of_lines; (simp only: last.simps list.distinct if_False if_True)?)
    (simp_all add: method_head_def sublist_Cons_right)

lemma contextual_action_method: "method_text CONTEXTUAL_PARSER_ACTION"
  unfolding CONTEXTUAL_PARSER_ACTION_def
  by (rule method_of_lines; (simp only: last.simps list.distinct if_False if_True)?)
    (simp_all add: method_head_def sublist_Cons_right)

lemma contextual_symbol_method: "method_text CONTEXTUAL_TOKEN_TO_SYMBOL"
  unfolding CONTEXTUAL_TOKEN_TO_SYMBOL_def
  by (rule method_of_lines; (simp only: last.simps list.distinct if_False if_True)?)
    (simp_all add: method_head_def sublist_Cons_right)

lemmas contextual_methods = contextual_index_method contextual_action_method contextual_symbol_method

lemma index_common:
  "ascii ''            __token_to_integer(token, core::marker::PhantomData::<(&())>).map(|integer| {'' =
   ascii ''            __token_to_integer(token, core::marker::PhantomData::<(&())>)'' @ ascii ''.map(|integer| {''"
  by simp

lemma index_differ:
  "\<not> prefix TOKEN_TO_INDEX CONTEXTUAL_TOKEN_TO_INDEX" "\<not> prefix CONTEXTUAL_TOKEN_TO_INDEX TOKEN_TO_INDEX"
  unfolding TOKEN_TO_INDEX_def CONTEXTUAL_TOKEN_TO_INDEX_def join.simps index_common append.assoc
    same_prefix_prefix
  by simp_all

lemma action_differ:
  "\<not> prefix PARSER_ACTION CONTEXTUAL_PARSER_ACTION" "\<not> prefix CONTEXTUAL_PARSER_ACTION PARSER_ACTION"
  by (simp_all add: PARSER_ACTION_def CONTEXTUAL_PARSER_ACTION_def)

lemma symbol_differ:
  "\<not> prefix TOKEN_TO_SYMBOL CONTEXTUAL_TOKEN_TO_SYMBOL" "\<not> prefix CONTEXTUAL_TOKEN_TO_SYMBOL TOKEN_TO_SYMBOL"
  by (simp_all add: TOKEN_TO_SYMBOL_def CONTEXTUAL_TOKEN_TO_SYMBOL_def)

text \<open>The first characters of the name tell the three methods apart.\<close>

lemma method_names:
  "prefix (method_head @ ascii ''token_to_i'') TOKEN_TO_INDEX"
  "prefix (method_head @ ascii ''token_to_i'') CONTEXTUAL_TOKEN_TO_INDEX"
  "prefix (method_head @ ascii ''action(&se'') PARSER_ACTION"
  "prefix (method_head @ ascii ''action(&se'') CONTEXTUAL_PARSER_ACTION"
  "prefix (method_head @ ascii ''token_to_s'') TOKEN_TO_SYMBOL"
  "prefix (method_head @ ascii ''token_to_s'') CONTEXTUAL_TOKEN_TO_SYMBOL"
  by (simp_all add: method_texts method_head_def)

lemma prefix_differ:
  assumes "prefix u p" and "prefix v r" and "length u = length v" and "u \<noteq> v"
  shows "\<not> prefix p r"
  using assms by (auto simp: prefix_def append_eq_append_conv)

lemma named_apart:
  assumes "simple_method p" and "method_text r"
    and "prefix (method_head @ u) p" and "prefix (method_head @ v) r" and "length u = length v" and "u \<noteq> v"
  shows "apart p r"
proof (rule simple_apart [OF assms(1,2)])
  show "\<not> prefix p r" using prefix_differ [OF assms(3,4)] assms(5,6) by simp
  show "\<not> prefix r p" using prefix_differ [OF assms(4,3)] assms(5,6) by simp
qed

lemma method_apart:
  "apart TOKEN_TO_INDEX PARSER_ACTION" "apart TOKEN_TO_INDEX CONTEXTUAL_PARSER_ACTION"
  "apart TOKEN_TO_INDEX TOKEN_TO_SYMBOL" "apart TOKEN_TO_INDEX CONTEXTUAL_TOKEN_TO_SYMBOL"
  "apart PARSER_ACTION TOKEN_TO_INDEX" "apart PARSER_ACTION CONTEXTUAL_TOKEN_TO_INDEX"
  "apart PARSER_ACTION TOKEN_TO_SYMBOL" "apart PARSER_ACTION CONTEXTUAL_TOKEN_TO_SYMBOL"
  "apart TOKEN_TO_SYMBOL TOKEN_TO_INDEX" "apart TOKEN_TO_SYMBOL CONTEXTUAL_TOKEN_TO_INDEX"
  "apart TOKEN_TO_SYMBOL PARSER_ACTION" "apart TOKEN_TO_SYMBOL CONTEXTUAL_PARSER_ACTION"
  using simple_methods contextual_methods
  by (auto intro!: named_apart intro: method_names simp: simple_method_def)

lemma contextual_apart:
  "apart TOKEN_TO_INDEX CONTEXTUAL_TOKEN_TO_INDEX" "apart PARSER_ACTION CONTEXTUAL_PARSER_ACTION"
  "apart TOKEN_TO_SYMBOL CONTEXTUAL_TOKEN_TO_SYMBOL"
  using simple_methods contextual_methods index_differ action_differ symbol_differ by (auto intro!: simple_apart)

lemma method_nonempty: "TOKEN_TO_INDEX \<noteq> []" "PARSER_ACTION \<noteq> []" "TOKEN_TO_SYMBOL \<noteq> []"
  using contextual_apart by (auto simp: apart_def)

section \<open>The rewriting\<close>

definition rewritten :: "ustr \<Rightarrow> ustr" where
  "rewritten contents =
     str_replace TOKEN_TO_SYMBOL CONTEXTUAL_TOKEN_TO_SYMBOL
       (str_replace PARSER_ACTION CONTEXTUAL_PARSER_ACTION
         (str_replace TOKEN_TO_INDEX CONTEXTUAL_TOKEN_TO_INDEX contents))"

definition sites :: "ustr \<Rightarrow> nat list" where
  "sites contents = map (\<lambda>t. match_count t contents) [TOKEN_TO_INDEX, PARSER_ACTION, TOKEN_TO_SYMBOL]"

lemma rewritten_sites: "sites (rewritten contents) = [0, 0, 0]"
  by (simp add: sites_def rewritten_def match_count_replace match_count_replaced method_apart
      contextual_apart method_nonempty)

lemma postprocess_passes:
  "postprocess_contextual_names contents = Some (Inr t) \<longleftrightarrow>
   verify_shared_external_token_symbols contents = Some (Inr ()) \<and> sites contents = [5, 5, 5] \<and> t = rewritten contents"
  unfolding postprocess_contextual_names_def run_then_pass
  by (auto simp: replacements_def replace_sites_def Let_def sites_def rewritten_def
      GENERATED_PARSER_COUNT_def match_count_replace method_apart method_nonempty split: if_splits)

text \<open>
  C24: the rewriting passes exactly when the check of the token symbols passes and the given text has each of the
  three methods five times; a count is not changed by the replacements before it. The result is
  the three replacements, has none of the three methods left, and is never accepted again.
\<close>

theorem postprocess_contextual_names_iff:
  "(postprocess_contextual_names contents = Some (Inr t) \<longleftrightarrow>
      verify_shared_external_token_symbols contents = Some (Inr ()) \<and> sites contents = [5, 5, 5] \<and>
      t = rewritten contents) \<and>
   sites (rewritten contents) = [0, 0, 0] \<and>
   postprocess_contextual_names (rewritten contents) \<noteq> Some (Inr u)"
  using postprocess_passes [of contents t] postprocess_passes [of "rewritten contents" u]
    rewritten_sites [of contents] by simp

section \<open>A text that passes, and one that panics\<close>

definition token_symbol_site :: ustr where
  "token_symbol_site =
     GENERATED_TOKEN_TO_SYMBOL_START @ SHARED_EXTERNAL_TOKEN_SYMBOL @ GENERATED_TOKEN_TO_SYMBOL_END"

definition method_site :: ustr where
  "method_site = TOKEN_TO_INDEX @ PARSER_ACTION @ TOKEN_TO_SYMBOL"

lemmas marker_defs =
  GENERATED_TOKEN_TO_SYMBOL_START_def GENERATED_TOKEN_TO_SYMBOL_END_def SHARED_EXTERNAL_TOKEN_SYMBOL_def

lemma split_once_self: "d \<noteq> [] \<Longrightarrow> split_once d (d @ y) = Some ([], y)"
  by (simp add: split_once_iff butlast_shorter)

lemma start_nonempty: "GENERATED_TOKEN_TO_SYMBOL_START \<noteq> []"
  by (simp add: marker_defs)

lemma shared_body:
  "match_count SHARED_EXTERNAL_TOKEN_SYMBOL SHARED_EXTERNAL_TOKEN_SYMBOL = 1"
  "match_count (ascii ''__Symbol::Variant'') SHARED_EXTERNAL_TOKEN_SYMBOL = 1"
  by (simp_all add: marker_defs match_count_def pieces.simps)

lemma end_after_body:
  "split_once GENERATED_TOKEN_TO_SYMBOL_END (SHARED_EXTERNAL_TOKEN_SYMBOL @ GENERATED_TOKEN_TO_SYMBOL_END @ rest) =
   Some (SHARED_EXTERNAL_TOKEN_SYMBOL, rest)"
  by (simp add: marker_defs)

lemma start_after_end:
  "split_once GENERATED_TOKEN_TO_SYMBOL_START (GENERATED_TOKEN_TO_SYMBOL_END @ GENERATED_TOKEN_TO_SYMBOL_START @ rest) =
   Some (GENERATED_TOKEN_TO_SYMBOL_END, rest)"
  by (simp add: marker_defs)

lemma round_of_site:
  "shared_symbol_round i (token_symbol_site @ rest) = pass (GENERATED_TOKEN_TO_SYMBOL_END @ rest)"
  "shared_symbol_round i (GENERATED_TOKEN_TO_SYMBOL_END @ token_symbol_site @ rest) =
   pass (GENERATED_TOKEN_TO_SYMBOL_END @ rest)"
  by (simp_all add: shared_symbol_round_def token_symbol_site_def split_once_self start_nonempty
      end_after_body start_after_end shared_body Let_def del: ascii_simps)

lemma apartI:
  assumes "p \<noteq> []" and "r \<noteq> []" and "\<not> sublist p r" and "\<not> sublist r p"
    and "last r \<notin> set (take (length r) (butlast p))" and "last p \<notin> set (take (length p) r)"
  shows "apart p r"
  unfolding apart_def
proof (intro conjI allI impI)
  fix x :: ustr
  assume x: "x \<noteq> []"
  show "\<not> suffix x r" if "prefix x p"
  proof
    assume "suffix x r"
    then have "last x = last r" using x by (auto simp: suffix_def)
    moreover have "x \<noteq> p" using \<open>suffix x r\<close> assms(3) by auto
    with that have "prefix x (butlast p)"
      using assms(1) by (metis append_butlast_last_id prefix_snoc)
    moreover have "length x \<le> length r" using \<open>suffix x r\<close> by (rule suffix_length_le)
    ultimately have "set x \<subseteq> set (take (length r) (butlast p))" and "last x = last r"
      by (auto simp: prefix_def)
    then show False using x assms(5) by (metis last_in_set subsetD)
  qed
  show "\<not> prefix x r" if "suffix x p"
  proof
    assume "prefix x r"
    moreover have "length x \<le> length p" using that by (rule suffix_length_le)
    ultimately have "set x \<subseteq> set (take (length p) r)" by (auto simp: prefix_def)
    moreover have "last x = last p" using that x by (auto simp: suffix_def)
    ultimately show False using x assms(6) by (metis last_in_set subsetD)
  qed
qed (use assms in auto)

lemma start_apart_site_rest:
  "apart GENERATED_TOKEN_TO_SYMBOL_START (SHARED_EXTERNAL_TOKEN_SYMBOL @ GENERATED_TOKEN_TO_SYMBOL_END)"
  by (rule apartI; simp add: marker_defs sublist_Cons_right)

lemma start_apart_method:
  "apart GENERATED_TOKEN_TO_SYMBOL_START TOKEN_TO_INDEX" "apart GENERATED_TOKEN_TO_SYMBOL_START PARSER_ACTION"
  "apart GENERATED_TOKEN_TO_SYMBOL_START TOKEN_TO_SYMBOL"
  by (rule apartI; simp add: marker_defs method_texts sublist_Cons_right)+

lemma match_count_self: "d \<noteq> [] \<Longrightarrow> match_count d (d @ y) = Suc (match_count d y)"
  by (simp add: match_count_Some split_once_self)

lemma match_count_Nil: "d \<noteq> [] \<Longrightarrow> match_count d [] = 0"
  by (simp add: match_count_0)

lemma count_site:
  "match_count GENERATED_TOKEN_TO_SYMBOL_START (token_symbol_site @ rest) =
   Suc (match_count GENERATED_TOKEN_TO_SYMBOL_START rest)"
proof -
  have "split_once GENERATED_TOKEN_TO_SYMBOL_START (token_symbol_site @ rest) =
      Some ([], (SHARED_EXTERNAL_TOKEN_SYMBOL @ GENERATED_TOKEN_TO_SYMBOL_END) @ rest)"
    by (simp add: token_symbol_site_def split_once_self start_nonempty)
  from match_count_Some [OF start_nonempty this] show ?thesis
    by (simp only: match_count_apart [OF start_apart_site_rest, of "[]", unfolded append_Nil]
        match_count_Nil [OF start_nonempty] add_0)
qed

text \<open>
  Two start markers before the first end marker: the count is five, but the loop finds four
  functions, and the fifth round panics instead of reporting that the layout changed.
\<close>

lemma shared_symbol_check_panics:
  "verify_shared_external_token_symbols
     (GENERATED_TOKEN_TO_SYMBOL_START @ concat (replicate 4 token_symbol_site)) = None"
proof -
  define body where "body = GENERATED_TOKEN_TO_SYMBOL_START @ SHARED_EXTERNAL_TOKEN_SYMBOL"
  have body: "match_count SHARED_EXTERNAL_TOKEN_SYMBOL body = 1"
      "match_count (ascii ''__Symbol::Variant'') body = 1"
    by (simp_all add: body_def marker_defs match_count_def pieces.simps)
  have first: "split_once GENERATED_TOKEN_TO_SYMBOL_END (token_symbol_site @ rest) = Some (body, rest)" for rest
    by (simp add: body_def token_symbol_site_def marker_defs)
  have "shared_symbol_round 0 (GENERATED_TOKEN_TO_SYMBOL_START @ token_symbol_site @ rest) =
      pass (GENERATED_TOKEN_TO_SYMBOL_END @ rest)" for rest
    by (simp add: shared_symbol_round_def split_once_self start_nonempty first body Let_def
        del: ascii_simps)
  moreover have "split_once GENERATED_TOKEN_TO_SYMBOL_START GENERATED_TOKEN_TO_SYMBOL_END = None"
    by (simp add: marker_defs)
  then have "shared_symbol_round 4 GENERATED_TOKEN_TO_SYMBOL_END = None"
    by (simp add: shared_symbol_round_def)
  ultimately show ?thesis
    using round_of_site(2) [of 3 "[]"] count_site [of "[]"]
    by (simp add: verify_shared_external_token_symbols_def GENERATED_PARSER_COUNT_def numeral_eq_Suc
        match_count_self count_site match_count_Nil start_nonempty round_of_site upt_rec)
qed

lemma sites_of_methods: "sites (concat (replicate 5 method_site) @ concat (replicate 5 token_symbol_site)) = [5, 5, 5]"
proof -
  define rest where "rest = concat (replicate 5 token_symbol_site)"
  have "\<not> sublist (ascii ''fn t'') rest" "\<not> sublist (ascii ''fn a'') rest"
    by (simp_all add: rest_def token_symbol_site_def marker_defs numeral_eq_Suc sublist_Cons_right)
  moreover have "sublist (ascii ''fn t'') TOKEN_TO_INDEX" "sublist (ascii ''fn a'') PARSER_ACTION"
      "sublist (ascii ''fn t'') TOKEN_TO_SYMBOL"
    by (simp_all add: method_texts sublist_Cons_right)
  ultimately have "\<not> sublist TOKEN_TO_INDEX rest" "\<not> sublist PARSER_ACTION rest" "\<not> sublist TOKEN_TO_SYMBOL rest"
    using sublist_order.order_trans by blast+
  then have "sites rest = [0, 0, 0]" by (simp add: sites_def match_count_0 method_nonempty)
  moreover have "sites (method_site @ r) = map Suc (sites r)" for r
    using method_apart [THEN match_count_apart, of "[]"]
    by (simp add: sites_def method_site_def match_count_self match_count_Nil method_nonempty)
  ultimately show ?thesis by (simp add: rest_def numeral_eq_Suc)
qed

lemma round_apart:
  "apart GENERATED_TOKEN_TO_SYMBOL_START r \<Longrightarrow> shared_symbol_round i (r @ b) = shared_symbol_round i b"
  using split_once_apart [of GENERATED_TOKEN_TO_SYMBOL_START r "[]" b] start_nonempty
  by (cases "split_once GENERATED_TOKEN_TO_SYMBOL_START b") (auto simp: shared_symbol_round_def)

lemma match_count_skip: "apart p r \<Longrightarrow> match_count p (r @ b) = match_count p b"
  using match_count_apart [of p r "[]" b] by (simp add: match_count_Nil apart_def)

lemma verify_skip:
  "apart GENERATED_TOKEN_TO_SYMBOL_START r \<Longrightarrow>
   verify_shared_external_token_symbols (r @ b) = verify_shared_external_token_symbols b"
  unfolding verify_shared_external_token_symbols_def GENERATED_PARSER_COUNT_def upt_rec [of 0 5]
  by (simp add: match_count_skip round_apart cong: if_cong)

text \<open>The sites of the source's own test pass.\<close>

definition test_sites :: ustr where
  "test_sites = concat (replicate 5 method_site) @ concat (replicate 5 token_symbol_site)"

lemma test_sites_verified: "verify_shared_external_token_symbols test_sites = Some (Inr ())"
proof -
  have "verify_shared_external_token_symbols (method_site @ r) = verify_shared_external_token_symbols r" for r
    by (simp add: method_site_def verify_skip start_apart_method)
  then show ?thesis
    using round_of_site(2) [of 4 "[]"] count_site [of "[]"]
    by (simp add: test_sites_def numeral_eq_Suc)
      (simp add: verify_shared_external_token_symbols_def GENERATED_PARSER_COUNT_def numeral_eq_Suc
        count_site match_count_Nil start_nonempty round_of_site upt_rec pass_def)
qed

lemma test_sites_postprocessed:
  "postprocess_contextual_names test_sites = Some (Inr (rewritten test_sites))"
  using sites_of_methods test_sites_verified by (simp add: postprocess_passes test_sites_def)

end
