(* ===== verification/Grammar_Generate.thy ===== *)
theory Grammar_Generate
  imports Grammar_Post
begin

text \<open>
  The commands \<open>grammar generate\<close> and \<open>grammar verify\<close> of \<open>src/xtask/src/grammar.rs\<close>: the parser generator
  makes a text of the grammar, which is formatted, rewritten, formatted again and installed in one step, or
  compared with the text that is checked in. LALRPOP and rustfmt are parameters, and so are the failures of
  the operating system, each named by its step. The staging directories are removed at the end with at most a warning,
  and appear here only through the steps that make them.
\<close>

section \<open>Files and tools\<close>

definition INPUT_FILE :: ustr where
  "INPUT_FILE = ascii ''grammar/cypher.lalrpop''"

definition OUTPUT_FILE :: ustr where
  "OUTPUT_FILE = ascii ''src/generated/cypher.rs''"

definition GENERATED_SPDX_HEADER :: ustr where
  "GENERATED_SPDX_HEADER = ascii ''// SPDX-License-Identifier: Apache-2.0'' @ [10, 10]"

text \<open>The regular files of the repository, by their path.\<close>

type_synonym files = "ustr \<Rightarrow> ustr option"

datatype (plugins only: size) io_step =
  Create_Output_Dir | Clock_Temp | Create_Temp | Read_Checked | Read_Found
| Clock_Staging | Create_Staging | Read_Generated | Write_Header | Read_Formatted | Write_Rewritten
| Read_Final | Metadata | New_Installed | Write_Installed | Set_Permissions | Sync_Installed | Persist

text \<open>A tool gives its message or its text.\<close>

record toolchain =
  lalrpop :: "ustr option \<Rightarrow> ustr + ustr"
  rustfmt :: "ustr \<Rightarrow> ustr + ustr"
  fault :: "io_step \<Rightarrow> ustr option"

datatype (plugins only: size) grammar_error =
  GG_Source_Missing
| GG_Parser_Missing
| GG_Stale
| GG_Io io_step ustr
| GG_Lalrpop ustr
| GG_Rustfmt ustr
| GG_Post post_error

section \<open>Steps\<close>

definition io :: "toolchain \<Rightarrow> io_step \<Rightarrow> (grammar_error, unit) run" where
  "io tools step = (case fault tools step of None \<Rightarrow> pass () | Some e \<Rightarrow> fail (GG_Io step e))"

definition tool :: "(ustr \<Rightarrow> grammar_error) \<Rightarrow> ustr + ustr \<Rightarrow> (grammar_error, ustr) run" where
  "tool err r = (case r of Inl e \<Rightarrow> fail (err e) | Inr t \<Rightarrow> pass t)"

definition post_err :: "(post_error, 'a) run \<Rightarrow> (grammar_error, 'a) run" where
  "post_err m = map_option (map_sum GG_Post id) m"

definition ensure_source :: "files \<Rightarrow> (grammar_error, unit) run" where
  "ensure_source fs = reject_if (fs INPUT_FILE = None) GG_Source_Missing"

text \<open>\<open>generate_into\<close>: the text that it installs as \<open>cypher.rs\<close> in the output directory.\<close>

definition staged_text :: "toolchain \<Rightarrow> files \<Rightarrow> (grammar_error, ustr) run" where
  "staged_text tools fs =
     run_then (tool GG_Lalrpop (lalrpop tools (fs INPUT_FILE))) (\<lambda>contents.
     run_then (io tools Read_Generated) (\<lambda>_.
     run_then
       (if starts_with GENERATED_SPDX_HEADER contents then pass contents
        else run_then (io tools Write_Header) (\<lambda>_. pass (GENERATED_SPDX_HEADER @ contents))) (\<lambda>contents.
     run_then (tool GG_Rustfmt (rustfmt tools contents)) (\<lambda>contents.
     run_then (io tools Read_Formatted) (\<lambda>_.
     run_then (post_err (postprocess_contextual_names contents)) (\<lambda>contents.
     run_then (io tools Write_Rewritten) (\<lambda>_.
     tool GG_Rustfmt (rustfmt tools contents))))))))"

definition generate_into :: "toolchain \<Rightarrow> files \<Rightarrow> (grammar_error, ustr) run" where
  "generate_into tools fs =
     run_then (run_all [io tools Clock_Staging, io tools Create_Staging]) (\<lambda>_.
     run_then (staged_text tools fs) (\<lambda>contents.
     run_then (run_all (map (io tools)
         [Read_Final, Metadata, New_Installed, Write_Installed, Set_Permissions, Sync_Installed, Persist]))
       (\<lambda>_. pass contents)))"

section \<open>Commands\<close>

definition generate :: "toolchain \<Rightarrow> files \<Rightarrow> (grammar_error, unit) run \<times> files" where
  "generate tools fs =
     (case run_then (run_all [ensure_source fs, io tools Create_Output_Dir]) (\<lambda>_. generate_into tools fs) of
        None \<Rightarrow> (None, fs)
      | Some (Inl e) \<Rightarrow> (fail e, fs)
      | Some (Inr contents) \<Rightarrow> (pass (), fs(OUTPUT_FILE \<mapsto> contents)))"

definition verify :: "toolchain \<Rightarrow> files \<Rightarrow> (grammar_error, unit) run" where
  "verify tools fs =
     run_then (ensure_source fs) (\<lambda>_.
     run_then (ok_or GG_Parser_Missing (fs OUTPUT_FILE)) (\<lambda>expected.
     run_then (run_all [io tools Clock_Temp, io tools Create_Temp]) (\<lambda>_.
     run_then (generate_into tools fs) (\<lambda>found.
     run_then (run_all [io tools Read_Checked, io tools Read_Found]) (\<lambda>_.
     reject_if (expected \<noteq> found) GG_Stale)))))"

section \<open>Runs without failures\<close>

lemma io_pass [run_simps]: "io tools step = Some (Inr u) \<longleftrightarrow> fault tools step = None"
  by (simp add: io_def split: option.splits)

lemma tool_pass [run_simps]: "tool err r = Some (Inr t) \<longleftrightarrow> r = Inr t"
  by (simp add: tool_def split: sum.splits)

lemma post_err_pass [run_simps]: "post_err m = Some (Inr t) \<longleftrightarrow> m = Some (Inr t)"
  unfolding post_err_def by (cases m; cases "the m") auto

text \<open>The text without failures of the system depends on the tools and the grammar.\<close>

lemma generate_into_tools:
  assumes "generate_into tools fs = Some (Inr t)"
    and "lalrpop tools' = lalrpop tools" and "rustfmt tools' = rustfmt tools"
    and "\<And>step. fault tools' step = None" and "fs' INPUT_FILE = fs INPUT_FILE"
  shows "generate_into tools' fs' = Some (Inr t)"
  using assms unfolding generate_into_def staged_text_def
  by (auto simp: run_simps split: if_splits)


section \<open>A run that passes\<close>

text \<open>The generator gives the sites of the source's own test, and the formatter changes nothing.\<close>

definition sample_tools :: toolchain where
  "sample_tools =
     \<lparr>lalrpop = (\<lambda>_. Inr (GENERATED_SPDX_HEADER @ test_sites)), rustfmt = Inr, fault = (\<lambda>_. None)\<rparr>"

lemma header_apart:
  "apart GENERATED_TOKEN_TO_SYMBOL_START GENERATED_SPDX_HEADER" "apart TOKEN_TO_INDEX GENERATED_SPDX_HEADER"
  "apart PARSER_ACTION GENERATED_SPDX_HEADER" "apart TOKEN_TO_SYMBOL GENERATED_SPDX_HEADER"
  by (rule apartI; simp add: GENERATED_SPDX_HEADER_def marker_defs method_texts sublist_Cons_right)+

lemma header_postprocessed:
  "postprocess_contextual_names (GENERATED_SPDX_HEADER @ test_sites) =
   Some (Inr (rewritten (GENERATED_SPDX_HEADER @ test_sites)))"
  using sites_of_methods test_sites_verified
  by (simp add: postprocess_passes verify_skip header_apart sites_def match_count_skip test_sites_def)


end
