(* ===== verification/Spec2Isabelle.thy ===== *)
theory Spec2Isabelle
  imports Render Literals Normalize Delimiters Entry Folds Fragments Visitor Tck_Sample Grammar_Program
    Contextual_Action Grammar_Generate
begin

text \<open>
  A model of the openCypher parser crate (\<open>src/src/*.rs\<close>): from source text over lossless tokens to an
  abstract syntax tree, with diagnostics and with recovery from syntax errors; and of the two gates of
  its build automation (\<open>src/xtask/src/spec.rs\<close>, \<open>src/xtask/src/tck.rs\<close>), which decide whether the
  parser agrees with its specification and with the openCypher TCK, and of its generation of parsers.

  \<^bold>\<open>The program.\<close> \<open>parse_recovering\<close> (\<open>parser.rs\<close>) runs the lexer (\<open>lexer.rs\<close>), turns its
  tokens into parser tokens, asks the generated LALRPOP parsers for one clause at a time and puts
  clauses, queries and statements together itself; keywords that are not reserved are reread as names
  until the parse succeeds or stops making progress. When it fails the delimiters are checked, the
  diagnostics are normalised (\<open>diagnostic.rs\<close>), and a partial tree is recovered. \<open>parse\<close> is the same
  with a verdict. The grammar's actions call the literal decoders and tree builders of \<open>parser.rs\<close>,
  and for patterns and labels they lex and parse a fragment of the source again.

  \<open>spec::verify\<close> reads three ledgers (the productions of the grammar, witnesses, deviations), checks
  them against each other and against the names the sources declare, compares the snapshot of the
  specification with its manifest, and runs \<open>parse_recovering\<close> and \<open>lex\<close> on every witness.
  \<open>tck::check\<close> extracts every query of the TCK features with its expected verdict (\<open>build_projection\<close>),
  compares the projection with the stored one, runs \<open>parse_recovering\<close> on every query (\<open>evaluate\<close>) and
  accepts exactly the reviewed exclusions. \<open>spec::release_check\<close> demands both, without exclusions.

  \<^bold>\<open>Theories.\<close> In the order of the imports:
  \<^item> \<open>Prelude\<close>, \<open>Rust_Str\<close>: panics as \<open>None\<close>, checked slices, \<open>dedup_by\<close>; UTF-8 text as a list of
    code points with byte offsets (\<open>str::get\<close>, character boundaries).
  \<^item> \<open>Spans\<close> (\<open>span.rs\<close>), \<open>Tokens\<close> (\<open>token.rs\<close>), \<open>Parser_Token\<close> and \<open>Parser_Tokens\<close> (the terminals
    of \<open>parser.rs\<close> with \<open>name\<close>, \<open>keyword_token\<close> and the contextual-name candidates).
  \<^item> \<open>Diagnostics\<close> and \<open>Render\<close> (\<open>diagnostic.rs\<close>): codes, ordering, \<open>ParseErrors\<close>, snippets with tabs
    and markers.
  \<^item> \<open>Lexer\<close>, \<open>Lex_Total\<close>, \<open>Logos_Engine\<close> (\<open>lexer.rs\<close>): the callbacks for quoted text and nested
    comments, the loop of \<open>lex\<close>, and the automaton of the token patterns by regular-expression
    derivatives.
  \<^item> \<open>Ast\<close> (\<open>ast.rs\<close>): every node type.
  \<^item> \<open>Literals\<close> (names, parameters, strings), \<open>Folds\<close> (tree builders), \<open>Parse_Errors\<close> (LALRPOP errors
    and their diagnostics), \<open>Delimiters\<close>, \<open>Normalize\<close>, all of \<open>parser.rs\<close>.
  \<^item> \<open>Scanners\<close>, \<open>Tokenize\<close>: the lookahead scanners and the cut of tokens into parser tokens.
  \<^item> \<open>Contextual\<close>, \<open>Queries\<close>: the contextual-name search; clauses, queries, unions and programs.
  \<^item> \<open>Recovery\<close>, \<open>Recovery_Facts\<close>: inserted operands and the recovery of clauses.
  \<^item> \<open>Fragments\<close>: pattern comprehensions, pattern expressions and label expressions.
  \<^item> \<open>Entry\<close>: \<open>parse_recovering\<close> and \<open>parse\<close>.
  \<^item> \<open>Grammar_Rules\<close>, \<open>Grammar_Labels\<close>, \<open>Grammar_Paths\<close>, \<open>Grammar_Exprs\<close>, \<open>Grammar_Clauses\<close>,
    \<open>Cypher_Grammar\<close> (\<open>grammar/cypher.lalrpop\<close>, and the semantic actions \<open>__actionN\<close> that LALRPOP has
    put into \<open>generated/cypher.rs\<close>): every nonterminal is a relation between the tokens it derives and
    the outcome of its action, built of a few forms of right-hand sides; the recursive ones are the
    least relations that the productions close.
  \<^item> \<open>Grammar_Expr_Safe\<close>, \<open>Grammar_Safe\<close>, \<open>Grammar_Lexed\<close>, \<open>Grammar_Input\<close>: the contracts between the
    nonterminals as locales, and that no action panics on what the parser can hand to a parser.
  \<^item> \<open>Grammar_Precedence\<close>, \<open>Grammar_Program\<close>: how operators are grouped, and the parser and the
    grammar together. \<open>Return_Sample\<close> is the sample they share with \<open>Gate_Sample\<close>.
  \<^item> \<open>Contextual_Action\<close> (\<open>generated/cypher.rs\<close>): how a generated parser numbers its terminals and looks up
    the action of a token that may be a name. \<open>Grammar_Post\<close>, \<open>Grammar_Generate\<close> (\<open>xtask/src/grammar.rs\<close>):
    the rewriting that puts this look-up into the output of LALRPOP, and the commands \<open>generate\<close> and \<open>verify\<close>.
  \<^item> \<open>Visitor\<close> (\<open>ast/visit.rs\<close>): each walk function is the list of the hooks it calls, a visitor what
    it does before and after, and whether it descends.
  \<^item> \<open>Checked\<close>: computations that may panic or fail (\<open>run\<close>), their loops, sorted maps, \<open>trim\<close> and
    \<open>lines\<close>, for the two gates.
  \<^item> \<open>Trace_Data\<close>, \<open>Trace_Aliases\<close>, \<open>Trace_Sources\<close>, \<open>Traceability\<close>, \<open>Spec_Gate\<close>, \<open>Gate_Sample\<close>
    (\<open>xtask/src/spec.rs\<close>): the ledgers, the search along aliases, the names the sources declare, the
    rules of \<open>validate_traceability\<close>, the gate with its witnesses, and a small repository that passes.
  \<^item> \<open>Cypher_Script\<close>, \<open>Script_Grammar\<close>, \<open>Tck_Text\<close>, \<open>Tck_Data\<close>, \<open>Tck_Scenario\<close>, \<open>Tck_Blocks\<close>,
    \<open>Tck_Projection\<close>, \<open>Tck_Records\<close>, \<open>Tck_Evaluate\<close>, \<open>Tck_Verdict\<close>, \<open>Tck_Sample\<close>
    (\<open>xtask/src/tck.rs\<close>): the statement splitter and its grammar, placeholders, the extraction of
    occurrences, the projection with its records, the verdicts and the release gate, and a small corpus.

  \<^bold>\<open>How code is modelled.\<close> A Rust function that can panic (a slice, \<open>Span::new\<close>, \<open>expect\<close>) returns
  an option, named \<open>panics\<close>, whose \<open>None\<close> is the panic; \<open>Result<T, LalrpopError>\<close> is the sum
  \<open>parsed\<close>. \<open>usize\<close> is \<open>nat\<close>: every value is at most a few times the length of the source, which
  Rust bounds by \<open>isize::MAX\<close>, and \<open>saturating_sub\<close> and \<open>checked_sub\<close> are written out. Loops are
  recursive functions on the list that is still to be read, or have a measure; the loop of \<open>lex\<close> is a
  \<open>partial_function\<close>, whose termination is part of \<open>lex_lossless\<close>.

  \<^bold>\<open>Parameters.\<close> The parsing functions that LALRPOP generates (the tables and the state machine in
  \<open>src/src/generated/cypher.rs\<close>) are the record \<open>grammar\<close>: five arbitrary functions from tokens to a node
  or an error. What a theorem needs of them is a hypothesis by name: \<open>reports_input\<close> says that an error
  about a token carries a token of the input, \<open>generated\<close> that a value is the outcome of the actions of
  a derivation of the tokens, some keywords read as names. The Logos automaton is the parameter \<open>engine\<close> with the locale
  \<open>raw_engine\<close> as its contract (it consumes at least one character, and no more than there are);
  \<open>Logos_Engine\<close> interprets it with the longest match over the patterns of \<open>RawToken\<close>, for
  arbitrary tables of the three Unicode classes.

  The gates read files and call other crates; these are records of functions, and no theorem assumes
  anything of them. \<open>repository\<close> is what \<open>spec.rs\<close> reads (files, the parsed TOML values \<open>toml\<close>, SHA-256
  of files), \<open>corpus\<close> what \<open>tck.rs\<close> reads: the feature files parsed by the \<open>gherkin\<close> crate (records with
  the fields the code uses), the ledgers as \<open>serde\<close> gives them, SHA-256, and the JSON text of a record.

  \<open>toolchain\<close> holds LALRPOP and \<open>rustfmt\<close> as functions of texts, and the failures of the system.

  \<^bold>\<open>What the lemmas show.\<close> Lexing is total and lossless, its diagnostics are the invalid tokens, and
  the automaton takes the longest match. Quoted text is accepted exactly when it is well formed and
  decodes to its value. Parser tokens are consecutive runs of the tokens. The contextual search
  returns the outcome of the parser on a rereading of the input and reports an error at least as far
  as the first. Queries are covered by their clauses, unions follow their grammar. The delimiter
  check adds nothing exactly on balanced input. At most 32 diagnostics are returned, and the verdict
  is not changed by dropping the rest. Recovery inserts operands and removes nothing, and recovered
  trees cover the input in order. Nested fragments do not panic and take the first split that
  parses. Rendering never panics, and the marker is where the span is. The traversal visits exactly
  what occurs in a tree, and every error once.

  For the grammar: on every piece of the tokens of a source, of a fragment or of a label expression, no
  semantic action of a derivation panics, and the node of a start symbol or recursive nonterminal has the
  extent of the tokens it derives; expressions
  are grouped by the levels of their operators; and the clauses of an accepted program are derived of
  consecutive pieces of the tokens, which they span exactly.

  A generated parser refuses a token exactly when neither its terminal nor, where it may be a name,
  \<open>identifier\<close> is expected in the state. The rewriting of the generated parsers accepts exactly the texts
  with five sites of each kind, never its own result, and what \<open>generate\<close> installs, \<open>verify\<close> accepts.

  For the gates: validation never panics, and the ledgers it accepts satisfy every rule of the
  specification; the alias search accepts exactly the graphs in which every alias ends in a direct
  production; the splitter finds exactly the pieces of a script grammar; every scenario adds one
  numbered block of occurrences with one primary query; queries are indexed once; the report is a
  success exactly when the exclusions are the occurrences with another verdict; and the release gate
  passes exactly when the parser gives every TCK query its expected verdict without an exclusion.

  \<^bold>\<open>Bounds.\<close> \<open>max_diagnostics\<close> is 32, \<open>recovery_budget\<close> 128 parser runs and \<open>repair_loop\<close> at most 4
  insertions, as in the code; no fuel is added to the model. \<open>alias_reaches_direct\<close> and the byte loop of
  \<open>split_cypher_script\<close> have their termination proved, the first as part of \<open>validate_aliases_iff\<close>.

  \<^bold>\<open>Not modelled.\<close> The LALR tables of \<open>generated/cypher.rs\<close>, the state machines that run over them (but for
  the look-up of an action) and the reductions \<open>__reduceN\<close>, nearly all of its 133,198 lines: of an action that fails or panics the
  model speaks only for complete derivations and for each nonterminal by itself, not for the prefix of a
  source that has none. The productions \<open>Program\<close> and \<open>Semicolon\<close>, which no start symbol reaches; \<open>lib.rs\<close> (documentation and two version strings); the
  \<open>serde\<close> derives; \<open>fuzz\<close>, \<open>benches\<close> and \<open>examples\<close>. Of \<open>xtask\<close>: \<open>main.rs\<close> (the choice
  of a command), \<open>report\<close>, \<open>update\<close>, \<open>inventory\<close> and
  \<open>walk\<close> of \<open>spec.rs\<close>, \<open>generate\<close>, \<open>report\<close>, \<open>files_with_extension\<close> and \<open>corpus_sha256\<close> of \<open>tck.rs\<close>,
  which print, run \<open>git\<close>, and read or write files. Error values name the error and the data of its
  message; the English text around them is not modelled.
\<close>

end
